(* ===== verification/Edge_Prelude.thy ===== *)
theory Edge_Prelude
  imports Main "HOL-Library.Word"
begin

text \<open>
  Shared vocabulary of the edgehost development: the machine integers of the C code,
  the search over a fixed array of slots that every table of the program uses
  (\<open>pending_table.c\<close>, \<open>state_store.c\<close>, the buffer table of \<open>edgecore.c\<close>), and the
  interface locale \<open>slot_table\<close> that states once what filling, replacing and clearing
  a slot does to the partial map such an array stands for.
\<close>

unbundle bit_operations_syntax

type_synonym u8 = "8 word"
type_synonym u16 = "16 word"
type_synonym u32 = "32 word"
type_synonym u64 = "64 word"

named_theorems slot_simps
  \<open>rewriting rules for slot searches over updated arrays\<close>

named_theorems wf_intros
  \<open>introduction rules that build the well-formedness of a component's state\<close>

lemma option_eqI: "(\<And>t. a = Some t \<longleftrightarrow> b = Some t) \<Longrightarrow> a = b"
  by (cases a; cases b) (blast dest: option.inject [THEN iffD1] | fastforce)+

lemma xor_zero_iff: "x XOR y = 0 \<longleftrightarrow> x = y" for x y :: "'a::len word"
proof
  assume "x XOR y = 0"
  then have "(x XOR y) XOR y = 0 XOR y" by (rule arg_cong)
  then show "x = y" by (simp add: xor.assoc)
qed simp

section \<open>First matching slot\<close>

text \<open>The loop \<open>for (i = 0; i < cap; i++) if (P(slots[i])) return &slots[i];\<close>: the index of
  the first slot that satisfies the test, or \<open>None\<close> for the NULL return.\<close>

fun find_first :: "('a \<Rightarrow> bool) \<Rightarrow> 'a list \<Rightarrow> nat option" where
  "find_first P [] = None"
| "find_first P (x # xs) = (if P x then Some 0 else map_option Suc (find_first P xs))"

lemma find_first_None_iff: "find_first P xs = None \<longleftrightarrow> (\<forall>x\<in>set xs. \<not> P x)"
  by (induction xs) auto

lemma find_first_SomeD:
  "find_first P xs = Some i \<Longrightarrow> i < length xs \<and> P (xs ! i) \<and> (\<forall>j<i. \<not> P (xs ! j))"
proof (induction xs arbitrary: i)
  case Nil
  then show ?case by simp
next
  case (Cons x xs)
  show ?case
  proof (cases "P x")
    case True
    with Cons.prems show ?thesis by simp
  next
    case False
    with Cons.prems obtain k where k: "find_first P xs = Some k" "i = Suc k"
      by auto
    from Cons.IH[OF k(1)] k(2) False show ?thesis
      by (auto simp: less_Suc_eq_0_disj)
  qed
qed

lemma find_first_length: "find_first P xs = Some i \<Longrightarrow> i < length xs"
  by (simp add: find_first_SomeD)

lemma find_first_sat: "find_first P xs = Some i \<Longrightarrow> P (xs ! i)"
  by (simp add: find_first_SomeD)

lemma find_first_ex: "i < length xs \<Longrightarrow> P (xs ! i) \<Longrightarrow> \<exists>j. find_first P xs = Some j"
  using find_first_None_iff [of P xs] nth_mem by (cases "find_first P xs") blast+

lemma find_first_unique:
  assumes i: "i < length xs" "P (xs ! i)" and u: "\<And>j. j < length xs \<Longrightarrow> P (xs ! j) \<Longrightarrow> j = i"
  shows "find_first P xs = Some i"
proof -
  from i obtain j where j: "find_first P xs = Some j"
    using find_first_ex [of i xs P] by blast
  with u [of j] show ?thesis using find_first_SomeD [OF j] by simp
qed

lemma find_first_replicate [simp]:
  "find_first P (replicate n x) = (if P x \<and> 0 < n then Some 0 else None)"
  by (induction n) auto

section \<open>Tables of slots\<close>

text \<open>A table is an array of slots; a slot is free or used, and a used one has a key. The
  map the table stands for, the invariant that no two used slots share a key, and the
  number of used slots.\<close>

definition slot_find :: "('s \<Rightarrow> bool) \<Rightarrow> ('s \<Rightarrow> 'k) \<Rightarrow> 's list \<Rightarrow> 'k \<Rightarrow> nat option" where
  "slot_find used key xs k = find_first (\<lambda>s. used s \<and> key s = k) xs"

definition slot_map :: "('s \<Rightarrow> bool) \<Rightarrow> ('s \<Rightarrow> 'k) \<Rightarrow> 's list \<Rightarrow> 'k \<Rightarrow> 's option" where
  "slot_map used key xs k = map_option (\<lambda>i. xs ! i) (slot_find used key xs k)"

definition slots_distinct :: "('s \<Rightarrow> bool) \<Rightarrow> ('s \<Rightarrow> 'k) \<Rightarrow> 's list \<Rightarrow> bool" where
  "slots_distinct used key xs \<longleftrightarrow>
     (\<forall>i<length xs. \<forall>j<length xs.
        used (xs ! i) \<longrightarrow> used (xs ! j) \<longrightarrow> key (xs ! i) = key (xs ! j) \<longrightarrow> i = j)"

definition used_count :: "('s \<Rightarrow> bool) \<Rightarrow> 's list \<Rightarrow> nat" where
  "used_count used xs = length (filter used xs)"

lemma used_count_le: "used_count used xs \<le> length xs"
  by (simp add: used_count_def)

lemma used_count_full: "used_count used xs = length xs \<longleftrightarrow> find_first (\<lambda>s. \<not> used s) xs = None"
proof -
  have "length (filter used xs) = length xs \<longleftrightarrow> filter used xs = xs"
    by (metis length_filter_less less_irrefl filter_id_conv)
  then show ?thesis
    by (simp add: used_count_def find_first_None_iff filter_id_conv)
qed

lemma used_count_free:
  "used_count used xs < length xs \<Longrightarrow> \<exists>i. find_first (\<lambda>s. \<not> used s) xs = Some i"
  using used_count_full [of used xs] by (cases "find_first (\<lambda>s. \<not> used s) xs") auto

lemma used_count_update:
  "i < length xs \<Longrightarrow>
   used_count used (xs[i := s]) + (if used (xs ! i) then 1 else 0) =
   used_count used xs + (if used s then 1 else 0)"
proof (induction xs arbitrary: i)
  case Nil
  then show ?case by simp
next
  case (Cons x xs)
  show ?case
  proof (cases i)
    case 0
    then show ?thesis by (simp add: used_count_def)
  next
    case (Suc j)
    with Cons.prems Cons.IH [of j] show ?thesis
      by (simp add: used_count_def split: if_splits)
  qed
qed

lemma used_count_replicate [simp]:
  "used_count used (replicate n s) = (if used s then n else 0)"
  by (simp add: used_count_def)

lemma slots_distinct_replicate [wf_intros]:
  "\<not> used s \<Longrightarrow> slots_distinct used key (replicate n s)"
  by (simp add: slots_distinct_def)

lemma slot_map_replicate [simp]:
  "\<not> used s \<Longrightarrow> slot_map used key (replicate n s) k = None"
  by (simp add: slot_map_def slot_find_def)

lemma slot_find_SomeD:
  "slot_find used key xs k = Some i \<Longrightarrow> i < length xs \<and> used (xs ! i) \<and> key (xs ! i) = k"
  unfolding slot_find_def by (auto dest: find_first_SomeD)

lemma slot_find_NoneD:
  "slot_find used key xs k = None \<Longrightarrow> i < length xs \<Longrightarrow> used (xs ! i) \<Longrightarrow> key (xs ! i) \<noteq> k"
  unfolding slot_find_def find_first_None_iff by auto

lemma slot_find_eq:
  assumes "slots_distinct used key xs" "i < length xs" "used (xs ! i)"
  shows "slot_find used key xs (key (xs ! i)) = Some i"
  unfolding slot_find_def
  using assms by (intro find_first_unique) (auto simp: slots_distinct_def)

lemma slot_map_Some_iff:
  assumes "slots_distinct used key xs"
  shows "slot_map used key xs k = Some s \<longleftrightarrow>
    (\<exists>i<length xs. xs ! i = s \<and> used s \<and> key s = k)"
  using assms slot_find_eq [OF assms]
  by (auto simp: slot_map_def dest!: slot_find_SomeD)

lemma slot_map_None_iff:
  "slot_map used key xs k = None \<longleftrightarrow> (\<forall>s\<in>set xs. \<not> (used s \<and> key s = k))"
  by (simp add: slot_map_def slot_find_def find_first_None_iff)

lemma slot_map_SomeD:
  "slot_map used key xs k = Some s \<Longrightarrow> used s \<and> key s = k \<and> s \<in> set xs"
  by (auto simp: slot_map_def dest!: slot_find_SomeD)

lemma slot_find_map: "slot_find used key xs k = None \<longleftrightarrow> slot_map used key xs k = None"
  by (simp add: slot_map_def)

section \<open>The slot-table interface\<close>

text \<open>What a client of a slot array needs: which slots are used, their key, and a way to
  clear one. The lemmas say what the three writes the code performs (fill a free slot,
  overwrite a used one under its own key, clear a used one) do to the map, to the
  invariant and to the number of used slots. Each table of the program interprets it.\<close>

locale slot_table =
  fixes used :: "'s \<Rightarrow> bool"
    and key :: "'s \<Rightarrow> 'k"
    and clear :: "'s \<Rightarrow> 's"
  assumes clear_unused: "\<not> used (clear s)"
begin

abbreviation tmap :: "'s list \<Rightarrow> 'k \<Rightarrow> 's option" where
  "tmap \<equiv> slot_map used key"

abbreviation tdistinct :: "'s list \<Rightarrow> bool" where
  "tdistinct \<equiv> slots_distinct used key"

lemma distinct_fill:
  assumes "tdistinct xs" "i < length xs" "\<not> used (xs ! i)" "tmap xs (key s) = None"
  shows "tdistinct (xs[i := s])"
  using assms unfolding slots_distinct_def slot_map_None_iff
  by (auto simp: nth_list_update)

lemma distinct_replace:
  assumes "tdistinct xs" "i < length xs" "used (xs ! i)" "key s = key (xs ! i)"
  shows "tdistinct (xs[i := s])"
  using assms unfolding slots_distinct_def by (auto simp: nth_list_update)

lemma distinct_clear:
  assumes "tdistinct xs"
  shows "tdistinct (xs[i := clear (xs ! i)])"
  using assms clear_unused unfolding slots_distinct_def
  by (cases "i < length xs") (auto simp: nth_list_update list_update_beyond)

lemma map_fill:
  assumes d: "tdistinct xs" and i: "i < length xs" and free: "\<not> used (xs ! i)"
    and new: "tmap xs (key s) = None" and u: "used s"
  shows "tmap (xs[i := s]) = (tmap xs)(key s \<mapsto> s)"
proof
  fix k
  have d': "tdistinct (xs[i := s])" by (rule distinct_fill [OF d i free new])
  show "tmap (xs[i := s]) k = ((tmap xs)(key s \<mapsto> s)) k"
  proof (cases "k = key s")
    case True
    then show ?thesis
      using i u by (simp add: slot_map_Some_iff [OF d']) (metis nth_list_update_eq length_list_update)
  next
    case False
    have "tmap (xs[i := s]) k = Some t \<longleftrightarrow> tmap xs k = Some t" for t
      unfolding slot_map_Some_iff [OF d'] slot_map_Some_iff [OF d]
      using False free i by (metis length_list_update nth_list_update_eq nth_list_update_neq)
    then show ?thesis
      using False option_eqI [of "tmap (xs[i := s]) k" "tmap xs k"] by simp
  qed
qed

lemma map_replace:
  assumes d: "tdistinct xs" and i: "i < length xs" and u: "used (xs ! i)"
    and k: "key s = key (xs ! i)" and us: "used s"
  shows "tmap (xs[i := s]) = (tmap xs)(key s \<mapsto> s)"
proof
  fix q
  have d': "tdistinct (xs[i := s])" by (rule distinct_replace [OF d i u k])
  have "tmap (xs[i := s]) q = Some t \<longleftrightarrow> ((tmap xs)(key s \<mapsto> s)) q = Some t" for t
    using d i u k us slot_map_Some_iff [OF d', of q t] slot_map_Some_iff [OF d, of q t]
    by (auto simp: nth_list_update slots_distinct_def)
  then show "tmap (xs[i := s]) q = ((tmap xs)(key s \<mapsto> s)) q"
    by (rule option_eqI)
qed

lemma map_clear:
  assumes d: "tdistinct xs" and i: "i < length xs" and u: "used (xs ! i)"
  shows "tmap (xs[i := clear (xs ! i)]) = (tmap xs)(key (xs ! i) := None)"
proof
  fix q
  have d': "tdistinct (xs[i := clear (xs ! i)])" by (rule distinct_clear [OF d])
  show "tmap (xs[i := clear (xs ! i)]) q = ((tmap xs)(key (xs ! i) := None)) q"
  proof (cases "q = key (xs ! i)")
    case True
    have "\<not> (used t \<and> key t = q)" if t: "t \<in> set (xs[i := clear (xs ! i)])" for t
    proof -
      from t obtain j where j: "j < length xs" "t = xs[i := clear (xs ! i)] ! j"
        by (auto simp: in_set_conv_nth)
      show ?thesis
      proof (cases "j = i")
        case True
        then show ?thesis using j i clear_unused by simp
      next
        case False
        then show ?thesis using j True d i u unfolding slots_distinct_def by auto
      qed
    qed
    then have "tmap (xs[i := clear (xs ! i)]) q = None"
      unfolding slot_map_None_iff by blast
    with True show ?thesis by simp
  next
    case False
    have "tmap (xs[i := clear (xs ! i)]) q = Some t \<longleftrightarrow> tmap xs q = Some t" for t
      unfolding slot_map_Some_iff [OF d'] slot_map_Some_iff [OF d]
      using False i clear_unused
      by (metis length_list_update nth_list_update_eq nth_list_update_neq)
    then show ?thesis
      using False option_eqI [of "tmap (xs[i := clear (xs ! i)]) q" "tmap xs q"] by simp
  qed
qed

lemma count_fill:
  "i < length xs \<Longrightarrow> \<not> used (xs ! i) \<Longrightarrow> used s \<Longrightarrow>
   used_count used (xs[i := s]) = Suc (used_count used xs)"
  using used_count_update [of i xs used s] by simp

lemma count_replace:
  "i < length xs \<Longrightarrow> used (xs ! i) \<Longrightarrow> used s \<Longrightarrow>
   used_count used (xs[i := s]) = used_count used xs"
  using used_count_update [of i xs used s] by simp

lemma count_clear:
  "i < length xs \<Longrightarrow> used (xs ! i) \<Longrightarrow>
   used_count used (xs[i := clear (xs ! i)]) = used_count used xs - 1"
  using used_count_update [of i xs used "clear (xs ! i)"] clear_unused by simp

lemma card_dom:
  assumes "tdistinct xs"
  shows "card (dom (tmap xs)) = used_count used xs"
proof -
  let ?I = "{i. i < length xs \<and> used (xs ! i)}"
  have inj: "inj_on (\<lambda>i. key (xs ! i)) ?I"
    using assms by (auto simp: slots_distinct_def inj_on_def)
  have "dom (tmap xs) = (\<lambda>i. key (xs ! i)) ` ?I"
    using slot_map_Some_iff [OF assms] by (auto simp: dom_def)
  then have "card (dom (tmap xs)) = card ?I"
    by (simp add: card_image [OF inj])
  also have "\<dots> = used_count used xs"
    by (simp add: used_count_def length_filter_conv_card)
  finally show ?thesis .
qed

end

section \<open>Runs of operations and simulation\<close>

text \<open>Running a sequence of operations, collecting their results.\<close>

fun run_steps :: "('o \<Rightarrow> 's \<Rightarrow> 'r \<times> 's) \<Rightarrow> 'o list \<Rightarrow> 's \<Rightarrow> 'r list \<times> 's" where
  "run_steps f [] s = ([], s)"
| "run_steps f (x # xs) s =
     (let (r, s1) = f x s; (rs, s2) = run_steps f xs s1 in (r # rs, s2))"

text \<open>A component whose single steps agree with an abstract step function under an
  invariant agrees with it on every run. The invariant may carry a budget of steps (an id
  counter that must not wrap around); \<open>simulation\<close> is the case without one.\<close>

locale bounded_simulation =
  fixes binv :: "nat \<Rightarrow> 's \<Rightarrow> bool"
    and view :: "'s \<Rightarrow> 'a"
    and step :: "'o \<Rightarrow> 's \<Rightarrow> 'r \<times> 's"
    and spec :: "'o \<Rightarrow> 'a \<Rightarrow> 'r \<times> 'a"
  assumes bstep_sim: "binv (Suc n) s \<Longrightarrow> step x s = (r, s') \<Longrightarrow>
      binv n s' \<and> spec x (view s) = (r, view s')"
begin

lemma bounded_run_sim:
  "binv (length xs + n) s \<Longrightarrow> run_steps step xs s = (rs, s') \<Longrightarrow>
   binv n s' \<and> run_steps spec xs (view s) = (rs, view s')"
proof (induction xs arbitrary: s rs s')
  case Nil
  then show ?case by simp
next
  case (Cons x xs)
  obtain r s1 where 1: "step x s = (r, s1)" by fastforce
  obtain rs1 s2 where 2: "run_steps step xs s1 = (rs1, s2)" by fastforce
  have "binv (Suc (length xs + n)) s" using Cons.prems(1) by simp
  note f = bstep_sim [OF this 1]
  from Cons.IH [OF f [THEN conjunct1] 2] f Cons.prems(2) 1 2 show ?case by simp
qed

end

locale simulation =
  fixes sinv :: "'s \<Rightarrow> bool"
    and view :: "'s \<Rightarrow> 'a"
    and step :: "'o \<Rightarrow> 's \<Rightarrow> 'r \<times> 's"
    and spec :: "'o \<Rightarrow> 'a \<Rightarrow> 'r \<times> 'a"
  assumes step_sim: "sinv s \<Longrightarrow> step x s = (r, s') \<Longrightarrow> sinv s' \<and> spec x (view s) = (r, view s')"

sublocale simulation \<subseteq> bounded: bounded_simulation "\<lambda>_. sinv"
  by unfold_locales (rule step_sim)

context simulation begin

lemma run_sim:
  "sinv s \<Longrightarrow> run_steps step xs s = (rs, s') \<Longrightarrow>
   sinv s' \<and> run_steps spec xs (view s) = (rs, view s')"
  by (rule bounded.bounded_run_sim)

end

end
