(* ===== verification/Ring_Queue.thy ===== *)
theory Ring_Queue
  imports Edge_Prelude
begin

text \<open>
  Circular buffers. Two components keep a queue in an array with a head index and a count:
  the event ring of \<open>edgecore.c\<close> and the per-subscriber queue of \<open>ws_stream.c\<close>. This
  theory has the list such a buffer stands for, the effect of the writes both perform, and
  the locale \<open>bounded_queue\<close>: the contract of a bounded FIFO, from which the
  delivery order of whole bursts follows once.
\<close>

section \<open>The contents of a circular buffer\<close>

definition ring_list :: "'a list \<Rightarrow> nat \<Rightarrow> nat \<Rightarrow> 'a list" where
  "ring_list buf h n = map (\<lambda>i. buf ! ((h + i) mod length buf)) [0..<n]"

lemma length_ring_list [simp]: "length (ring_list buf h n) = n"
  by (simp add: ring_list_def)

lemma ring_list_0 [simp]: "ring_list buf h 0 = []"
  by (simp add: ring_list_def)

lemma ring_list_Suc: "ring_list buf h (Suc n) = ring_list buf h n @ [buf ! ((h + n) mod length buf)]"
  by (simp add: ring_list_def)

lemma mod_add_inj:
  fixes h i j m :: nat
  assumes "i < m" "j < m" "(h + i) mod m = (h + j) mod m"
  shows "i = j"
proof -
  have "(int h + int i) mod int m = (int h + int j) mod int m"
    using assms(3) by (metis of_nat_add of_nat_mod)
  then have "int i mod int m = int j mod int m"
    by (simp add: mod_eq_dvd_iff)
  then show ?thesis
    using assms(1,2) by simp
qed

lemma ring_list_push:
  assumes "n < length buf"
  shows "ring_list (buf[(h + n) mod length buf := x]) h (Suc n) = ring_list buf h n @ [x]"
proof -
  have "(h + n) mod length buf \<noteq> (h + i) mod length buf" if "i < n" for i
    using mod_add_inj [of i "length buf" n h] that assms by auto
  then have "ring_list (buf[(h + n) mod length buf := x]) h n = ring_list buf h n"
    by (simp add: ring_list_def)
  moreover have "(h + n) mod length buf < length buf"
    using assms by (intro mod_less_divisor) linarith
  ultimately show ?thesis
    by (simp add: ring_list_Suc)
qed

lemma ring_list_pop:
  assumes "h < length buf" "0 < n"
  shows "ring_list buf h n = buf ! h # ring_list buf ((h + 1) mod length buf) (n - 1)"
proof -
  have "[0..<n] = 0 # map Suc [0..<n - 1]"
    using assms(2) by (simp add: map_Suc_upt upt_conv_Cons)
  moreover have "(h + Suc i) mod m = ((h + 1) mod m + i) mod m" for i m
    by (simp add: mod_simps)
  ultimately show ?thesis
    using assms(1) by (simp add: ring_list_def)
qed

lemma ring_list_overwrite_head:
  assumes "h < length buf" "0 < n" "n \<le> length buf"
  shows "ring_list (buf[h := x]) h n = x # tl (ring_list buf h n)"
proof -
  have "h \<noteq> (h + i) mod length buf" if "0 < i" "i < n" for i
  proof
    assume "h = (h + i) mod length buf"
    then have "(h + i) mod length buf = (h + 0) mod length buf"
      using assms(1) by simp
    with that assms show False
      using mod_add_inj [of i "length buf" 0 h] by linarith
  qed
  then have "\<forall>i\<in>set [1..<n]. buf[h := x] ! ((h + i) mod length buf) = buf ! ((h + i) mod length buf)"
    by simp
  moreover have "[0..<n] = 0 # [1..<n]"
    using assms(2) by (simp add: upt_conv_Cons)
  ultimately show ?thesis
    using assms(1) by (simp add: ring_list_def)
qed

lemma ring_list_overwrite_outside:
  assumes "h < length buf" "n < length buf"
  shows "ring_list (buf[(h + n) mod length buf := x]) h n = ring_list buf h n"
proof -
  have "(h + n) mod length buf \<noteq> (h + i) mod length buf" if "i < n" for i
    using mod_add_inj [of i "length buf" n h] that assms by auto
  then show ?thesis by (simp add: ring_list_def)
qed

lemma ring_tail_pop:
  fixes h n m :: nat
  shows "0 < n \<Longrightarrow> ((h + 1) mod m + (n - 1)) mod m = (h + n) mod m"
  by (cases n) (simp_all add: mod_simps)

section \<open>Draining and filling a queue\<close>

fun drain :: "('q \<Rightarrow> ('a \<times> 'q) option) \<Rightarrow> nat \<Rightarrow> 'q \<Rightarrow> 'a list \<times> 'q" where
  "drain pop 0 q = ([], q)"
| "drain pop (Suc n) q =
     (case pop q of
        None \<Rightarrow> ([], q)
      | Some (x, q') \<Rightarrow> (let (xs, q'') = drain pop n q' in (x # xs, q'')))"

section \<open>The bounded FIFO contract\<close>

locale bounded_queue =
  fixes qinv :: "'q \<Rightarrow> bool"
    and items :: "'q \<Rightarrow> 'a list"
    and qcap :: "'q \<Rightarrow> nat"
    and push :: "'a \<Rightarrow> 'q \<Rightarrow> 'q"
    and pop :: "'q \<Rightarrow> ('a \<times> 'q) option"
  assumes items_bound: "qinv q \<Longrightarrow> length (items q) \<le> qcap q"
    and push_inv: "qinv q \<Longrightarrow> qinv (push x q)"
    and push_cap: "qinv q \<Longrightarrow> qcap (push x q) = qcap q"
    and push_room: "qinv q \<Longrightarrow> length (items q) < qcap q \<Longrightarrow> items (push x q) = items q @ [x]"
    and pop_empty: "qinv q \<Longrightarrow> items q = [] \<Longrightarrow> pop q = None"
    and pop_head: "qinv q \<Longrightarrow> items q = x # xs \<Longrightarrow>
        \<exists>q'. pop q = Some (x, q') \<and> items q' = xs \<and> qinv q' \<and> qcap q' = qcap q"
begin

lemma push_burst_inv: "qinv q \<Longrightarrow> qinv (fold push xs q)"
  by (induction xs arbitrary: q) (auto simp: push_inv)

lemma push_burst:
  "qinv q \<Longrightarrow> length (items q) + length xs \<le> qcap q \<Longrightarrow> items (fold push xs q) = items q @ xs"
  by (induction xs arbitrary: q) (auto simp: push_inv push_cap push_room)

lemma drain_items: "qinv q \<Longrightarrow> fst (drain pop n q) = take n (items q)"
proof (induction n arbitrary: q)
  case 0
  then show ?case by simp
next
  case (Suc n)
  show ?case
  proof (cases "items q")
    case Nil
    with Suc.prems show ?thesis by (simp add: pop_empty)
  next
    case (Cons x xs)
    from pop_head [OF Suc.prems Cons] obtain q' where
      q': "pop q = Some (x, q')" "items q' = xs" "qinv q'" by blast
    from Suc.IH [OF q'(3)] q' Cons show ?thesis
      by (simp add: case_prod_beta Let_def)
  qed
qed

text \<open>A burst that fits is delivered complete and in order, after what was queued before.\<close>

lemma fifo_delivery:
  assumes "qinv q" "length (items q) + length xs \<le> qcap q"
    and "n = length (items q) + length xs"
  shows "fst (drain pop n (fold push xs q)) = items q @ xs"
  using assms by (simp add: drain_items push_burst_inv push_burst)

end

text \<open>A queue that sheds its oldest item when it is full keeps the newest items.\<close>

definition newest :: "nat \<Rightarrow> 'a list \<Rightarrow> 'a list" where
  "newest n xs = drop (length xs - n) xs"

lemma newest_all: "length xs \<le> n \<Longrightarrow> newest n xs = xs"
  by (simp add: newest_def)

lemma length_newest [simp]: "length (newest n xs) = min n (length xs)"
  by (simp add: newest_def)

lemma newest_snoc: "newest n (newest n xs @ ys) = newest n (xs @ ys)"
  by (cases "length xs \<le> n") (simp_all add: newest_def add.commute)

locale sliding_queue = bounded_queue +
  assumes push_full: "qinv q \<Longrightarrow> length (items q) = qcap q \<Longrightarrow> items (push x q) = tl (items q) @ [x]"
    and cap_pos: "qinv q \<Longrightarrow> 0 < qcap q"
begin

lemma push_newest:
  assumes "qinv q"
  shows "items (push x q) = newest (qcap q) (items q @ [x])"
proof (cases "length (items q) < qcap q")
  case True
  then show ?thesis
    using assms by (simp add: push_room newest_all)
next
  case False
  with items_bound [OF assms] have l: "length (items q) = qcap q" by simp
  with cap_pos [OF assms] push_full [OF assms l] show ?thesis
    by (cases "items q") (simp_all add: newest_def)
qed

lemma push_many:
  "qinv q \<Longrightarrow> items (fold push xs q) = newest (qcap q) (items q @ xs)"
proof (induction xs arbitrary: q)
  case Nil
  then show ?case by (simp add: newest_all items_bound)
next
  case (Cons x xs)
  then have "items (fold push xs (push x q)) = newest (qcap q) (items (push x q) @ xs)"
    by (simp add: push_inv push_cap)
  then show ?case
    by (simp add: push_newest [OF Cons.prems] newest_snoc)
qed

text \<open>What a reader that empties the queue after a burst of any length gets.\<close>

lemma newest_delivery:
  assumes "qinv q" "qcap q \<le> n"
  shows "fst (drain pop n (fold push xs q)) = newest (qcap q) (items q @ xs)"
  using assms by (simp add: drain_items push_burst_inv push_many newest_def)

end

end
