(* ===== verification/C_Strings.thy ===== *)
theory C_Strings
  imports Edge_Prelude
begin

text \<open>
  The part of the C library's string functions the program uses, on HOL strings. A C
  string is modelled by the list of its characters before the terminating NUL; a pointer
  into it, as \<open>strchr\<close> and \<open>strstr\<close> return, by the suffix it points at, and the NULL
  pointer by \<open>None\<close>. Bytes are \<open>8 word\<close>s; \<open>byte_of\<close> and \<open>char_of_byte\<close> convert.
\<close>

section \<open>Characters and bytes\<close>

abbreviation code :: "char \<Rightarrow> nat" where
  "code c \<equiv> of_char c"

definition byte_of :: "char \<Rightarrow> u8" where
  "byte_of c = word_of_nat (code c)"

definition char_of_byte :: "u8 \<Rightarrow> char" where
  "char_of_byte b = char_of (unat b)"

lemma code_less [simp]: "code c < 256"
  by (rule nat_of_char_less_256)

lemma char_of_byte_of [simp]: "char_of_byte (byte_of c) = c"
  by (simp add: char_of_byte_def byte_of_def unat_of_nat take_bit_nat_def)

lemma byte_of_char_of [simp]: "byte_of (char_of_byte b) = b"
  using unsigned_less [of b, where ?'a = nat]
  by (simp add: char_of_byte_def byte_of_def of_char_of)

definition bytes_of :: "string \<Rightarrow> u8 list" where
  "bytes_of s = map byte_of s"

definition chars_of :: "u8 list \<Rightarrow> string" where
  "chars_of bs = map char_of_byte bs"

lemma chars_of_bytes_of [simp]: "chars_of (bytes_of s) = s"
  by (simp add: chars_of_def bytes_of_def comp_def)

lemma length_bytes_of [simp]: "length (bytes_of s) = length s"
  by (simp add: bytes_of_def)

lemma length_chars_of [simp]: "length (chars_of s) = length s"
  by (simp add: chars_of_def)

text \<open>The NUL character ends a C string.\<close>

definition nul :: char where
  "nul = CHR 0x00"

text \<open>Reading a byte buffer as a C string stops at the first NUL.\<close>

definition cstr :: "string \<Rightarrow> string" where
  "cstr buf = takeWhile (\<lambda>c. c \<noteq> nul) buf"

lemma cstr_id: "nul \<notin> set s \<Longrightarrow> cstr s = s"
  by (auto simp: cstr_def takeWhile_eq_all_conv)

lemma nul_notin_cstr [simp]: "nul \<notin> set (cstr s)"
  by (auto simp: cstr_def dest: set_takeWhileD)

definition is_digit :: "char \<Rightarrow> bool" where
  "is_digit c \<longleftrightarrow> 48 \<le> code c \<and> code c \<le> 57"

definition is_lower :: "char \<Rightarrow> bool" where
  "is_lower c \<longleftrightarrow> 97 \<le> code c \<and> code c \<le> 122"

definition is_space :: "char \<Rightarrow> bool" where
  "is_space c \<longleftrightarrow> code c = 32 \<or> (9 \<le> code c \<and> code c \<le> 13)"

section \<open>Comparison and search\<close>

text \<open>\<open>strncmp(s, lit, strlen(lit)) == 0\<close>.\<close>

fun starts_with :: "'a list \<Rightarrow> 'a list \<Rightarrow> bool" where
  "starts_with [] s = True"
| "starts_with (p # ps) [] = False"
| "starts_with (p # ps) (c # cs) = (p = c \<and> starts_with ps cs)"

lemma starts_with_iff: "starts_with p s \<longleftrightarrow> (\<exists>t. s = p @ t)"
  by (induction p s rule: starts_with.induct) auto

lemma starts_with_append [simp]: "starts_with p (p @ s)"
  by (simp add: starts_with_iff)

lemma starts_with_refl [simp]: "starts_with p p"
  by (simp add: starts_with_iff)

lemma starts_with_length: "starts_with p s \<Longrightarrow> length p \<le> length s"
  by (auto simp: starts_with_iff)

lemma starts_with_take: "starts_with p s \<longleftrightarrow> take (length p) s = p"
  by (metis append_eq_conv_conj append_take_drop_id starts_with_iff)

text \<open>\<open>strchr\<close>: the suffix at the first occurrence.\<close>

fun c_strchr :: "char \<Rightarrow> string \<Rightarrow> string option" where
  "c_strchr c [] = None"
| "c_strchr c (x # xs) = (if x = c then Some (x # xs) else c_strchr c xs)"

lemma c_strchr_None_iff: "c_strchr c s = None \<longleftrightarrow> c \<notin> set s"
  by (induction s) auto

lemma c_strchr_append: "c \<notin> set a \<Longrightarrow> c_strchr c (a @ b) = c_strchr c b"
  by (induction a) auto

lemma c_strchr_SomeD: "c_strchr c s = Some t \<Longrightarrow> \<exists>a r. s = a @ t \<and> t = c # r \<and> c \<notin> set a"
proof (induction s)
  case Nil
  then show ?case by simp
next
  case (Cons x s)
  show ?case
  proof (cases "x = c")
    case True
    with Cons.prems have "x # s = [] @ t" "t = c # s" by auto
    then show ?thesis by (metis empty_iff empty_set)
  next
    case False
    with Cons.prems Cons.IH obtain a r where "s = a @ t" "t = c # r" "c \<notin> set a" by auto
    with False show ?thesis by (intro exI [of _ "x # a"] exI [of _ r]) auto
  qed
qed

text \<open>\<open>strstr\<close>: the suffix at the first occurrence of a pattern.\<close>

fun c_strstr :: "string \<Rightarrow> string \<Rightarrow> string option" where
  "c_strstr p [] = (if p = [] then Some [] else None)"
| "c_strstr p (x # xs) = (if starts_with p (x # xs) then Some (x # xs) else c_strstr p xs)"

lemma c_strstr_SomeD: "c_strstr p s = Some t \<Longrightarrow> starts_with p t \<and> (\<exists>a. s = a @ t)"
proof (induction s)
  case Nil
  then show ?case by (auto split: if_splits)
next
  case (Cons x s)
  then show ?case by (auto split: if_splits)
qed

lemma c_strstr_here: "starts_with p s \<Longrightarrow> c_strstr p s = Some s"
  by (cases s; cases p) auto

lemma c_strstr_skip:
  "\<lbrakk>p \<noteq> []; \<And>a1 x a2. a = a1 @ x # a2 \<Longrightarrow> \<not> starts_with p (x # a2 @ b)\<rbrakk> \<Longrightarrow>
   c_strstr p (a @ b) = c_strstr p b"
proof (induction a)
  case Nil
  then show ?case by simp
next
  case (Cons y a)
  have "\<not> starts_with p (y # a @ b)"
    using Cons.prems(2) [of "[]" y a] by simp
  moreover have "c_strstr p (a @ b) = c_strstr p b"
    using Cons.prems(1) Cons.prems(2) [of "y # _"] by (intro Cons.IH) auto
  ultimately show ?case by simp
qed

text \<open>A stretch without the pattern's first character cannot hold an occurrence.\<close>

lemma c_strstr_skip_chars:
  "p0 \<notin> set a \<Longrightarrow> c_strstr (p0 # ps) (a @ b) = c_strstr (p0 # ps) b"
  by (induction a) auto

text \<open>\<open>snprintf(buf, n, "%s", s)\<close> keeps the first \<open>n - 1\<close> characters.\<close>

definition c_copy :: "nat \<Rightarrow> string \<Rightarrow> string" where
  "c_copy n s = take (n - 1) s"

lemma c_copy_fits: "length s < n \<Longrightarrow> c_copy n s = s"
  by (simp add: c_copy_def)

lemma length_c_copy: "0 < n \<Longrightarrow> length (c_copy n s) < n"
  by (simp add: c_copy_def)

section \<open>Decimal numbers\<close>

definition digit_char :: "nat \<Rightarrow> char" where
  "digit_char d = char_of (48 + d)"

fun dec_nat :: "nat \<Rightarrow> string" where
  "dec_nat n = (if n < 10 then [digit_char n] else dec_nat (n div 10) @ [digit_char (n mod 10)])"

declare dec_nat.simps [simp del]

text \<open>\<open>%lld\<close>.\<close>

definition dec_int :: "int \<Rightarrow> string" where
  "dec_int v = (if v < 0 then CHR ''-'' # dec_nat (nat (- v)) else dec_nat (nat v))"

text \<open>The digits \<open>strtoll\<close> reads, and the value they accumulate to.\<close>

definition digit_val :: "char \<Rightarrow> nat" where
  "digit_val c = code c - 48"

fun read_digits :: "nat \<Rightarrow> string \<Rightarrow> nat \<times> string" where
  "read_digits acc [] = (acc, [])"
| "read_digits acc (c # cs) =
     (if is_digit c then read_digits (10 * acc + digit_val c) cs else (acc, c # cs))"

text \<open>\<open>strtoll(s, &end, 10)\<close>: leading white space, an optional sign, digits; the value is
  clamped to the range of \<open>long long\<close>. \<open>None\<close> when there is no digit (\<open>end == s\<close>).\<close>

definition llong_max :: int where
  "llong_max = 2 ^ 63 - 1"

definition llong_min :: int where
  "llong_min = - (2 ^ 63)"

definition clamp_ll :: "int \<Rightarrow> int" where
  "clamp_ll v = max llong_min (min llong_max v)"

definition c_strtoll :: "string \<Rightarrow> (int \<times> string) option" where
  "c_strtoll s =
     (let s1 = dropWhile is_space s;
          neg = starts_with ''-'' s1;
          s2 = (if starts_with ''-'' s1 \<or> starts_with ''+'' s1 then tl s1 else s1)
      in (case s2 of
            [] \<Rightarrow> None
          | c # cs \<Rightarrow>
              if is_digit c
              then (case read_digits 0 s2 of
                      (v, rest) \<Rightarrow> Some (clamp_ll (if neg then - int v else int v), rest))
              else None))"

lemma digit_char_props:
  assumes "d < 10"
  shows "is_digit (digit_char d)" "digit_val (digit_char d) = d"
    "\<not> is_space (digit_char d)" "digit_char d \<noteq> CHR ''-''" "digit_char d \<noteq> CHR ''+''"
    "digit_char d \<noteq> nul"
proof -
  have c: "code (digit_char d) = 48 + d"
    using assms by (simp add: digit_char_def of_char_of)
  show "is_digit (digit_char d)" "digit_val (digit_char d) = d" "\<not> is_space (digit_char d)"
    using assms c by (simp_all add: is_digit_def digit_val_def is_space_def)
  have "code (digit_char d) \<noteq> code (CHR ''-'')" "code (digit_char d) \<noteq> code (CHR ''+'')"
    "code (digit_char d) \<noteq> code nul"
    using c by (simp_all add: nul_def)
  then show "digit_char d \<noteq> CHR ''-''" "digit_char d \<noteq> CHR ''+''" "digit_char d \<noteq> nul"
    by metis+
qed

lemma dec_nat_digits: "\<forall>c\<in>set (dec_nat n). is_digit c"
proof (induction n rule: dec_nat.induct)
  case (1 n)
  then show ?case
    by (subst dec_nat.simps) (auto simp: digit_char_props)
qed

lemma dec_nat_nonempty: "dec_nat n \<noteq> []"
  by (subst dec_nat.simps) simp

lemma read_digits_dec_nat:
  "read_digits acc (dec_nat n @ r) = read_digits (acc * 10 ^ length (dec_nat n) + n) r"
proof (induction n arbitrary: acc r rule: dec_nat.induct)
  case (1 n)
  show ?case
  proof (cases "n < 10")
    case True
    then show ?thesis
      by (simp add: dec_nat.simps [of n] digit_char_props mult.commute)
  next
    case False
    let ?l = "length (dec_nat (n div 10))"
    have "dec_nat n @ r = dec_nat (n div 10) @ digit_char (n mod 10) # r"
      using False by (simp add: dec_nat.simps [of n])
    then have "read_digits acc (dec_nat n @ r) =
        read_digits (acc * 10 ^ ?l + n div 10) (digit_char (n mod 10) # r)"
      using "1.IH" [OF False] by simp
    also have "\<dots> = read_digits (10 * (acc * 10 ^ ?l + n div 10) + n mod 10) r"
      by (simp add: digit_char_props)
    also have "10 * (acc * 10 ^ ?l + n div 10) + n mod 10 = acc * 10 ^ length (dec_nat n) + n"
      using False by (simp add: dec_nat.simps [of n] algebra_simps)
    finally show ?thesis .
  qed
qed

lemma read_digits_stop: "s = [] \<or> \<not> is_digit (hd s) \<Longrightarrow> read_digits acc s = (acc, s)"
  by (cases s) auto

lemma dec_nat_hd:
  "\<exists>d ds. dec_nat n = d # ds \<and> is_digit d \<and> \<not> is_space d \<and> d \<noteq> CHR ''-'' \<and> d \<noteq> CHR ''+''"
proof -
  obtain d ds where d: "dec_nat n = d # ds"
    using dec_nat_nonempty [of n] by (cases "dec_nat n") auto
  then have "is_digit d"
    using dec_nat_digits [of n] by simp
  then have "\<not> is_space d" "code d \<noteq> code (CHR ''-'')" "code d \<noteq> code (CHR ''+'')"
    by (auto simp: is_digit_def is_space_def)
  with d \<open>is_digit d\<close> show ?thesis by auto
qed

text \<open>Printing a number and reading it back: \<open>strtoll\<close> inverts \<open>%lld\<close> in range.\<close>

lemma strtoll_dec_int:
  assumes "llong_min \<le> v" "v \<le> llong_max" "r = [] \<or> \<not> is_digit (hd r)"
  shows "c_strtoll (dec_int v @ r) = Some (v, r)"
proof -
  have clamp: "clamp_ll v = v"
    using assms(1,2) by (simp add: clamp_ll_def)
  obtain d ds where d: "dec_nat (nat \<bar>v\<bar>) = d # ds" "is_digit d" "\<not> is_space d"
    "d \<noteq> CHR ''-''" "d \<noteq> CHR ''+''"
    using dec_nat_hd by blast
  have rd: "read_digits 0 (d # ds @ r) = (nat \<bar>v\<bar>, r)"
    using read_digits_dec_nat [of 0 "nat \<bar>v\<bar>" r] d(1) assms(3) by (simp add: read_digits_stop)
  show ?thesis
  proof (cases "v < 0")
    case True
    then have "dec_int v = CHR ''-'' # d # ds"
      using d(1) by (simp add: dec_int_def)
    moreover have "\<not> is_space (CHR ''-'')"
      by (simp add: is_space_def)
    ultimately show ?thesis
      using rd True clamp d(2) by (simp add: c_strtoll_def)
  next
    case False
    then have "dec_int v = d # ds"
      using d(1) by (simp add: dec_int_def)
    then show ?thesis
      using rd False clamp d by (simp add: c_strtoll_def)
  qed
qed

lemma dec_int_hd: "\<exists>d ds. dec_int v = d # ds \<and> (is_digit d \<or> d = CHR ''-'')"
  using dec_nat_hd [of "nat v"] by (auto simp: dec_int_def)

lemma dec_int_chars: "\<forall>c\<in>set (dec_int v). is_digit c \<or> c = CHR ''-''"
  using dec_nat_digits by (auto simp: dec_int_def)

lemma dec_nat_length: "n < 10 ^ k \<Longrightarrow> 0 < k \<Longrightarrow> length (dec_nat n) \<le> k"
proof (induction n arbitrary: k rule: dec_nat.induct)
  case (1 n)
  show ?case
  proof (cases "n < 10")
    case True
    with "1.prems" show ?thesis by (simp add: dec_nat.simps [of n])
  next
    case False
    from "1.prems" False have "k \<noteq> 1" by auto
    with "1.prems"(2) obtain k' where k': "k = Suc k'" "0 < k'"
      by (cases k) auto
    then have "n div 10 < 10 ^ k'"
      using "1.prems"(1) by (simp add: less_mult_imp_div_less mult.commute)
    with "1.IH" [OF False] k' False show ?thesis
      by (simp add: dec_nat.simps [of n])
  qed
qed

end
