(* ===== verification/Core_Config.thy ===== *)
theory Core_Config
  imports C_Strings
begin

text \<open>
  \<open>src/core/edge_config.c\<close> and the structure of \<open>include/edge_config.h\<close>: the runtime
  configuration, its defaults and its validation. Fixed \<open>char\<close> arrays are strings,
  0/1 flags are booleans, sizes are naturals and sized integers keep their width.
\<close>

record edge_config =
  listen_host :: string
  listen_port :: u16
  spa_root :: string
  packages_root :: string
  static_max_file_bytes :: nat
  http_max_body_bytes :: nat
  http_max_pending_outbound :: nat
  http_max_upstream_body_bytes :: nat
  state_net_core_enabled :: bool
  state_map_dynamic_enabled :: bool
  state_net_pon_enabled :: bool
  state_net_home_enabled :: bool
  state_electric_enabled :: bool
  state_inventory_enabled :: bool
  auth_mode :: string
  auth_lab_password_env :: string
  auth_session_hmac_key_env :: string
  auth_proxy_hmac_key_env :: string
  auth_session_ttl_s :: u32
  auth_proxy_max_skew_s :: u32
  dns_allow_blocking :: bool
  openai_enabled :: bool
  openai_upstream :: string
  openai_upstream_addr :: string
  openai_upstream_host :: string
  openai_api_key_env :: string
  openai_service_key_env :: string
  openai_timeout_ms :: u32
  openai_rate_limit_rpm :: u32
  openai_max_concurrent :: u32
  slack_enabled :: bool
  teams_enabled :: bool
  tls_cert :: string
  tls_key :: string
  tls_client_ca :: string
  pqproxy_enabled :: bool
  pqproxy_metrics_url :: string
  pqproxy_scrape_interval_ms :: u32
  postgres_notify_enabled :: bool
  postgres_listen_channel :: string
  generation :: u64

definition edge_config_defaults :: edge_config where
  "edge_config_defaults =
     \<lparr>listen_host = ''0.0.0.0'',
      listen_port = 8080,
      spa_root = ''./spa'',
      packages_root = ''./packages'',
      static_max_file_bytes = 64 * 1024,
      http_max_body_bytes = 1024 * 1024,
      http_max_pending_outbound = 256,
      http_max_upstream_body_bytes = 4 * 1024 * 1024,
      state_net_core_enabled = True,
      state_map_dynamic_enabled = True,
      state_net_pon_enabled = False,
      state_net_home_enabled = False,
      state_electric_enabled = False,
      state_inventory_enabled = False,
      auth_mode = ''open'',
      auth_lab_password_env = ''EDGEHOST_LAB_PASSWORD'',
      auth_session_hmac_key_env = ''EDGEHOST_SESSION_HMAC'',
      auth_proxy_hmac_key_env = ''EDGEHOST_PROXY_HMAC'',
      auth_session_ttl_s = 28800,
      auth_proxy_max_skew_s = 300,
      dns_allow_blocking = False,
      openai_enabled = False,
      openai_upstream = ''https://api.openai.com'',
      openai_upstream_addr = [],
      openai_upstream_host = [],
      openai_api_key_env = ''OPENAI_API_KEY'',
      openai_service_key_env = ''EDGEHOST_OPENAI_SERVICE_KEY'',
      openai_timeout_ms = 60000,
      openai_rate_limit_rpm = 60,
      openai_max_concurrent = 4,
      slack_enabled = False,
      teams_enabled = False,
      tls_cert = [],
      tls_key = [],
      tls_client_ca = [],
      pqproxy_enabled = False,
      pqproxy_metrics_url = ''http://127.0.0.1:9108/metrics'',
      pqproxy_scrape_interval_ms = 5000,
      postgres_notify_enabled = False,
      postgres_listen_channel = ''map_overlay'',
      generation = 0\<rparr>"

text \<open>The result of validation: \<open>None\<close> for 0, or the message written to \<open>err\<close> (before it
  is cut to the caller's buffer) for -1. A NULL configuration is \<open>None\<close>.\<close>

definition edge_config_validate :: "edge_config option \<Rightarrow> string option" where
  "edge_config_validate cfg =
     (case cfg of
        None \<Rightarrow> Some ''null config''
      | Some c \<Rightarrow>
          if listen_host c = [] then Some ''listen.host empty''
          else if listen_port c = 0 then Some ''listen.port invalid''
          else if http_max_body_bytes c = 0 then Some ''http.max_body_bytes must be > 0''
          else if http_max_pending_outbound c = 0
          then Some ''http.max_pending_outbound must be > 0''
          else if http_max_upstream_body_bytes c = 0
          then Some ''http.max_upstream_body_bytes must be > 0''
          else if auth_mode c \<noteq> [] \<and> auth_mode c \<noteq> ''open'' \<and> auth_mode c \<noteq> ''lab_password'' \<and>
            auth_mode c \<noteq> ''proxy_headers''
          then Some ''auth.mode invalid (open|lab_password|proxy_headers)''
          else if auth_session_ttl_s c = 0 then Some ''auth.session_ttl_s must be > 0''
          else if auth_proxy_max_skew_s c = 0 then Some ''auth.proxy_max_skew_s must be > 0''
          else None)"

definition config_valid :: "edge_config \<Rightarrow> bool" where
  "config_valid c \<longleftrightarrow>
     listen_host c \<noteq> [] \<and> listen_port c \<noteq> 0 \<and> 0 < http_max_body_bytes c \<and>
     0 < http_max_pending_outbound c \<and> 0 < http_max_upstream_body_bytes c \<and>
     auth_mode c \<in> {[], ''open'', ''lab_password'', ''proxy_headers''} \<and>
     auth_session_ttl_s c \<noteq> 0 \<and> auth_proxy_max_skew_s c \<noteq> 0"

lemma validate_iff: "edge_config_validate (Some c) = None \<longleftrightarrow> config_valid c"
  by (auto simp: edge_config_validate_def config_valid_def)

lemma defaults_valid: "config_valid edge_config_defaults"
  by (simp add: config_valid_def edge_config_defaults_def)

lemma validate_generation: "edge_config_validate (Some (c\<lparr>generation := g\<rparr>)) = edge_config_validate (Some c)"
  by (simp add: edge_config_validate_def)

end
