(* ===== verification/Pending_Table.thy ===== *)
theory Pending_Table
  imports Edge_Prelude C_Strings
begin

text \<open>
  \<open>src/core/pending_table.c\<close>: the fixed-capacity table of inbound requests that wait for
  an outbound HTTP call. The table is an array of entries, searched by inbound slot and by
  outbound id; the specification is a finite map from inbound slots to entries in which
  no two entries share an outbound id. A pointer to an entry is the index of its slot and a
  plugin pointer is a reference (\<open>None\<close> for NULL); the table handle itself is not NULL.
\<close>

type_synonym plugin_ref = nat

record pending_entry =
  pe_used :: bool
  pe_inbound_slot :: u32
  pe_outbound_id :: u64
  pe_plugin :: "plugin_ref option"
  pe_user_tag :: u64
  pe_started_ms :: u64
  pe_timeout_ms :: u32
  pe_principal_sub :: string

record pending_table =
  pt_slots :: "pending_entry list"
  pt_cap :: nat
  pt_count :: nat

section \<open>Operations\<close>

definition EDGE_PENDING_DEFAULT_CAP :: nat where
  "EDGE_PENDING_DEFAULT_CAP = 256"

definition EDGE_PENDING_SUB_MAX :: nat where
  "EDGE_PENDING_SUB_MAX = 64"

text \<open>\<open>memset(e, 0, sizeof *e)\<close>, and what \<open>calloc\<close> fills the array with.\<close>

definition pending_zero :: pending_entry where
  "pending_zero =
     \<lparr>pe_used = False, pe_inbound_slot = 0, pe_outbound_id = 0, pe_plugin = None,
      pe_user_tag = 0, pe_started_ms = 0, pe_timeout_ms = 0, pe_principal_sub = []\<rparr>"

text \<open>\<open>mem\<close> says whether the two \<open>calloc\<close> calls succeed.\<close>

definition edge_pending_create :: "bool \<Rightarrow> nat \<Rightarrow> pending_table option" where
  "edge_pending_create mem capacity =
     (let cap = (if capacity = 0 then EDGE_PENDING_DEFAULT_CAP else capacity)
      in if \<not> mem then None
         else Some \<lparr>pt_slots = replicate cap pending_zero, pt_cap = cap, pt_count = 0\<rparr>)"

definition edge_pending_capacity :: "pending_table \<Rightarrow> nat" where
  "edge_pending_capacity t = pt_cap t"

definition edge_pending_count :: "pending_table \<Rightarrow> nat" where
  "edge_pending_count t = pt_count t"

definition edge_pending_full :: "pending_table \<Rightarrow> bool" where
  "edge_pending_full t \<longleftrightarrow> pt_count t \<ge> pt_cap t"

text \<open>The scan of \<open>edge_pending_insert\<close>: \<open>None\<close> is the early return on a used slot with
  the same inbound slot or outbound id; otherwise the first free slot, if any.\<close>

fun insert_scan :: "pending_entry list \<Rightarrow> nat \<Rightarrow> u32 \<Rightarrow> u64 \<Rightarrow> nat option \<Rightarrow> nat option option" where
  "insert_scan [] i inb outb free_slot = Some free_slot"
| "insert_scan (s # ss) i inb outb free_slot =
     (if \<not> pe_used s then
        insert_scan ss (Suc i) inb outb (if free_slot = None then Some i else free_slot)
      else if pe_inbound_slot s = inb then None
      else if pe_outbound_id s = outb then None
      else insert_scan ss (Suc i) inb outb free_slot)"

definition pending_entry_for ::
  "u32 \<Rightarrow> u64 \<Rightarrow> plugin_ref option \<Rightarrow> u64 \<Rightarrow> u32 \<Rightarrow> u64 \<Rightarrow> string option \<Rightarrow> pending_entry" where
  "pending_entry_for inb outb plugin tag timeout started sub =
     (let e = pending_zero
        \<lparr>pe_used := True, pe_inbound_slot := inb, pe_outbound_id := outb, pe_plugin := plugin,
         pe_user_tag := tag, pe_timeout_ms := timeout, pe_started_ms := started\<rparr>
      in (case sub of
            None \<Rightarrow> e
          | Some p \<Rightarrow> if p \<noteq> [] then e\<lparr>pe_principal_sub := c_copy EDGE_PENDING_SUB_MAX p\<rparr> else e))"

definition edge_pending_insert ::
  "pending_table \<Rightarrow> u32 \<Rightarrow> u64 \<Rightarrow> plugin_ref option \<Rightarrow> u64 \<Rightarrow> u32 \<Rightarrow> u64 \<Rightarrow> string option \<Rightarrow>
   int \<times> pending_table" where
  "edge_pending_insert t inb outb plugin tag timeout started sub =
     (if plugin = None \<or> outb = 0 then (- 1, t)
      else if pt_count t \<ge> pt_cap t then (- 1, t)
      else (case insert_scan (pt_slots t) 0 inb outb None of
              None \<Rightarrow> (- 1, t)
            | Some None \<Rightarrow> (- 1, t)
            | Some (Some i) \<Rightarrow>
                (0, t\<lparr>pt_slots := (pt_slots t)
                        [i := pending_entry_for inb outb plugin tag timeout started sub],
                      pt_count := pt_count t + 1\<rparr>)))"

definition edge_pending_find_outbound :: "pending_table \<Rightarrow> u64 \<Rightarrow> nat option" where
  "edge_pending_find_outbound t outb =
     (if outb = 0 then None
      else find_first (\<lambda>s. pe_used s \<and> pe_outbound_id s = outb) (pt_slots t))"

definition edge_pending_find_inbound :: "pending_table \<Rightarrow> u32 \<Rightarrow> nat option" where
  "edge_pending_find_inbound t inb =
     find_first (\<lambda>s. pe_used s \<and> pe_inbound_slot s = inb) (pt_slots t)"

definition edge_pending_release :: "pending_table \<Rightarrow> nat option \<Rightarrow> pending_table" where
  "edge_pending_release t e =
     (case e of
        None \<Rightarrow> t
      | Some i \<Rightarrow>
          if \<not> pe_used (pt_slots t ! i) then t
          else t\<lparr>pt_slots := (pt_slots t)[i := pending_zero],
                 pt_count := (if pt_count t > 0 then pt_count t - 1 else pt_count t)\<rparr>)"

definition edge_pending_release_outbound :: "pending_table \<Rightarrow> u64 \<Rightarrow> int \<times> pending_table" where
  "edge_pending_release_outbound t outb =
     (case edge_pending_find_outbound t outb of
        None \<Rightarrow> (- 1, t)
      | Some i \<Rightarrow> (0, edge_pending_release t (Some i)))"

definition edge_pending_release_inbound :: "pending_table \<Rightarrow> u32 \<Rightarrow> int \<times> pending_table" where
  "edge_pending_release_inbound t inb =
     (case edge_pending_find_inbound t inb of
        None \<Rightarrow> (- 1, t)
      | Some i \<Rightarrow> (0, edge_pending_release t (Some i)))"

section \<open>The two indexes of the table\<close>

interpretation by_inbound: slot_table pe_used pe_inbound_slot "\<lambda>_. pending_zero"
  by unfold_locales (simp add: pending_zero_def)

interpretation by_outbound: slot_table pe_used pe_outbound_id "\<lambda>_. pending_zero"
  by unfold_locales (simp add: pending_zero_def)

definition pending_map :: "pending_table \<Rightarrow> u32 \<Rightarrow> pending_entry option" where
  "pending_map t = slot_map pe_used pe_inbound_slot (pt_slots t)"

definition pending_ids :: "pending_table \<Rightarrow> u64 \<Rightarrow> pending_entry option" where
  "pending_ids t = slot_map pe_used pe_outbound_id (pt_slots t)"

definition pending_wf :: "pending_table \<Rightarrow> bool" where
  "pending_wf t \<longleftrightarrow>
     length (pt_slots t) = pt_cap t \<and>
     pt_count t = used_count pe_used (pt_slots t) \<and>
     slots_distinct pe_used pe_inbound_slot (pt_slots t) \<and>
     slots_distinct pe_used pe_outbound_id (pt_slots t) \<and>
     (\<forall>e\<in>set (pt_slots t). pe_used e \<longrightarrow> pe_outbound_id e \<noteq> 0 \<and> pe_plugin e \<noteq> None)"

lemma pending_wfD:
  assumes "pending_wf t"
  shows "length (pt_slots t) = pt_cap t"
    and "pt_count t = used_count pe_used (pt_slots t)"
    and "slots_distinct pe_used pe_inbound_slot (pt_slots t)"
    and "slots_distinct pe_used pe_outbound_id (pt_slots t)"
    and "e \<in> set (pt_slots t) \<Longrightarrow> pe_used e \<Longrightarrow> pe_outbound_id e \<noteq> 0 \<and> pe_plugin e \<noteq> None"
  using assms by (auto simp: pending_wf_def)

lemma pending_zero_unused [simp]: "\<not> pe_used pending_zero"
  by (simp add: pending_zero_def)

lemma pending_entry_for_simps [simp]:
  "pe_used (pending_entry_for inb outb pl tag tmo st sub)"
  "pe_inbound_slot (pending_entry_for inb outb pl tag tmo st sub) = inb"
  "pe_outbound_id (pending_entry_for inb outb pl tag tmo st sub) = outb"
  "pe_plugin (pending_entry_for inb outb pl tag tmo st sub) = pl"
  "pe_user_tag (pending_entry_for inb outb pl tag tmo st sub) = tag"
  "pe_timeout_ms (pending_entry_for inb outb pl tag tmo st sub) = tmo"
  by (auto simp: pending_entry_for_def Let_def split: option.splits)

lemma create_wf: "edge_pending_create mem cap = Some t \<Longrightarrow> pending_wf t"
  by (auto simp: edge_pending_create_def pending_wf_def Let_def slots_distinct_def split: if_splits)

lemma create_map: "edge_pending_create mem cap = Some t \<Longrightarrow> pending_map t = Map.empty"
  by (auto simp: edge_pending_create_def pending_map_def Let_def split: if_splits)

text \<open>What the scan returns: a clash with a used slot, or the first free slot.\<close>

lemma insert_scan_eq:
  "insert_scan ss n inb outb fs =
     (if \<exists>s\<in>set ss. pe_used s \<and> (pe_inbound_slot s = inb \<or> pe_outbound_id s = outb) then None
      else Some (if fs \<noteq> None then fs
                 else map_option ((+) n) (find_first (\<lambda>s. \<not> pe_used s) ss)))"
proof (induction ss arbitrary: n fs)
  case Nil
  then show ?case by simp
next
  case (Cons s ss)
  have "map_option ((+) (Suc n)) x = map_option ((+) n) (map_option Suc x)" for x
    by (cases x) auto
  then show ?case by (auto simp: Cons.IH)
qed

lemma insert_scan_map:
  "insert_scan (pt_slots t) 0 inb outb None =
     (if pending_map t inb = None \<and> pending_ids t outb = None
      then Some (find_first (\<lambda>s. \<not> pe_used s) (pt_slots t)) else None)"
proof -
  have "map_option ((+) 0) x = x" for x :: "nat option"
    by (cases x) auto
  then show ?thesis
    by (auto simp: insert_scan_eq pending_map_def pending_ids_def slot_map_None_iff)
qed

section \<open>Effect of the operations\<close>

lemma insert_cases:
  assumes "pending_wf t"
  obtains (reject) "edge_pending_insert t inb outb pl tag tmo st sub = (- 1, t)"
      "pl = None \<or> outb = 0 \<or> pt_cap t \<le> pt_count t \<or>
       pending_map t inb \<noteq> None \<or> pending_ids t outb \<noteq> None"
  | (accept) i where "edge_pending_insert t inb outb pl tag tmo st sub =
        (0, t\<lparr>pt_slots := (pt_slots t)[i := pending_entry_for inb outb pl tag tmo st sub],
              pt_count := Suc (pt_count t)\<rparr>)"
      "i < pt_cap t" "\<not> pe_used (pt_slots t ! i)" "pl \<noteq> None" "outb \<noteq> 0"
      "pt_count t < pt_cap t" "pending_map t inb = None" "pending_ids t outb = None"
proof (cases "pl = None \<or> outb = 0 \<or> pt_cap t \<le> pt_count t \<or>
       pending_map t inb \<noteq> None \<or> pending_ids t outb \<noteq> None")
  case True
  then show ?thesis
    by (intro reject) (auto simp: edge_pending_insert_def insert_scan_map)
next
  case False
  then obtain i where i: "find_first (\<lambda>s. \<not> pe_used s) (pt_slots t) = Some i"
    using used_count_free [of pe_used "pt_slots t"] pending_wfD(1,2) [OF assms] by auto
  with False show ?thesis
    using find_first_SomeD [OF i] pending_wfD(1) [OF assms]
    by (intro accept [of i]) (auto simp: edge_pending_insert_def insert_scan_map)
qed

lemma insert_accept_facts:
  fixes inb outb pl tag tmo st sub
  defines "e \<equiv> pending_entry_for inb outb pl tag tmo st sub"
  assumes wf: "pending_wf t" and i: "i < pt_cap t" "\<not> pe_used (pt_slots t ! i)"
    and new: "pending_map t inb = None" "pending_ids t outb = None"
    and ok: "pl \<noteq> None" "outb \<noteq> 0"
    and t': "t' = t\<lparr>pt_slots := (pt_slots t)[i := e], pt_count := Suc (pt_count t)\<rparr>"
  shows "pending_wf t'" "pending_map t' = (pending_map t)(inb \<mapsto> e)"
    "pending_ids t' = (pending_ids t)(outb \<mapsto> e)"
proof -
  note w = pending_wfD [OF wf]
  have i': "i < length (pt_slots t)" using i(1) w(1) by simp
  have e: "pe_used e" "pe_inbound_slot e = inb" "pe_outbound_id e = outb" "pe_plugin e = pl"
    by (simp_all add: e_def)
  have new': "slot_map pe_used pe_inbound_slot (pt_slots t) (pe_inbound_slot e) = None"
    "slot_map pe_used pe_outbound_id (pt_slots t) (pe_outbound_id e) = None"
    using new e by (simp_all add: pending_map_def pending_ids_def)
  show "pending_map t' = (pending_map t)(inb \<mapsto> e)"
    using by_inbound.map_fill [OF w(3) i' i(2) new'(1) e(1)] e t' by (simp add: pending_map_def)
  show "pending_ids t' = (pending_ids t)(outb \<mapsto> e)"
    using by_outbound.map_fill [OF w(4) i' i(2) new'(2) e(1)] e t' by (simp add: pending_ids_def)
  have "set ((pt_slots t)[i := e]) \<subseteq> insert e (set (pt_slots t))"
    by (rule set_update_subset_insert)
  then show "pending_wf t'"
    using w(1,2,5) e ok t' by_inbound.count_fill [OF i' i(2) e(1)]
      by_inbound.distinct_fill [OF w(3) i' i(2) new'(1)]
      by_outbound.distinct_fill [OF w(4) i' i(2) new'(2)]
    by (auto simp: pending_wf_def)
qed

lemma release_facts:
  assumes wf: "pending_wf t" and i: "i < pt_cap t" "pe_used (pt_slots t ! i)"
  defines "t' \<equiv> edge_pending_release t (Some i)"
  shows "pending_wf t'"
    "pending_map t' = (pending_map t)(pe_inbound_slot (pt_slots t ! i) := None)"
    "pending_ids t' = (pending_ids t)(pe_outbound_id (pt_slots t ! i) := None)"
    "pt_cap t' = pt_cap t" "Suc (pt_count t') = pt_count t"
proof -
  note w = pending_wfD [OF wf]
  have i': "i < length (pt_slots t)" using i(1) w(1) by simp
  have pos: "0 < used_count pe_used (pt_slots t)"
    using used_count_update [OF i', of pe_used pending_zero] i(2) by simp
  have t': "t' = t\<lparr>pt_slots := (pt_slots t)[i := pending_zero], pt_count := pt_count t - 1\<rparr>"
    using i(2) by (simp add: t'_def edge_pending_release_def)
  show "pending_map t' = (pending_map t)(pe_inbound_slot (pt_slots t ! i) := None)"
    using by_inbound.map_clear [OF w(3) i' i(2)] by (simp add: t' pending_map_def)
  show "pending_ids t' = (pending_ids t)(pe_outbound_id (pt_slots t ! i) := None)"
    using by_outbound.map_clear [OF w(4) i' i(2)] by (simp add: t' pending_ids_def)
  have "set ((pt_slots t)[i := pending_zero]) \<subseteq> insert pending_zero (set (pt_slots t))"
    by (rule set_update_subset_insert)
  then show "pending_wf t'"
    using w(1,2,5) by_inbound.count_clear [OF i' i(2)]
      by_inbound.distinct_clear [OF w(3)] by_outbound.distinct_clear [OF w(4)]
    by (auto simp: t' pending_wf_def)
  show "pt_cap t' = pt_cap t" "Suc (pt_count t') = pt_count t"
    using pos w(2) by (simp_all add: t')
qed

lemma find_inbound_Some:
  "pending_wf t \<Longrightarrow> edge_pending_find_inbound t inb = Some i \<Longrightarrow>
   i < pt_cap t \<and> pe_used (pt_slots t ! i) \<and> pe_inbound_slot (pt_slots t ! i) = inb \<and>
   pending_map t inb = Some (pt_slots t ! i)"
  by (auto simp: edge_pending_find_inbound_def pending_map_def slot_map_def slot_find_def
      pending_wf_def dest: find_first_SomeD)

lemma find_inbound_None: "edge_pending_find_inbound t inb = None \<longleftrightarrow> pending_map t inb = None"
  by (simp add: edge_pending_find_inbound_def pending_map_def slot_map_def slot_find_def)

lemma find_outbound_Some:
  "pending_wf t \<Longrightarrow> edge_pending_find_outbound t outb = Some i \<Longrightarrow>
   i < pt_cap t \<and> pe_used (pt_slots t ! i) \<and> pe_outbound_id (pt_slots t ! i) = outb \<and>
   outb \<noteq> 0 \<and> pending_ids t outb = Some (pt_slots t ! i)"
  by (auto simp: edge_pending_find_outbound_def pending_ids_def slot_map_def slot_find_def
      pending_wf_def dest: find_first_SomeD split: if_splits)

lemma pending_ids_0: "pending_wf t \<Longrightarrow> pending_ids t 0 = None"
  by (auto simp: pending_ids_def slot_map_None_iff pending_wf_def)

lemma find_outbound_None:
  "pending_wf t \<Longrightarrow> edge_pending_find_outbound t outb = None \<longleftrightarrow> pending_ids t outb = None"
  by (auto simp: edge_pending_find_outbound_def pending_ids_0)
     (auto simp: pending_ids_def slot_map_def slot_find_def)

section \<open>Specification and refinement\<close>

text \<open>The abstract table: capacity and a finite map from inbound slots to entries.\<close>

datatype pending_op =
    Insert u32 u64 "plugin_ref option" u64 u32 u64 "string option"
  | ReleaseOutbound u64
  | ReleaseInbound u32

fun pending_step :: "pending_op \<Rightarrow> pending_table \<Rightarrow> int \<times> pending_table" where
  "pending_step (Insert inb outb pl tag tmo st sub) t =
     edge_pending_insert t inb outb pl tag tmo st sub"
| "pending_step (ReleaseOutbound outb) t = edge_pending_release_outbound t outb"
| "pending_step (ReleaseInbound inb) t = edge_pending_release_inbound t inb"

definition holds_outbound :: "(u32 \<rightharpoonup> pending_entry) \<Rightarrow> u64 \<Rightarrow> bool" where
  "holds_outbound m outb \<longleftrightarrow> (\<exists>e\<in>ran m. pe_outbound_id e = outb)"

definition drop_outbound :: "(u32 \<rightharpoonup> pending_entry) \<Rightarrow> u64 \<Rightarrow> u32 \<rightharpoonup> pending_entry" where
  "drop_outbound m outb =
     (\<lambda>k. case m k of None \<Rightarrow> None | Some e \<Rightarrow> if pe_outbound_id e = outb then None else Some e)"

fun pending_spec :: "nat \<Rightarrow> pending_op \<Rightarrow> (u32 \<rightharpoonup> pending_entry) \<Rightarrow> int \<times> (u32 \<rightharpoonup> pending_entry)" where
  "pending_spec cap (Insert inb outb pl tag tmo st sub) m =
     (if pl \<noteq> None \<and> outb \<noteq> 0 \<and> card (dom m) < cap \<and> inb \<notin> dom m \<and> \<not> holds_outbound m outb
      then (0, m(inb \<mapsto> pending_entry_for inb outb pl tag tmo st sub)) else (- 1, m))"
| "pending_spec cap (ReleaseOutbound outb) m =
     (if holds_outbound m outb then (0, drop_outbound m outb) else (- 1, m))"
| "pending_spec cap (ReleaseInbound inb) m =
     (if inb \<in> dom m then (0, m(inb := None)) else (- 1, m))"

lemma pending_map_Some_iff:
  "pending_wf t \<Longrightarrow> pending_map t k = Some e \<longleftrightarrow>
   (\<exists>i<pt_cap t. pt_slots t ! i = e \<and> pe_used e \<and> pe_inbound_slot e = k)"
  using slot_map_Some_iff [OF pending_wfD(3)] pending_wfD(1)
  by (simp add: pending_map_def)

lemma pending_ids_Some_iff:
  "pending_wf t \<Longrightarrow> pending_ids t k = Some e \<longleftrightarrow>
   (\<exists>i<pt_cap t. pt_slots t ! i = e \<and> pe_used e \<and> pe_outbound_id e = k)"
  using slot_map_Some_iff [OF pending_wfD(4)] pending_wfD(1)
  by (simp add: pending_ids_def)

lemma holds_outbound_iff: "pending_wf t \<Longrightarrow> holds_outbound (pending_map t) outb \<longleftrightarrow> pending_ids t outb \<noteq> None"
  by (auto simp: holds_outbound_def ran_def pending_map_Some_iff)
     (force simp: pending_ids_Some_iff)+

lemma card_pending_map: "pending_wf t \<Longrightarrow> card (dom (pending_map t)) = pt_count t"
  using by_inbound.card_dom [OF pending_wfD(3)] pending_wfD(2) by (simp add: pending_map_def)

lemma drop_outbound_eq:
  assumes wf: "pending_wf t" and i: "i < pt_cap t" "pe_used (pt_slots t ! i)"
  shows "drop_outbound (pending_map t) (pe_outbound_id (pt_slots t ! i)) =
    (pending_map t)(pe_inbound_slot (pt_slots t ! i) := None)"
proof
  fix k
  have d: "slots_distinct pe_used pe_outbound_id (pt_slots t)"
    "length (pt_slots t) = pt_cap t" using pending_wfD [OF wf] by auto
  have "pe_outbound_id e = pe_outbound_id (pt_slots t ! i) \<longleftrightarrow> k = pe_inbound_slot (pt_slots t ! i)"
    if "pending_map t k = Some e" for e
    using that i d pending_wfD(3) [OF wf] unfolding pending_map_Some_iff [OF wf] slots_distinct_def
    by metis
  moreover have "pending_map t (pe_inbound_slot (pt_slots t ! i)) = Some (pt_slots t ! i)"
    using i by (auto simp: pending_map_Some_iff [OF wf])
  ultimately show "drop_outbound (pending_map t) (pe_outbound_id (pt_slots t ! i)) k =
    ((pending_map t)(pe_inbound_slot (pt_slots t ! i) := None)) k"
    by (auto simp: drop_outbound_def split: option.splits)
qed

lemma pending_step_refines:
  assumes wf: "pending_wf t" and step: "pending_step op t = (rc, t')"
  shows "pending_wf t'" "pt_cap t' = pt_cap t"
    "pending_spec (pt_cap t) op (pending_map t) = (rc, pending_map t')"
proof -
  have "pending_wf t' \<and> pt_cap t' = pt_cap t \<and>
      pending_spec (pt_cap t) op (pending_map t) = (rc, pending_map t')"
  proof (cases op)
    case (Insert inb outb pl tag tmo st sub)
    show ?thesis
    proof (cases rule: insert_cases [OF wf, of inb outb pl tag tmo st sub, case_names reject accept])
      case reject
      with step Insert wf show ?thesis
        by (auto simp: holds_outbound_iff card_pending_map)
    next
      case (accept i)
      note f = insert_accept_facts [OF wf accept(2,3,7,8,4,5) refl, of tag tmo st sub]
      from f accept step Insert wf show ?thesis
        by (auto simp: holds_outbound_iff card_pending_map)
    qed
  next
    case (ReleaseOutbound outb)
    show ?thesis
    proof (cases "edge_pending_find_outbound t outb")
      case None
      with step ReleaseOutbound wf show ?thesis
        by (auto simp: edge_pending_release_outbound_def holds_outbound_iff find_outbound_None)
    next
      case (Some i)
      from find_outbound_Some [OF wf Some] have i: "i < pt_cap t" "pe_used (pt_slots t ! i)"
        "pe_outbound_id (pt_slots t ! i) = outb" "pending_ids t outb \<noteq> None" by auto
      with step ReleaseOutbound Some show ?thesis
        using release_facts [OF wf i(1,2)] drop_outbound_eq [OF wf i(1,2)]
        by (auto simp: edge_pending_release_outbound_def holds_outbound_iff [OF wf])
    qed
  next
    case (ReleaseInbound inb)
    show ?thesis
    proof (cases "edge_pending_find_inbound t inb")
      case None
      with step ReleaseInbound wf show ?thesis
        by (auto simp: edge_pending_release_inbound_def find_inbound_None)
    next
      case (Some i)
      from find_inbound_Some [OF wf Some] have i: "i < pt_cap t" "pe_used (pt_slots t ! i)"
        "pe_inbound_slot (pt_slots t ! i) = inb" "pending_map t inb \<noteq> None" by auto
      with step ReleaseInbound Some show ?thesis
        using release_facts [OF wf i(1,2)]
        by (auto simp: edge_pending_release_inbound_def)
    qed
  qed
  then show "pending_wf t'" "pt_cap t' = pt_cap t"
    "pending_spec (pt_cap t) op (pending_map t) = (rc, pending_map t')" by auto
qed

text \<open>Refinement of whole runs, from the simulation of one step.\<close>

interpretation pending: simulation "\<lambda>t. pending_wf t \<and> pt_cap t = cap" pending_map
    pending_step "pending_spec cap"
  for cap
  by unfold_locales (auto dest: pending_step_refines)

section \<open>Properties\<close>

text \<open>C9: Starting from a fresh table, every sequence of inserts and releases behaves as the
  abstract map from inbound slots to entries does: the same return code for every call (in
  particular the nested-PENDING, duplicate-id, NULL-plugin, zero-id and table-full
  rejections) and the same final contents, with the capacity never exceeded, the count
  exact and both indexes free of duplicates.\<close>

theorem pending_refines_map:
  assumes "edge_pending_create mem cap = Some t0"
    and "run_steps pending_step ops t0 = (rcs, t)"
  shows "run_steps (pending_spec (pt_cap t0)) ops Map.empty = (rcs, pending_map t) \<and>
    pending_wf t \<and> pt_count t = card (dom (pending_map t)) \<and> pt_count t \<le> pt_cap t0"
proof -
  have wf0: "pending_wf t0" by (rule create_wf [OF assms(1)])
  from wf0 pending.run_sim [of t0 "pt_cap t0" ops rcs t] assms(2)
  have r: "pending_wf t \<and> pt_cap t = pt_cap t0 \<and>
      run_steps (pending_spec (pt_cap t0)) ops (pending_map t0) = (rcs, pending_map t)"
    by blast
  then have "pt_count t \<le> pt_cap t0"
    using used_count_le [of pe_used "pt_slots t"] pending_wfD(1,2) [of t] by simp
  with r show ?thesis
    by (simp add: create_map [OF assms(1)] card_pending_map)
qed

theorem pending_refines_map_witness:
  "run_steps (pending_spec 1) [Insert 7 1 (Some 0) 0 0 0 None, Insert 8 2 (Some 0) 0 0 0 None,
      ReleaseInbound 7, Insert 8 2 (Some 0) 0 0 0 None, ReleaseOutbound 1] Map.empty =
    ([0, - 1, 0, 0, - 1],
     pending_map (snd (run_steps pending_step [Insert 7 1 (Some 0) 0 0 0 None,
       Insert 8 2 (Some 0) 0 0 0 None, ReleaseInbound 7, Insert 8 2 (Some 0) 0 0 0 None,
       ReleaseOutbound 1] \<lparr>pt_slots = [pending_zero], pt_cap = 1, pt_count = 0\<rparr>)))"
proof -
  let ?t0 = "\<lparr>pt_slots = [pending_zero], pt_cap = 1, pt_count = 0\<rparr>"
  let ?ops = "[Insert 7 1 (Some 0) 0 0 0 None, Insert 8 2 (Some 0) 0 0 0 None,
      ReleaseInbound 7, Insert 8 2 (Some 0) 0 0 0 None, ReleaseOutbound 1]"
  have c: "edge_pending_create True 1 = Some ?t0"
    by (simp add: edge_pending_create_def)
  have r: "run_steps pending_step ?ops ?t0 =
      ([0, - 1, 0, 0, - 1], snd (run_steps pending_step ?ops ?t0))"
    by (simp add: edge_pending_insert_def edge_pending_release_inbound_def
        edge_pending_find_inbound_def edge_pending_release_def edge_pending_release_outbound_def
        edge_pending_find_outbound_def pending_zero_def pending_entry_for_def)
  show ?thesis
    using pending_refines_map [OF c r] by simp
qed

text \<open>A successful insert is found again through both indexes, at one and the same slot,
  holding exactly the data inserted (the principal cut to 63 characters), and every other
  pending request is untouched.\<close>

theorem pending_insert_lookup:
  assumes "pending_wf t" and "edge_pending_insert t inb outb pl tag tmo st sub = (0, t')"
  shows "\<exists>i. edge_pending_find_inbound t' inb = Some i \<and>
      edge_pending_find_outbound t' outb = Some i \<and>
      pt_slots t' ! i = pending_entry_for inb outb pl tag tmo st sub \<and>
      (\<forall>k. k \<noteq> inb \<longrightarrow> pending_map t' k = pending_map t k)"
proof (cases rule: insert_cases [OF assms(1), of inb outb pl tag tmo st sub, case_names reject accept])
  case reject
  with assms(2) show ?thesis by simp
next
  case (accept i)
  let ?e = "pending_entry_for inb outb pl tag tmo st sub"
  have t': "t' = t\<lparr>pt_slots := (pt_slots t)[i := ?e], pt_count := Suc (pt_count t)\<rparr>"
    using accept(1) assms(2) by simp
  note f = insert_accept_facts [OF assms(1) accept(2,3,7,8,4,5) t']
  have slot: "pt_slots t' ! i = ?e" "i < length (pt_slots t')"
    using t' accept(2) pending_wfD(1) [OF assms(1)] by simp_all
  have "edge_pending_find_inbound t' inb = Some i" "edge_pending_find_outbound t' outb = Some i"
    using slot_find_eq [OF pending_wfD(3) [OF f(1)] slot(2)]
      slot_find_eq [OF pending_wfD(4) [OF f(1)] slot(2)] slot(1) accept(5)
    by (simp_all add: edge_pending_find_inbound_def edge_pending_find_outbound_def slot_find_def)
  with f(2) slot(1) show ?thesis by simp
qed

theorem pending_insert_lookup_witness:
  "\<exists>i. edge_pending_find_inbound
      (snd (edge_pending_insert \<lparr>pt_slots = [pending_zero], pt_cap = 1, pt_count = 0\<rparr>
         7 1 (Some 0) 5 9 0 (Some ''bob''))) 7 = Some i"
proof -
  let ?t = "\<lparr>pt_slots = [pending_zero], pt_cap = 1, pt_count = 0\<rparr>"
  have w: "pending_wf ?t"
    by (simp add: pending_wf_def slots_distinct_def used_count_def)
  have r: "edge_pending_insert ?t 7 1 (Some 0) 5 9 0 (Some ''bob'') =
      (0, snd (edge_pending_insert ?t 7 1 (Some 0) 5 9 0 (Some ''bob'')))"
    by (simp add: edge_pending_insert_def pending_zero_def)
  show ?thesis
    using pending_insert_lookup [OF w r] by blast
qed

text \<open>C34: The table never blocks for good: when a pending request is released (the client
  disconnects), a request from a slot that is not pending, under a fresh non-zero id, is
  accepted again even if the table was full.\<close>

theorem pending_release_frees:
  assumes "pending_wf t" and "edge_pending_release_inbound t inb = (0, t1)"
    and "pl \<noteq> None" and "outb \<noteq> 0" and "pending_map t1 inb' = None" and "pending_ids t1 outb = None"
  shows "fst (edge_pending_insert t1 inb' outb pl tag tmo st sub) = 0 \<and>
    Suc (pt_count t1) = pt_count t"
proof -
  obtain i where i: "edge_pending_find_inbound t inb = Some i"
    using assms(2) by (auto simp: edge_pending_release_inbound_def split: option.splits)
  note s = find_inbound_Some [OF assms(1) i]
  have t1: "t1 = edge_pending_release t (Some i)"
    using assms(2) i by (simp add: edge_pending_release_inbound_def)
  note f = release_facts [OF assms(1), of i, folded t1]
  have le: "pt_count t \<le> pt_cap t"
    using used_count_le [of pe_used "pt_slots t"] pending_wfD(1,2) [OF assms(1)] by simp
  have c: "Suc (pt_count t1) = pt_count t" using f s by blast
  have w1: "pending_wf t1" "pt_cap t1 = pt_cap t" using f s by blast+
  show ?thesis
  proof (cases rule: insert_cases [OF w1(1), of inb' outb pl tag tmo st sub, case_names reject accept])
    case reject
    with assms(3-6) c le w1(2) show ?thesis by auto
  next
    case (accept j)
    with c show ?thesis by simp
  qed
qed

theorem pending_release_frees_witness:
  "fst (edge_pending_insert
     (snd (edge_pending_release_inbound
        \<lparr>pt_slots = [pending_entry_for 7 1 (Some 0) 0 0 0 None], pt_cap = 1, pt_count = 1\<rparr> 7))
     9 1 (Some 0) 0 0 0 None) = 0"
proof -
  let ?t = "\<lparr>pt_slots = [pending_entry_for 7 1 (Some 0) 0 0 0 None], pt_cap = 1, pt_count = 1\<rparr>"
  have w: "pending_wf ?t"
    by (simp add: pending_wf_def slots_distinct_def used_count_def)
  have r: "edge_pending_release_inbound ?t 7 = (0, snd (edge_pending_release_inbound ?t 7))"
    "pending_map (snd (edge_pending_release_inbound ?t 7)) 9 = None"
    "pending_ids (snd (edge_pending_release_inbound ?t 7)) 1 = None"
    by (simp_all add: edge_pending_release_inbound_def edge_pending_find_inbound_def
        edge_pending_release_def pending_map_def pending_ids_def slot_map_def slot_find_def)
  show ?thesis
    using pending_release_frees [OF w r(1) _ _ r(2,3), of "Some 0" 0 0 0 None] by simp
qed

end
