(* ===== verification/State_Store.thy ===== *)
theory State_Store
  imports Edge_Prelude C_Strings Core_Config
begin

text \<open>
  \<open>src/core/state_store.c\<close>: the in-memory key/value store with namespaces. The store is
  an array of namespaces, each an array of entry slots allocated when the namespace is
  registered; nothing allocates afterwards. The fixed array \<open>ns[32]\<close> with its counter
  \<open>n_ns\<close> is the list of its first \<open>n_ns\<close> elements. An entry's \<open>value\<close> is the list of
  its first \<open>value_len\<close> bytes, so \<open>value_len\<close> is its length. Pointer arguments that the
  code tests for NULL are options; the store handle itself is not NULL.
\<close>

datatype edge_state_err =
    EDGE_STATE_OK
  | EDGE_STATE_NOT_FOUND
  | EDGE_STATE_DENIED
  | EDGE_STATE_TOO_LARGE
  | EDGE_STATE_NS_FULL
  | EDGE_STATE_NS_DISABLED
  | EDGE_STATE_BAD_KEY
  | EDGE_STATE_BAD_JSON
  | EDGE_STATE_BAD_NS
  | EDGE_STATE_NOMEM

record state_entry =
  se_used :: bool
  se_key :: string
  se_value :: string

record state_ns =
  ns_name :: string
  ns_enabled :: bool
  ns_registered :: bool
  ns_entries :: "state_entry list"
  ns_capacity :: nat
  ns_count :: nat

record state_store =
  st_ns :: "state_ns list"
  st_max_keys :: nat
  st_max_value :: nat

record state_config =
  max_keys_per_ns :: nat
  max_value_bytes :: nat

definition EDGE_STATE_NS_MAX :: nat where "EDGE_STATE_NS_MAX = 32"
definition EDGE_STATE_KEY_MAX :: nat where "EDGE_STATE_KEY_MAX = 128"
definition EDGE_STATE_VALUE_DEFAULT :: nat where "EDGE_STATE_VALUE_DEFAULT = 4096"
definition EDGE_STATE_VALUE_MAX :: nat where "EDGE_STATE_VALUE_MAX = 65536"
definition EDGE_STATE_KEYS_DEFAULT :: nat where "EDGE_STATE_KEYS_DEFAULT = 1024"
definition EDGE_STATE_LIST_CAP :: nat where "EDGE_STATE_LIST_CAP = 1000"

lemmas state_limits =
  EDGE_STATE_NS_MAX_def EDGE_STATE_KEY_MAX_def EDGE_STATE_VALUE_DEFAULT_def
  EDGE_STATE_VALUE_MAX_def EDGE_STATE_KEYS_DEFAULT_def EDGE_STATE_LIST_CAP_def

section \<open>Validation\<close>

fun edge_state_err_name :: "edge_state_err \<Rightarrow> string" where
  "edge_state_err_name EDGE_STATE_OK = ''OK''"
| "edge_state_err_name EDGE_STATE_NOT_FOUND = ''NOT_FOUND''"
| "edge_state_err_name EDGE_STATE_DENIED = ''DENIED''"
| "edge_state_err_name EDGE_STATE_TOO_LARGE = ''TOO_LARGE''"
| "edge_state_err_name EDGE_STATE_NS_FULL = ''NS_FULL''"
| "edge_state_err_name EDGE_STATE_NS_DISABLED = ''NS_DISABLED''"
| "edge_state_err_name EDGE_STATE_BAD_KEY = ''BAD_KEY''"
| "edge_state_err_name EDGE_STATE_BAD_JSON = ''BAD_JSON''"
| "edge_state_err_name EDGE_STATE_BAD_NS = ''BAD_NS''"
| "edge_state_err_name EDGE_STATE_NOMEM = ''NOMEM''"

definition edge_state_default_config :: state_config where
  "edge_state_default_config =
     \<lparr>max_keys_per_ns = EDGE_STATE_KEYS_DEFAULT, max_value_bytes = EDGE_STATE_VALUE_DEFAULT\<rparr>"

definition key_char_ok :: "char \<Rightarrow> bool" where
  "key_char_ok c \<longleftrightarrow> is_lower c \<or> is_digit c \<or> c = CHR ''_'' \<or> c = CHR ''.'' \<or> c = CHR ''/'' \<or>
     c = CHR '':'' \<or> c = CHR ''-''"

definition edge_state_key_valid :: "string option \<Rightarrow> bool" where
  "edge_state_key_valid key =
     (case key of
        None \<Rightarrow> False
      | Some k \<Rightarrow>
          if k = [] then False
          else if length k > EDGE_STATE_KEY_MAX - 1 then False
          else list_all key_char_ok k)"

definition json_start_ok :: "char \<Rightarrow> bool" where
  "json_start_ok c \<longleftrightarrow> c = CHR 0x7B \<or> c = CHR ''['' \<or> c = CHR 0x22 \<or> c = CHR ''-'' \<or>
     is_digit c \<or> c = CHR ''t'' \<or> c = CHR ''f'' \<or> c = CHR ''n''"

definition edge_state_json_ok :: "string option \<Rightarrow> bool" where
  "edge_state_json_ok v =
     (case v of
        None \<Rightarrow> False
      | Some s \<Rightarrow>
          if s = [] then False
          else (case dropWhile is_space s of
                  [] \<Rightarrow> False
                | c # _ \<Rightarrow> json_start_ok c))"

section \<open>Namespaces\<close>

definition find_ns :: "state_store \<Rightarrow> string option \<Rightarrow> nat option" where
  "find_ns st ns =
     (case ns of
        None \<Rightarrow> None
      | Some name \<Rightarrow> find_first (\<lambda>n. ns_registered n \<and> ns_name n = name) (st_ns st))"

definition empty_entry :: state_entry where
  "empty_entry = \<lparr>se_used = False, se_key = [], se_value = []\<rparr>"

definition new_ns :: "state_store \<Rightarrow> string \<Rightarrow> bool \<Rightarrow> state_ns" where
  "new_ns st name enabled =
     \<lparr>ns_name = c_copy 64 name, ns_enabled = enabled, ns_registered = True,
      ns_entries = replicate (st_max_keys st) empty_entry,
      ns_capacity = st_max_keys st, ns_count = 0\<rparr>"

definition upd_ns :: "state_store \<Rightarrow> nat \<Rightarrow> (state_ns \<Rightarrow> state_ns) \<Rightarrow> state_store" where
  "upd_ns st i f = st\<lparr>st_ns := (st_ns st)[i := f (st_ns st ! i)]\<rparr>"

text \<open>\<open>mem\<close>: whether the allocations of this call succeed.\<close>

definition register_ns :: "bool \<Rightarrow> state_store \<Rightarrow> string option \<Rightarrow> bool \<Rightarrow> int \<times> state_store" where
  "register_ns mem st ns enabled =
     (case ns of
        None \<Rightarrow> (- 1, st)
      | Some name \<Rightarrow>
          if name = [] \<or> length name \<ge> 64 then (- 1, st)
          else (case find_ns st (Some name) of
                  Some i \<Rightarrow> (0, upd_ns st i (\<lambda>n. n\<lparr>ns_enabled := enabled\<rparr>))
                | None \<Rightarrow>
                    if length (st_ns st) \<ge> EDGE_STATE_NS_MAX then (- 1, st)
                    else if \<not> mem then (- 1, st)
                    else (0, st\<lparr>st_ns := st_ns st @ [new_ns st name enabled]\<rparr>)))"

definition effective_config :: "state_config option \<Rightarrow> state_config" where
  "effective_config cfg =
     (case cfg of
        None \<Rightarrow> edge_state_default_config
      | Some c \<Rightarrow>
          \<lparr>max_keys_per_ns =
             (if max_keys_per_ns c > 0 then max_keys_per_ns c
              else max_keys_per_ns edge_state_default_config),
           max_value_bytes =
             (if max_value_bytes c > 0 then min (max_value_bytes c) EDGE_STATE_VALUE_MAX
              else max_value_bytes edge_state_default_config)\<rparr>)"

text \<open>\<open>mem_st\<close> and \<open>mem ns\<close>: whether the allocation of the store and of each namespace
  succeed. The store is unusable without the first two namespaces; the four disabled hooks
  are registered on a best-effort basis.\<close>

definition edge_state_create_with_config ::
  "bool \<Rightarrow> (string \<Rightarrow> bool) \<Rightarrow> state_config option \<Rightarrow> state_store option" where
  "edge_state_create_with_config mem_st mem cfg =
     (let c = effective_config cfg;
          st0 = \<lparr>st_ns = [], st_max_keys = max_keys_per_ns c, st_max_value = max_value_bytes c\<rparr>;
          reg = (\<lambda>name en st. register_ns (mem name) st (Some name) en);
          (r1, st1) = reg ''net.core'' True st0;
          (r2, st2) = reg ''map.dynamic'' True st1
      in if \<not> mem_st \<or> r1 \<noteq> 0 \<or> r2 \<noteq> 0 then None
         else Some (snd (reg ''inventory'' False
                   (snd (reg ''electric'' False
                   (snd (reg ''net.home'' False
                   (snd (reg ''net.pon'' False st2)))))))))"

definition edge_state_create :: "bool \<Rightarrow> (string \<Rightarrow> bool) \<Rightarrow> state_store option" where
  "edge_state_create mem_st mem =
     edge_state_create_with_config mem_st mem (Some edge_state_default_config)"

definition edge_state_ns_set_enabled ::
  "bool \<Rightarrow> state_store \<Rightarrow> string option \<Rightarrow> bool \<Rightarrow> int \<times> state_store" where
  "edge_state_ns_set_enabled mem st ns enabled =
     (case find_ns st ns of
        None \<Rightarrow> register_ns mem st ns enabled
      | Some i \<Rightarrow> (0, upd_ns st i (\<lambda>n. n\<lparr>ns_enabled := enabled\<rparr>)))"

definition edge_state_ns_enabled :: "state_store \<Rightarrow> string option \<Rightarrow> bool" where
  "edge_state_ns_enabled st ns =
     (case find_ns st ns of None \<Rightarrow> False | Some i \<Rightarrow> ns_enabled (st_ns st ! i))"

text \<open>\<open>mem\<close>: whether registering a namespace of that name could be allocated.\<close>

definition edge_state_apply_config ::
  "(string \<Rightarrow> bool) \<Rightarrow> state_store \<Rightarrow> edge_config option \<Rightarrow> state_store" where
  "edge_state_apply_config mem st cfg =
     (case cfg of
        None \<Rightarrow> st
      | Some c \<Rightarrow>
          (let set = (\<lambda>name en st. snd (edge_state_ns_set_enabled (mem name) st (Some name) en));
               st1 = set ''net.core'' (state_net_core_enabled c) st;
               st2 = set ''map.dynamic'' (state_map_dynamic_enabled c) st1;
               st3 = set ''net.pon'' (state_net_pon_enabled c) st2;
               st4 = set ''net.home'' (state_net_home_enabled c) st3;
               st5 = set ''electric'' (state_electric_enabled c) st4
           in set ''inventory'' (state_inventory_enabled c) st5))"

section \<open>Entries\<close>

definition find_entry :: "state_ns \<Rightarrow> string \<Rightarrow> nat option" where
  "find_entry n key = find_first (\<lambda>e. se_used e \<and> se_key e = key) (ns_entries n)"

definition find_free :: "state_ns \<Rightarrow> nat option" where
  "find_free n = find_first (\<lambda>e. \<not> se_used e) (ns_entries n)"

definition set_entry :: "nat \<Rightarrow> state_entry \<Rightarrow> state_ns \<Rightarrow> state_ns" where
  "set_entry j e n = n\<lparr>ns_entries := (ns_entries n)[j := e]\<rparr>"

definition edge_state_put ::
  "state_store \<Rightarrow> string option \<Rightarrow> string option \<Rightarrow> string option \<Rightarrow> edge_state_err \<times> state_store" where
  "edge_state_put st ns key val =
     (if ns = None \<or> key = None \<or> val = None then (EDGE_STATE_BAD_NS, st)
      else (case find_ns st ns of
              None \<Rightarrow> (EDGE_STATE_BAD_NS, st)
            | Some i \<Rightarrow>
                (let n = st_ns st ! i in
                 if \<not> ns_enabled n then (EDGE_STATE_NS_DISABLED, st)
                 else if \<not> edge_state_key_valid key then (EDGE_STATE_BAD_KEY, st)
                 else if length (the val) > st_max_value st then (EDGE_STATE_TOO_LARGE, st)
                 else if \<not> edge_state_json_ok val then (EDGE_STATE_BAD_JSON, st)
                 else (case find_entry n (the key) of
                         Some j \<Rightarrow>
                           (EDGE_STATE_OK,
                            upd_ns st i (set_entry j ((ns_entries n ! j)\<lparr>se_value := the val\<rparr>)))
                       | None \<Rightarrow>
                           (case find_free n of
                              None \<Rightarrow> (EDGE_STATE_NS_FULL, st)
                            | Some j \<Rightarrow>
                                (EDGE_STATE_OK,
                                 upd_ns st i (\<lambda>n. (set_entry j
                                   \<lparr>se_used = True,
                                    se_key = c_copy EDGE_STATE_KEY_MAX (the key),
                                    se_value = the val\<rparr> n)\<lparr>ns_count := ns_count n + 1\<rparr>)))))))"

text \<open>The result of a get: the error code, the text written to \<open>out\<close> (\<open>None\<close> when \<open>out\<close>
  is NULL, its capacity 0 or the call fails) and \<open>*out_len\<close>. \<open>out_cap\<close> is \<open>None\<close> for
  a NULL \<open>out\<close>.\<close>

definition edge_state_get ::
  "state_store \<Rightarrow> string option \<Rightarrow> string option \<Rightarrow> nat option \<Rightarrow>
   edge_state_err \<times> string option \<times> nat option" where
  "edge_state_get st ns key out_cap =
     (if ns = None \<or> key = None then (EDGE_STATE_BAD_NS, None, None)
      else (case find_ns st ns of
              None \<Rightarrow> (EDGE_STATE_BAD_NS, None, None)
            | Some i \<Rightarrow>
                (let n = st_ns st ! i in
                 if \<not> ns_enabled n then (EDGE_STATE_NS_DISABLED, None, None)
                 else if \<not> edge_state_key_valid key then (EDGE_STATE_BAD_KEY, None, None)
                 else (case find_entry n (the key) of
                         None \<Rightarrow> (EDGE_STATE_NOT_FOUND, None, None)
                       | Some j \<Rightarrow>
                           (let v = se_value (ns_entries n ! j) in
                            (EDGE_STATE_OK,
                             (case out_cap of
                                None \<Rightarrow> None
                              | Some cap \<Rightarrow>
                                  if cap > 0
                                  then Some (take (if length v \<ge> cap then cap - 1 else length v) v)
                                  else None),
                             Some (length v)))))))"

definition edge_state_delete ::
  "state_store \<Rightarrow> string option \<Rightarrow> string option \<Rightarrow> edge_state_err \<times> state_store" where
  "edge_state_delete st ns key =
     (if ns = None \<or> key = None then (EDGE_STATE_BAD_NS, st)
      else (case find_ns st ns of
              None \<Rightarrow> (EDGE_STATE_BAD_NS, st)
            | Some i \<Rightarrow>
                (let n = st_ns st ! i in
                 if \<not> ns_enabled n then (EDGE_STATE_NS_DISABLED, st)
                 else (case find_entry n (the key) of
                         None \<Rightarrow> (EDGE_STATE_NOT_FOUND, st)
                       | Some j \<Rightarrow>
                           (EDGE_STATE_OK,
                            upd_ns st i (\<lambda>n. (set_entry j
                              \<lparr>se_used = False, se_key = [], se_value = []\<rparr> n)
                              \<lparr>ns_count := (if ns_count n > 0 then ns_count n - 1 else ns_count n)\<rparr>))))))"

text \<open>The loop of \<open>edge_state_list\<close>: at most \<open>room\<close> keys of used entries that start with
  the prefix, in slot order.\<close>

fun list_loop :: "state_entry list \<Rightarrow> string option \<Rightarrow> nat \<Rightarrow> string list" where
  "list_loop [] p room = []"
| "list_loop (e # es) p room =
     (if room = 0 then []
      else if \<not> se_used e then list_loop es p room
      else if p \<noteq> None \<and> length (the p) > 0 \<and> \<not> starts_with (the p) (se_key e)
      then list_loop es p room
      else c_copy EDGE_STATE_KEY_MAX (se_key e) # list_loop es p (room - 1))"

text \<open>\<open>None\<close> is the result -1; the count returned is the length of the list.\<close>

definition edge_state_list ::
  "state_store \<Rightarrow> string option \<Rightarrow> string option \<Rightarrow> nat \<Rightarrow> string list option" where
  "edge_state_list st ns p max_keys =
     (if ns = None \<or> max_keys = 0 then None
      else (case find_ns st ns of
              None \<Rightarrow> None
            | Some i \<Rightarrow>
                if \<not> ns_enabled (st_ns st ! i) then None
                else Some (list_loop (ns_entries (st_ns st ! i)) p
                       (if max_keys > EDGE_STATE_LIST_CAP then EDGE_STATE_LIST_CAP else max_keys))))"

definition edge_state_count :: "state_store \<Rightarrow> string option \<Rightarrow> nat" where
  "edge_state_count st ns =
     (case find_ns st ns of None \<Rightarrow> 0 | Some i \<Rightarrow> ns_count (st_ns st ! i))"

end
