(* ===== verification/State_Spec.thy ===== *)
theory State_Spec
  imports State_Store
begin

text \<open>
  Correctness of the state store: the abstract store (a map from namespace names to an
  enabled flag and a finite map of keys to JSON values), the invariant of the arrays, the
  refinement of every operation, and the interface locale \<open>kv_store\<close> that the clients of
  the store (NOTIFY apply, the HTTP state API, the plugin API) build on.
\<close>

section \<open>Abstraction and invariant\<close>

interpretation entry_table: slot_table se_used se_key "\<lambda>_. empty_entry"
  by unfold_locales (simp add: empty_entry_def)

interpretation ns_table: slot_table ns_registered ns_name "\<lambda>n. n\<lparr>ns_registered := False\<rparr>"
  by unfold_locales simp

type_synonym kv = "string \<rightharpoonup> string"

definition ns_kv :: "state_ns \<Rightarrow> kv" where
  "ns_kv n = (\<lambda>k. map_option se_value (slot_map se_used se_key (ns_entries n) k))"

definition ns_view :: "state_ns \<Rightarrow> bool \<times> kv" where
  "ns_view n = (ns_enabled n, ns_kv n)"

definition store_view :: "state_store \<Rightarrow> string \<Rightarrow> (bool \<times> kv) option" where
  "store_view st = (\<lambda>name. map_option ns_view (slot_map ns_registered ns_name (st_ns st) name))"

definition entry_ok :: "nat \<Rightarrow> state_entry \<Rightarrow> bool" where
  "entry_ok mv e \<longleftrightarrow> edge_state_key_valid (Some (se_key e)) \<and> length (se_value e) \<le> mv \<and>
     edge_state_json_ok (Some (se_value e))"

definition ns_wf :: "nat \<Rightarrow> nat \<Rightarrow> state_ns \<Rightarrow> bool" where
  "ns_wf mk mv n \<longleftrightarrow>
     ns_registered n \<and> ns_name n \<noteq> [] \<and> length (ns_name n) < 64 \<and>
     ns_capacity n = mk \<and> length (ns_entries n) = mk \<and>
     ns_count n = used_count se_used (ns_entries n) \<and>
     slots_distinct se_used se_key (ns_entries n) \<and>
     (\<forall>e\<in>set (ns_entries n). se_used e \<longrightarrow> entry_ok mv e)"

definition store_wf :: "state_store \<Rightarrow> bool" where
  "store_wf st \<longleftrightarrow>
     length (st_ns st) \<le> EDGE_STATE_NS_MAX \<and>
     slots_distinct ns_registered ns_name (st_ns st) \<and>
     (\<forall>n\<in>set (st_ns st). ns_wf (st_max_keys st) (st_max_value st) n)"

lemma find_ns_eq: "find_ns st (Some name) = slot_find ns_registered ns_name (st_ns st) name"
  by (simp add: find_ns_def slot_find_def)

lemma find_ns_None [simp]: "find_ns st None = None"
  by (simp add: find_ns_def)

lemma find_ns_SomeD:
  assumes "store_wf st" "find_ns st (Some name) = Some i"
  shows "i < length (st_ns st)" "ns_registered (st_ns st ! i)" "ns_name (st_ns st ! i) = name"
    "ns_wf (st_max_keys st) (st_max_value st) (st_ns st ! i)"
    "store_view st name = Some (ns_view (st_ns st ! i))"
proof -
  from assms(2) have s: "slot_find ns_registered ns_name (st_ns st) name = Some i"
    by (simp add: find_ns_eq)
  show i: "i < length (st_ns st)" and "ns_registered (st_ns st ! i)"
    and "ns_name (st_ns st ! i) = name"
    using slot_find_SomeD [OF s] by auto
  show "ns_wf (st_max_keys st) (st_max_value st) (st_ns st ! i)"
    using assms(1) i by (auto simp: store_wf_def)
  show "store_view st name = Some (ns_view (st_ns st ! i))"
    using s by (simp add: store_view_def slot_map_def)
qed

lemma find_ns_NoneD: "find_ns st (Some name) = None \<longleftrightarrow> store_view st name = None"
  by (simp add: find_ns_eq store_view_def slot_find_map)

lemma upd_ns_simps [simp]:
  "st_max_keys (upd_ns st i f) = st_max_keys st" "st_max_value (upd_ns st i f) = st_max_value st"
  "length (st_ns (upd_ns st i f)) = length (st_ns st)"
  by (simp_all add: upd_ns_def)

lemma upd_ns_facts:
  assumes wf: "store_wf st" and i: "i < length (st_ns st)"
    and n': "ns_wf (st_max_keys st) (st_max_value st) (f (st_ns st ! i))"
      "ns_name (f (st_ns st ! i)) = ns_name (st_ns st ! i)"
  shows "store_wf (upd_ns st i f)"
    "store_view (upd_ns st i f) =
      (store_view st)(ns_name (st_ns st ! i) \<mapsto> ns_view (f (st_ns st ! i)))"
proof -
  let ?n = "st_ns st ! i"
  have d: "slots_distinct ns_registered ns_name (st_ns st)"
    using wf by (simp add: store_wf_def)
  have r: "ns_registered ?n" "ns_registered (f ?n)"
    using wf i n'(1) by (auto simp: store_wf_def ns_wf_def)
  have "set ((st_ns st)[i := f ?n]) \<subseteq> insert (f ?n) (set (st_ns st))"
    by (rule set_update_subset_insert)
  then show "store_wf (upd_ns st i f)"
    using wf n'(1) ns_table.distinct_replace [OF d i r(1) n'(2)]
    by (auto simp: store_wf_def upd_ns_def)
  show "store_view (upd_ns st i f) = (store_view st)(ns_name ?n \<mapsto> ns_view (f ?n))"
    using ns_table.map_replace [OF d i r(1) n'(2) r(2)] n'(2)
    by (auto simp: store_view_def upd_ns_def)
qed

section \<open>Entry updates\<close>

lemma find_entry_eq: "find_entry n k = slot_find se_used se_key (ns_entries n) k"
  by (simp add: find_entry_def slot_find_def)

lemma find_entry_Some:
  assumes "ns_wf mk mv n" "find_entry n k = Some j"
  shows "j < mk" "se_used (ns_entries n ! j)" "se_key (ns_entries n ! j) = k"
    "ns_kv n k = Some (se_value (ns_entries n ! j))"
  using assms slot_find_SomeD [of se_used se_key "ns_entries n" k j]
  by (auto simp: find_entry_eq ns_kv_def slot_map_def ns_wf_def)

lemma find_entry_None: "find_entry n k = None \<longleftrightarrow> ns_kv n k = None"
  by (simp add: find_entry_eq ns_kv_def slot_find_map)

lemma dom_ns_kv: "dom (ns_kv n) = dom (slot_map se_used se_key (ns_entries n))"
  by (auto simp: ns_kv_def)

lemma card_ns_kv: "ns_wf mk mv n \<Longrightarrow> card (dom (ns_kv n)) = ns_count n"
  by (simp add: dom_ns_kv entry_table.card_dom ns_wf_def)

lemma find_free_None: "ns_wf mk mv n \<Longrightarrow> find_free n = None \<longleftrightarrow> mk \<le> card (dom (ns_kv n))"
  using used_count_full [of se_used "ns_entries n"] used_count_le [of se_used "ns_entries n"]
  by (auto simp: find_free_def card_ns_kv ns_wf_def)

lemma set_entry_simps [simp]:
  "ns_name (set_entry j e n) = ns_name n" "ns_registered (set_entry j e n) = ns_registered n"
  "ns_enabled (set_entry j e n) = ns_enabled n" "ns_capacity (set_entry j e n) = ns_capacity n"
  "ns_count (set_entry j e n) = ns_count n"
  "ns_entries (set_entry j e n) = (ns_entries n)[j := e]"
  by (simp_all add: set_entry_def)

lemma replace_entry_facts:
  assumes wf: "ns_wf mk mv n" and j: "find_entry n k = Some j"
    and e: "se_used e" "se_key e = k" "entry_ok mv e"
  shows "ns_wf mk mv (set_entry j e n)" "ns_kv (set_entry j e n) = (ns_kv n)(k \<mapsto> se_value e)"
proof -
  note f = find_entry_Some [OF wf j]
  have len: "j < length (ns_entries n)" and d: "slots_distinct se_used se_key (ns_entries n)"
    using wf f(1) by (auto simp: ns_wf_def)
  have k: "se_key e = se_key (ns_entries n ! j)" using e f by simp
  have "set ((ns_entries n)[j := e]) \<subseteq> insert e (set (ns_entries n))"
    by (rule set_update_subset_insert)
  then show "ns_wf mk mv (set_entry j e n)"
    using wf e entry_table.distinct_replace [OF d len f(2) k]
      entry_table.count_replace [OF len f(2) e(1)]
    by (auto simp: ns_wf_def)
  show "ns_kv (set_entry j e n) = (ns_kv n)(k \<mapsto> se_value e)"
    using entry_table.map_replace [OF d len f(2) k e(1)] e(2) by (auto simp: ns_kv_def)
qed

lemma fill_entry_facts:
  assumes wf: "ns_wf mk mv n" and j: "find_free n = Some j" and new: "ns_kv n k = None"
    and e: "se_used e" "se_key e = k" "entry_ok mv e"
  defines "n' \<equiv> (set_entry j e n)\<lparr>ns_count := ns_count n + 1\<rparr>"
  shows "ns_wf mk mv n'" "ns_kv n' = (ns_kv n)(k \<mapsto> se_value e)"
proof -
  have len: "j < length (ns_entries n)" and free: "\<not> se_used (ns_entries n ! j)"
    using find_first_SomeD [OF j [unfolded find_free_def]] by auto
  have d: "slots_distinct se_used se_key (ns_entries n)" using wf by (auto simp: ns_wf_def)
  have new': "slot_map se_used se_key (ns_entries n) (se_key e) = None"
    using new e(2) by (simp add: ns_kv_def)
  have "set ((ns_entries n)[j := e]) \<subseteq> insert e (set (ns_entries n))"
    by (rule set_update_subset_insert)
  then show "ns_wf mk mv n'"
    using wf e entry_table.distinct_fill [OF d len free new']
      entry_table.count_fill [OF len free e(1)]
    by (auto simp: ns_wf_def n'_def)
  show "ns_kv n' = (ns_kv n)(k \<mapsto> se_value e)"
    using entry_table.map_fill [OF d len free new' e(1)] e(2) by (auto simp: ns_kv_def n'_def)
qed

lemma clear_entry_facts:
  assumes wf: "ns_wf mk mv n" and j: "find_entry n k = Some j"
  defines "n' \<equiv> (set_entry j empty_entry n)
      \<lparr>ns_count := (if ns_count n > 0 then ns_count n - 1 else ns_count n)\<rparr>"
  shows "ns_wf mk mv n'" "ns_kv n' = (ns_kv n)(k := None)"
proof -
  note f = find_entry_Some [OF wf j]
  have len: "j < length (ns_entries n)" and d: "slots_distinct se_used se_key (ns_entries n)"
    using wf f(1) by (auto simp: ns_wf_def)
  have "set ((ns_entries n)[j := empty_entry]) \<subseteq> insert empty_entry (set (ns_entries n))"
    by (rule set_update_subset_insert)
  then show "ns_wf mk mv n'"
    using wf entry_table.distinct_clear [OF d, of j] entry_table.count_clear [OF len f(2)]
    by (auto simp: ns_wf_def n'_def empty_entry_def)
  show "ns_kv n' = (ns_kv n)(k := None)"
    using entry_table.map_clear [OF d len f(2)] f(3) by (auto simp: ns_kv_def n'_def)
qed

section \<open>The specification of each operation\<close>

type_synonym store_spec = "string \<rightharpoonup> (bool \<times> kv)"

definition spec_put ::
  "nat \<Rightarrow> nat \<Rightarrow> store_spec \<Rightarrow> string \<Rightarrow> string \<Rightarrow> string \<Rightarrow> edge_state_err \<times> store_spec" where
  "spec_put mk mv m ns k v =
     (case m ns of
        None \<Rightarrow> (EDGE_STATE_BAD_NS, m)
      | Some (en, kv) \<Rightarrow>
          if \<not> en then (EDGE_STATE_NS_DISABLED, m)
          else if \<not> edge_state_key_valid (Some k) then (EDGE_STATE_BAD_KEY, m)
          else if mv < length v then (EDGE_STATE_TOO_LARGE, m)
          else if \<not> edge_state_json_ok (Some v) then (EDGE_STATE_BAD_JSON, m)
          else if k \<notin> dom kv \<and> mk \<le> card (dom kv) then (EDGE_STATE_NS_FULL, m)
          else (EDGE_STATE_OK, m(ns \<mapsto> (en, kv(k \<mapsto> v)))))"

definition spec_delete ::
  "store_spec \<Rightarrow> string \<Rightarrow> string \<Rightarrow> edge_state_err \<times> store_spec" where
  "spec_delete m ns k =
     (case m ns of
        None \<Rightarrow> (EDGE_STATE_BAD_NS, m)
      | Some (en, kv) \<Rightarrow>
          if \<not> en then (EDGE_STATE_NS_DISABLED, m)
          else if k \<notin> dom kv then (EDGE_STATE_NOT_FOUND, m)
          else (EDGE_STATE_OK, m(ns \<mapsto> (en, kv(k := None)))))"

definition spec_get ::
  "store_spec \<Rightarrow> string \<Rightarrow> string \<Rightarrow> edge_state_err \<times> string option" where
  "spec_get m ns k =
     (case m ns of
        None \<Rightarrow> (EDGE_STATE_BAD_NS, None)
      | Some (en, kv) \<Rightarrow>
          if \<not> en then (EDGE_STATE_NS_DISABLED, None)
          else if \<not> edge_state_key_valid (Some k) then (EDGE_STATE_BAD_KEY, None)
          else (case kv k of
                  None \<Rightarrow> (EDGE_STATE_NOT_FOUND, None)
                | Some v \<Rightarrow> (EDGE_STATE_OK, Some v)))"

definition spec_set_enabled ::
  "bool \<Rightarrow> store_spec \<Rightarrow> string \<Rightarrow> bool \<Rightarrow> int \<times> store_spec" where
  "spec_set_enabled mem m ns en =
     (case m ns of
        Some (_, kv) \<Rightarrow> (0, m(ns \<mapsto> (en, kv)))
      | None \<Rightarrow>
          if ns = [] \<or> 64 \<le> length ns \<or> EDGE_STATE_NS_MAX \<le> card (dom m) \<or> \<not> mem then (- 1, m)
          else (0, m(ns \<mapsto> (en, Map.empty))))"

section \<open>Refinement\<close>

lemma key_valid_length: "edge_state_key_valid (Some k) \<Longrightarrow> k \<noteq> [] \<and> length k < EDGE_STATE_KEY_MAX"
  by (auto simp: edge_state_key_valid_def EDGE_STATE_KEY_MAX_def split: if_splits)

lemma find_entry_cases:
  assumes "ns_wf mk mv n"
  obtains (absent) "find_entry n k = None" "ns_kv n k = None"
  | (present) j where "find_entry n k = Some j" "ns_kv n k = Some (se_value (ns_entries n ! j))"
      "se_used (ns_entries n ! j)" "se_key (ns_entries n ! j) = k"
  using find_entry_None [of n k] find_entry_Some [OF assms, of k] by (cases "find_entry n k") auto

lemma put_refines:
  assumes wf: "store_wf st" and put: "edge_state_put st (Some ns) (Some k) (Some v) = (er, st')"
  shows "store_wf st' \<and> st_max_keys st' = st_max_keys st \<and> st_max_value st' = st_max_value st \<and>
    spec_put (st_max_keys st) (st_max_value st) (store_view st) ns k v = (er, store_view st')"
proof (cases "find_ns st (Some ns)")
  case None
  with put wf show ?thesis
    by (auto simp: edge_state_put_def spec_put_def dest: find_ns_NoneD [THEN iffD1])
next
  case (Some i)
  let ?n = "st_ns st ! i"
  note f = find_ns_SomeD [OF wf Some]
  let ?guards = "ns_enabled ?n \<and> edge_state_key_valid (Some k) \<and> length v \<le> st_max_value st \<and>
      edge_state_json_ok (Some v)"
  show ?thesis
  proof (cases ?guards)
    case False
    with put wf Some f(5) show ?thesis
      by (auto simp: edge_state_put_def spec_put_def ns_view_def Let_def not_le split: if_splits)
  next
    case True
    then have copy: "c_copy EDGE_STATE_KEY_MAX k = k"
      using key_valid_length by (simp add: c_copy_fits)
    show ?thesis
    proof (cases rule: find_entry_cases [OF f(4), of k, case_names absent present])
      case (present j)
      let ?e = "(ns_entries ?n ! j)\<lparr>se_value := v\<rparr>"
      have e: "se_used ?e" "se_key ?e = k" "entry_ok (st_max_value st) ?e"
        using present True by (auto simp: entry_ok_def)
      note r = replace_entry_facts [OF f(4) present(1) e]
      from put Some present(1) True have "er = EDGE_STATE_OK" "st' = upd_ns st i (set_entry j ?e)"
        by (auto simp: edge_state_put_def Let_def not_le)
      moreover note upd_ns_facts [OF wf f(1), of "set_entry j ?e"]
      ultimately show ?thesis
        using r f True present(2) by (auto simp: spec_put_def ns_view_def)
    next
      case absent
      show ?thesis
      proof (cases "find_free ?n")
        case None
        with put wf Some absent True f find_free_None [OF f(4)] show ?thesis
          by (auto simp: edge_state_put_def spec_put_def ns_view_def Let_def not_le)
      next
        case free: (Some j)
        let ?e = "\<lparr>se_used = True, se_key = k, se_value = v\<rparr>"
        let ?f = "\<lambda>n. (set_entry j ?e n)\<lparr>ns_count := ns_count n + 1\<rparr>"
        have e: "se_used ?e" "se_key ?e = k" "entry_ok (st_max_value st) ?e"
          using True by (auto simp: entry_ok_def)
        note r = fill_entry_facts [OF f(4) free absent(2) e]
        from put Some absent(1) free True copy have "er = EDGE_STATE_OK" "st' = upd_ns st i ?f"
          by (auto simp: edge_state_put_def Let_def not_le)
        moreover note upd_ns_facts [OF wf f(1), of ?f]
        moreover have "\<not> st_max_keys st \<le> card (dom (ns_kv ?n))"
          using free find_free_None [OF f(4)] by auto
        ultimately show ?thesis
          using r f True absent(2) by (auto simp: spec_put_def ns_view_def)
      qed
    qed
  qed
qed

lemma delete_refines:
  assumes wf: "store_wf st" and del: "edge_state_delete st (Some ns) (Some k) = (er, st')"
  shows "store_wf st' \<and> st_max_keys st' = st_max_keys st \<and> st_max_value st' = st_max_value st \<and>
    spec_delete (store_view st) ns k = (er, store_view st')"
proof (cases "find_ns st (Some ns)")
  case None
  with del wf show ?thesis
    by (auto simp: edge_state_delete_def spec_delete_def dest: find_ns_NoneD [THEN iffD1])
next
  case (Some i)
  let ?n = "st_ns st ! i"
  note f = find_ns_SomeD [OF wf Some]
  show ?thesis
  proof (cases rule: find_entry_cases [OF f(4), of k, case_names absent present])
    case absent
    with del wf Some f(5) show ?thesis
      by (auto simp: edge_state_delete_def spec_delete_def ns_view_def Let_def split: if_splits)
  next
    case (present j)
    let ?f = "\<lambda>n. (set_entry j empty_entry n)
        \<lparr>ns_count := (if ns_count n > 0 then ns_count n - 1 else ns_count n)\<rparr>"
    note r = clear_entry_facts [OF f(4) present(1)]
    show ?thesis
    proof (cases "ns_enabled ?n")
      case False
      with del wf Some f(5) show ?thesis
        by (auto simp: edge_state_delete_def spec_delete_def ns_view_def Let_def)
    next
      case True
      from del Some present(1) True have "er = EDGE_STATE_OK" "st' = upd_ns st i ?f"
        by (auto simp: edge_state_delete_def Let_def empty_entry_def)
      moreover note upd_ns_facts [OF wf f(1), of ?f]
      ultimately show ?thesis
        using r f True present(2) by (auto simp: spec_delete_def ns_view_def)
    qed
  qed
qed

lemma get_refines:
  assumes wf: "store_wf st"
  shows "edge_state_get st (Some ns) (Some k) cap =
    (case spec_get (store_view st) ns k of
       (er, None) \<Rightarrow> (er, None, None)
     | (er, Some v) \<Rightarrow>
         (er, (case cap of None \<Rightarrow> None | Some c \<Rightarrow> if 0 < c then Some (take (c - 1) v) else None),
          Some (length v)))"
proof (cases "find_ns st (Some ns)")
  case None
  then show ?thesis
    using find_ns_NoneD [of st ns] by (simp add: edge_state_get_def spec_get_def)
next
  case (Some i)
  note f = find_ns_SomeD [OF wf Some]
  show ?thesis
    by (cases rule: find_entry_cases [OF f(4), of k, case_names absent present])
       (auto simp: edge_state_get_def spec_get_def Some f(5) ns_view_def Let_def split: option.split)
qed

lemma card_store_view:
  assumes "store_wf st"
  shows "card (dom (store_view st)) = length (st_ns st)"
proof -
  have "used_count ns_registered (st_ns st) = length (st_ns st)"
    using assms by (auto simp: used_count_def store_wf_def ns_wf_def intro!: arg_cong [of _ _ length] filter_True)
  moreover have "dom (store_view st) = dom (slot_map ns_registered ns_name (st_ns st))"
    by (auto simp: store_view_def)
  ultimately show ?thesis
    using assms by (simp add: ns_table.card_dom store_wf_def)
qed

lemma new_ns_wf:
  "name \<noteq> [] \<Longrightarrow> length name < 64 \<Longrightarrow> ns_wf (st_max_keys st) (st_max_value st) (new_ns st name en)"
  by (auto simp: ns_wf_def new_ns_def c_copy_fits slots_distinct_def empty_entry_def)

lemma new_ns_view: "ns_view (new_ns st name en) = (en, Map.empty)"
  by (auto simp: ns_view_def ns_kv_def new_ns_def empty_entry_def)

lemma append_ns_facts:
  assumes wf: "store_wf st" and room: "length (st_ns st) < EDGE_STATE_NS_MAX"
    and n: "ns_wf (st_max_keys st) (st_max_value st) n" and new: "store_view st (ns_name n) = None"
  shows "store_wf (st\<lparr>st_ns := st_ns st @ [n]\<rparr>)"
    "store_view (st\<lparr>st_ns := st_ns st @ [n]\<rparr>) = (store_view st)(ns_name n \<mapsto> ns_view n)"
proof -
  let ?l = "st_ns st"
  have new': "slot_map ns_registered ns_name ?l (ns_name n) = None"
    using new by (simp add: store_view_def)
  have reg: "ns_registered n" using n by (simp add: ns_wf_def)
  have fresh: "ns_name m \<noteq> ns_name n" if "m \<in> set ?l" "ns_registered m" for m
    using new' that by (auto simp: slot_map_None_iff)
  show "store_wf (st\<lparr>st_ns := ?l @ [n]\<rparr>)"
    using wf room n fresh
    by (auto simp: store_wf_def slots_distinct_def nth_append less_Suc_eq)
       (metis nth_mem)+
  have d: "slots_distinct ns_registered ns_name (?l @ [n])"
    using \<open>store_wf (st\<lparr>st_ns := ?l @ [n]\<rparr>)\<close> by (simp add: store_wf_def)
  have "slot_map ns_registered ns_name (?l @ [n]) q = ((slot_map ns_registered ns_name ?l)(ns_name n \<mapsto> n)) q" for q
  proof (rule option_eqI)
    fix t
    show "slot_map ns_registered ns_name (?l @ [n]) q = Some t \<longleftrightarrow>
        ((slot_map ns_registered ns_name ?l)(ns_name n \<mapsto> n)) q = Some t"
      using wf reg fresh slot_map_Some_iff [OF d, of q t]
        slot_map_Some_iff [of ns_registered ns_name ?l q t]
      by (auto simp: store_wf_def nth_append less_Suc_eq)
  qed
  then show "store_view (st\<lparr>st_ns := ?l @ [n]\<rparr>) = (store_view st)(ns_name n \<mapsto> ns_view n)"
    by (auto simp: store_view_def)
qed

lemma set_enabled_refines:
  assumes wf: "store_wf st" and set: "edge_state_ns_set_enabled mem st (Some ns) en = (rc, st')"
  shows "store_wf st' \<and> st_max_keys st' = st_max_keys st \<and> st_max_value st' = st_max_value st \<and>
    spec_set_enabled mem (store_view st) ns en = (rc, store_view st')"
proof (cases "find_ns st (Some ns)")
  case (Some i)
  note f = find_ns_SomeD [OF wf Some]
  let ?f = "\<lambda>n. n\<lparr>ns_enabled := en\<rparr>"
  have "ns_wf (st_max_keys st) (st_max_value st) (?f (st_ns st ! i))"
    "ns_view (?f (st_ns st ! i)) = (en, ns_kv (st_ns st ! i))"
    using f(4) by (auto simp: ns_wf_def ns_view_def ns_kv_def)
  with upd_ns_facts [OF wf f(1), of ?f] set Some f show ?thesis
    by (auto simp: edge_state_ns_set_enabled_def spec_set_enabled_def ns_view_def)
next
  case None
  then have v: "store_view st ns = None" by (simp add: find_ns_NoneD)
  show ?thesis
  proof (cases "ns = [] \<or> 64 \<le> length ns \<or> EDGE_STATE_NS_MAX \<le> length (st_ns st) \<or> \<not> mem")
    case True
    with None have "edge_state_ns_set_enabled mem st (Some ns) en = (- 1, st)"
      using True by (auto simp: edge_state_ns_set_enabled_def register_ns_def)
    with set wf v True show ?thesis
      by (auto simp: spec_set_enabled_def card_store_view)
  next
    case False
    then have n: "ns_wf (st_max_keys st) (st_max_value st) (new_ns st ns en)"
      "ns_name (new_ns st ns en) = ns"
      using new_ns_wf by (auto simp: new_ns_def c_copy_fits)
    from set None False have "rc = 0" "st' = st\<lparr>st_ns := st_ns st @ [new_ns st ns en]\<rparr>"
      by (auto simp: edge_state_ns_set_enabled_def register_ns_def)
    with append_ns_facts [OF wf _ n(1)] n(2) v False show ?thesis
      by (auto simp: spec_set_enabled_def card_store_view [OF wf] new_ns_view)
  qed
qed

section \<open>Whole runs\<close>

datatype store_op =
    StPut string string string
  | StDelete string string
  | StEnable bool string bool

fun store_step :: "store_op \<Rightarrow> state_store \<Rightarrow> (edge_state_err + int) \<times> state_store" where
  "store_step (StPut ns k v) st =
     (let (er, st') = edge_state_put st (Some ns) (Some k) (Some v) in (Inl er, st'))"
| "store_step (StDelete ns k) st =
     (let (er, st') = edge_state_delete st (Some ns) (Some k) in (Inl er, st'))"
| "store_step (StEnable mem ns en) st =
     (let (rc, st') = edge_state_ns_set_enabled mem st (Some ns) en in (Inr rc, st'))"

fun store_spec_step ::
  "nat \<Rightarrow> nat \<Rightarrow> store_op \<Rightarrow> store_spec \<Rightarrow> (edge_state_err + int) \<times> store_spec" where
  "store_spec_step mk mv (StPut ns k v) m = (let (er, m') = spec_put mk mv m ns k v in (Inl er, m'))"
| "store_spec_step mk mv (StDelete ns k) m = (let (er, m') = spec_delete m ns k in (Inl er, m'))"
| "store_spec_step mk mv (StEnable mem ns en) m =
     (let (rc, m') = spec_set_enabled mem m ns en in (Inr rc, m'))"

definition store_inv :: "nat \<Rightarrow> nat \<Rightarrow> state_store \<Rightarrow> bool" where
  "store_inv mk mv st \<longleftrightarrow> store_wf st \<and> st_max_keys st = mk \<and> st_max_value st = mv"

lemma store_step_refines:
  assumes "store_inv mk mv st" "store_step x st = (r, st')"
  shows "store_inv mk mv st' \<and> store_spec_step mk mv x (store_view st) = (r, store_view st')"
proof (cases x)
  case (StPut ns k v)
  obtain er s1 where 1: "edge_state_put st (Some ns) (Some k) (Some v) = (er, s1)" by fastforce
  from put_refines [OF _ 1] assms StPut 1 show ?thesis by (auto simp: store_inv_def)
next
  case (StDelete ns k)
  obtain er s1 where 1: "edge_state_delete st (Some ns) (Some k) = (er, s1)" by fastforce
  from delete_refines [OF _ 1] assms StDelete 1 show ?thesis by (auto simp: store_inv_def)
next
  case (StEnable mem ns en)
  obtain rc s1 where 1: "edge_state_ns_set_enabled mem st (Some ns) en = (rc, s1)" by fastforce
  from set_enabled_refines [OF _ 1] assms StEnable 1 show ?thesis by (auto simp: store_inv_def)
qed

interpretation store: simulation "store_inv mk mv" store_view store_step "store_spec_step mk mv"
  for mk mv
  by unfold_locales (rule store_step_refines)

section \<open>Creation\<close>

lemma register_is_set_enabled:
  assumes "name \<noteq> []" "length name < 64"
  shows "register_ns mem st (Some name) en = edge_state_ns_set_enabled mem st (Some name) en"
  using assms by (auto simp: edge_state_ns_set_enabled_def register_ns_def split: option.split)

lemma register_refines:
  assumes "store_wf st" "name \<noteq> []" "length name < 64"
  shows "store_wf (snd (register_ns mem st (Some name) en)) \<and>
    spec_set_enabled mem (store_view st) name en =
      (fst (register_ns mem st (Some name) en), store_view (snd (register_ns mem st (Some name) en)))"
  using set_enabled_refines [OF assms(1), of mem name en]
  by (simp add: register_is_set_enabled [OF assms(2,3)] prod_eq_iff)

lemma empty_store_facts:
  "store_wf \<lparr>st_ns = [], st_max_keys = mk, st_max_value = mv\<rparr>"
  "store_view \<lparr>st_ns = [], st_max_keys = mk, st_max_value = mv\<rparr> = Map.empty"
  by (auto simp: store_wf_def slots_distinct_def store_view_def slot_map_def slot_find_def)

text \<open>What a registration does to the map, whatever its outcome.\<close>

lemma register_cases:
  assumes "store_inv mk mv st" "store_view st name = None" "name \<noteq> []" "length name < 64"
    and "register_ns mem st (Some name) en = (rc, st')"
  shows "store_inv mk mv st' \<and>
    (rc = - 1 \<and> store_view st' = store_view st \<or>
     rc = 0 \<and> store_view st' = (store_view st)(name \<mapsto> (en, Map.empty)))"
proof -
  have "edge_state_ns_set_enabled mem st (Some name) en = (rc, st')"
    using assms(5) by (simp add: register_is_set_enabled [OF assms(3,4)])
  from set_enabled_refines [OF _ this] assms(1,2) show ?thesis
    by (auto simp: store_inv_def spec_set_enabled_def split: if_splits)
qed

definition created_view :: "string set \<Rightarrow> store_spec \<Rightarrow> bool" where
  "created_view hooks m \<longleftrightarrow>
     m ''net.core'' = Some (True, Map.empty) \<and> m ''map.dynamic'' = Some (True, Map.empty) \<and>
     (\<forall>name. name \<notin> {''net.core'', ''map.dynamic''} \<longrightarrow>
        m name = None \<or> name \<in> hooks \<and> m name = Some (False, Map.empty))"

lemma created_hook:
  assumes "store_inv mk mv st \<and> created_view hooks (store_view st)"
    and "name \<notin> hooks \<union> {''net.core'', ''map.dynamic''}" "name \<noteq> []" "length name < 64"
  shows "store_inv mk mv (snd (register_ns mem st (Some name) False)) \<and>
    created_view (insert name hooks) (store_view (snd (register_ns mem st (Some name) False)))"
proof -
  obtain rc st' where r: "register_ns mem st (Some name) False = (rc, st')" by fastforce
  have ne: "''net.core'' \<noteq> name" "''map.dynamic'' \<noteq> name" using assms(2) by blast+
  have "store_view st name = None" using assms(1,2) by (auto simp: created_view_def)
  note c = register_cases [OF conjunct1 [OF assms(1)] this assms(3,4) r]
  have v: "created_view hooks (store_view st)" using assms(1) by simp
  from c consider "store_view st' = store_view st"
    | "store_view st' = (store_view st)(name \<mapsto> (False, Map.empty))" by blast
  then have "created_view (insert name hooks) (store_view st')"
  proof cases
    case 1
    with v show ?thesis unfolding created_view_def by (metis insertI2)
  next
    case 2
    with v ne show ?thesis by (simp add: created_view_def)
  qed
  with c show ?thesis by (simp add: r)
qed

lemma created_core:
  assumes "register_ns m1 \<lparr>st_ns = [], st_max_keys = mk, st_max_value = mv\<rparr>
      (Some ''net.core'') True = (0, s1)"
    and "register_ns m2 s1 (Some ''map.dynamic'') True = (0, s2)"
  shows "store_inv mk mv s2 \<and> created_view {} (store_view s2)"
proof -
  let ?s0 = "\<lparr>st_ns = [], st_max_keys = mk, st_max_value = mv\<rparr>"
  have 0: "store_inv mk mv ?s0" by (simp add: store_inv_def empty_store_facts)
  have v1: "store_inv mk mv s1" "store_view s1 = [''net.core'' \<mapsto> (True, Map.empty)]"
    using register_cases [OF 0 _ _ _ assms(1)] by (simp_all add: empty_store_facts)
  show ?thesis
    using register_cases [OF v1(1) _ _ _ assms(2)] v1(2) by (auto simp: created_view_def)
qed

lemma store_create_facts:
  assumes "edge_state_create_with_config mem_st mem cfg = Some st"
  shows "store_inv (max_keys_per_ns (effective_config cfg)) (max_value_bytes (effective_config cfg)) st
    \<and> created_view {''inventory'', ''electric'', ''net.home'', ''net.pon''} (store_view st)"
proof -
  let ?s0 = "\<lparr>st_ns = [], st_max_keys = max_keys_per_ns (effective_config cfg),
    st_max_value = max_value_bytes (effective_config cfg)\<rparr>"
  obtain r1 s1 where 1: "register_ns (mem ''net.core'') ?s0 (Some ''net.core'') True = (r1, s1)"
    by fastforce
  obtain r2 s2 where 2: "register_ns (mem ''map.dynamic'') s1 (Some ''map.dynamic'') True = (r2, s2)"
    by fastforce
  let ?reg = "\<lambda>name st. snd (register_ns (mem name) st (Some name) False)"
  from assms 1 2 have st: "r1 = 0" "r2 = 0"
    "st = ?reg ''inventory'' (?reg ''electric'' (?reg ''net.home'' (?reg ''net.pon'' s2)))"
    by (auto simp: edge_state_create_with_config_def Let_def split: if_splits)
  show ?thesis
    unfolding st(3)
    by (intro created_hook created_core [OF 1 [unfolded st(1)] 2 [unfolded st(2)]]) simp_all
qed

section \<open>Listing\<close>

definition matches :: "string option \<Rightarrow> string \<Rightarrow> bool" where
  "matches p k \<longleftrightarrow> (case p of None \<Rightarrow> True | Some q \<Rightarrow> starts_with q k)"

lemma list_loop_filter:
  "(\<forall>e\<in>set es. se_used e \<longrightarrow> length (se_key e) < EDGE_STATE_KEY_MAX) \<Longrightarrow>
   list_loop es p room = take room (map se_key (filter (\<lambda>e. se_used e \<and> matches p (se_key e)) es))"
  by (induction es arbitrary: room)
     (auto simp: matches_def c_copy_fits take_Cons' split: option.splits)

lemma used_keys_distinct:
  assumes "slots_distinct se_used se_key es"
  shows "distinct (map se_key (filter (\<lambda>e. se_used e \<and> Q e) es))"
  using assms
proof (induction es)
  case Nil
  then show ?case by simp
next
  case (Cons e es)
  have "slots_distinct se_used se_key es"
    unfolding slots_distinct_def
  proof (intro allI impI)
    fix i j
    assume "i < length es" "j < length es" "se_used (es ! i)" "se_used (es ! j)"
      "se_key (es ! i) = se_key (es ! j)"
    then show "i = j"
      using Cons.prems [unfolded slots_distinct_def, rule_format, of "Suc i" "Suc j"] by simp
  qed
  moreover have "se_key e \<noteq> se_key e'" if "e' \<in> set es" "se_used e" "se_used e'" for e'
  proof -
    from that obtain j where "j < length es" "es ! j = e'" by (auto simp: in_set_conv_nth)
    with that Cons.prems [unfolded slots_distinct_def, rule_format, of 0 "Suc j"] show ?thesis
      by auto
  qed
  ultimately show ?case using Cons.IH by auto
qed

lemma used_keys_set:
  assumes "slots_distinct se_used se_key (ns_entries n)"
  shows "se_key ` set (filter (\<lambda>e. se_used e \<and> matches p (se_key e)) (ns_entries n)) =
    {k \<in> dom (ns_kv n). matches p k}"
  using slot_map_Some_iff [OF assms] unfolding dom_ns_kv
  by (auto simp: image_iff in_set_conv_nth) blast+

lemma list_refines:
  assumes wf: "store_wf st" and list: "edge_state_list st (Some ns) p m = Some ks"
  shows "\<exists>kv all. store_view st ns = Some (True, kv) \<and> distinct all \<and>
    set all = {k \<in> dom kv. matches p k} \<and> ks = take (min m EDGE_STATE_LIST_CAP) all"
proof -
  from list obtain i where i: "find_ns st (Some ns) = Some i" "ns_enabled (st_ns st ! i)"
    and ks: "ks = list_loop (ns_entries (st_ns st ! i)) p (min m EDGE_STATE_LIST_CAP)"
    by (auto simp: edge_state_list_def min_def split: option.splits if_splits)
  let ?n = "st_ns st ! i"
  let ?all = "map se_key (filter (\<lambda>e. se_used e \<and> matches p (se_key e)) (ns_entries ?n))"
  note f = find_ns_SomeD [OF wf i(1)]
  have d: "slots_distinct se_used se_key (ns_entries ?n)"
    and lens: "\<forall>e\<in>set (ns_entries ?n). se_used e \<longrightarrow> length (se_key e) < EDGE_STATE_KEY_MAX"
    using f(4) key_valid_length by (auto simp: ns_wf_def entry_ok_def)
  have "ks = take (min m EDGE_STATE_LIST_CAP) ?all"
    using ks list_loop_filter [OF lens] by simp
  moreover have "distinct ?all" by (rule used_keys_distinct [OF d])
  moreover have "set ?all = {k \<in> dom (ns_kv ?n). matches p k}"
    using used_keys_set [OF d, of p] by simp
  moreover have "store_view st ns = Some (True, ns_kv ?n)"
    using f(5) i(2) by (simp add: ns_view_def)
  ultimately show ?thesis by blast
qed

section \<open>Enabling and disabling\<close>

definition config_flag :: "edge_config \<Rightarrow> string \<Rightarrow> bool option" where
  "config_flag c name =
     map_of [(''net.core'', state_net_core_enabled c), (''map.dynamic'', state_map_dynamic_enabled c),
       (''net.pon'', state_net_pon_enabled c), (''net.home'', state_net_home_enabled c),
       (''electric'', state_electric_enabled c), (''inventory'', state_inventory_enabled c)] name"

definition set_flag :: "bool \<Rightarrow> state_store \<Rightarrow> string \<Rightarrow> bool \<Rightarrow> state_store" where
  "set_flag mem st name en = snd (edge_state_ns_set_enabled mem st (Some name) en)"

lemma set_flag_facts:
  assumes "store_wf st"
  shows "store_wf (set_flag mem st name en)"
    and "store_view st q = Some (e, kv) \<Longrightarrow>
      store_view (set_flag mem st name en) q = Some (if q = name then en else e, kv)"
proof -
  obtain rc st' where s: "edge_state_ns_set_enabled mem st (Some name) en = (rc, st')" by fastforce
  note r = set_enabled_refines [OF assms s]
  show "store_wf (set_flag mem st name en)" using r s by (simp add: set_flag_def)
  show "store_view st q = Some (e, kv) \<Longrightarrow>
      store_view (set_flag mem st name en) q = Some (if q = name then en else e, kv)"
  proof -
    have v: "store_view st' = snd (spec_set_enabled mem (store_view st) name en)"
      using r by simp
    assume "store_view st q = Some (e, kv)"
    with s show ?thesis
      by (auto simp: set_flag_def v spec_set_enabled_def split: option.splits)
  qed
qed

lemma apply_config_eq:
  "edge_state_apply_config mem st (Some c) =
    fold (\<lambda>(name, en) st. set_flag (mem name) st name en)
      [(''net.core'', state_net_core_enabled c), (''map.dynamic'', state_map_dynamic_enabled c),
       (''net.pon'', state_net_pon_enabled c), (''net.home'', state_net_home_enabled c),
       (''electric'', state_electric_enabled c), (''inventory'', state_inventory_enabled c)] st"
  by (simp add: edge_state_apply_config_def set_flag_def Let_def)

lemma fold_set_flag:
  fixes mem :: "string \<Rightarrow> bool"
  shows "store_wf st \<Longrightarrow> store_view st q = Some (e, kv) \<Longrightarrow> distinct (map fst fs) \<Longrightarrow>
   store_wf (fold (\<lambda>(name, en) st. set_flag (mem name) st name en) fs st) \<and>
   store_view (fold (\<lambda>(name, en) st. set_flag (mem name) st name en) fs st) q =
     Some (case map_of fs q of None \<Rightarrow> e | Some en \<Rightarrow> en, kv)"
proof (induction fs arbitrary: st e)
  case Nil
  then show ?case by simp
next
  case (Cons f fs)
  obtain name en where f: "f = (name, en)" by fastforce
  note s = set_flag_facts [where mem = "mem name" and name = name and en = en, OF Cons.prems(1)]
  note ih = Cons.IH [OF s(1) s(2) [OF Cons.prems(2)]]
  have "map_of fs name = None"
    using Cons.prems(3) f by (simp add: map_of_eq_None_iff)
  with ih Cons.prems(3) f show ?case by (auto split: option.splits)
qed

section \<open>The key/value interface\<close>

text \<open>What a client that applies changes relies on: an accepted put or delete has its effect
  on one key, a rejected one has none, and the invariant is kept.\<close>

datatype ('k, 'v) change = ChPut 'k 'v | ChDel 'k

fun change_effect :: "('k, 'v) change \<Rightarrow> ('k \<rightharpoonup> 'v) \<Rightarrow> ('k \<rightharpoonup> 'v)" where
  "change_effect (ChPut k v) m = m(k \<mapsto> v)"
| "change_effect (ChDel k) m = m(k := None)"

fun change_key :: "('k, 'v) change \<Rightarrow> 'k" where
  "change_key (ChPut k v) = k"
| "change_key (ChDel k) = k"

locale kv_store =
  fixes kinv :: "'s \<Rightarrow> bool"
    and content :: "'s \<Rightarrow> 'k \<Rightarrow> 'v option"
    and kput :: "'k \<Rightarrow> 'v \<Rightarrow> 's \<Rightarrow> bool \<times> 's"
    and kdel :: "'k \<Rightarrow> 's \<Rightarrow> bool \<times> 's"
  assumes put_law: "kinv s \<Longrightarrow> kput k v s = (ok, s') \<Longrightarrow>
      kinv s' \<and> content s' = (if ok then (content s)(k \<mapsto> v) else content s)"
    and del_law: "kinv s \<Longrightarrow> kdel k s = (ok, s') \<Longrightarrow>
      kinv s' \<and> content s' = (if ok then (content s)(k := None) else content s)"
begin

fun kstep :: "('k, 'v) change \<Rightarrow> 's \<Rightarrow> bool \<times> 's" where
  "kstep (ChPut k v) s = kput k v s"
| "kstep (ChDel k) s = kdel k s"

lemma kstep_law:
  "kinv s \<Longrightarrow> kstep c s = (ok, s') \<Longrightarrow>
   kinv s' \<and> content s' = (if ok then change_effect c (content s) else content s)"
  by (cases c) (auto dest: put_law del_law)

text \<open>The content after a run is the effect of the accepted changes in order.\<close>

lemma replay:
  "kinv s \<Longrightarrow> run_steps kstep cs s = (oks, s') \<Longrightarrow>
   kinv s' \<and> length oks = length cs \<and>
   content s' = fold change_effect (map fst (filter snd (zip cs oks))) (content s)"
proof (induction cs arbitrary: s oks s')
  case Nil
  then show ?case by simp
next
  case (Cons c cs)
  obtain ok s1 where 1: "kstep c s = (ok, s1)" by fastforce
  obtain oks1 s2 where 2: "run_steps kstep cs s1 = (oks1, s2)" by fastforce
  note l = kstep_law [OF Cons.prems(1) 1]
  from Cons.IH [OF _ 2] l Cons.prems(2) 1 2 show ?case by auto
qed

lemma effects_untouched:
  "k \<notin> change_key ` set cs \<Longrightarrow> fold change_effect cs m k = m k"
proof (induction cs arbitrary: m)
  case Nil
  then show ?case by simp
next
  case (Cons c cs)
  then show ?case by (cases c) auto
qed

lemma untouched_key:
  assumes "kinv s" "run_steps kstep cs s = (oks, s')" "k \<notin> change_key ` set cs"
  shows "content s' k = content s k"
proof -
  have "change_key ` set (map fst (filter snd (zip cs oks))) \<subseteq> change_key ` set cs"
    by (auto dest: set_zip_leftD)
  with assms(3) have "k \<notin> change_key ` set (map fst (filter snd (zip cs oks)))" by blast
  from effects_untouched [OF this] replay [OF assms(1,2)] show ?thesis by simp
qed

end

definition store_content :: "state_store \<Rightarrow> string \<times> string \<Rightarrow> string option" where
  "store_content st = (\<lambda>(ns, k). case store_view st ns of None \<Rightarrow> None | Some (en, kv) \<Rightarrow> kv k)"

definition store_put :: "string \<times> string \<Rightarrow> string \<Rightarrow> state_store \<Rightarrow> bool \<times> state_store" where
  "store_put = (\<lambda>(ns, k) v st.
     let (er, st') = edge_state_put st (Some ns) (Some k) (Some v) in (er = EDGE_STATE_OK, st'))"

definition store_del :: "string \<times> string \<Rightarrow> state_store \<Rightarrow> bool \<times> state_store" where
  "store_del = (\<lambda>(ns, k) st.
     let (er, st') = edge_state_delete st (Some ns) (Some k) in (er = EDGE_STATE_OK, st'))"

lemma store_content_update:
  assumes "store_view st ns = Some (en, kv)" "store_view st' = (store_view st)(ns \<mapsto> (en, kv'))"
  shows "store_content st' = (\<lambda>(a, b). if a = ns then kv' b else store_content st (a, b))"
  using assms(1) by (auto simp: store_content_def assms(2) fun_eq_iff)

lemma store_put_law:
  assumes "store_wf st" "store_put q v st = (ok, st')"
  shows "store_wf st' \<and>
    store_content st' = (if ok then (store_content st)(q \<mapsto> v) else store_content st)"
proof -
  obtain ns k where q: "q = (ns, k)" by fastforce
  obtain er where 1: "edge_state_put st (Some ns) (Some k) (Some v) = (er, st')"
    and ok: "ok = (er = EDGE_STATE_OK)"
    using assms(2) by (auto simp: store_put_def q split: prod.splits)
  note r = put_refines [OF assms(1) 1]
  show ?thesis
  proof (cases ok)
    case True
    with r ok obtain en kv where kv: "store_view st ns = Some (en, kv)"
      and v: "store_view st' = (store_view st)(ns \<mapsto> (en, kv(k \<mapsto> v)))"
      by (auto simp: spec_put_def split: option.splits if_splits)
    with r True show ?thesis
      by (auto simp: store_content_update [OF kv v] q fun_eq_iff store_content_def)
  next
    case False
    with r ok have "store_view st' = store_view st"
      by (auto simp: spec_put_def split: option.splits if_splits)
    with r False show ?thesis by (simp add: store_content_def)
  qed
qed

lemma store_del_law:
  assumes "store_wf st" "store_del q st = (ok, st')"
  shows "store_wf st' \<and>
    store_content st' = (if ok then (store_content st)(q := None) else store_content st)"
proof -
  obtain ns k where q: "q = (ns, k)" by fastforce
  obtain er where 1: "edge_state_delete st (Some ns) (Some k) = (er, st')"
    and ok: "ok = (er = EDGE_STATE_OK)"
    using assms(2) by (auto simp: store_del_def q split: prod.splits)
  note r = delete_refines [OF assms(1) 1]
  show ?thesis
  proof (cases ok)
    case True
    with r ok obtain en kv where kv: "store_view st ns = Some (en, kv)"
      and v: "store_view st' = (store_view st)(ns \<mapsto> (en, kv(k := None)))"
      by (auto simp: spec_delete_def split: option.splits if_splits)
    with r True show ?thesis
      by (auto simp: store_content_update [OF kv v] q fun_eq_iff store_content_def)
  next
    case False
    with r ok have "store_view st' = store_view st"
      by (auto simp: spec_delete_def split: option.splits if_splits)
    with r False show ?thesis by (simp add: store_content_def)
  qed
qed

interpretation state_kv: kv_store store_wf store_content store_put store_del
  proof (unfold_locales, goal_cases)
  case (1 st q v ok st')
  then show ?case by (rule store_put_law)
next
  case (2 st q ok st')
  then show ?case by (rule store_del_law)
qed

section \<open>Properties\<close>

text \<open>C8: From a freshly created store, every sequence of puts, deletes and namespace
  switches gives the same error code for every call and the same final contents as the
  abstract store (a finite map per namespace), under the configured limits: the slot arrays
  never hold a key twice, never exceed the per-namespace capacity, and their counters are
  exact.\<close>

theorem store_refines_spec:
  assumes "edge_state_create_with_config mem_st mem cfg = Some st0"
    and "run_steps store_step ops st0 = (rs, st)"
  shows "run_steps (store_spec_step (st_max_keys st0) (st_max_value st0)) ops (store_view st0) =
      (rs, store_view st) \<and> store_wf st \<and>
    created_view {''inventory'', ''electric'', ''net.home'', ''net.pon''} (store_view st0)"
proof -
  note c = store_create_facts [OF assms(1)]
  then have "store_inv (st_max_keys st0) (st_max_value st0) st0" by (simp add: store_inv_def)
  from store.run_sim [OF this assms(2)] c show ?thesis by (simp add: store_inv_def)
qed

definition tiny_config :: state_config where
  "tiny_config = \<lparr>max_keys_per_ns = 1, max_value_bytes = 8\<rparr>"

lemmas tiny_eval =
  tiny_config_def edge_state_create_with_config_def effective_config_def register_ns_def
  new_ns_def find_ns_def empty_entry_def c_copy_def state_limits Let_def

definition tiny_store :: state_store where
  "tiny_store = the (edge_state_create_with_config True (\<lambda>_. True) (Some tiny_config))"

lemma tiny_created:
  "edge_state_create_with_config True (\<lambda>_. True) (Some tiny_config) = Some tiny_store"
  unfolding tiny_store_def by (simp add: tiny_eval)

lemma tiny_sizes: "st_max_keys tiny_store = 1" "st_max_value tiny_store = 8" "store_wf tiny_store"
  using store_create_facts [OF tiny_created]
  by (simp_all add: store_inv_def effective_config_def tiny_config_def state_limits)

lemma tiny_core: "store_view tiny_store ''net.core'' = Some (True, Map.empty)"
  using store_create_facts [OF tiny_created] by (simp add: created_view_def)

theorem store_refines_spec_witness:
  "fst (run_steps store_step [StPut ''net.core'' ''a'' ''1'', StPut ''net.core'' ''b'' ''2'',
      StDelete ''net.core'' ''a'', StPut ''net.core'' ''b'' ''2'', StPut ''net.core'' ''B'' ''2'',
      StPut ''net.core'' ''b'' ''x''] tiny_store) =
    map Inl [EDGE_STATE_OK, EDGE_STATE_NS_FULL, EDGE_STATE_OK, EDGE_STATE_OK, EDGE_STATE_BAD_KEY,
      EDGE_STATE_BAD_JSON]"
proof -
  let ?ops = "[StPut ''net.core'' ''a'' ''1'', StPut ''net.core'' ''b'' ''2'',
      StDelete ''net.core'' ''a'', StPut ''net.core'' ''b'' ''2'', StPut ''net.core'' ''B'' ''2'',
      StPut ''net.core'' ''b'' ''x'']"
  obtain rs st where r: "run_steps store_step ?ops tiny_store = (rs, st)" by fastforce
  have "rs = fst (run_steps (store_spec_step 1 8) ?ops (store_view tiny_store))"
    using store_refines_spec [OF tiny_created r] by (simp add: tiny_sizes)
  then show ?thesis
    unfolding r
    by (simp add: spec_put_def spec_delete_def tiny_core edge_state_key_valid_def state_limits
        edge_state_json_ok_def key_char_ok_def is_lower_def is_digit_def is_space_def
        json_start_ok_def)
qed

text \<open>What an accepted put wrote is what a get of that key returns, byte for byte, when the
  caller's buffer has room for it; and the get of every other key, in this or another
  namespace, is unchanged by it.\<close>

theorem state_put_get:
  assumes "store_wf st"
    and "edge_state_put st (Some ns) (Some k) (Some v) = (EDGE_STATE_OK, st')"
    and "length v < cap"
  shows "edge_state_get st' (Some ns) (Some k) (Some cap) = (EDGE_STATE_OK, Some v, Some (length v)) \<and>
    (\<forall>ns' k' cap'. (ns', k') \<noteq> (ns, k) \<longrightarrow>
       edge_state_get st' (Some ns') (Some k') cap' = edge_state_get st (Some ns') (Some k') cap')"
proof -
  note r = put_refines [OF assms(1,2)]
  obtain kv where kv: "store_view st ns = Some (True, kv)" "edge_state_key_valid (Some k)"
    and v: "store_view st' = (store_view st)(ns \<mapsto> (True, kv(k \<mapsto> v)))"
    using r by (auto simp: spec_put_def split: option.splits if_splits)
  have "store_wf st'" using r by simp
  note g = get_refines [OF this] get_refines [OF assms(1)]
  show ?thesis
    using kv assms(3) by (auto simp: g spec_get_def v)
qed

theorem state_put_get_witness:
  "edge_state_get (snd (edge_state_put tiny_store (Some ''net.core'') (Some ''a'') (Some ''[1]'')))
     (Some ''net.core'') (Some ''a'') (Some 16) = (EDGE_STATE_OK, Some ''[1]'', Some 3)"
proof -
  obtain er st where p:
    "edge_state_put tiny_store (Some ''net.core'') (Some ''a'') (Some ''[1]'') = (er, st)"
    by fastforce
  have "er = EDGE_STATE_OK"
    using put_refines [OF tiny_sizes(3) p]
    by (simp add: tiny_sizes spec_put_def tiny_core edge_state_key_valid_def state_limits
        edge_state_json_ok_def key_char_ok_def is_lower_def is_digit_def is_space_def
        json_start_ok_def)
  with state_put_get [OF tiny_sizes(3), of "''net.core''" "''a''" "''[1]''" st 16] p
  show ?thesis by simp
qed

text \<open>C10: A listing of an enabled namespace returns keys without duplicates, all of them stored
  and all starting with the prefix, at most the requested number and at most 1000; and it
  returns every such key when they fit.\<close>

theorem state_list_exact:
  assumes "store_wf st" and "edge_state_list st (Some ns) p m = Some ks"
  shows "\<exists>kv. store_view st ns = Some (True, kv) \<and> distinct ks \<and>
    set ks \<subseteq> {k \<in> dom kv. matches p k} \<and> length ks \<le> min m EDGE_STATE_LIST_CAP \<and>
    (length ks < min m EDGE_STATE_LIST_CAP \<longrightarrow> set ks = {k \<in> dom kv. matches p k})"
proof -
  obtain kv ls where l: "store_view st ns = Some (True, kv)" "distinct ls"
    "set ls = {k \<in> dom kv. matches p k}" "ks = take (min m EDGE_STATE_LIST_CAP) ls"
    using list_refines [OF assms] by blast
  have sub: "set ks \<subseteq> set ls" unfolding l(4) by (rule set_take_subset)
  have len: "length ks = min (length ls) (min m EDGE_STATE_LIST_CAP)" unfolding l(4) by simp
  have full: "length ks < min m EDGE_STATE_LIST_CAP \<longrightarrow> ks = ls" using l(4) by (auto simp: min_def)
  have d: "distinct ks" unfolding l(4) by (rule distinct_take [OF l(2)])
  have le: "length ks \<le> min m EDGE_STATE_LIST_CAP" using len by linarith
  have all: "length ks < min m EDGE_STATE_LIST_CAP \<longrightarrow> set ks = {k \<in> dom kv. matches p k}"
    using full l(3) by blast
  from l(1) d sub [unfolded l(3)] le all show ?thesis by blast
qed

theorem state_list_exact_witness:
  "\<exists>kv. store_view tiny_store ''net.core'' = Some (True, kv) \<and>
    {} = {k \<in> dom kv. matches (Some ''olt:'') k}"
proof -
  have l: "edge_state_list tiny_store (Some ''net.core'') (Some ''olt:'') 5 = Some []"
    by (simp add: tiny_store_def tiny_eval edge_state_list_def)
  show ?thesis
    using state_list_exact [OF tiny_sizes(3) l] by (auto simp: state_limits)
qed

text \<open>Applying a configuration sets the enabled flag of the six known namespaces to the
  configured value and loses no data: every namespace that exists keeps its keys and
  values, and any other namespace keeps its flag as well.\<close>

theorem state_apply_config_keeps_data:
  assumes "store_wf st" and "store_view st ns = Some (en, kv)"
  shows "store_wf (edge_state_apply_config mem st (Some c)) \<and>
    store_view (edge_state_apply_config mem st (Some c)) ns =
      Some (case config_flag c ns of None \<Rightarrow> en | Some en' \<Rightarrow> en', kv)"
  unfolding apply_config_eq config_flag_def
  by (rule fold_set_flag [OF assms]) simp

theorem state_apply_config_keeps_data_witness:
  "store_view (edge_state_apply_config (\<lambda>_. True) tiny_store
      (Some (edge_config_defaults\<lparr>state_net_core_enabled := False\<rparr>))) ''net.core'' =
    Some (False, Map.empty)"
  using state_apply_config_keeps_data [OF tiny_sizes(3) tiny_core, of "\<lambda>_. True"
      "edge_config_defaults\<lparr>state_net_core_enabled := False\<rparr>"]
  by (simp add: config_flag_def)

end
