(* ===== verification/Edgecore.thy ===== *)
theory Edgecore
  imports Edge_Prelude C_Strings Core_Config Ring_Queue
begin

text \<open>
  \<open>src/core/edgecore.c\<close>: the syscall-free core. It keeps a bounded ring of output events, a
  table of 32 buffer slots whose memory the host provides on request, and the active
  configuration. A pointer is an address or NULL (\<open>nat option\<close>); the core handle itself is
  not NULL. The enums and structures are those of \<open>include/edgecore.h\<close>.
\<close>

datatype edge_event_type =
    EDGE_EVENT_NONE
  | EDGE_EVENT_NEED_ALLOC
  | EDGE_EVENT_NEED_REALLOC
  | EDGE_EVENT_WANT_SEND
  | EDGE_EVENT_HTTP_REQUEST
  | EDGE_EVENT_STATE_CHANGED
  | EDGE_EVENT_WS_BROADCAST
  | EDGE_EVENT_CONFIG_APPLIED
  | EDGE_EVENT_CONFIG_REJECTED
  | EDGE_EVENT_OUTBOUND_DONE
  | EDGE_EVENT_QUEUE_OVERFLOW

datatype edge_buf_kind =
    EDGE_BUF_NONE
  | EDGE_BUF_GENERIC
  | EDGE_BUF_CONN_RX
  | EDGE_BUF_CONN_TX
  | EDGE_BUF_HTTP_BODY
  | EDGE_BUF_STATE

record edge_event =
  ev_type :: edge_event_type
  ev_reason :: string
  ev_alloc_id :: u32
  ev_buf_kind :: edge_buf_kind
  ev_size :: nat
  ev_old_ptr :: "nat option"
  ev_old_size :: nat

datatype edge_buf_slot_state = EDGE_BUF_SLOT_FREE | EDGE_BUF_SLOT_PENDING | EDGE_BUF_SLOT_READY

record edge_buf_slot =
  bs_state :: edge_buf_slot_state
  bs_kind :: edge_buf_kind
  bs_alloc_id :: u32
  bs_ptr :: "nat option"
  bs_size :: nat
  bs_requested :: nat

record edgecore =
  ec_qsz :: nat
  ec_events :: "edge_event list"
  ec_head :: nat
  ec_tail :: nat
  ec_cnt :: nat
  ec_dropped :: u64
  ec_bufs :: "edge_buf_slot list"
  ec_next_alloc_id :: u32
  ec_cfg :: edge_config
  ec_cfg_applied :: bool

definition EDGECORE_DEFAULT_Q :: nat where "EDGECORE_DEFAULT_Q = 64"
definition EDGECORE_MAX_Q :: nat where "EDGECORE_MAX_Q = 256"
definition EDGECORE_MAX_BUFS :: nat where "EDGECORE_MAX_BUFS = 32"

text \<open>The results of \<open>memset(.., 0, ..)\<close> on an event and on a slot.\<close>

definition zero_event :: edge_event where
  "zero_event =
     \<lparr>ev_type = EDGE_EVENT_NONE, ev_reason = [], ev_alloc_id = 0, ev_buf_kind = EDGE_BUF_NONE,
      ev_size = 0, ev_old_ptr = None, ev_old_size = 0\<rparr>"

definition zero_slot :: edge_buf_slot where
  "zero_slot =
     \<lparr>bs_state = EDGE_BUF_SLOT_FREE, bs_kind = EDGE_BUF_NONE, bs_alloc_id = 0, bs_ptr = None,
      bs_size = 0, bs_requested = 0\<rparr>"

section \<open>Creation\<close>

definition edgecore_default_config :: nat where
  "edgecore_default_config = 0"

text \<open>The argument is \<open>event_queue_size\<close> of a non-NULL configuration; \<open>mem_core\<close> and
  \<open>mem_events\<close> say whether the two allocations succeed.\<close>

definition edgecore_create_with_config :: "bool \<Rightarrow> bool \<Rightarrow> nat option \<Rightarrow> edgecore option" where
  "edgecore_create_with_config mem_core mem_events cfg =
     (let qsz = (case cfg of
                   Some n \<Rightarrow> if n > 0 then (if n > EDGECORE_MAX_Q then EDGECORE_MAX_Q else n)
                             else EDGECORE_DEFAULT_Q
                 | None \<Rightarrow> EDGECORE_DEFAULT_Q)
      in if \<not> mem_core then None
         else if \<not> mem_events then None
         else Some \<lparr>ec_qsz = qsz, ec_events = replicate qsz zero_event, ec_head = 0, ec_tail = 0,
                    ec_cnt = 0, ec_dropped = 0, ec_bufs = replicate EDGECORE_MAX_BUFS zero_slot,
                    ec_next_alloc_id = 1, ec_cfg = edge_config_defaults, ec_cfg_applied = False\<rparr>)"

definition edgecore_create :: "bool \<Rightarrow> bool \<Rightarrow> edgecore option" where
  "edgecore_create mem_core mem_events =
     edgecore_create_with_config mem_core mem_events (Some edgecore_default_config)"

section \<open>Event ring\<close>

definition overflow_event :: edge_event where
  "overflow_event =
     zero_event\<lparr>ev_type := EDGE_EVENT_QUEUE_OVERFLOW,
                ev_reason := c_copy 96 ''event queue full (dropped new event)''\<rparr>"

definition emit_event :: "edgecore \<Rightarrow> edge_event \<Rightarrow> int \<times> edgecore" where
  "emit_event core ev =
     (if ec_cnt core \<ge> ec_qsz core
      then (- 1, core\<lparr>ec_events := (ec_events core)[ec_head core := overflow_event],
                      ec_dropped := ec_dropped core + 1\<rparr>)
      else (0, core\<lparr>ec_events := (ec_events core)[ec_tail core := ev],
                    ec_tail := (ec_tail core + 1) mod ec_qsz core,
                    ec_cnt := ec_cnt core + 1\<rparr>))"

text \<open>The return value, the event stored through the non-NULL \<open>ev\<close> and the new state.\<close>

definition edgecore_next_event :: "edgecore \<Rightarrow> (int \<times> edge_event) \<times> edgecore" where
  "edgecore_next_event core =
     (if ec_cnt core = 0 then ((0, zero_event), core)
      else ((1, ec_events core ! ec_head core),
            core\<lparr>ec_head := (ec_head core + 1) mod ec_qsz core, ec_cnt := ec_cnt core - 1\<rparr>))"

definition edgecore_has_pending_events :: "edgecore \<Rightarrow> bool" where
  "edgecore_has_pending_events core \<longleftrightarrow> ec_cnt core > 0"

definition edgecore_event_count :: "edgecore \<Rightarrow> nat" where
  "edgecore_event_count core = ec_cnt core"

definition edgecore_dropped_count :: "edgecore \<Rightarrow> u64" where
  "edgecore_dropped_count core = ec_dropped core"

fun edgecore_event_type_name :: "edge_event_type \<Rightarrow> string" where
  "edgecore_event_type_name EDGE_EVENT_NONE = ''NONE''"
| "edgecore_event_type_name EDGE_EVENT_NEED_ALLOC = ''NEED_ALLOC''"
| "edgecore_event_type_name EDGE_EVENT_NEED_REALLOC = ''NEED_REALLOC''"
| "edgecore_event_type_name EDGE_EVENT_WANT_SEND = ''WANT_SEND''"
| "edgecore_event_type_name EDGE_EVENT_HTTP_REQUEST = ''HTTP_REQUEST''"
| "edgecore_event_type_name EDGE_EVENT_STATE_CHANGED = ''STATE_CHANGED''"
| "edgecore_event_type_name EDGE_EVENT_WS_BROADCAST = ''WS_BROADCAST''"
| "edgecore_event_type_name EDGE_EVENT_CONFIG_APPLIED = ''CONFIG_APPLIED''"
| "edgecore_event_type_name EDGE_EVENT_CONFIG_REJECTED = ''CONFIG_REJECTED''"
| "edgecore_event_type_name EDGE_EVENT_OUTBOUND_DONE = ''OUTBOUND_DONE''"
| "edgecore_event_type_name EDGE_EVENT_QUEUE_OVERFLOW = ''QUEUE_OVERFLOW''"

fun edgecore_buf_kind_name :: "edge_buf_kind \<Rightarrow> string" where
  "edgecore_buf_kind_name EDGE_BUF_NONE = ''NONE''"
| "edgecore_buf_kind_name EDGE_BUF_GENERIC = ''GENERIC''"
| "edgecore_buf_kind_name EDGE_BUF_CONN_RX = ''CONN_RX''"
| "edgecore_buf_kind_name EDGE_BUF_CONN_TX = ''CONN_TX''"
| "edgecore_buf_kind_name EDGE_BUF_HTTP_BODY = ''HTTP_BODY''"
| "edgecore_buf_kind_name EDGE_BUF_STATE = ''STATE''"

section \<open>Buffer table\<close>

definition slot_used :: "edge_buf_slot \<Rightarrow> bool" where
  "slot_used s \<longleftrightarrow> bs_state s \<noteq> EDGE_BUF_SLOT_FREE"

definition find_slot_by_id :: "edgecore \<Rightarrow> u32 \<Rightarrow> nat option" where
  "find_slot_by_id core alloc_id =
     (if alloc_id = 0 then None
      else find_first (\<lambda>s. slot_used s \<and> bs_alloc_id s = alloc_id) (ec_bufs core))"

definition find_free_slot :: "edgecore \<Rightarrow> nat option" where
  "find_free_slot core = find_first (\<lambda>s. \<not> slot_used s) (ec_bufs core)"

definition mint_alloc_id :: "edgecore \<Rightarrow> u32 \<times> edgecore" where
  "mint_alloc_id core =
     (let aid = (if ec_next_alloc_id core = 0 then 1 else ec_next_alloc_id core);
          next_id = (if aid + 1 = 0 then 1 else aid + 1)
      in (aid, core\<lparr>ec_next_alloc_id := next_id\<rparr>))"

definition set_slot :: "nat \<Rightarrow> edge_buf_slot \<Rightarrow> edgecore \<Rightarrow> edgecore" where
  "set_slot i s core = core\<lparr>ec_bufs := (ec_bufs core)[i := s]\<rparr>"

definition need_alloc_event :: "u32 \<Rightarrow> edge_buf_kind \<Rightarrow> nat \<Rightarrow> edge_event" where
  "need_alloc_event aid kind sz =
     zero_event\<lparr>ev_type := EDGE_EVENT_NEED_ALLOC, ev_alloc_id := aid, ev_buf_kind := kind,
                ev_size := sz,
                ev_reason := c_copy 96 (''NEED_ALLOC '' @ edgecore_buf_kind_name kind @
                  '' size='' @ dec_nat sz)\<rparr>"

definition edgecore_request_alloc :: "edgecore \<Rightarrow> edge_buf_kind \<Rightarrow> nat \<Rightarrow> u32 \<times> edgecore" where
  "edgecore_request_alloc core kind sz =
     (if sz = 0 \<or> kind = EDGE_BUF_NONE then (0, core)
      else (case find_free_slot core of
              None \<Rightarrow> (0, core)
            | Some i \<Rightarrow>
                (let (aid, core1) = mint_alloc_id core;
                     core2 = set_slot i \<lparr>bs_state = EDGE_BUF_SLOT_PENDING, bs_kind = kind,
                       bs_alloc_id = aid, bs_ptr = None, bs_size = 0, bs_requested = sz\<rparr> core1;
                     (rc, core3) = emit_event core2 (need_alloc_event aid kind sz)
                 in if rc \<noteq> 0 then (0, set_slot i zero_slot core3) else (aid, core3))))"

definition need_realloc_event :: "u32 \<Rightarrow> edge_buf_slot \<Rightarrow> nat \<Rightarrow> edge_event" where
  "need_realloc_event aid s new_size =
     zero_event\<lparr>ev_type := EDGE_EVENT_NEED_REALLOC, ev_alloc_id := aid, ev_buf_kind := bs_kind s,
                ev_size := new_size, ev_old_ptr := bs_ptr s, ev_old_size := bs_size s,
                ev_reason := c_copy 96 (''NEED_REALLOC '' @ edgecore_buf_kind_name (bs_kind s) @
                  '' id='' @ dec_nat (unat aid) @ '' size='' @ dec_nat new_size)\<rparr>"

definition edgecore_request_realloc :: "edgecore \<Rightarrow> u32 \<Rightarrow> nat \<Rightarrow> int \<times> edgecore" where
  "edgecore_request_realloc core alloc_id new_size =
     (if alloc_id = 0 \<or> new_size = 0 then (- 1, core)
      else (case find_slot_by_id core alloc_id of
              None \<Rightarrow> (- 1, core)
            | Some i \<Rightarrow>
                (let s = ec_bufs core ! i in
                 if bs_state s \<noteq> EDGE_BUF_SLOT_READY then (- 1, core)
                 else
                   (let s1 = s\<lparr>bs_state := EDGE_BUF_SLOT_PENDING, bs_requested := new_size\<rparr>;
                        core1 = set_slot i s1 core;
                        (rc, core2) = emit_event core1 (need_realloc_event alloc_id s1 new_size)
                    in if rc \<noteq> 0
                       then (- 1, set_slot i (s1\<lparr>bs_state := EDGE_BUF_SLOT_READY,
                                                 bs_requested := bs_size s1\<rparr>) core2)
                       else (0, core2)))))"

definition edgecore_provide_buffer ::
  "edgecore \<Rightarrow> u32 \<Rightarrow> nat option \<Rightarrow> nat \<Rightarrow> int \<times> edgecore" where
  "edgecore_provide_buffer core alloc_id ptr sz =
     (if alloc_id = 0 \<or> ptr = None \<or> sz = 0 then (- 1, core)
      else (case find_slot_by_id core alloc_id of
              None \<Rightarrow> (- 1, core)
            | Some i \<Rightarrow>
                (let s = ec_bufs core ! i in
                 if bs_state s \<noteq> EDGE_BUF_SLOT_PENDING then (- 1, core)
                 else if sz < bs_requested s then (- 1, core)
                 else (0, set_slot i (s\<lparr>bs_ptr := ptr, bs_size := sz,
                                        bs_state := EDGE_BUF_SLOT_READY\<rparr>) core))))"

text \<open>With the return value, what is stored through \<open>out_ptr\<close> and \<open>out_size\<close>.\<close>

definition edgecore_detach_buffer ::
  "edgecore \<Rightarrow> u32 \<Rightarrow> (int \<times> (nat option \<times> nat) option) \<times> edgecore" where
  "edgecore_detach_buffer core alloc_id =
     (if alloc_id = 0 then ((- 1, None), core)
      else (case find_slot_by_id core alloc_id of
              None \<Rightarrow> ((- 1, None), core)
            | Some i \<Rightarrow>
                (let s = ec_bufs core ! i
                 in ((0, Some (bs_ptr s, bs_size s)), set_slot i zero_slot core))))"

definition find_ready :: "edgecore \<Rightarrow> u32 \<Rightarrow> nat option" where
  "find_ready core alloc_id =
     find_first (\<lambda>s. bs_state s = EDGE_BUF_SLOT_READY \<and> bs_alloc_id s = alloc_id) (ec_bufs core)"

definition edgecore_buffer_ptr :: "edgecore \<Rightarrow> u32 \<Rightarrow> nat option" where
  "edgecore_buffer_ptr core alloc_id =
     (if alloc_id = 0 then None
      else (case find_ready core alloc_id of None \<Rightarrow> None | Some i \<Rightarrow> bs_ptr (ec_bufs core ! i)))"

definition edgecore_buffer_size :: "edgecore \<Rightarrow> u32 \<Rightarrow> nat" where
  "edgecore_buffer_size core alloc_id =
     (if alloc_id = 0 then 0
      else (case find_ready core alloc_id of None \<Rightarrow> 0 | Some i \<Rightarrow> bs_size (ec_bufs core ! i)))"

definition edgecore_buffer_count :: "edgecore \<Rightarrow> nat" where
  "edgecore_buffer_count core =
     fold (\<lambda>s n. if bs_state s = EDGE_BUF_SLOT_READY then n + 1 else n) (ec_bufs core) 0"

section \<open>Configuration\<close>

definition edgecore_apply_config :: "edgecore \<Rightarrow> edge_config option \<Rightarrow> int \<times> edgecore" where
  "edgecore_apply_config core cfg =
     (case cfg of
        None \<Rightarrow> (- 1, core)
      | Some c \<Rightarrow>
          (case edge_config_validate (Some c) of
             Some verr \<Rightarrow>
               (- 1, snd (emit_event core
                  (zero_event\<lparr>ev_type := EDGE_EVENT_CONFIG_REJECTED,
                              ev_reason := c_copy 96 (c_copy 96 verr)\<rparr>)))
           | None \<Rightarrow>
               (let gen = generation (ec_cfg core) + 1;
                    nxt = c\<lparr>generation := (if gen = 0 then 1 else gen)\<rparr>;
                    core1 = core\<lparr>ec_cfg := nxt, ec_cfg_applied := True\<rparr>
                in (0, snd (emit_event core1
                     (zero_event\<lparr>ev_type := EDGE_EVENT_CONFIG_APPLIED,
                        ev_reason := c_copy 96 (''CONFIG_APPLIED gen='' @
                          dec_nat (unat (generation nxt)) @ '' port='' @
                          dec_nat (unat (listen_port nxt)))\<rparr>))))))"

definition edgecore_notify_config_rejected :: "edgecore \<Rightarrow> string option \<Rightarrow> int \<times> edgecore" where
  "edgecore_notify_config_rejected core reason =
     (let r = (case reason of
                 None \<Rightarrow> ''CONFIG_REJECTED''
               | Some t \<Rightarrow> if t \<noteq> [] then t else ''CONFIG_REJECTED'');
          (rc, core1) = emit_event core
            (zero_event\<lparr>ev_type := EDGE_EVENT_CONFIG_REJECTED, ev_reason := c_copy 96 r\<rparr>)
      in (if rc = 0 then 0 else - 1, core1))"

definition edgecore_config :: "edgecore \<Rightarrow> edge_config" where
  "edgecore_config core = ec_cfg core"

end
