(* ===== verification/Edgecore_Spec.thy ===== *)
theory Edgecore_Spec
  imports Edgecore
begin

text \<open>
  Correctness of the core: the abstract core (a bounded FIFO of events, a finite map from
  allocation ids to buffers in one of three life-cycle states, a configuration), the
  invariant of the ring and of the slot table, and the refinement of every operation.
  Allocation ids come from a 32-bit counter, so the refinement is bounded by the number of
  allocations that keep the counter from wrapping around.
\<close>

section \<open>The event ring\<close>

definition ring_wf :: "edgecore \<Rightarrow> bool" where
  "ring_wf c \<longleftrightarrow>
     0 < ec_qsz c \<and> length (ec_events c) = ec_qsz c \<and> ec_head c < ec_qsz c \<and>
     ec_cnt c \<le> ec_qsz c \<and> ec_tail c = (ec_head c + ec_cnt c) mod ec_qsz c"

definition core_queue :: "edgecore \<Rightarrow> edge_event list" where
  "core_queue c = ring_list (ec_events c) (ec_head c) (ec_cnt c)"

lemma length_core_queue [simp]: "length (core_queue c) = ec_cnt c"
  by (simp add: core_queue_def)

definition spec_emit :: "nat \<Rightarrow> edge_event list \<Rightarrow> edge_event \<Rightarrow> int \<times> edge_event list" where
  "spec_emit cap q ev =
     (if cap \<le> length q then (- 1, overflow_event # tl q) else (0, q @ [ev]))"

lemma emit_frame [simp]:
  "ec_qsz (snd (emit_event c ev)) = ec_qsz c" "ec_bufs (snd (emit_event c ev)) = ec_bufs c"
  "ec_next_alloc_id (snd (emit_event c ev)) = ec_next_alloc_id c"
  "ec_cfg (snd (emit_event c ev)) = ec_cfg c"
  "ec_cfg_applied (snd (emit_event c ev)) = ec_cfg_applied c"
  by (simp_all add: emit_event_def)

lemma emit_refines:
  assumes "ring_wf c"
  shows "ring_wf (snd (emit_event c ev))"
    and "spec_emit (ec_qsz c) (core_queue c) ev =
      (fst (emit_event c ev), core_queue (snd (emit_event c ev)))"
    and "ec_dropped (snd (emit_event c ev)) =
      (if ec_qsz c \<le> ec_cnt c then ec_dropped c + 1 else ec_dropped c)"
proof -
  show "ec_dropped (snd (emit_event c ev)) =
      (if ec_qsz c \<le> ec_cnt c then ec_dropped c + 1 else ec_dropped c)"
    by (simp add: emit_event_def)
  show "ring_wf (snd (emit_event c ev))"
    using assms by (simp add: emit_event_def ring_wf_def mod_simps)
  show "spec_emit (ec_qsz c) (core_queue c) ev =
      (fst (emit_event c ev), core_queue (snd (emit_event c ev)))"
  proof (cases "ec_qsz c \<le> ec_cnt c")
    case True
    with assms ring_list_overwrite_head [of "ec_head c" "ec_events c" "ec_cnt c" overflow_event]
    show ?thesis by (simp add: spec_emit_def emit_event_def core_queue_def ring_wf_def)
  next
    case False
    with assms ring_list_push [of "ec_cnt c" "ec_events c" "ec_head c" ev]
    show ?thesis by (simp add: spec_emit_def emit_event_def core_queue_def ring_wf_def)
  qed
qed

definition spec_next :: "edge_event list \<Rightarrow> (int \<times> edge_event) \<times> edge_event list" where
  "spec_next q = (case q of [] \<Rightarrow> ((0, zero_event), []) | ev # q' \<Rightarrow> ((1, ev), q'))"

lemma next_refines:
  assumes "ring_wf c"
  shows "ring_wf (snd (edgecore_next_event c))"
    and "spec_next (core_queue c) =
      (fst (edgecore_next_event c), core_queue (snd (edgecore_next_event c)))"
proof -
  show "ring_wf (snd (edgecore_next_event c))"
    using assms ring_tail_pop [of "ec_cnt c" "ec_head c" "ec_qsz c"]
    by (auto simp: edgecore_next_event_def ring_wf_def)
  show "spec_next (core_queue c) =
      (fst (edgecore_next_event c), core_queue (snd (edgecore_next_event c)))"
  proof (cases "ec_cnt c = 0")
    case True
    then show ?thesis by (simp add: spec_next_def edgecore_next_event_def core_queue_def)
  next
    case False
    with assms ring_list_pop [of "ec_head c" "ec_events c" "ec_cnt c"]
    show ?thesis by (simp add: spec_next_def edgecore_next_event_def core_queue_def ring_wf_def)
  qed
qed

lemma next_frame [simp]:
  "ec_qsz (snd (edgecore_next_event c)) = ec_qsz c"
  "ec_bufs (snd (edgecore_next_event c)) = ec_bufs c"
  "ec_next_alloc_id (snd (edgecore_next_event c)) = ec_next_alloc_id c"
  "ec_cfg (snd (edgecore_next_event c)) = ec_cfg c"
  "ec_dropped (snd (edgecore_next_event c)) = ec_dropped c"
  "ec_cfg_applied (snd (edgecore_next_event c)) = ec_cfg_applied c"
  by (simp_all add: edgecore_next_event_def)

text \<open>The ring as a bounded queue: \<open>pop\<close> is \<open>edgecore_next_event\<close> returning 1.\<close>

definition core_push :: "edge_event \<Rightarrow> edgecore \<Rightarrow> edgecore" where
  "core_push ev c = snd (emit_event c ev)"

definition core_pop :: "edgecore \<Rightarrow> (edge_event \<times> edgecore) option" where
  "core_pop c =
     (case edgecore_next_event c of ((rc, ev), c') \<Rightarrow> if rc = 1 then Some (ev, c') else None)"

interpretation event_queue: bounded_queue ring_wf core_queue ec_qsz core_push core_pop
proof (unfold_locales, goal_cases)
  case (1 q)
  then show ?case by (simp add: ring_wf_def)
next
  case (2 q x)
  then show ?case by (simp add: core_push_def emit_refines)
next
  case (3 q x)
  then show ?case by (simp add: core_push_def)
next
  case (4 q x)
  then show ?case using emit_refines(2) [of q x] by (simp add: core_push_def spec_emit_def)
next
  case (5 q)
  then show ?case
    using next_refines(2) [of q] by (auto simp: core_pop_def spec_next_def split: prod.splits)
next
  case (6 q x xs)
  obtain rc ev q' where n: "edgecore_next_event q = ((rc, ev), q')" by (metis surj_pair)
  with 6 next_refines [of q] next_frame(1) [of q] show ?case
    by (auto simp: core_pop_def spec_next_def)
qed

section \<open>The buffer table\<close>

interpretation buf_table: slot_table slot_used bs_alloc_id "\<lambda>_. zero_slot"
  by unfold_locales (simp add: slot_used_def zero_slot_def)

text \<open>The life cycle of a buffer: memory was asked for, asked for again while the old block is
  still there, or provided.\<close>

datatype buffer =
    Wanted edge_buf_kind nat
  | Growing edge_buf_kind nat nat nat
  | Ready edge_buf_kind nat nat

definition abs_buffer :: "edge_buf_slot \<Rightarrow> buffer" where
  "abs_buffer s =
     (if bs_state s = EDGE_BUF_SLOT_READY then Ready (bs_kind s) (the (bs_ptr s)) (bs_size s)
      else (case bs_ptr s of
              None \<Rightarrow> Wanted (bs_kind s) (bs_requested s)
            | Some p \<Rightarrow> Growing (bs_kind s) (bs_requested s) p (bs_size s)))"

definition bufs_map :: "edge_buf_slot list \<Rightarrow> u32 \<rightharpoonup> buffer" where
  "bufs_map bs = (\<lambda>q. map_option abs_buffer (slot_map slot_used bs_alloc_id bs q))"

definition slot_ok :: "u32 \<Rightarrow> edge_buf_slot \<Rightarrow> bool" where
  "slot_ok nxt s \<longleftrightarrow> bs_alloc_id s \<noteq> 0 \<and> bs_alloc_id s < nxt \<and>
     (bs_ptr s = None \<longrightarrow> bs_state s = EDGE_BUF_SLOT_PENDING \<and> bs_size s = 0)"

definition bufs_wf :: "u32 \<Rightarrow> edge_buf_slot list \<Rightarrow> bool" where
  "bufs_wf nxt bs \<longleftrightarrow> length bs = EDGECORE_MAX_BUFS \<and> slots_distinct slot_used bs_alloc_id bs \<and>
     (\<forall>s\<in>set bs. slot_used s \<longrightarrow> slot_ok nxt s)"

lemma bufs_wf_mono: "bufs_wf n bs \<Longrightarrow> n \<le> m \<Longrightarrow> bufs_wf m bs"
  by (auto simp: bufs_wf_def slot_ok_def)

lemma bufs_map_None:
  assumes "bufs_wf nxt bs" "nxt \<le> q \<or> q = 0"
  shows "bufs_map bs q = None"
proof -
  have "\<not> (slot_used s \<and> bs_alloc_id s = q)" if "s \<in> set bs" for s
    using assms that by (auto simp: bufs_wf_def slot_ok_def)
  then show ?thesis by (simp add: bufs_map_def slot_map_None_iff)
qed

lemma card_bufs_map: "bufs_wf nxt bs \<Longrightarrow> card (dom (bufs_map bs)) = used_count slot_used bs"
  using buf_table.card_dom [of bs] by (simp add: bufs_map_def bufs_wf_def dom_def)

lemma wf_update:
  assumes "bufs_wf nxt bs" "slots_distinct slot_used bs_alloc_id (bs[i := s])"
    and "slot_used s \<Longrightarrow> slot_ok nxt s"
  shows "bufs_wf nxt (bs[i := s])"
proof -
  have "set (bs[i := s]) \<subseteq> insert s (set bs)" by (rule set_update_subset_insert)
  with assms show ?thesis by (auto simp: bufs_wf_def)
qed

lemma bufs_fill:
  assumes wf: "bufs_wf nxt bs" and i: "find_first (\<lambda>s. \<not> slot_used s) bs = Some i"
    and s: "slot_used s" "slot_ok nxt s" "bufs_map bs (bs_alloc_id s) = None"
  shows "bufs_wf nxt (bs[i := s])" "bufs_map (bs[i := s]) = (bufs_map bs)(bs_alloc_id s \<mapsto> abs_buffer s)"
    "i < length bs"
proof -
  have d: "slots_distinct slot_used bs_alloc_id bs" using wf by (simp add: bufs_wf_def)
  have f: "i < length bs" "\<not> slot_used (bs ! i)" using find_first_SomeD [OF i] by auto
  have n: "slot_map slot_used bs_alloc_id bs (bs_alloc_id s) = None" using s(3) by (simp add: bufs_map_def)
  show "i < length bs" by (rule f(1))
  show "bufs_wf nxt (bs[i := s])"
    using wf_update [OF wf buf_table.distinct_fill [OF d f n]] s(2) by blast
  show "bufs_map (bs[i := s]) = (bufs_map bs)(bs_alloc_id s \<mapsto> abs_buffer s)"
    using buf_table.map_fill [OF d f n s(1)] by (auto simp: bufs_map_def)
qed

lemma bufs_replace:
  assumes wf: "bufs_wf nxt bs" and i: "i < length bs" "slot_used (bs ! i)"
    and s: "bs_alloc_id s = bs_alloc_id (bs ! i)" "slot_used s" "slot_ok nxt s"
  shows "bufs_wf nxt (bs[i := s])" "bufs_map (bs[i := s]) = (bufs_map bs)(bs_alloc_id s \<mapsto> abs_buffer s)"
proof -
  have d: "slots_distinct slot_used bs_alloc_id bs" using wf by (simp add: bufs_wf_def)
  show "bufs_wf nxt (bs[i := s])"
    using wf_update [OF wf buf_table.distinct_replace [OF d i s(1)]] s(3) by blast
  show "bufs_map (bs[i := s]) = (bufs_map bs)(bs_alloc_id s \<mapsto> abs_buffer s)"
    using buf_table.map_replace [OF d i s(1,2)] by (auto simp: bufs_map_def)
qed

lemma bufs_clear:
  assumes wf: "bufs_wf nxt bs" and i: "i < length bs" "slot_used (bs ! i)"
  shows "bufs_wf nxt (bs[i := zero_slot])"
    "bufs_map (bs[i := zero_slot]) = (bufs_map bs)(bs_alloc_id (bs ! i) := None)"
proof -
  have d: "slots_distinct slot_used bs_alloc_id bs" using wf by (simp add: bufs_wf_def)
  show "bufs_wf nxt (bs[i := zero_slot])"
    using wf_update [OF wf buf_table.distinct_clear [OF d]] by (simp add: slot_used_def zero_slot_def)
  show "bufs_map (bs[i := zero_slot]) = (bufs_map bs)(bs_alloc_id (bs ! i) := None)"
    using buf_table.map_clear [OF d i] by (auto simp: bufs_map_def)
qed

lemma find_slot_cases:
  assumes wf: "bufs_wf nxt (ec_bufs c)"
  obtains (absent) "find_slot_by_id c q = None" "bufs_map (ec_bufs c) q = None"
  | (present) i where "q \<noteq> 0" "find_slot_by_id c q = Some i" "i < length (ec_bufs c)"
      "slot_used (ec_bufs c ! i)" "bs_alloc_id (ec_bufs c ! i) = q" "slot_ok nxt (ec_bufs c ! i)"
      "bufs_map (ec_bufs c) q = Some (abs_buffer (ec_bufs c ! i))"
proof (cases "find_slot_by_id c q")
  case None
  then have "bufs_map (ec_bufs c) q = None"
    using bufs_map_None [OF wf, of q] slot_find_map [of slot_used bs_alloc_id "ec_bufs c" q]
    by (cases "q = 0") (auto simp: find_slot_by_id_def slot_find_def bufs_map_def)
  with None show ?thesis by (rule absent)
next
  case (Some i)
  then have q: "q \<noteq> 0" and s: "slot_find slot_used bs_alloc_id (ec_bufs c) q = Some i"
    by (auto simp: find_slot_by_id_def slot_find_def split: if_splits)
  note f = slot_find_SomeD [OF s]
  have "slot_ok nxt (ec_bufs c ! i)" using wf f by (auto simp: bufs_wf_def)
  then show ?thesis
    using present [OF q Some] f s by (simp add: bufs_map_def slot_map_def)
qed

section \<open>The abstract core\<close>

record core_spec =
  cs_queue :: "edge_event list"
  cs_dropped :: u64
  cs_bufs :: "u32 \<rightharpoonup> buffer"
  cs_next :: u32
  cs_cfg :: edge_config
  cs_applied :: bool

definition core_view :: "edgecore \<Rightarrow> core_spec" where
  "core_view c =
     \<lparr>cs_queue = core_queue c, cs_dropped = ec_dropped c, cs_bufs = bufs_map (ec_bufs c),
      cs_next = ec_next_alloc_id c, cs_cfg = ec_cfg c, cs_applied = ec_cfg_applied c\<rparr>"

definition cs_emit :: "nat \<Rightarrow> edge_event \<Rightarrow> core_spec \<Rightarrow> int \<times> core_spec" where
  "cs_emit cap ev m =
     (let (rc, q) = spec_emit cap (cs_queue m) ev
      in (rc, m\<lparr>cs_queue := q, cs_dropped := (if rc = 0 then cs_dropped m else cs_dropped m + 1)\<rparr>))"

definition spec_alloc :: "nat \<Rightarrow> edge_buf_kind \<Rightarrow> nat \<Rightarrow> core_spec \<Rightarrow> u32 \<times> core_spec" where
  "spec_alloc cap kind sz m =
     (if sz = 0 \<or> kind = EDGE_BUF_NONE \<or> EDGECORE_MAX_BUFS \<le> card (dom (cs_bufs m)) then (0, m)
      else (let aid = cs_next m;
                (rc, m1) = cs_emit cap (need_alloc_event aid kind sz) (m\<lparr>cs_next := aid + 1\<rparr>)
            in if rc = 0 then (aid, m1\<lparr>cs_bufs := (cs_bufs m)(aid \<mapsto> Wanted kind sz)\<rparr>)
               else (0, m1)))"

definition grow_event :: "u32 \<Rightarrow> edge_buf_kind \<Rightarrow> nat \<Rightarrow> nat \<Rightarrow> nat \<Rightarrow> edge_event" where
  "grow_event aid kind p old n =
     need_realloc_event aid \<lparr>bs_state = EDGE_BUF_SLOT_PENDING, bs_kind = kind, bs_alloc_id = aid,
       bs_ptr = Some p, bs_size = old, bs_requested = n\<rparr> n"

definition spec_realloc :: "nat \<Rightarrow> u32 \<Rightarrow> nat \<Rightarrow> core_spec \<Rightarrow> int \<times> core_spec" where
  "spec_realloc cap aid n m =
     (if n = 0 then (- 1, m)
      else (case cs_bufs m aid of
              Some (Ready kind p old) \<Rightarrow>
                (let (rc, m1) = cs_emit cap (grow_event aid kind p old n) m
                 in if rc = 0 then (0, m1\<lparr>cs_bufs := (cs_bufs m)(aid \<mapsto> Growing kind n p old)\<rparr>)
                    else (- 1, m1))
            | _ \<Rightarrow> (- 1, m)))"

definition spec_provide :: "u32 \<Rightarrow> nat option \<Rightarrow> nat \<Rightarrow> core_spec \<Rightarrow> int \<times> core_spec" where
  "spec_provide aid ptr sz m =
     (case ptr of
        None \<Rightarrow> (- 1, m)
      | Some p \<Rightarrow>
          if sz = 0 then (- 1, m)
          else (case cs_bufs m aid of
                  Some (Wanted kind req) \<Rightarrow>
                    if sz < req then (- 1, m)
                    else (0, m\<lparr>cs_bufs := (cs_bufs m)(aid \<mapsto> Ready kind p sz)\<rparr>)
                | Some (Growing kind req _ _) \<Rightarrow>
                    if sz < req then (- 1, m)
                    else (0, m\<lparr>cs_bufs := (cs_bufs m)(aid \<mapsto> Ready kind p sz)\<rparr>)
                | _ \<Rightarrow> (- 1, m)))"

fun buffer_memory :: "buffer \<Rightarrow> nat option \<times> nat" where
  "buffer_memory (Wanted kind req) = (None, 0)"
| "buffer_memory (Growing kind req p old) = (Some p, old)"
| "buffer_memory (Ready kind p sz) = (Some p, sz)"

definition spec_detach :: "u32 \<Rightarrow> core_spec \<Rightarrow> (int \<times> (nat option \<times> nat) option) \<times> core_spec" where
  "spec_detach aid m =
     (case cs_bufs m aid of
        None \<Rightarrow> ((- 1, None), m)
      | Some b \<Rightarrow> ((0, Some (buffer_memory b)), m\<lparr>cs_bufs := (cs_bufs m)(aid := None)\<rparr>))"

section \<open>Refinement of the operations\<close>

definition core_inv :: "nat \<Rightarrow> edgecore \<Rightarrow> bool" where
  "core_inv n c \<longleftrightarrow> ring_wf c \<and> bufs_wf (ec_next_alloc_id c) (ec_bufs c) \<and>
     0 < ec_next_alloc_id c \<and> unat (ec_next_alloc_id c) + n < 2 ^ 32"

lemma core_inv_mono: "core_inv n c \<Longrightarrow> m \<le> n \<Longrightarrow> core_inv m c"
  by (simp add: core_inv_def)

lemma next_id_bound:
  assumes "core_inv (Suc n) c"
  shows "ec_next_alloc_id c + 1 \<noteq> 0" "ec_next_alloc_id c < ec_next_alloc_id c + 1"
    "unat (ec_next_alloc_id c + 1) = Suc (unat (ec_next_alloc_id c))"
proof -
  let ?x = "ec_next_alloc_id c"
  have "unat ?x + 1 < 2 ^ 32" using assms by (simp add: core_inv_def)
  then have u: "unat (?x + 1) = unat ?x + 1"
    by (simp add: unat_word_ariths(1))
  then show "unat (?x + 1) = Suc (unat ?x)" by simp
  show "?x + 1 \<noteq> 0" using u by (metis add_is_0 one_neq_zero unat_0)
  show "?x < ?x + 1" using u by (simp add: word_less_nat_alt)
qed

lemma set_slot_simps [simp]:
  "ec_qsz (set_slot i s c) = ec_qsz c" "ec_events (set_slot i s c) = ec_events c"
  "ec_head (set_slot i s c) = ec_head c" "ec_tail (set_slot i s c) = ec_tail c"
  "ec_cnt (set_slot i s c) = ec_cnt c" "ec_dropped (set_slot i s c) = ec_dropped c"
  "ec_bufs (set_slot i s c) = (ec_bufs c)[i := s]"
  "ec_next_alloc_id (set_slot i s c) = ec_next_alloc_id c"
  "ec_cfg (set_slot i s c) = ec_cfg c" "ec_cfg_applied (set_slot i s c) = ec_cfg_applied c"
  by (simp_all add: set_slot_def)

lemma ring_wf_cong [simp]:
  "ring_wf (set_slot i s c) = ring_wf c" "ring_wf (c\<lparr>ec_next_alloc_id := n\<rparr>) = ring_wf c"
  "ring_wf (c\<lparr>ec_cfg := g, ec_cfg_applied := b\<rparr>) = ring_wf c"
  by (simp_all add: ring_wf_def)

lemma view_set_slot:
  "core_view (set_slot i s c) = (core_view c)\<lparr>cs_bufs := bufs_map ((ec_bufs c)[i := s])\<rparr>"
  by (simp add: core_view_def core_queue_def)

lemma view_next: "core_view (c\<lparr>ec_next_alloc_id := n\<rparr>) = (core_view c)\<lparr>cs_next := n\<rparr>"
  by (simp add: core_view_def core_queue_def)

lemma view_emit:
  assumes "ring_wf c"
  shows "core_view (snd (emit_event c ev)) = snd (cs_emit (ec_qsz c) ev (core_view c))"
    and "fst (emit_event c ev) = fst (cs_emit (ec_qsz c) ev (core_view c))"
  using emit_refines [OF assms, of ev] by (auto simp: core_view_def cs_emit_def emit_event_def)

lemma cs_emit_frame [simp]:
  "cs_bufs (snd (cs_emit cap ev m)) = cs_bufs m" "cs_next (snd (cs_emit cap ev m)) = cs_next m"
  "cs_cfg (snd (cs_emit cap ev m)) = cs_cfg m"
  "cs_emit cap ev (m\<lparr>cs_bufs := b\<rparr>) =
    (fst (cs_emit cap ev m), (snd (cs_emit cap ev m))\<lparr>cs_bufs := b\<rparr>)"
  by (simp_all add: cs_emit_def split: prod.splits)

lemma core_view_sel [simp]:
  "cs_bufs (core_view c) = bufs_map (ec_bufs c)" "cs_next (core_view c) = ec_next_alloc_id c"
  "cs_cfg (core_view c) = ec_cfg c" "cs_queue (core_view c) = core_queue c"
  "cs_dropped (core_view c) = ec_dropped c" "cs_applied (core_view c) = ec_cfg_applied c"
  by (simp_all add: core_view_def)

lemma mint_fresh:
  assumes "core_inv (Suc n) c"
  shows "mint_alloc_id c =
    (ec_next_alloc_id c, c\<lparr>ec_next_alloc_id := ec_next_alloc_id c + 1\<rparr>)"
  using assms next_id_bound [OF assms] by (auto simp: mint_alloc_id_def core_inv_def Let_def)

text \<open>Filling a free slot and, when the request cannot be announced, clearing it again.\<close>

lemma bufs_fill_undo:
  assumes wf: "bufs_wf nxt bs" and i: "find_first (\<lambda>s. \<not> slot_used s) bs = Some i"
    and s: "slot_used s" "slot_ok nxt s" "bufs_map bs (bs_alloc_id s) = None"
  shows "bufs_wf nxt (bs[i := zero_slot])" "bufs_map (bs[i := zero_slot]) = bufs_map bs"
proof -
  note f = bufs_fill [OF assms]
  have "i < length (bs[i := s])" "slot_used (bs[i := s] ! i)" using f(3) s(1) by simp_all
  note cl = bufs_clear [OF f(1) this]
  then show "bufs_wf nxt (bs[i := zero_slot])" "bufs_map (bs[i := zero_slot]) = bufs_map bs"
    using f s(3) by (simp_all add: fun_upd_idem)
qed

lemma alloc_no_slot:
  assumes inv: "core_inv (Suc n) c" and none: "find_free_slot c = None"
  shows "spec_alloc cap kind sz (core_view c) = (0, core_view c)"
proof -
  have wf: "bufs_wf (ec_next_alloc_id c) (ec_bufs c)" using inv by (simp add: core_inv_def)
  then have "card (dom (bufs_map (ec_bufs c))) = EDGECORE_MAX_BUFS"
    using none used_count_full [of slot_used "ec_bufs c"]
    by (simp add: find_free_slot_def card_bufs_map [OF wf]) (simp add: bufs_wf_def)
  then show ?thesis by (simp add: spec_alloc_def)
qed

lemma alloc_slot:
  assumes inv: "core_inv (Suc n) c" and some: "find_free_slot c = Some i"
    and args: "sz \<noteq> 0" "kind \<noteq> EDGE_BUF_NONE"
  defines "aid \<equiv> ec_next_alloc_id c"
  defines "s \<equiv> \<lparr>bs_state = EDGE_BUF_SLOT_PENDING, bs_kind = kind, bs_alloc_id = aid,
      bs_ptr = None, bs_size = 0, bs_requested = sz\<rparr>"
  defines "c1 \<equiv> set_slot i s (c\<lparr>ec_next_alloc_id := aid + 1\<rparr>)"
  shows "ring_wf c1" "bufs_wf (aid + 1) (ec_bufs c1)"
    "bufs_wf (aid + 1) ((ec_bufs c)[i := zero_slot])"
    "bufs_map ((ec_bufs c)[i := zero_slot]) = bufs_map (ec_bufs c)"
    "core_view c1 =
      (core_view c)\<lparr>cs_next := aid + 1, cs_bufs := (bufs_map (ec_bufs c))(aid \<mapsto> Wanted kind sz)\<rparr>"
    "card (dom (bufs_map (ec_bufs c))) < EDGECORE_MAX_BUFS"
    "edgecore_request_alloc c kind sz =
      (let (rc, c3) = emit_event c1 (need_alloc_event aid kind sz)
       in if rc \<noteq> 0 then (0, set_slot i zero_slot c3) else (aid, c3))"
proof -
  have wf: "bufs_wf aid (ec_bufs c)" and ring: "ring_wf c" and pos: "aid \<noteq> 0"
    using inv by (auto simp: core_inv_def aid_def)
  have up: "aid < aid + 1" using next_id_bound [OF inv] by (simp add: aid_def)
  have wf1: "bufs_wf (aid + 1) (ec_bufs c)" using wf up by (simp add: bufs_wf_mono)
  have s: "slot_used s" "slot_ok (aid + 1) s" "bs_alloc_id s = aid" "abs_buffer s = Wanted kind sz"
    using pos up by (simp_all add: s_def slot_used_def slot_ok_def abs_buffer_def)
  have free: "bufs_map (ec_bufs c) (bs_alloc_id s) = None"
    using bufs_map_None [OF wf, of aid] s(3) by simp
  note first = some [unfolded find_free_slot_def]
  note f = bufs_fill [OF wf1 first s(1,2) free] and u = bufs_fill_undo [OF wf1 first s(1,2) free]
  show "ring_wf c1" using ring by (simp add: c1_def)
  show "bufs_wf (aid + 1) (ec_bufs c1)" using f(1) by (simp add: c1_def)
  show "bufs_wf (aid + 1) ((ec_bufs c)[i := zero_slot])"
    "bufs_map ((ec_bufs c)[i := zero_slot]) = bufs_map (ec_bufs c)" using u by simp_all
  show "core_view c1 =
      (core_view c)\<lparr>cs_next := aid + 1, cs_bufs := (bufs_map (ec_bufs c))(aid \<mapsto> Wanted kind sz)\<rparr>"
    using f(2) s by (simp add: c1_def view_set_slot view_next)
  show "card (dom (bufs_map (ec_bufs c))) < EDGECORE_MAX_BUFS"
    using first wf used_count_full [of slot_used "ec_bufs c"] used_count_le [of slot_used "ec_bufs c"]
    by (auto simp: card_bufs_map bufs_wf_def)
  show "edgecore_request_alloc c kind sz =
      (let (rc, c3) = emit_event c1 (need_alloc_event aid kind sz)
       in if rc \<noteq> 0 then (0, set_slot i zero_slot c3) else (aid, c3))"
    using args by (simp add: edgecore_request_alloc_def some mint_fresh [OF inv] s_def c1_def
        aid_def Let_def case_prod_beta)
qed

lemma alloc_refines:
  assumes inv: "core_inv (Suc n) c"
  shows "core_inv n (snd (edgecore_request_alloc c kind sz)) \<and>
    spec_alloc (ec_qsz c) kind sz (core_view c) =
      (fst (edgecore_request_alloc c kind sz), core_view (snd (edgecore_request_alloc c kind sz)))"
proof (cases "find_free_slot c = None \<or> sz = 0 \<or> kind = EDGE_BUF_NONE")
  case True
  then have "edgecore_request_alloc c kind sz = (0, c)" by (auto simp: edgecore_request_alloc_def)
  moreover have "spec_alloc (ec_qsz c) kind sz (core_view c) = (0, core_view c)"
    using True alloc_no_slot [OF inv, of "ec_qsz c" kind sz]
    by (cases "find_free_slot c = None") (auto simp: spec_alloc_def)
  ultimately show ?thesis using core_inv_mono [OF inv, of n] by simp
next
  case False
  then obtain i where i: "find_free_slot c = Some i" and args: "sz \<noteq> 0" "kind \<noteq> EDGE_BUF_NONE"
    by auto
  let ?id = "ec_next_alloc_id c"
  let ?c1 = "set_slot i \<lparr>bs_state = EDGE_BUF_SLOT_PENDING, bs_kind = kind, bs_alloc_id = ?id,
      bs_ptr = None, bs_size = 0, bs_requested = sz\<rparr> (c\<lparr>ec_next_alloc_id := ?id + 1\<rparr>)"
  let ?ev = "need_alloc_event ?id kind sz"
  note a = alloc_slot [OF inv i args]
  define c3 where "c3 = snd (emit_event ?c1 ?ev)"
  have c3: "ring_wf c3" "ec_bufs c3 = ec_bufs ?c1" "ec_next_alloc_id c3 = ?id + 1"
    using emit_refines(1) [OF a(1)] by (simp_all add: c3_def)
  have e: "core_view c3 = snd (cs_emit (ec_qsz c) ?ev (core_view ?c1))"
    "fst (emit_event ?c1 ?ev) = fst (cs_emit (ec_qsz c) ?ev (core_view ?c1))"
    using view_emit [OF a(1)] by (simp_all add: c3_def)
  have len: "unat (?id + 1) + n < 2 ^ 32" "0 < ?id + 1"
    using inv next_id_bound [OF inv] by (auto simp: core_inv_def word_neq_0_conv)
  have wf3: "core_inv n (snd (edgecore_request_alloc c kind sz))"
    using a(2,3) c3 len
    by (simp add: a(7) case_prod_beta Let_def c3_def [symmetric] core_inv_def)
  have undone: "core_view (set_slot i zero_slot c3) =
      (core_view c3)\<lparr>cs_bufs := bufs_map (ec_bufs c)\<rparr>"
    using a(4) by (simp add: view_set_slot c3(2))
  show ?thesis
    using wf3 a(6) args e undone
    by (simp add: a(5,7) spec_alloc_def case_prod_beta Let_def c3_def [symmetric] not_le)
qed

lemma emit_inv:
  assumes "ring_wf c" "bufs_wf (ec_next_alloc_id c) (ec_bufs c)" "0 < ec_next_alloc_id c"
    "unat (ec_next_alloc_id c) + n < 2 ^ 32"
  shows "core_inv n (snd (emit_event c ev))"
  using assms emit_refines(1) by (simp add: core_inv_def)

lemma replace_slot_refines:
  assumes inv: "core_inv n c" and i: "i < length (ec_bufs c)" "slot_used (ec_bufs c ! i)"
    and s: "bs_alloc_id s = bs_alloc_id (ec_bufs c ! i)" "slot_used s" "slot_ok (ec_next_alloc_id c) s"
  shows "core_inv n (set_slot i s c)"
    "core_view (set_slot i s c) =
      (core_view c)\<lparr>cs_bufs := (bufs_map (ec_bufs c))(bs_alloc_id s \<mapsto> abs_buffer s)\<rparr>"
proof -
  have wf: "bufs_wf (ec_next_alloc_id c) (ec_bufs c)" using inv by (simp add: core_inv_def)
  note r = bufs_replace [OF wf i s]
  show "core_inv n (set_slot i s c)" using inv r(1) by (simp add: core_inv_def)
  show "core_view (set_slot i s c) =
      (core_view c)\<lparr>cs_bufs := (bufs_map (ec_bufs c))(bs_alloc_id s \<mapsto> abs_buffer s)\<rparr>"
    by (simp add: view_set_slot r(2))
qed

lemma abs_buffer_cases:
  assumes "slot_used s" "slot_ok nxt s"
  obtains (wanted) "bs_state s = EDGE_BUF_SLOT_PENDING" "bs_ptr s = None" "bs_size s = 0"
      "abs_buffer s = Wanted (bs_kind s) (bs_requested s)"
  | (growing) p where "bs_state s = EDGE_BUF_SLOT_PENDING" "bs_ptr s = Some p"
      "abs_buffer s = Growing (bs_kind s) (bs_requested s) p (bs_size s)"
  | (ready) p where "bs_state s = EDGE_BUF_SLOT_READY" "bs_ptr s = Some p"
      "abs_buffer s = Ready (bs_kind s) p (bs_size s)"
  using assms
  by (cases "bs_state s"; cases "bs_ptr s") (auto simp: slot_used_def slot_ok_def abs_buffer_def)

lemma provide_refines:
  assumes inv: "core_inv n c"
  shows "core_inv n (snd (edgecore_provide_buffer c aid ptr sz)) \<and>
    spec_provide aid ptr sz (core_view c) =
      (fst (edgecore_provide_buffer c aid ptr sz), core_view (snd (edgecore_provide_buffer c aid ptr sz)))"
proof -
  have wf: "bufs_wf (ec_next_alloc_id c) (ec_bufs c)" using inv by (simp add: core_inv_def)
  show ?thesis
  proof (cases rule: find_slot_cases [OF wf, of aid, case_names absent present])
    case absent
    with inv show ?thesis
      by (auto simp: edgecore_provide_buffer_def spec_provide_def split: option.split)
  next
    case (present i)
    let ?s = "ec_bufs c ! i"
    have new: "core_inv n (set_slot i (?s\<lparr>bs_ptr := Some p, bs_size := sz, bs_state := EDGE_BUF_SLOT_READY\<rparr>) c)"
      "core_view (set_slot i (?s\<lparr>bs_ptr := Some p, bs_size := sz, bs_state := EDGE_BUF_SLOT_READY\<rparr>) c) =
        (core_view c)\<lparr>cs_bufs := (bufs_map (ec_bufs c))(aid \<mapsto> Ready (bs_kind ?s) p sz)\<rparr>" for p
      using replace_slot_refines [OF inv present(3,4), of
          "?s\<lparr>bs_ptr := Some p, bs_size := sz, bs_state := EDGE_BUF_SLOT_READY\<rparr>"] present(5,6)
      by (simp_all add: slot_used_def slot_ok_def abs_buffer_def)
    show ?thesis
      by (cases rule: abs_buffer_cases [OF present(4,6), case_names wanted growing ready])
         (use present(1,2,7) inv new in
           \<open>auto simp: edgecore_provide_buffer_def spec_provide_def Let_def split: option.split\<close>)
  qed
qed

lemma detach_refines:
  assumes inv: "core_inv n c"
  shows "core_inv n (snd (edgecore_detach_buffer c aid)) \<and>
    spec_detach aid (core_view c) =
      (fst (edgecore_detach_buffer c aid), core_view (snd (edgecore_detach_buffer c aid)))"
proof -
  have wf: "bufs_wf (ec_next_alloc_id c) (ec_bufs c)" using inv by (simp add: core_inv_def)
  show ?thesis
  proof (cases rule: find_slot_cases [OF wf, of aid, case_names absent present])
    case absent
    with inv show ?thesis by (simp add: edgecore_detach_buffer_def spec_detach_def)
  next
    case (present i)
    note cl = bufs_clear [OF wf present(3,4)]
    have new: "core_inv n (set_slot i zero_slot c)"
      "core_view (set_slot i zero_slot c) =
        (core_view c)\<lparr>cs_bufs := (bufs_map (ec_bufs c))(aid := None)\<rparr>"
      using inv cl present(5) by (simp_all add: core_inv_def view_set_slot)
    show ?thesis
      by (cases rule: abs_buffer_cases [OF present(4,6), case_names wanted growing ready])
         (use present(1,2,7) new in \<open>simp_all add: edgecore_detach_buffer_def spec_detach_def\<close>)
  qed
qed

lemma core_next_refines:
  assumes inv: "core_inv n c"
  shows "core_inv n (snd (edgecore_next_event c)) \<and>
    fst (spec_next (core_queue c)) = fst (edgecore_next_event c) \<and>
    core_view (snd (edgecore_next_event c)) =
      (core_view c)\<lparr>cs_queue := snd (spec_next (core_queue c))\<rparr>"
proof -
  have "ring_wf c" using inv by (simp add: core_inv_def)
  from next_refines [OF this] inv show ?thesis by (simp add: core_inv_def core_view_def)
qed

lemma core_emit_inv: "core_inv n c \<Longrightarrow> core_inv n (snd (emit_event c ev))"
  by (simp add: core_inv_def emit_refines)

lemma core_inv_cfg [simp]: "core_inv n (c\<lparr>ec_cfg := g, ec_cfg_applied := b\<rparr>) = core_inv n c"
  by (simp add: core_inv_def)

lemma view_cfg: "core_view (c\<lparr>ec_cfg := g, ec_cfg_applied := b\<rparr>) =
    (core_view c)\<lparr>cs_cfg := g, cs_applied := b\<rparr>"
  by (simp add: core_view_def core_queue_def)

lemma realloc_not_ready:
  assumes "core_inv n c" "\<nexists>k p s. bufs_map (ec_bufs c) aid = Some (Ready k p s)"
  shows "edgecore_request_realloc c aid m = (- 1, c)"
proof -
  have wf: "bufs_wf (ec_next_alloc_id c) (ec_bufs c)" using assms by (simp add: core_inv_def)
  show ?thesis
  proof (cases rule: find_slot_cases [OF wf, of aid, case_names absent present])
    case absent
    then show ?thesis by (simp add: edgecore_request_realloc_def)
  next
    case (present i)
    with assms(2) show ?thesis
      by (cases rule: abs_buffer_cases [OF present(4,6), case_names wanted growing ready])
         (auto simp: edgecore_request_realloc_def)
  qed
qed

lemma realloc_ready:
  assumes inv: "core_inv n c" and b: "bufs_map (ec_bufs c) aid = Some (Ready kind p old)" and m: "m \<noteq> 0"
  obtains i s1 where "core_inv n (set_slot i s1 c)"
    "core_view (set_slot i s1 c) =
      (core_view c)\<lparr>cs_bufs := (bufs_map (ec_bufs c))(aid \<mapsto> Growing kind m p old)\<rparr>"
    "edgecore_request_realloc c aid m =
      (let (rc, c2) = emit_event (set_slot i s1 c) (grow_event aid kind p old m)
       in if rc \<noteq> 0
          then (- 1, set_slot i (s1\<lparr>bs_state := EDGE_BUF_SLOT_READY, bs_requested := bs_size s1\<rparr>) c2)
          else (0, c2))"
    "i < length (ec_bufs c)" "slot_used s1" "slot_ok (ec_next_alloc_id c) s1" "bs_alloc_id s1 = aid"
    "bs_kind s1 = kind" "bs_ptr s1 = Some p" "bs_size s1 = old"
proof -
  have wf: "bufs_wf (ec_next_alloc_id c) (ec_bufs c)" using inv by (simp add: core_inv_def)
  show ?thesis
  proof (cases rule: find_slot_cases [OF wf, of aid, case_names absent present])
    case absent
    with b show ?thesis by simp
  next
    case (present i)
    let ?s = "ec_bufs c ! i"
    let ?s1 = "?s\<lparr>bs_state := EDGE_BUF_SLOT_PENDING, bs_requested := m\<rparr>"
    have r: "bs_state ?s = EDGE_BUF_SLOT_READY" "bs_ptr ?s = Some p" "bs_kind ?s = kind" "bs_size ?s = old"
      using b present(7)
      by (cases rule: abs_buffer_cases [OF present(4,6), case_names wanted growing ready]; simp)+
    have s1: "bs_alloc_id ?s1 = bs_alloc_id ?s" "slot_used ?s1" "slot_ok (ec_next_alloc_id c) ?s1"
      using present(6) r by (simp_all add: slot_used_def slot_ok_def)
    note rep = replace_slot_refines [OF inv present(3,4) s1]
    have a: "abs_buffer ?s1 = Growing kind m p old" using r by (simp add: abs_buffer_def)
    have ev: "need_realloc_event aid ?s1 m = grow_event aid kind p old m"
      using r by (simp add: need_realloc_event_def grow_event_def)
    show ?thesis
      by (rule that [of i ?s1])
         (use rep a ev r s1 m present in \<open>simp_all add: edgecore_request_realloc_def Let_def\<close>)
  qed
qed

lemma realloc_refines:
  assumes inv: "core_inv n c"
  shows "core_inv n (snd (edgecore_request_realloc c aid m)) \<and>
    spec_realloc (ec_qsz c) aid m (core_view c) =
      (fst (edgecore_request_realloc c aid m), core_view (snd (edgecore_request_realloc c aid m)))"
proof (cases "m \<noteq> 0 \<and> (\<exists>k p s. bufs_map (ec_bufs c) aid = Some (Ready k p s))")
  case False
  have "edgecore_request_realloc c aid m = (- 1, c)"
    using False realloc_not_ready [OF inv, of aid m]
    by (cases "m = 0") (simp add: edgecore_request_realloc_def, blast)
  moreover have "spec_realloc (ec_qsz c) aid m (core_view c) = (- 1, core_view c)"
    using False by (auto simp: spec_realloc_def split: option.split buffer.split)
  ultimately show ?thesis using inv by simp
next
  case True
  then obtain kind p old where b: "bufs_map (ec_bufs c) aid = Some (Ready kind p old)" and m: "m \<noteq> 0"
    by blast
  from realloc_ready [OF inv b m] obtain i s1 where
    1: "core_inv n (set_slot i s1 c)"
      "core_view (set_slot i s1 c) =
        (core_view c)\<lparr>cs_bufs := (bufs_map (ec_bufs c))(aid \<mapsto> Growing kind m p old)\<rparr>"
    and req: "edgecore_request_realloc c aid m =
      (let (rc, c2) = emit_event (set_slot i s1 c) (grow_event aid kind p old m)
       in if rc \<noteq> 0
          then (- 1, set_slot i (s1\<lparr>bs_state := EDGE_BUF_SLOT_READY, bs_requested := bs_size s1\<rparr>) c2)
          else (0, c2))"
    and s1: "i < length (ec_bufs c)" "slot_used s1" "slot_ok (ec_next_alloc_id c) s1"
      "bs_alloc_id s1 = aid" "bs_kind s1 = kind" "bs_ptr s1 = Some p" "bs_size s1 = old" .
  let ?ev = "grow_event aid kind p old m"
  define c2 where "c2 = snd (emit_event (set_slot i s1 c) ?ev)"
  have ring: "ring_wf (set_slot i s1 c)" using 1(1) by (simp add: core_inv_def)
  have inv2: "core_inv n c2" using core_emit_inv [OF 1(1)] by (simp add: c2_def)
  have bufs2: "ec_bufs c2 = (ec_bufs c)[i := s1]" "ec_next_alloc_id c2 = ec_next_alloc_id c"
    by (simp_all add: c2_def)
  have i2: "i < length (ec_bufs c2)" "slot_used (ec_bufs c2 ! i)" using s1 bufs2 by simp_all
  let ?s2 = "s1\<lparr>bs_state := EDGE_BUF_SLOT_READY, bs_requested := bs_size s1\<rparr>"
  have s2: "bs_alloc_id ?s2 = bs_alloc_id (ec_bufs c2 ! i)" "slot_used ?s2"
    "slot_ok (ec_next_alloc_id c2) ?s2"
    using s1 bufs2 by (simp_all add: slot_used_def slot_ok_def)
  note undo = replace_slot_refines [OF inv2 i2 s2]
  have same: "(bufs_map (ec_bufs c2))(bs_alloc_id ?s2 \<mapsto> abs_buffer ?s2) = bufs_map (ec_bufs c)"
  proof -
    have "bufs_map (ec_bufs c2) = (bufs_map (ec_bufs c))(aid \<mapsto> Growing kind m p old)"
      using 1(2) bufs2(1) by (simp add: core_view_def)
    moreover have "abs_buffer ?s2 = Ready kind p old" using s1 by (simp add: abs_buffer_def)
    ultimately show ?thesis using s1(4) b by (simp add: fun_upd_idem)
  qed
  note e = view_emit [OF ring, of ?ev]
  have "core_inv n (snd (edgecore_request_realloc c aid m))"
    using inv2 undo(1) by (simp add: req case_prod_beta Let_def c2_def [symmetric])
  then show ?thesis
    using e m undo(2) same
    by (simp add: req spec_realloc_def case_prod_beta Let_def b 1(2) c2_def [symmetric])
qed

section \<open>Configuration\<close>

definition config_event :: "edge_config \<Rightarrow> edge_event" where
  "config_event cfg =
     zero_event\<lparr>ev_type := EDGE_EVENT_CONFIG_APPLIED,
       ev_reason := c_copy 96 (''CONFIG_APPLIED gen='' @ dec_nat (unat (generation cfg)) @
         '' port='' @ dec_nat (unat (listen_port cfg)))\<rparr>"

definition rejected_event :: "string \<Rightarrow> edge_event" where
  "rejected_event r = zero_event\<lparr>ev_type := EDGE_EVENT_CONFIG_REJECTED, ev_reason := c_copy 96 r\<rparr>"

definition next_generation :: "u64 \<Rightarrow> u64" where
  "next_generation g = (if g + 1 = 0 then 1 else g + 1)"

definition spec_apply :: "nat \<Rightarrow> edge_config \<Rightarrow> core_spec \<Rightarrow> int \<times> core_spec" where
  "spec_apply cap cfg m =
     (case edge_config_validate (Some cfg) of
        Some verr \<Rightarrow> (- 1, snd (cs_emit cap (rejected_event (c_copy 96 verr)) m))
      | None \<Rightarrow>
          (let nxt = cfg\<lparr>generation := next_generation (generation (cs_cfg m))\<rparr>
           in (0, snd (cs_emit cap (config_event nxt) (m\<lparr>cs_cfg := nxt, cs_applied := True\<rparr>)))))"

lemma apply_refines:
  assumes inv: "core_inv n c"
  shows "core_inv n (snd (edgecore_apply_config c (Some cfg))) \<and>
    spec_apply (ec_qsz c) cfg (core_view c) =
      (fst (edgecore_apply_config c (Some cfg)), core_view (snd (edgecore_apply_config c (Some cfg))))"
proof (cases "edge_config_validate (Some cfg)")
  case (Some verr)
  have "ring_wf c" using inv by (simp add: core_inv_def)
  from view_emit [OF this] core_emit_inv [OF inv] Some show ?thesis
    by (simp add: edgecore_apply_config_def spec_apply_def rejected_event_def)
next
  case None
  let ?nxt = "cfg\<lparr>generation := next_generation (generation (ec_cfg c))\<rparr>"
  let ?c1 = "c\<lparr>ec_cfg := ?nxt, ec_cfg_applied := True\<rparr>"
  have inv1: "core_inv n ?c1" using inv by simp
  then have ring: "ring_wf ?c1" by (simp add: core_inv_def)
  have ap: "edgecore_apply_config c (Some cfg) = (0, snd (emit_event ?c1 (config_event ?nxt)))"
    using None
    by (simp add: edgecore_apply_config_def config_event_def next_generation_def Let_def)
  show ?thesis
    using None core_emit_inv [OF inv1] view_emit(1) [OF ring, of "config_event ?nxt"]
    by (simp add: ap spec_apply_def Let_def view_cfg)
qed

definition spec_reject :: "nat \<Rightarrow> string option \<Rightarrow> core_spec \<Rightarrow> int \<times> core_spec" where
  "spec_reject cap reason m =
     cs_emit cap (rejected_event
       (case reason of None \<Rightarrow> ''CONFIG_REJECTED'' | Some t \<Rightarrow> if t \<noteq> [] then t else ''CONFIG_REJECTED'')) m"

lemma reject_refines:
  assumes inv: "core_inv n c"
  shows "core_inv n (snd (edgecore_notify_config_rejected c reason)) \<and>
    spec_reject (ec_qsz c) reason (core_view c) =
      (fst (edgecore_notify_config_rejected c reason), core_view (snd (edgecore_notify_config_rejected c reason)))"
proof -
  have ring: "ring_wf c" using inv by (simp add: core_inv_def)
  have rc: "fst (emit_event c ev) = 0 \<or> fst (emit_event c ev) = - 1" for ev
    by (simp add: emit_event_def)
  show ?thesis
    using core_emit_inv [OF inv] view_emit [OF ring] rc
    by (auto simp: edgecore_notify_config_rejected_def spec_reject_def rejected_event_def
        case_prod_beta Let_def prod_eq_iff)
qed

section \<open>Whole runs\<close>

datatype core_op =
    ReqAlloc edge_buf_kind nat
  | ReqRealloc u32 nat
  | Provide u32 "nat option" nat
  | Detach u32
  | NextEvent
  | ApplyConfig edge_config
  | NotifyRejected "string option"

datatype core_result =
    RetId u32
  | RetInt int
  | RetMem int "(nat option \<times> nat) option"
  | RetEvent int edge_event

fun core_step :: "core_op \<Rightarrow> edgecore \<Rightarrow> core_result \<times> edgecore" where
  "core_step (ReqAlloc kind n) c = apfst RetId (edgecore_request_alloc c kind n)"
| "core_step (ReqRealloc aid n) c = apfst RetInt (edgecore_request_realloc c aid n)"
| "core_step (Provide aid ptr n) c = apfst RetInt (edgecore_provide_buffer c aid ptr n)"
| "core_step (Detach aid) c = apfst (\<lambda>(rc, mem). RetMem rc mem) (edgecore_detach_buffer c aid)"
| "core_step NextEvent c = apfst (\<lambda>(rc, ev). RetEvent rc ev) (edgecore_next_event c)"
| "core_step (ApplyConfig cfg) c = apfst RetInt (edgecore_apply_config c (Some cfg))"
| "core_step (NotifyRejected r) c = apfst RetInt (edgecore_notify_config_rejected c r)"

fun core_spec_step :: "nat \<Rightarrow> core_op \<Rightarrow> core_spec \<Rightarrow> core_result \<times> core_spec" where
  "core_spec_step cap (ReqAlloc kind n) m = apfst RetId (spec_alloc cap kind n m)"
| "core_spec_step cap (ReqRealloc aid n) m = apfst RetInt (spec_realloc cap aid n m)"
| "core_spec_step cap (Provide aid ptr n) m = apfst RetInt (spec_provide aid ptr n m)"
| "core_spec_step cap (Detach aid) m = apfst (\<lambda>(rc, mem). RetMem rc mem) (spec_detach aid m)"
| "core_spec_step cap NextEvent m =
     (let ((rc, ev), q) = spec_next (cs_queue m) in (RetEvent rc ev, m\<lparr>cs_queue := q\<rparr>))"
| "core_spec_step cap (ApplyConfig cfg) m = apfst RetInt (spec_apply cap cfg m)"
| "core_spec_step cap (NotifyRejected r) m = apfst RetInt (spec_reject cap r m)"

lemma capacity_frame:
  "ec_qsz (snd (edgecore_request_alloc c kind n)) = ec_qsz c"
  "ec_qsz (snd (edgecore_request_realloc c aid n)) = ec_qsz c"
  "ec_qsz (snd (edgecore_provide_buffer c aid ptr n)) = ec_qsz c"
  "ec_qsz (snd (edgecore_detach_buffer c aid)) = ec_qsz c"
  "ec_qsz (snd (edgecore_apply_config c (Some cfg))) = ec_qsz c"
  "ec_qsz (snd (edgecore_notify_config_rejected c r)) = ec_qsz c"
  by (simp_all add: edgecore_request_alloc_def edgecore_request_realloc_def mint_alloc_id_def
      edgecore_provide_buffer_def edgecore_detach_buffer_def edgecore_apply_config_def
      edgecore_notify_config_rejected_def Let_def case_prod_beta split: option.split)

lemma core_step_refines:
  assumes inv: "core_inv (Suc n) c" and step: "core_step x c = (r, c')"
  shows "core_inv n c' \<and> ec_qsz c' = ec_qsz c \<and>
    core_spec_step (ec_qsz c) x (core_view c) = (r, core_view c')"
proof -
  have inv': "core_inv n c" by (rule core_inv_mono [OF inv]) simp
  show ?thesis
  proof (cases x)
    case (ReqAlloc kind n')
    with step alloc_refines [OF inv, of kind n'] show ?thesis
      by (auto simp: capacity_frame apfst_def map_prod_def case_prod_beta)
  next
    case (ReqRealloc aid n')
    with step realloc_refines [OF inv', of aid n'] show ?thesis
      by (auto simp: capacity_frame apfst_def map_prod_def case_prod_beta)
  next
    case (Provide aid ptr n')
    with step provide_refines [OF inv', of aid ptr n'] show ?thesis
      by (auto simp: capacity_frame apfst_def map_prod_def case_prod_beta)
  next
    case (Detach aid)
    with step detach_refines [OF inv', of aid] show ?thesis
      by (auto simp: capacity_frame apfst_def map_prod_def case_prod_beta)
  next
    case NextEvent
    with step core_next_refines [OF inv'] show ?thesis
      by (auto simp: apfst_def map_prod_def case_prod_beta)
  next
    case (ApplyConfig cfg)
    with step apply_refines [OF inv', of cfg] show ?thesis
      by (auto simp: capacity_frame apfst_def map_prod_def case_prod_beta)
  next
    case (NotifyRejected reason)
    with step reject_refines [OF inv', of reason] show ?thesis
      by (auto simp: capacity_frame apfst_def map_prod_def case_prod_beta)
  qed
qed

interpretation core: bounded_simulation "\<lambda>n c. core_inv n c \<and> ec_qsz c = cap" core_view core_step
    "core_spec_step cap"
  for cap
  by unfold_locales (auto dest: core_step_refines)

definition core_spec_init :: core_spec where
  "core_spec_init =
     \<lparr>cs_queue = [], cs_dropped = 0, cs_bufs = Map.empty, cs_next = 1,
      cs_cfg = edge_config_defaults, cs_applied = False\<rparr>"

lemma core_create_facts:
  assumes "edgecore_create_with_config m1 m2 cfg = Some c"
  shows "core_inv (2 ^ 32 - 2) c" "core_view c = core_spec_init"
    "0 < ec_qsz c \<and> ec_qsz c \<le> EDGECORE_MAX_Q"
  using assms
  by (auto simp: edgecore_create_with_config_def core_inv_def ring_wf_def core_view_def
      core_queue_def bufs_wf_def bufs_map_def slot_used_def zero_slot_def slots_distinct_def
      core_spec_init_def EDGECORE_MAX_Q_def EDGECORE_DEFAULT_Q_def Let_def
      split: option.splits if_splits)

section \<open>Reading buffers\<close>

lemma ready_view:
  assumes wf: "bufs_wf nxt (ec_bufs c)"
  shows "bufs_map (ec_bufs c) q = Some (Ready k p s) \<Longrightarrow> q \<noteq> 0 \<and> (\<exists>i. find_ready c q = Some i \<and>
      bs_ptr (ec_bufs c ! i) = Some p \<and> bs_size (ec_bufs c ! i) = s)"
    and "\<nexists>k p s. bufs_map (ec_bufs c) q = Some (Ready k p s) \<Longrightarrow> q = 0 \<or> find_ready c q = None"
proof -
  have d: "slots_distinct slot_used bs_alloc_id (ec_bufs c)" using wf by (simp add: bufs_wf_def)
  assume "bufs_map (ec_bufs c) q = Some (Ready k p s)"
  then show "q \<noteq> 0 \<and> (\<exists>i. find_ready c q = Some i \<and>
      bs_ptr (ec_bufs c ! i) = Some p \<and> bs_size (ec_bufs c ! i) = s)"
  proof (cases rule: find_slot_cases [OF wf, of q, case_names absent present])
    case (present i)
    assume b: "bufs_map (ec_bufs c) q = Some (Ready k p s)"
    have r: "bs_state (ec_bufs c ! i) = EDGE_BUF_SLOT_READY" "bs_ptr (ec_bufs c ! i) = Some p"
      "bs_size (ec_bufs c ! i) = s"
      using b present(7)
      by (cases rule: abs_buffer_cases [OF present(4,6), case_names wanted growing ready]; simp)+
    have "find_ready c q = Some i"
      unfolding find_ready_def
      using present r d
      by (intro find_first_unique) (auto simp: slots_distinct_def slot_used_def)
    with present r show ?thesis by blast
  qed simp
next
  assume no: "\<nexists>k p s. bufs_map (ec_bufs c) q = Some (Ready k p s)"
  show "q = 0 \<or> find_ready c q = None"
  proof (rule ccontr)
    assume "\<not> (q = 0 \<or> find_ready c q = None)"
    then obtain i where q: "q \<noteq> 0" and f: "find_ready c q = Some i" by blast
    note g = find_first_SomeD [OF f [unfolded find_ready_def]]
    have used: "slot_used (ec_bufs c ! i)" using g by (simp add: slot_used_def)
    have "slot_find slot_used bs_alloc_id (ec_bufs c) q = Some i"
      using slot_find_eq [of slot_used bs_alloc_id "ec_bufs c" i] wf g used by (simp add: bufs_wf_def)
    then have "bufs_map (ec_bufs c) q = Some (abs_buffer (ec_bufs c ! i))"
      by (simp add: bufs_map_def slot_map_def)
    with g no show False by (simp add: abs_buffer_def)
  qed
qed

text \<open>What the three read operations return, on the abstract table.\<close>

lemma buffer_reads:
  assumes "core_inv n c"
  shows "edgecore_buffer_ptr c q =
      (case bufs_map (ec_bufs c) q of Some (Ready k p s) \<Rightarrow> Some p | _ \<Rightarrow> None)"
    and "edgecore_buffer_size c q =
      (case bufs_map (ec_bufs c) q of Some (Ready k p s) \<Rightarrow> s | _ \<Rightarrow> 0)"
proof -
  have wf: "bufs_wf (ec_next_alloc_id c) (ec_bufs c)" using assms by (simp add: core_inv_def)
  have "edgecore_buffer_ptr c q =
      (case bufs_map (ec_bufs c) q of Some (Ready k p s) \<Rightarrow> Some p | _ \<Rightarrow> None) \<and>
    edgecore_buffer_size c q =
      (case bufs_map (ec_bufs c) q of Some (Ready k p s) \<Rightarrow> s | _ \<Rightarrow> 0)"
  proof (cases "\<exists>k p s. bufs_map (ec_bufs c) q = Some (Ready k p s)")
    case True
    then obtain k p s where b: "bufs_map (ec_bufs c) q = Some (Ready k p s)" by blast
    from ready_view(1) [OF wf b] b show ?thesis
      by (auto simp: edgecore_buffer_ptr_def edgecore_buffer_size_def)
  next
    case False
    from ready_view(2) [OF wf False] False show ?thesis
      by (auto simp: edgecore_buffer_ptr_def edgecore_buffer_size_def split: option.splits buffer.splits)
  qed
  then show "edgecore_buffer_ptr c q =
      (case bufs_map (ec_bufs c) q of Some (Ready k p s) \<Rightarrow> Some p | _ \<Rightarrow> None)"
    and "edgecore_buffer_size c q =
      (case bufs_map (ec_bufs c) q of Some (Ready k p s) \<Rightarrow> s | _ \<Rightarrow> 0)" by blast+
qed

section \<open>Properties\<close>

text \<open>C5: From a fresh core, every sequence of fewer than 2^32 - 2 calls (buffer requests and
  growth, buffers provided and detached, events pulled, configurations applied or rejected)
  returns the same results and ends in the same state as the abstract core: a FIFO of at
  most the configured number of events whose oldest entry is replaced by QUEUE_OVERFLOW
  when it is full, a finite map of at most 32 buffers under unique non-zero ids, and an
  atomically replaced configuration.\<close>

theorem edgecore_refines_spec:
  assumes "edgecore_create_with_config m1 m2 cfg = Some c0" and "length ops \<le> 2 ^ 32 - 2"
    and "run_steps core_step ops c0 = (rs, c)"
  shows "run_steps (core_spec_step (ec_qsz c0)) ops core_spec_init = (rs, core_view c) \<and>
    length (core_queue c) \<le> ec_qsz c0 \<and> card (dom (cs_bufs (core_view c))) \<le> EDGECORE_MAX_BUFS \<and>
    0 \<notin> dom (cs_bufs (core_view c))"
proof -
  note cr = core_create_facts [OF assms(1)]
  obtain n where n: "length ops + n = 2 ^ 32 - 2" using assms(2) le_Suc_ex by metis
  have r: "core_inv n c \<and> ec_qsz c = ec_qsz c0 \<and>
      run_steps (core_spec_step (ec_qsz c0)) ops (core_view c0) = (rs, core_view c)"
    using core.bounded_run_sim [of ops n c0 "ec_qsz c0" rs c] cr(1) n assms(3) by simp
  then have wf: "bufs_wf (ec_next_alloc_id c) (ec_bufs c)" and ring: "ring_wf c"
    by (simp_all add: core_inv_def)
  have "card (dom (bufs_map (ec_bufs c))) \<le> EDGECORE_MAX_BUFS"
    using used_count_le [of slot_used "ec_bufs c"] wf
    by (simp add: card_bufs_map [OF wf]) (simp add: bufs_wf_def)
  with r ring bufs_map_None [OF wf, of 0] show ?thesis by (auto simp: cr(2) ring_wf_def)
qed

definition tiny_core :: "nat \<Rightarrow> edgecore" where
  "tiny_core n = the (edgecore_create_with_config True True (Some n))"

lemma tiny_core_created: "edgecore_create_with_config True True (Some n) = Some (tiny_core n)"
  by (simp add: tiny_core_def edgecore_create_with_config_def Let_def)

lemma tiny_core_inv: "core_inv n (tiny_core k)" if "n \<le> 2 ^ 32 - 2"
  using core_create_facts(1) [OF tiny_core_created] that core_inv_mono by blast

lemma tiny_core_view: "core_view (tiny_core n) = core_spec_init" "core_queue (tiny_core n) = []"
  "ec_cfg (tiny_core n) = edge_config_defaults"
  using core_create_facts(2) [OF tiny_core_created, of n]
  by (simp_all add: core_view_def core_spec_init_def)

lemma tiny_core_qsz: "0 < n \<Longrightarrow> n \<le> 256 \<Longrightarrow> ec_qsz (tiny_core n) = n"
  by (simp add: tiny_core_def edgecore_create_with_config_def EDGECORE_MAX_Q_def Let_def)

theorem edgecore_refines_spec_witness:
  "fst (run_steps core_step [ReqAlloc EDGE_BUF_STATE 10, Provide 1 (Some 4096) 9,
      Provide 1 (Some 4096) 10, ReqRealloc 1 20, ReqAlloc EDGE_BUF_STATE 5, Detach 1]
      (tiny_core 2)) =
    [RetId 1, RetInt (- 1), RetInt 0, RetInt 0, RetId 0, RetMem 0 (Some (Some 4096, 10))]"
proof -
  let ?ops = "[ReqAlloc EDGE_BUF_STATE 10, Provide 1 (Some 4096) 9,
      Provide 1 (Some 4096) 10, ReqRealloc 1 20, ReqAlloc EDGE_BUF_STATE 5, Detach 1]"
  obtain rs c where r: "run_steps core_step ?ops (tiny_core 2) = (rs, c)" by fastforce
  have "rs = fst (run_steps (core_spec_step 2) ?ops core_spec_init)"
    using edgecore_refines_spec [OF tiny_core_created _ r] by (simp add: tiny_core_qsz)
  then show ?thesis
    unfolding r
    by (simp add: core_spec_init_def spec_alloc_def spec_provide_def spec_realloc_def
        spec_detach_def cs_emit_def spec_emit_def EDGECORE_MAX_BUFS_def)
qed

text \<open>A burst of events that fits in the ring is delivered complete and in order by as many
  pulls, after the events that were already queued; nothing is lost or duplicated.\<close>

theorem event_fifo:
  assumes "core_inv n c" and "ec_cnt c + length evs \<le> ec_qsz c"
  shows "fst (drain core_pop (ec_cnt c + length evs) (fold core_push evs c)) = core_queue c @ evs"
  using event_queue.fifo_delivery [of c evs] assms by (simp add: core_inv_def)

theorem event_fifo_witness:
  "fst (drain core_pop 2 (fold core_push [overflow_event, zero_event] (tiny_core 3))) =
    [overflow_event, zero_event]"
proof -
  have c: "ec_cnt (tiny_core 3) = 0" using tiny_core_view(2) [of 3] length_core_queue [of "tiny_core 3"] by simp
  then show ?thesis
    using event_fifo [OF tiny_core_inv [of 0 3], of "[overflow_event, zero_event]"]
    by (simp add: tiny_core_qsz tiny_core_view numeral_2_eq_2)
qed

text \<open>An accepted buffer request gets a non-zero id no other buffer has; once the host has
  provided memory at least as large as requested, the buffer is readable under that id with
  exactly that address and size; and every other buffer reads as before.\<close>

theorem buffer_provided:
  assumes "core_inv (Suc n) c" and "edgecore_request_alloc c kind req = (aid, c1)" and "aid \<noteq> 0"
    and "req \<le> sz" and "edgecore_provide_buffer c1 aid (Some p) sz = (rc, c2)"
  shows "rc = 0 \<and> bufs_map (ec_bufs c) aid = None \<and> edgecore_buffer_ptr c1 aid = None \<and>
    edgecore_buffer_ptr c2 aid = Some p \<and> edgecore_buffer_size c2 aid = sz \<and>
    (\<forall>q. q \<noteq> aid \<longrightarrow> edgecore_buffer_ptr c2 q = edgecore_buffer_ptr c q \<and>
       edgecore_buffer_size c2 q = edgecore_buffer_size c q)"
proof -
  have inv: "core_inv n c" by (rule core_inv_mono [OF assms(1)]) simp
  have wf: "bufs_wf (ec_next_alloc_id c) (ec_bufs c)" using inv by (simp add: core_inv_def)
  from alloc_refines [OF assms(1), of kind req] assms(2)
  have inv1: "core_inv n c1" and s: "spec_alloc (ec_qsz c) kind req (core_view c) = (aid, core_view c1)"
    by simp_all
  have a: "aid = ec_next_alloc_id c" "req \<noteq> 0"
    "cs_bufs (core_view c1) = (bufs_map (ec_bufs c))(aid \<mapsto> Wanted kind req)"
    using s assms(3)
    by (auto simp: spec_alloc_def Let_def split: if_splits prod.splits dest: arg_cong [where f = cs_bufs])
  have fresh: "bufs_map (ec_bufs c) aid = None" using bufs_map_None [OF wf, of aid] a(1) by simp
  from provide_refines [OF inv1, of aid "Some p" sz] assms(4,5) a
  have inv2: "core_inv n c2" and rc: "rc = 0"
    and v2: "bufs_map (ec_bufs c2) = (bufs_map (ec_bufs c))(aid \<mapsto> Ready kind p sz)"
    by (auto simp: spec_provide_def dest: arg_cong [where f = cs_bufs])
  show ?thesis
    using rc fresh a(3) v2 by (simp add: buffer_reads [OF inv] buffer_reads [OF inv1] buffer_reads [OF inv2])
qed

theorem buffer_provided_witness:
  "edgecore_buffer_ptr (snd (edgecore_provide_buffer
      (snd (edgecore_request_alloc (tiny_core 4) EDGE_BUF_CONN_RX 100)) 1 (Some 4096) 128)) 1 = Some 4096"
proof -
  have inv: "core_inv (Suc 0) (tiny_core 4)" by (rule tiny_core_inv) simp
  have r: "edgecore_request_alloc (tiny_core 4) EDGE_BUF_CONN_RX 100 =
      (1, snd (edgecore_request_alloc (tiny_core 4) EDGE_BUF_CONN_RX 100))"
    using alloc_refines [OF inv, of EDGE_BUF_CONN_RX 100]
    by (simp add: tiny_core_qsz tiny_core_view prod_eq_iff spec_alloc_def core_spec_init_def
        cs_emit_def spec_emit_def EDGECORE_MAX_BUFS_def Let_def)
  obtain rc c2 where p: "edgecore_provide_buffer
      (snd (edgecore_request_alloc (tiny_core 4) EDGE_BUF_CONN_RX 100)) 1 (Some 4096) 128 = (rc, c2)"
    by fastforce
  show ?thesis
    using buffer_provided [OF inv r _ _ p] by (simp add: p)
qed

text \<open>Applying a configuration succeeds exactly when it is valid. On success the active
  configuration is the new one with the generation incremented (skipping 0 on wrap-around)
  and a CONFIG_APPLIED event is queued; on failure the previous configuration is kept and a
  CONFIG_REJECTED event is queued. Buffers and the events already queued are untouched.\<close>

theorem config_apply_atomic:
  assumes "ring_wf c" and "ec_cnt c < ec_qsz c"
    and "edgecore_apply_config c (Some cfg) = (rc, c')"
  shows "rc = (if config_valid cfg then 0 else - 1) \<and>
    edgecore_config c' = (if config_valid cfg
      then cfg\<lparr>generation := next_generation (generation (edgecore_config c))\<rparr> else edgecore_config c) \<and>
    ec_bufs c' = ec_bufs c \<and>
    (\<exists>ev. core_queue c' = core_queue c @ [ev] \<and>
       ev_type ev = (if config_valid cfg then EDGE_EVENT_CONFIG_APPLIED else EDGE_EVENT_CONFIG_REJECTED))"
proof (cases "config_valid cfg")
  case True
  let ?nxt = "cfg\<lparr>generation := next_generation (generation (ec_cfg c))\<rparr>"
  let ?c1 = "c\<lparr>ec_cfg := ?nxt, ec_cfg_applied := True\<rparr>"
  have v: "edge_config_validate (Some cfg) = None" using True by (simp add: validate_iff)
  have c': "rc = 0" "c' = snd (emit_event ?c1 (config_event ?nxt))"
    using assms(3) v
    by (auto simp: edgecore_apply_config_def config_event_def next_generation_def Let_def)
  have r: "ring_wf ?c1" "core_queue ?c1 = core_queue c" using assms(1) by (simp_all add: core_queue_def)
  have q: "core_queue c' = core_queue c @ [config_event ?nxt]"
    using emit_refines(2) [OF r(1), of "config_event ?nxt"] r(2) assms(2) c'(2)
    by (simp add: spec_emit_def)
  have f: "ec_cfg c' = ?nxt" "ec_bufs c' = ec_bufs c" by (simp_all add: c'(2))
  have t: "ev_type (config_event ?nxt) = EDGE_EVENT_CONFIG_APPLIED" by (simp add: config_event_def)
  show ?thesis
    using True q f t c'(1) by (simp add: edgecore_config_def del: fun_upd_apply)
next
  case False
  then obtain verr where v: "edge_config_validate (Some cfg) = Some verr"
    by (auto simp: validate_iff [symmetric])
  have c': "rc = - 1" "c' = snd (emit_event c (rejected_event (c_copy 96 verr)))"
    using assms(3) v by (auto simp: edgecore_apply_config_def rejected_event_def)
  have q: "core_queue c' = core_queue c @ [rejected_event (c_copy 96 verr)]"
    using emit_refines(2) [OF assms(1), of "rejected_event (c_copy 96 verr)"] assms(2) c'(2)
    by (simp add: spec_emit_def)
  have f: "ec_cfg c' = ec_cfg c" "ec_bufs c' = ec_bufs c" by (simp_all add: c'(2))
  have t: "ev_type (rejected_event (c_copy 96 verr)) = EDGE_EVENT_CONFIG_REJECTED"
    by (simp add: rejected_event_def)
  show ?thesis using False q f t c'(1) by (simp add: edgecore_config_def)
qed

theorem config_apply_atomic_witness:
  "edgecore_config (snd (edgecore_apply_config (tiny_core 2)
      (Some (edge_config_defaults\<lparr>listen_port := 9000\<rparr>)))) =
    edge_config_defaults\<lparr>listen_port := 9000, generation := 1\<rparr>"
proof -
  have r: "ring_wf (tiny_core 2)" using tiny_core_inv [of 0 2] by (simp add: core_inv_def)
  have c: "ec_cnt (tiny_core 2) < ec_qsz (tiny_core 2)"
    using tiny_core_view(2) [of 2] length_core_queue [of "tiny_core 2"] by (simp add: tiny_core_qsz)
  obtain rc c' where a: "edgecore_apply_config (tiny_core 2)
      (Some (edge_config_defaults\<lparr>listen_port := 9000\<rparr>)) = (rc, c')" by fastforce
  have g: "generation (edgecore_config (tiny_core 2)) = 0"
    by (simp add: edgecore_config_def tiny_core_view edge_config_defaults_def)
  have v: "config_valid (edge_config_defaults\<lparr>listen_port := 9000\<rparr>)"
    using defaults_valid by (simp add: config_valid_def)
  show ?thesis
    using config_apply_atomic [OF r c a] v by (simp add: a g next_generation_def)
qed

text \<open>The price of an overflow: when the ring is full and its oldest event is the request for
  a buffer's memory, any further emission (here a configuration rejected by the host) is
  refused and erases that request: the host will never see it, while the buffer keeps
  waiting for its memory.\<close>

theorem overflow_strands_request:
  assumes "core_inv n c" and "ec_cnt c = ec_qsz c"
    and "core_queue c = need_alloc_event aid kind req # q"
    and "bufs_map (ec_bufs c) aid = Some (Wanted kind req)"
    and "edgecore_notify_config_rejected c reason = (rc, c')"
  shows "rc = - 1 \<and> core_queue c' = overflow_event # q \<and>
    bufs_map (ec_bufs c') aid = Some (Wanted kind req) \<and> edgecore_buffer_ptr c' aid = None"
proof -
  from reject_refines [OF assms(1), of reason] assms(5)
  have inv': "core_inv n c'" and s: "spec_reject (ec_qsz c) reason (core_view c) = (rc, core_view c')"
    by simp_all
  have full: "ec_qsz c \<le> length (cs_queue (core_view c))" using assms(2) by simp
  have v: "rc = - 1" "core_queue c' = overflow_event # q" "bufs_map (ec_bufs c') = bufs_map (ec_bufs c)"
    using s full assms(3)
    by (auto simp: spec_reject_def cs_emit_def spec_emit_def
        dest: arg_cong [where f = cs_queue] arg_cong [where f = cs_bufs])
  show ?thesis using v assms(4) by (simp add: buffer_reads [OF inv'])
qed

theorem overflow_strands_request_witness:
  "core_queue (snd (edgecore_notify_config_rejected
      (snd (edgecore_request_alloc (tiny_core 1) EDGE_BUF_CONN_TX 8)) None)) = [overflow_event]"
proof -
  have inv: "core_inv (Suc 0) (tiny_core 1)" by (rule tiny_core_inv) simp
  let ?c = "snd (edgecore_request_alloc (tiny_core 1) EDGE_BUF_CONN_TX 8)"
  note a = alloc_refines [OF inv, of EDGE_BUF_CONN_TX 8]
  then have i0: "core_inv 0 ?c" by simp
  have v: "core_view ?c = core_spec_init\<lparr>cs_next := 2, cs_queue := [need_alloc_event 1 EDGE_BUF_CONN_TX 8],
      cs_bufs := [1 \<mapsto> Wanted EDGE_BUF_CONN_TX 8]\<rparr>"
    using a by (simp add: tiny_core_qsz tiny_core_view prod_eq_iff spec_alloc_def core_spec_init_def
        cs_emit_def spec_emit_def EDGECORE_MAX_BUFS_def Let_def)
  have q: "core_queue ?c = [need_alloc_event 1 EDGE_BUF_CONN_TX 8]"
    "bufs_map (ec_bufs ?c) 1 = Some (Wanted EDGE_BUF_CONN_TX 8)"
    using arg_cong [OF v, of cs_queue] arg_cong [OF v, of cs_bufs]
    by (simp_all add: core_spec_init_def)
  have full: "ec_cnt ?c = ec_qsz ?c"
    using q(1) length_core_queue [of ?c] by (simp add: capacity_frame tiny_core_qsz)
  obtain rc c' where r: "edgecore_notify_config_rejected ?c None = (rc, c')" by fastforce
  show ?thesis using overflow_strands_request [OF i0 full q(1,2) r] by (simp only: r snd_conv)
qed

end
