(* ===== verification/Sha256.thy ===== *)
theory Sha256
  imports Edge_Prelude
begin

text \<open>
  The SHA-256 and HMAC routines of \<open>src/core/auth_rbac.c\<close>, in the streaming form the code
  has them: a context with eight state words, the bit length, and a 64-byte block that is
  hashed whenever it is full. The reference definition pads the whole message and folds
  the block function over its 64-byte blocks; the streaming code is proved equal to it,
  whatever the uninitialised block of the context held.
\<close>

record sha256_ctx =
  sc_state :: "u32 list"
  sc_bitlen :: u64
  sc_data :: "u8 list"
  sc_datalen :: nat

definition rotr :: "u32 \<Rightarrow> nat \<Rightarrow> u32" where
  "rotr x n = drop_bit n x OR push_bit (32 - n) x"

definition sha256_k :: "u32 list" where
  "sha256_k = concat
    [[0x428a2f98, 0x71374491, 0xb5c0fbcf, 0xe9b5dba5, 0x3956c25b, 0x59f111f1, 0x923f82a4, 0xab1c5ed5],
     [0xd807aa98, 0x12835b01, 0x243185be, 0x550c7dc3, 0x72be5d74, 0x80deb1fe, 0x9bdc06a7, 0xc19bf174],
     [0xe49b69c1, 0xefbe4786, 0x0fc19dc6, 0x240ca1cc, 0x2de92c6f, 0x4a7484aa, 0x5cb0a9dc, 0x76f988da],
     [0x983e5152, 0xa831c66d, 0xb00327c8, 0xbf597fc7, 0xc6e00bf3, 0xd5a79147, 0x06ca6351, 0x14292967],
     [0x27b70a85, 0x2e1b2138, 0x4d2c6dfc, 0x53380d13, 0x650a7354, 0x766a0abb, 0x81c2c92e, 0x92722c85],
     [0xa2bfe8a1, 0xa81a664b, 0xc24b8b70, 0xc76c51a3, 0xd192e819, 0xd6990624, 0xf40e3585, 0x106aa070],
     [0x19a4c116, 0x1e376c08, 0x2748774c, 0x34b0bcb5, 0x391c0cb3, 0x4ed8aa4a, 0x5b9cca4f, 0x682e6ff3],
     [0x748f82ee, 0x78a5636f, 0x84c87814, 0x8cc70208, 0x90befffa, 0xa4506ceb, 0xbef9a3f7, 0xc67178f2]]"

text \<open>The first loop: the sixteen big-endian words of the block. The second: the remaining
  forty-eight, each from four earlier ones.\<close>

definition block_words :: "u8 list \<Rightarrow> u32 list" where
  "block_words blk =
     map (\<lambda>i. push_bit 24 (ucast (blk ! (4 * i))) OR push_bit 16 (ucast (blk ! (4 * i + 1))) OR
              push_bit 8 (ucast (blk ! (4 * i + 2))) OR ucast (blk ! (4 * i + 3))) [0..<16]"

fun extend_schedule :: "nat \<Rightarrow> u32 list \<Rightarrow> u32 list" where
  "extend_schedule 0 m = m"
| "extend_schedule (Suc n) m =
     (let i = length m;
          x = m ! (i - 15);
          y = m ! (i - 2);
          s0 = rotr x 7 XOR rotr x 18 XOR drop_bit 3 x;
          s1 = rotr y 17 XOR rotr y 19 XOR drop_bit 10 y
      in extend_schedule n (m @ [m ! (i - 16) + s0 + m ! (i - 7) + s1]))"

type_synonym sha_regs = "u32 \<times> u32 \<times> u32 \<times> u32 \<times> u32 \<times> u32 \<times> u32 \<times> u32"

definition sha_round :: "u32 \<times> u32 \<Rightarrow> sha_regs \<Rightarrow> sha_regs" where
  "sha_round = (\<lambda>(k, m) (a, b, c, d, e, f, g, h).
     let S1 = rotr e 6 XOR rotr e 11 XOR rotr e 25;
         ch = (e AND f) XOR (NOT e AND g);
         t1 = h + S1 + ch + k + m;
         S0 = rotr a 2 XOR rotr a 13 XOR rotr a 22;
         maj = (a AND b) XOR (a AND c) XOR (b AND c);
         t2 = S0 + maj
     in (t1 + t2, a, b, c, d + t1, e, f, g))"

definition sha_block :: "u8 list \<Rightarrow> u32 list \<Rightarrow> u32 list" where
  "sha_block blk st =
     (let m = extend_schedule 48 (block_words blk);
          (a, b, c, d, e, f, g, h) =
            fold sha_round (zip sha256_k m)
              (st ! 0, st ! 1, st ! 2, st ! 3, st ! 4, st ! 5, st ! 6, st ! 7)
      in [st ! 0 + a, st ! 1 + b, st ! 2 + c, st ! 3 + d, st ! 4 + e, st ! 5 + f, st ! 6 + g, st ! 7 + h])"

definition sha256_transform :: "sha256_ctx \<Rightarrow> u8 list \<Rightarrow> sha256_ctx" where
  "sha256_transform ctx blk = ctx\<lparr>sc_state := sha_block blk (sc_state ctx)\<rparr>"

definition sha256_h0 :: "u32 list" where
  "sha256_h0 = [0x6a09e667, 0xbb67ae85, 0x3c6ef372, 0xa54ff53a,
                0x510e527f, 0x9b05688c, 0x1f83d9ab, 0x5be0cd19]"

definition sha256_init :: "sha256_ctx \<Rightarrow> sha256_ctx" where
  "sha256_init ctx = ctx\<lparr>sc_datalen := 0, sc_bitlen := 0, sc_state := sha256_h0\<rparr>"

definition sha256_byte :: "u8 \<Rightarrow> sha256_ctx \<Rightarrow> sha256_ctx" where
  "sha256_byte x ctx =
     (let ctx1 = ctx\<lparr>sc_data := (sc_data ctx)[sc_datalen ctx := x],
                     sc_datalen := sc_datalen ctx + 1\<rparr>
      in if sc_datalen ctx1 = 64
         then (sha256_transform ctx1 (sc_data ctx1))
                \<lparr>sc_bitlen := sc_bitlen ctx1 + 512, sc_datalen := 0\<rparr>
         else ctx1)"

definition sha256_update :: "sha256_ctx \<Rightarrow> u8 list \<Rightarrow> sha256_ctx" where
  "sha256_update ctx msg = fold sha256_byte msg ctx"

text \<open>Storing the bytes \<open>bs\<close> from index \<open>i\<close> on.\<close>

definition overwrite :: "nat \<Rightarrow> 'a list \<Rightarrow> 'a list \<Rightarrow> 'a list" where
  "overwrite i bs xs = take i xs @ bs @ drop (i + length bs) xs"

definition be64 :: "u64 \<Rightarrow> u8 list" where
  "be64 w = map (\<lambda>i. ucast (drop_bit (56 - 8 * i) w)) [0..<8]"

definition be32 :: "u32 \<Rightarrow> u8 list" where
  "be32 w = map (\<lambda>i. ucast (drop_bit (24 - 8 * i) w AND 0xff)) [0..<4]"

definition sha256_final :: "sha256_ctx \<Rightarrow> u8 list" where
  "sha256_final ctx =
     (let i = sc_datalen ctx;
          ctx1 = (if i < 56
                  then ctx\<lparr>sc_data := overwrite i (0x80 # replicate (55 - i) 0) (sc_data ctx)\<rparr>
                  else (let c = ctx\<lparr>sc_data := overwrite i (0x80 # replicate (63 - i) 0) (sc_data ctx)\<rparr>;
                            c' = sha256_transform c (sc_data c)
                        in c'\<lparr>sc_data := overwrite 0 (replicate 56 0) (sc_data c')\<rparr>));
          bits = sc_bitlen ctx1 + of_nat i * 8;
          ctx2 = ctx1\<lparr>sc_bitlen := bits, sc_data := overwrite 56 (be64 bits) (sc_data ctx1)\<rparr>
      in concat (map be32 (sc_state (sha256_transform ctx2 (sc_data ctx2)))))"

text \<open>The context lives on the stack and \<open>sha256_init\<close> leaves its block unset; the digest does
  not depend on it (\<open>sha256_streaming\<close>).\<close>

definition sha256_ctx0 :: sha256_ctx where
  "sha256_ctx0 = \<lparr>sc_state = [], sc_bitlen = 0, sc_data = replicate 64 0, sc_datalen = 0\<rparr>"

definition sha256 :: "u8 list \<Rightarrow> u8 list" where
  "sha256 msg = sha256_final (sha256_update (sha256_init sha256_ctx0) msg)"

definition hmac_sha256 :: "u8 list \<Rightarrow> u8 list \<Rightarrow> u8 list" where
  "hmac_sha256 key msg =
     (let k0 = replicate 64 0;
          k = (if length key > 64
               then overwrite 0 (sha256_final (sha256_update (sha256_init sha256_ctx0) key)) k0
               else overwrite 0 key k0);
          o_key = map (\<lambda>b. b XOR 0x5c) k;
          i_key = map (\<lambda>b. b XOR 0x36) k;
          c = sha256_update (sha256_init sha256_ctx0) i_key;
          c = sha256_update c msg;
          inner = sha256_final c;
          c = sha256_update (sha256_init sha256_ctx0) o_key;
          c = sha256_update c inner
      in sha256_final c)"

section \<open>The reference definition\<close>

fun blocks :: "nat \<Rightarrow> 'a list \<Rightarrow> 'a list list" where
  "blocks 0 xs = []"
| "blocks (Suc n) xs = take 64 xs # blocks n (drop 64 xs)"

definition sha_pad :: "u8 list \<Rightarrow> u8 list" where
  "sha_pad msg = msg @ 0x80 # replicate ((119 - length msg mod 64) mod 64) 0 @ be64 (of_nat (8 * length msg))"

definition sha256_ref :: "u8 list \<Rightarrow> u8 list" where
  "sha256_ref msg =
     (let p = sha_pad msg
      in concat (map be32 (fold sha_block (blocks (length p div 64) p) sha256_h0)))"

definition hmac_ref :: "u8 list \<Rightarrow> u8 list \<Rightarrow> u8 list" where
  "hmac_ref key msg =
     (let k = (if length key > 64 then sha256_ref key else key);
          k64 = k @ replicate (64 - length k) 0
      in sha256_ref (map (\<lambda>b. b XOR 0x5c) k64 @ sha256_ref (map (\<lambda>b. b XOR 0x36) k64 @ msg)))"

section \<open>Streaming equals the reference\<close>

lemma blocks_append:
  "length xs = 64 * n \<Longrightarrow> blocks (n + m) (xs @ ys) = blocks n xs @ blocks m ys"
proof (induction n arbitrary: xs)
  case 0
  then show ?case by simp
next
  case (Suc n)
  then have "length (drop 64 xs) = 64 * n" "64 \<le> length xs" by simp_all
  with Suc.IH [of "drop 64 xs"] show ?case by simp
qed

lemma blocks_prefix: "64 * n \<le> length xs \<Longrightarrow> blocks n (xs @ ys) = blocks n xs"
  by (induction n arbitrary: xs) simp_all

lemma blocks_snoc: "length xs = 64 * n + 64 \<Longrightarrow> blocks (Suc n) xs = blocks n xs @ [drop (64 * n) xs]"
proof (induction n arbitrary: xs)
  case 0
  then show ?case by simp
next
  case (Suc n)
  then have "length (drop 64 xs) = 64 * n + 64" by simp
  from Suc.IH [OF this] show ?case by (simp add: add.commute)
qed

lemma blocks_one: "length xs = 64 \<Longrightarrow> blocks 1 xs = [xs]"
  by simp

lemma blocks_two:
  assumes "length a = 64" "length b = 64"
  shows "blocks 2 (a @ b) = [a, b]"
  using assms by (simp add: numeral_2_eq_2)

lemma blocks_split:
  assumes "length full = 64 * n" "length tail = 64 * m" "msg = full @ rest" "p = full @ tail"
  shows "blocks (length p div 64) p = blocks n msg @ blocks m tail"
proof -
  have "length p = 64 * (n + m)" using assms by simp
  then have "length p div 64 = n + m" by simp
  then show ?thesis
    using blocks_append [OF assms(1), of m tail] blocks_prefix [of n full rest] assms(1,3,4) by simp
qed

lemma length_be64 [simp]: "length (be64 w) = 8"
  by (simp add: be64_def)

lemma length_be32 [simp]: "length (be32 w) = 4"
  by (simp add: be32_def)

lemma length_sha_block [simp]: "length (sha_block blk st) = 8"
  by (simp add: sha_block_def Let_def split: prod.split)

lemma length_fold_block: "length st = 8 \<Longrightarrow> length (fold sha_block bs st) = 8"
  by (induction bs arbitrary: st) simp_all

lemma length_overwrite [simp]:
  "i + length bs \<le> length xs \<Longrightarrow> length (overwrite i bs xs) = length xs"
  by (simp add: overwrite_def)

text \<open>The context after the bytes of \<open>msg\<close>: the full blocks are hashed, the rest is in the
  block buffer.\<close>

definition absorbed :: "u8 list \<Rightarrow> sha256_ctx \<Rightarrow> bool" where
  "absorbed msg ctx \<longleftrightarrow>
     length (sc_data ctx) = 64 \<and> sc_datalen ctx = length msg mod 64 \<and>
     sc_bitlen ctx = of_nat (512 * (length msg div 64)) \<and>
     take (sc_datalen ctx) (sc_data ctx) = drop (64 * (length msg div 64)) msg \<and>
     sc_state ctx = fold sha_block (blocks (length msg div 64) msg) sha256_h0"

lemma absorbed_init: "length (sc_data ctx) = 64 \<Longrightarrow> absorbed [] (sha256_init ctx)"
  by (simp add: absorbed_def sha256_init_def)

lemma absorbed_byte:
  assumes "absorbed msg ctx"
  shows "absorbed (msg @ [x]) (sha256_byte x ctx)"
proof -
  let ?n = "length msg div 64" and ?d = "length msg mod 64"
  have len: "length msg = 64 * ?n + ?d" by simp
  have d: "?d < 64" by simp
  have c: "length (sc_data ctx) = 64" "sc_datalen ctx = ?d"
    "sc_bitlen ctx = of_nat (512 * ?n)" "take ?d (sc_data ctx) = drop (64 * ?n) msg"
    "sc_state ctx = fold sha_block (blocks ?n msg) sha256_h0"
    using assms by (auto simp: absorbed_def)
  have take1: "take (Suc ?d) ((sc_data ctx)[?d := x]) = drop (64 * ?n) msg @ [x]"
    using c d by (simp add: take_Suc_conv_app_nth)
  have same: "blocks ?n (msg @ ys) = blocks ?n msg" for ys
    by (rule blocks_prefix) simp
  show ?thesis
  proof (cases "Suc ?d = 64")
    case True
    then have div: "length (msg @ [x]) div 64 = ?n + 1" "length (msg @ [x]) mod 64 = 0"
      using len by simp_all presburger+
    have "blocks (Suc ?n) (msg @ [x]) = blocks ?n msg @ [drop (64 * ?n) msg @ [x]]"
      using blocks_snoc [of "msg @ [x]" ?n] same [of "[x]"] True len by simp
    moreover have "(sc_data ctx)[?d := x] = drop (64 * ?n) msg @ [x]"
      using take1 True c(1) by simp
    ultimately show ?thesis
      using c True div len
      by (simp add: absorbed_def sha256_byte_def sha256_transform_def Let_def)
  next
    case False
    then have "length (msg @ [x]) div 64 = ?n" "length (msg @ [x]) mod 64 = Suc ?d"
      using d len by (simp_all add: mod_Suc div_Suc)
    with False c take1 same show ?thesis
      by (simp add: absorbed_def sha256_byte_def Let_def)
  qed
qed

lemma absorbed_update: "absorbed a ctx \<Longrightarrow> absorbed (a @ b) (sha256_update ctx b)"
proof (induction b arbitrary: a ctx)
  case Nil
  then show ?case by (simp add: sha256_update_def)
next
  case (Cons x b)
  from Cons.IH [OF absorbed_byte [OF Cons.prems, of x]] show ?case
    by (simp add: sha256_update_def)
qed

text \<open>Padding completes the block under construction, or fills it and adds one more.\<close>

lemma pad_blocks:
  assumes "msg = full @ rest" "length full = 64 * n" "length rest < 56"
  shows "blocks (length (sha_pad msg) div 64) (sha_pad msg) =
    blocks n msg @ [rest @ 0x80 # replicate (55 - length rest) 0 @ be64 (of_nat (8 * length msg))]"
proof -
  let ?last = "rest @ 0x80 # replicate (55 - length rest) 0 @ be64 (of_nat (8 * length msg))"
  have m: "length msg mod 64 = length rest" using assms by simp
  have "(119 - length rest) mod 64 = 55 - length rest"
  proof -
    have r: "119 - length rest = 64 + (55 - length rest)" "55 - length rest < 64"
      using assms(3) by arith+
    show ?thesis unfolding r(1) mod_add_self1 by (rule mod_less [OF r(2)])
  qed
  then have p: "sha_pad msg = full @ ?last" using assms(1) m by (simp add: sha_pad_def)
  have l: "length ?last = 64" using assms(3) by simp
  show ?thesis
    using blocks_split [OF assms(2) _ assms(1) p, of 1] blocks_one [OF l] l by (simp only: mult_1_right)
qed

lemma pad_blocks_two:
  assumes "msg = full @ rest" "length full = 64 * n" "56 \<le> length rest" "length rest < 64"
  shows "blocks (length (sha_pad msg) div 64) (sha_pad msg) =
    blocks n msg @ [rest @ 0x80 # replicate (63 - length rest) 0,
      replicate 56 0 @ be64 (of_nat (8 * length msg))]"
proof -
  let ?b1 = "rest @ 0x80 # replicate (63 - length rest) 0"
  let ?b2 = "replicate 56 0 @ be64 (of_nat (8 * length msg))"
  have m: "length msg mod 64 = length rest" using assms by simp
  have r: "(119 - length rest) mod 64 = (63 - length rest) + 56" using assms(3,4) by simp
  have p: "sha_pad msg = full @ ?b1 @ ?b2"
    unfolding sha_pad_def m r replicate_add using assms(1) by simp
  have l: "length ?b1 = 64" "length ?b2 = 64" using assms(4) by simp_all
  have "length (?b1 @ ?b2) = 64 * 2" using l by simp
  from blocks_split [OF assms(2) this assms(1) p] blocks_two [OF l] show ?thesis by (simp only:)
qed

lemma overwrite_twice:
  "i + length xs = j \<Longrightarrow> j + length ys = length zs \<Longrightarrow>
   overwrite j ys (overwrite i xs zs) = take i zs @ xs @ ys"
  by (auto simp: overwrite_def)

lemma bit_count: "of_nat (512 * n) + of_nat d * 8 = (of_nat (8 * (64 * n + d)) :: u64)"
  by (simp add: algebra_simps)

lemma final_ref:
  assumes a: "absorbed msg ctx"
  shows "sha256_final ctx = sha256_ref msg"
proof -
  let ?n = "length msg div 64" and ?d = "length msg mod 64"
  let ?rest = "drop (64 * ?n) msg" and ?full = "take (64 * ?n) msg"
  have c: "length (sc_data ctx) = 64" "sc_datalen ctx = ?d" "take ?d (sc_data ctx) = ?rest"
    "sc_state ctx = fold sha_block (blocks ?n msg) sha256_h0" "sc_bitlen ctx = of_nat (512 * ?n)"
    using a by (auto simp: absorbed_def)
  have f: "msg = ?full @ ?rest" "length ?full = 64 * ?n" by simp_all
  have lr: "length ?rest = ?d" by (simp add: minus_mult_div_eq_mod)
  have bits: "sc_bitlen ctx + of_nat ?d * 8 = of_nat (8 * length msg)"
    using bit_count [of ?n ?d] unfolding c(5) mult_div_mod_eq .
  show ?thesis
  proof (cases "?d < 56")
    case True
    have o: "overwrite 56 (be64 w) (overwrite ?d (0x80 # replicate (55 - ?d) 0) (sc_data ctx)) =
        ?rest @ 0x80 # replicate (55 - ?d) 0 @ be64 w" for w
      using True c(1,3) by (subst overwrite_twice) simp_all
    show ?thesis
      using pad_blocks [OF f, unfolded lr, OF True] True c(2,4) bits o
      by (simp add: sha256_final_def sha256_ref_def sha256_transform_def Let_def)
  next
    case False
    have d: "?d < 64" by simp
    have o1: "overwrite ?d (0x80 # replicate (63 - ?d) 0) (sc_data ctx) =
        ?rest @ 0x80 # replicate (63 - ?d) 0"
      using False d c(1) unfolding overwrite_def c(3) by simp
    have o2: "overwrite 56 (be64 w) (overwrite 0 (replicate 56 0) xs) = replicate 56 0 @ be64 w"
      if "length xs = 64" for w :: u64 and xs
      using that by (simp add: overwrite_def)
    have l: "length (?rest @ 0x80 # replicate (63 - ?d) 0) = 64" using d lr by simp
    show ?thesis
      using pad_blocks_two [OF f, unfolded lr] False d c(2,4) bits o1 o2 [OF l]
      by (simp add: sha256_final_def sha256_ref_def sha256_transform_def Let_def)
  qed
qed

lemma sha256_streaming:
  "length (sc_data ctx) = 64 \<Longrightarrow> sha256_final (sha256_update (sha256_init ctx) msg) = sha256_ref msg"
  using final_ref [OF absorbed_update [OF absorbed_init, of ctx msg]] by simp

lemma sha256_eq: "sha256 msg = sha256_ref msg"
  by (simp add: sha256_def sha256_ctx0_def sha256_streaming)

lemma length_sha256_ref [simp]: "length (sha256_ref msg) = 32"
proof -
  have "length (fold sha_block bs sha256_h0) = 8" for bs
    by (rule length_fold_block) (simp add: sha256_h0_def)
  then show ?thesis
    by (simp add: sha256_ref_def Let_def length_concat comp_def sum_list_triv)
qed

lemma update_append: "sha256_update (sha256_update ctx a) b = sha256_update ctx (a @ b)"
  by (simp add: sha256_update_def)

lemma hmac_eq: "hmac_sha256 key msg = hmac_ref key msg"
proof -
  have ctx0: "sha256_final (sha256_update (sha256_init sha256_ctx0) m) = sha256_ref m" for m
    by (rule sha256_streaming) (simp add: sha256_ctx0_def)
  have "overwrite 0 xs (replicate 64 0) = xs @ replicate (64 - length xs) 0"
    if "length xs \<le> 64" for xs :: "u8 list"
    using that by (simp add: overwrite_def)
  then show ?thesis
    by (simp add: hmac_sha256_def hmac_ref_def Let_def update_append ctx0)
qed

lemma length_hmac [simp]: "length (hmac_sha256 key msg) = 32"
  by (simp add: hmac_eq hmac_ref_def Let_def)

end
