(* ===== verification/Sha256_Vectors.thy ===== *)
theory Sha256_Vectors
  imports Sha256
begin

text \<open>
  The statement that the streaming hash and the HMAC of \<open>src/core/auth_rbac.c\<close> compute the
  standard functions, and a published test vector evaluated in the kernel.
\<close>

section \<open>Properties\<close>

text \<open>C39: Feeding a message to the streaming SHA-256 in two pieces of any length, from a context
  whose block buffer holds anything, gives the digest of the padded whole message; and
  HMAC-SHA-256 is the keyed construction of RFC 2104 over that digest, for keys longer and
  shorter than a block.\<close>

theorem sha256_hmac_reference:
  assumes "length (sc_data ctx) = 64"
  shows "sha256_final (sha256_update (sha256_update (sha256_init ctx) a) b) = sha256_ref (a @ b) \<and>
    hmac_sha256 key msg = hmac_ref key msg"
  using assms by (simp add: update_append sha256_streaming hmac_eq)

text \<open>The test vector of FIPS 180-4 for the message \<open>abc\<close>, fed in two pieces.\<close>

theorem sha256_hmac_reference_witness:
  "sha256_ref [0x61, 0x62, 0x63] =
    [0xba, 0x78, 0x16, 0xbf, 0x8f, 0x01, 0xcf, 0xea, 0x41, 0x41, 0x40, 0xde, 0x5d, 0xae, 0x22, 0x23,
     0xb0, 0x03, 0x61, 0xa3, 0x96, 0x17, 0x7a, 0x9c, 0xb4, 0x10, 0xff, 0x61, 0xf2, 0x00, 0x15, 0xad]"
proof -
  have len: "length (sc_data sha256_ctx0) = 64" by (simp add: sha256_ctx0_def)
  have "sha256_final (sha256_update (sha256_update (sha256_init sha256_ctx0) [0x61]) [0x62, 0x63]) =
    [0xba, 0x78, 0x16, 0xbf, 0x8f, 0x01, 0xcf, 0xea, 0x41, 0x41, 0x40, 0xde, 0x5d, 0xae, 0x22, 0x23,
     0xb0, 0x03, 0x61, 0xa3, 0x96, 0x17, 0x7a, 0x9c, 0xb4, 0x10, 0xff, 0x61, 0xf2, 0x00, 0x15, 0xad]"
    by code_simp
  then show ?thesis
    using sha256_hmac_reference [OF len, of "[0x61]" "[0x62, 0x63]"] by simp
qed

end
