(* ===== verification/Base64.thy ===== *)
theory Base64
  imports C_Strings
begin

text \<open>
  The base64 codec of \<open>src/core/auth_rbac.c\<close>, which session cookies and signatures travel
  in: the encoder with its URL-safe alphabet and stripped padding, and the decoder, which
  accepts both alphabets, restores the padding in a 512-byte buffer and stops at the first
  \<open>=\<close>. The decoder's accumulator keeps shifting the whole input through a 32-bit integer;
  the round trip shows that the bits it sheds are never read.
\<close>

definition b64 :: string where
  "b64 = ''ABCDEFGHIJKLMNOPQRSTUVWXYZabcdefghijklmnopqrstuvwxyz0123456789+/''"

definition b64_char :: "u32 \<Rightarrow> char" where
  "b64_char w = b64 ! unat (w AND 63)"

section \<open>Encoder\<close>

fun b64_groups :: "u8 list \<Rightarrow> string" where
  "b64_groups (a # b # c # rest) =
     (let n = push_bit 16 (ucast a) OR push_bit 8 (ucast b) OR ucast c
      in b64_char (drop_bit 18 n) # b64_char (drop_bit 12 n) # b64_char (drop_bit 6 n) #
         b64_char n # b64_groups rest)"
| "b64_groups [a, b] =
     (let n = push_bit 16 (ucast a) OR push_bit 8 (ucast b)
      in [b64_char (drop_bit 18 n), b64_char (drop_bit 12 n), b64_char (drop_bit 6 n), CHR ''=''])"
| "b64_groups [a] =
     (let n = push_bit 16 (ucast a)
      in [b64_char (drop_bit 18 n), b64_char (drop_bit 12 n), CHR ''='', CHR ''=''])"
| "b64_groups [] = []"

definition url_char :: "char \<Rightarrow> char" where
  "url_char c = (if c = CHR ''+'' then CHR ''-'' else if c = CHR ''/'' then CHR ''_'' else c)"

fun strip_pad :: "string \<Rightarrow> string" where
  "strip_pad s = rev (dropWhile (\<lambda>c. c = CHR ''='') (rev s))"

text \<open>\<open>None\<close> is the result -1; \<open>out_sz\<close> the capacity of the output array.\<close>

definition b64_encode :: "u8 list \<Rightarrow> nat \<Rightarrow> bool \<Rightarrow> string option" where
  "b64_encode inp out_sz url =
     (if out_sz < ((length inp + 2) div 3) * 4 + 1 then None
      else Some (if url then strip_pad (map url_char (b64_groups inp)) else b64_groups inp))"

section \<open>Decoder\<close>

definition b64_decode_char :: "char \<Rightarrow> nat option" where
  "b64_decode_char c =
     (if code CHR ''A'' \<le> code c \<and> code c \<le> code CHR ''Z'' then Some (code c - code CHR ''A'')
      else if code CHR ''a'' \<le> code c \<and> code c \<le> code CHR ''z''
      then Some (code c - code CHR ''a'' + 26)
      else if code CHR ''0'' \<le> code c \<and> code c \<le> code CHR ''9''
      then Some (code c - code CHR ''0'' + 52)
      else if c = CHR ''+'' \<or> c = CHR ''-'' then Some 62
      else if c = CHR ''/'' \<or> c = CHR ''_'' then Some 63
      else None)"

fun b64_decode_loop :: "string \<Rightarrow> u32 \<Rightarrow> int \<Rightarrow> u8 list \<Rightarrow> nat \<Rightarrow> u8 list option" where
  "b64_decode_loop [] val valb out out_sz = Some out"
| "b64_decode_loop (ch # src) val valb out out_sz =
     (if ch = CHR ''='' then Some out
      else (case b64_decode_char ch of
              None \<Rightarrow> None
            | Some c \<Rightarrow>
                (let val' = push_bit 6 val + of_nat c;
                     valb' = valb + 6
                 in if valb' \<ge> 0
                    then if length out \<ge> out_sz then None
                         else b64_decode_loop src val' (valb' - 8)
                                (out @ [ucast (drop_bit (nat valb') val')]) out_sz
                    else b64_decode_loop src val' valb' out out_sz)))"

definition b64_decode :: "string \<Rightarrow> nat \<Rightarrow> u8 list option" where
  "b64_decode inp out_sz =
     (let n = length inp
      in if n mod 4 \<noteq> 0 \<and> n + (4 - n mod 4) \<ge> 512 then None
         else if n \<ge> 512 - 4 then None
         else b64_decode_loop (inp @ replicate ((4 - n mod 4) mod 4) CHR ''='') 0 (- 8) [] out_sz)"

section \<open>Six-bit arithmetic\<close>

lemma decode_b64_char: "i < 64 \<Longrightarrow> b64_decode_char (url_char (b64 ! i)) = Some i \<and>
    b64_decode_char (b64 ! i) = Some i \<and> url_char (b64 ! i) \<noteq> CHR ''=''"
proof -
  have "list_all (\<lambda>i. b64_decode_char (url_char (b64 ! i)) = Some i \<and>
      b64_decode_char (b64 ! i) = Some i \<and> url_char (b64 ! i) \<noteq> CHR ''='') [0..<64]"
    by (simp add: b64_def b64_decode_char_def url_char_def upt_conv_Cons)
  then show "i < 64 \<Longrightarrow> ?thesis" by (simp add: list_all_iff)
qed

lemma low_bits:
  fixes N :: nat
  assumes "s + 8 \<le> 32"
  shows "(N mod 2 ^ 32) div 2 ^ s mod 2 ^ 8 = (N mod 2 ^ (s + 8)) div 2 ^ s"
proof -
  have "take_bit 8 (drop_bit s (take_bit 32 N)) = drop_bit s (take_bit (s + 8) N)"
    using assms by (simp add: drop_bit_take_bit [symmetric] take_bit_drop_bit add.commute min_def)
  then show ?thesis by (simp add: take_bit_eq_mod drop_bit_eq_div)
qed

lemma unat_shift_add: "unat (push_bit 6 V + (of_nat c :: u32)) = (unat V * 64 + c) mod 2 ^ 32"
  by (simp add: unat_word_ariths push_bit_eq_mult unat_of_nat mod_simps)

text \<open>The byte the decoder takes from two adjacent sextets, for the three alignments.\<close>

lemma decoded_byte:
  assumes "c1 < 64" "c2 < 64" "s \<le> 4"
  shows "ucast (drop_bit s (push_bit 6 (push_bit 6 V + of_nat c1) + of_nat c2 :: u32)) =
    (of_nat (((c1 * 64 + c2) div 2 ^ s) mod 256) :: u8)"
proof -
  let ?X = "push_bit 6 (push_bit 6 V + of_nat c1) + of_nat c2 :: u32"
  let ?N = "unat V * 4096 + (c1 * 64 + c2)"
  have "unat ?X = ((unat V * 64 + c1) mod 2 ^ 32 * 64 + c2) mod 2 ^ 32"
    by (simp only: unat_shift_add)
  also have "\<dots> = ((unat V * 64 + c1) * 64 + c2) mod 2 ^ 32"
    by (metis mod_add_left_eq mod_mult_left_eq)
  also have "(unat V * 64 + c1) * 64 + c2 = ?N" by simp
  finally have X: "unat ?X = ?N mod 2 ^ 32" .
  have "?N mod 2 ^ (s + 8) = (c1 * 64 + c2) mod 2 ^ (s + 8)"
  proof -
    have "(4096 :: nat) = 2 ^ (s + 8) * 2 ^ (4 - s)" using assms(3)
      by (simp add: power_add [symmetric])
    then have "2 ^ (s + 8) dvd (4096 :: nat)" by (metis dvd_triv_left)
    then have "2 ^ (s + 8) dvd unat V * 4096" by (rule dvd_mult)
    then show ?thesis by (metis mod_add_left_eq add_0 dvd_imp_mod_0)
  qed
  then have "unat ?X div 2 ^ s mod 256 = (c1 * 64 + c2) div 2 ^ s mod 256"
    using low_bits [of s ?N] low_bits [of s "c1 * 64 + c2"] assms unfolding X by simp
  moreover have "unat ?X < 4294967296" unfolding X by simp
  ultimately have "unat (ucast (drop_bit s ?X) :: u8) = (c1 * 64 + c2) div 2 ^ s mod 256"
    unfolding unsigned_ucast_eq unsigned_drop_bit_eq
    by (simp add: drop_bit_eq_div [where ?'a = nat] take_bit_eq_mod [where ?'a = nat])
  then show ?thesis
    by (intro word_unat_eq_iff [THEN iffD2]) (simp add: unat_of_nat take_bit_eq_mod)
qed

lemma triple_value:
  fixes a b c :: u8
  shows "unat (push_bit 16 (ucast a) OR push_bit 8 (ucast b) OR ucast c :: u32) =
    unat a * 65536 + unat b * 256 + unat c"
proof -
  have bounds: "unat a < 256" "unat b < 256" "unat c < 256"
    using unsigned_less [of a, where ?'a = nat] unsigned_less [of b, where ?'a = nat]
      unsigned_less [of c, where ?'a = nat] by simp_all
  have 1: "(push_bit 8 (ucast b) :: u32) AND ucast c = 0"
    by (rule bit_eqI) (auto simp: bit_simps dest!: bit_imp_le_length)
  have 2: "(push_bit 16 (ucast a) :: u32) AND (push_bit 8 (ucast b) OR ucast c) = 0"
    by (rule bit_eqI) (auto simp: bit_simps dest!: bit_imp_le_length)
  have "(push_bit 16 (ucast a) OR push_bit 8 (ucast b) OR ucast c :: u32) =
      push_bit 16 (ucast a) + (push_bit 8 (ucast b) + ucast c)"
    by (simp only: disjunctive_add_eq_or [OF 1] disjunctive_add_eq_or [OF 2])
  also have "\<dots> = of_nat (unat a * 65536 + unat b * 256 + unat c)"
    by (simp add: push_bit_eq_mult)
  finally have v: "(push_bit 16 (ucast a) OR push_bit 8 (ucast b) OR ucast c :: u32) =
      of_nat (unat a * 65536 + unat b * 256 + unat c)" .
  have "unat a * 65536 + unat b * 256 + unat c < 2 ^ LENGTH(32)" using bounds by simp
  then show ?thesis by (simp only: v unat_of_nat mod_less)
qed
lemma sextet: "unat (drop_bit s n AND (63 :: u32)) = unat n div 2 ^ s mod 64"
proof -
  have "drop_bit s n AND (63 :: u32) = take_bit 6 (drop_bit s n)"
    by (simp add: take_bit_eq_mask mask_eq_exp_minus_1)
  moreover have "unat n < 4294967296" using unsigned_less [of n, where ?'a = nat] by simp
  ultimately show ?thesis by (simp add: unsigned_take_bit_eq unsigned_drop_bit_eq
    take_bit_eq_mod [where ?'a = nat] drop_bit_eq_div [where ?'a = nat])
qed
lemma digits64:
  fixes v1 :: nat
  assumes "v2 < 64" "v3 < 64" "v4 < (64 :: nat)"
  defines "N \<equiv> ((v1 * 64 + v2) * 64 + v3) * 64 + v4"
  shows "N mod 64 = v4" "N div 2 ^ 6 mod 64 = v3" "N div 2 ^ 12 mod 64 = v2" "N div 2 ^ 18 = v1"
proof -
  have m: "(x * 64 + y) mod 64 = y" if "y < 64" for x y :: nat
    using that by simp
  have 1: "N div 64 = (v1 * 64 + v2) * 64 + v3" using assms by simp
  have 2: "N div 4096 = v1 * 64 + v2" using 1 assms(2) div_mult2_eq [of N 64 64] by simp
  have 3: "N div 262144 = v1" using 2 assms(1) div_mult2_eq [of N 4096 64] by simp
  show "N mod 64 = v4" unfolding N_def by (rule m [OF assms(3)])
  show "N div 2 ^ 6 mod 64 = v3" using 1 m [OF assms(2), of "v1 * 64 + v2"] by simp
  show "N div 2 ^ 12 mod 64 = v2" using 2 m [OF assms(1), of v1] by simp
  show "N div 2 ^ 18 = v1" using 3 by simp
qed

lemma sextets:
  fixes A B C :: nat
  assumes "A < 256" "B < 256" "C < (256 :: nat)"
  defines "N \<equiv> A * 65536 + B * 256 + C"
  shows "N div 2 ^ 18 mod 64 = A div 4" "N div 2 ^ 12 mod 64 = A mod 4 * 16 + B div 16"
    "N div 2 ^ 6 mod 64 = B mod 16 * 4 + C div 64" "N mod 64 = C mod 64"
proof -
  have e: "A = A div 4 * 4 + A mod 4" "B = B div 16 * 16 + B mod 16" "C = C div 64 * 64 + C mod 64"
    by simp_all
  have N: "N = ((A div 4 * 64 + (A mod 4 * 16 + B div 16)) * 64 + (B mod 16 * 4 + C div 64)) * 64 + C mod 64"
    unfolding N_def by (subst (1) e(1), subst (1) e(2), subst (1) e(3)) (simp only: algebra_simps, simp)
  have b: "A mod 4 * 16 + B div 16 < 64" "B mod 16 * 4 + C div 64 < 64" "C mod 64 < 64" "A div 4 < 64"
    using assms(1-3) by auto
  show "N div 2 ^ 18 mod 64 = A div 4" "N div 2 ^ 12 mod 64 = A mod 4 * 16 + B div 16"
    "N div 2 ^ 6 mod 64 = B mod 16 * 4 + C div 64" "N mod 64 = C mod 64"
    using digits64 [OF b(1-3), of "A div 4", folded N] b(4) by simp_all
qed
section \<open>Round trip\<close>

text \<open>The sextets a byte string is cut into.\<close>

fun b64_sextets :: "u8 list \<Rightarrow> nat list" where
  "b64_sextets (a # b # c # rest) =
     (unat a div 4) # (unat a mod 4 * 16 + unat b div 16) # (unat b mod 16 * 4 + unat c div 64) #
     (unat c mod 64) # b64_sextets rest"
| "b64_sextets [a, b] = [unat a div 4, unat a mod 4 * 16 + unat b div 16, unat b mod 16 * 4]"
| "b64_sextets [a] = [unat a div 4, unat a mod 4 * 16]"
| "b64_sextets [] = []"

definition sextet_char :: "nat \<Rightarrow> char" where
  "sextet_char v = url_char (b64 ! v)"

lemma u8_bound: "unat (a :: u8) < 256"
  using unsigned_less [of a, where ?'a = nat] by simp

lemma b64_chars:
  fixes a b c :: u8
  assumes "n = push_bit 16 (ucast a) OR push_bit 8 (ucast b) OR ucast c"
  shows "url_char (b64_char (drop_bit 18 n)) = sextet_char (unat a div 4)"
    "url_char (b64_char (drop_bit 12 n)) = sextet_char (unat a mod 4 * 16 + unat b div 16)"
    "url_char (b64_char (drop_bit 6 n)) = sextet_char (unat b mod 16 * 4 + unat c div 64)"
    "url_char (b64_char n) = sextet_char (unat c mod 64)"
proof -
  have n: "unat n = unat a * 65536 + unat b * 256 + unat c"
    unfolding assms by (rule triple_value)
  note s = sextets [OF u8_bound [of a] u8_bound [of b] u8_bound [of c], folded n]
  have "unat (n AND 63) = unat c mod 64" using sextet [of 0 n] s(4) by simp
  with s show "url_char (b64_char (drop_bit 18 n)) = sextet_char (unat a div 4)"
    "url_char (b64_char (drop_bit 12 n)) = sextet_char (unat a mod 4 * 16 + unat b div 16)"
    "url_char (b64_char (drop_bit 6 n)) = sextet_char (unat b mod 16 * 4 + unat c div 64)"
    "url_char (b64_char n) = sextet_char (unat c mod 64)"
    by (simp_all only: b64_char_def sextet_char_def sextet)
qed

lemma url_pad: "url_char CHR ''='' = CHR ''=''"
  by (simp add: url_char_def)

lemma groups_sextets:
  "map url_char (b64_groups bs) =
   map sextet_char (b64_sextets bs) @ replicate ((3 - length bs mod 3) mod 3) CHR ''=''"
proof (induction bs rule: b64_sextets.induct)
  case (1 a b c rest)
  define n :: u32 where "n = push_bit 16 (ucast a) OR push_bit 8 (ucast b) OR ucast c"
  have g: "b64_groups (a # b # c # rest) = b64_char (drop_bit 18 n) # b64_char (drop_bit 12 n) #
      b64_char (drop_bit 6 n) # b64_char n # b64_groups rest"
    unfolding n_def by (simp only: b64_groups.simps Let_def)
  have m: "length (a # b # c # rest) mod 3 = length rest mod 3"
    using mod_add_self2 [of "length rest" 3] by simp
  show ?case unfolding g m using 1 b64_chars [OF n_def] by simp
next
  case (2 a b)
  define n :: u32 where "n = push_bit 16 (ucast a) OR push_bit 8 (ucast b)"
  have g: "b64_groups [a, b] = [b64_char (drop_bit 18 n), b64_char (drop_bit 12 n),
      b64_char (drop_bit 6 n), CHR ''='']"
    unfolding n_def by (simp only: b64_groups.simps Let_def)
  show ?case unfolding g using b64_chars [of n a b 0] by (simp add: url_pad n_def [symmetric])
next
  case (3 a)
  define n :: u32 where "n = push_bit 16 (ucast a)"
  have g: "b64_groups [a] = [b64_char (drop_bit 18 n), b64_char (drop_bit 12 n), CHR ''='', CHR ''='']"
    unfolding n_def by (simp only: b64_groups.simps Let_def)
  show ?case unfolding g using b64_chars [of n a 0 0]
    by (simp add: url_pad n_def [symmetric] numeral_2_eq_2)
next
  case 4
  then show ?case by simp
qed

lemma sextets_bound: "v \<in> set (b64_sextets bs) \<Longrightarrow> v < 64"
proof (induction bs rule: b64_sextets.induct)
  case (1 a b c rest)
  then show ?case using u8_bound [of a] u8_bound [of b] u8_bound [of c] by auto
next
  case (2 a b)
  then show ?case using u8_bound [of a] u8_bound [of b] by auto
next
  case (3 a)
  then show ?case using u8_bound [of a] by auto
qed simp

lemma sextet_char_facts:
  "v < 64 \<Longrightarrow> b64_decode_char (sextet_char v) = Some v"
  "v < 64 \<Longrightarrow> sextet_char v \<noteq> CHR ''=''"
  using decode_b64_char by (simp_all add: sextet_char_def)

lemma strip_pad_append:
  "(\<forall>c\<in>set s. c \<noteq> CHR ''='') \<Longrightarrow> strip_pad (s @ replicate k CHR ''='') = s"
proof -
  assume s: "\<forall>c\<in>set s. c \<noteq> CHR ''=''"
  have "dropWhile (\<lambda>c. c = CHR ''='') (rev s) = rev s"
    using s by (cases s rule: rev_cases) simp_all
  then have "dropWhile (\<lambda>c. c = CHR ''='') (replicate k CHR ''='' @ rev s) = rev s"
    by (induction k) simp_all
  then show ?thesis by simp
qed

lemma encode_url:
  assumes "((length bs + 2) div 3) * 4 + 1 \<le> out_sz"
  shows "b64_encode bs out_sz True = Some (map sextet_char (b64_sextets bs))"
proof -
  have "strip_pad (map url_char (b64_groups bs)) = map sextet_char (b64_sextets bs)"
    unfolding groups_sextets
    by (rule strip_pad_append) (auto dest!: sextets_bound sextet_char_facts(2))
  with assms show ?thesis by (simp add: b64_encode_def del: strip_pad.simps)
qed

lemma decoded_bytes:
  fixes A B C :: nat
  assumes "A < 256" "B < 256" "C < 256"
  shows "(A div 4 * 64 + (A mod 4 * 16 + B div 16)) div 2 ^ 4 mod 256 = A"
    "((A mod 4 * 16 + B div 16) * 64 + (B mod 16 * 4 + C div 64)) div 2 ^ 2 mod 256 = B"
    "((B mod 16 * 4 + C div 64) * 64 + C mod 64) div 2 ^ 0 mod 256 = C"
proof -
  have e: "A div 4 * 4 + A mod 4 = A" "B div 16 * 16 + B mod 16 = B" "C div 64 * 64 + C mod 64 = C"
    by simp_all
  have "A div 4 * 64 + (A mod 4 * 16 + B div 16) = A * 16 + B div 16" using e(1) by linarith
  then show "(A div 4 * 64 + (A mod 4 * 16 + B div 16)) div 2 ^ 4 mod 256 = A"
    using assms(1,2) by simp
  have "(A mod 4 * 16 + B div 16) * 64 + (B mod 16 * 4 + C div 64) =
      (A mod 4 * 256 + B) * 4 + C div 64"
  proof -
    have "(p * 16 + x) * 64 + (y * 4 + z) = (p * 256 + u) * 4 + z" if "x * 16 + y = u"
      for p x y z u :: nat
      unfolding that [symmetric] by (simp add: algebra_simps)
    from this [OF e(2)] show ?thesis .
  qed
  then have "((A mod 4 * 16 + B div 16) * 64 + (B mod 16 * 4 + C div 64)) div 4 mod 256 =
      ((A mod 4 * 256 + B) * 4 + C div 64) div 4 mod 256" by (simp only:)
  also have "((A mod 4 * 256 + B) * 4 + C div 64) div 4 = A mod 4 * 256 + B"
    using assms(3) by simp
  also have "(A mod 4 * 256 + B) mod 256 = B" using assms(2) by simp
  finally show "((A mod 4 * 16 + B div 16) * 64 + (B mod 16 * 4 + C div 64)) div 2 ^ 2 mod 256 = B"
    by simp
  have "(B mod 16 * 4 + C div 64) * 64 + C mod 64 = B mod 16 * 256 + C"
  proof -
    have "(y * 4 + z) * 64 + w = y * 256 + u" if "z * 64 + w = u" for y z w u :: nat
      unfolding that [symmetric] by (simp add: algebra_simps)
    from this [OF e(3)] show ?thesis .
  qed
  then show "((B mod 16 * 4 + C div 64) * 64 + C mod 64) div 2 ^ 0 mod 256 = C"
    using assms(3) by simp
qed

text \<open>One group of the decoder: four sextets give three bytes, whatever the accumulator
  already holds.\<close>

lemma decode_group:
  assumes "length out + 3 \<le> sz"
  shows "\<exists>V'. b64_decode_loop (map sextet_char (b64_sextets (a # b # c # rest)) @ tail) V (- 8) out sz =
    b64_decode_loop (map sextet_char (b64_sextets rest) @ tail) V' (- 8) (out @ [a, b, c]) sz"
proof -
  let ?v1 = "unat a div 4" and ?v2 = "unat a mod 4 * 16 + unat b div 16"
  let ?v3 = "unat b mod 16 * 4 + unat c div 64" and ?v4 = "unat c mod 64"
  have v: "?v1 < 64" "?v2 < 64" "?v3 < 64" "?v4 < 64"
    using u8_bound [of a] u8_bound [of b] u8_bound [of c] by auto
  note d = decoded_bytes [OF u8_bound [of a] u8_bound [of b] u8_bound [of c]]
  show ?thesis
    using assms v decoded_byte [OF v(1,2), of 4] decoded_byte [OF v(2,3), of 2] decoded_byte [OF v(3,4), of 0]
    unfolding d
    by (simp add: sextet_char_facts Let_def) (rule exI, rule refl)
qed

lemma decode_rest:
  shows "length out + 2 \<le> sz \<Longrightarrow>
      b64_decode_loop (map sextet_char (b64_sextets [a, b]) @ CHR ''='' # tail) V (- 8) out sz =
      Some (out @ [a, b])"
    and "length out + 1 \<le> sz \<Longrightarrow> b64_decode_loop (map sextet_char (b64_sextets [a]) @ CHR ''='' # tail) V (- 8) out sz =
      Some (out @ [a])"
proof -
  have v: "unat a div 4 < 64" "unat a mod 4 * 16 + unat b div 16 < 64" "unat b mod 16 * 4 < 64"
    "unat a mod 4 * 16 < 64"
    using u8_bound [of a] u8_bound [of b] by auto
  note d = decoded_bytes [OF u8_bound [of a] u8_bound [of b] u8_bound [of 0]]
    decoded_bytes(1) [OF u8_bound [of a] u8_bound [of 0] u8_bound [of 0]]
  show "length out + 2 \<le> sz \<Longrightarrow>
      b64_decode_loop (map sextet_char (b64_sextets [a, b]) @ CHR ''='' # tail) V (- 8) out sz =
      Some (out @ [a, b])"
    using v d decoded_byte [OF v(1,2), of 4] decoded_byte [OF v(2,3), of 2]
    by (simp add: sextet_char_facts Let_def)
  show "length out + 1 \<le> sz \<Longrightarrow>
      b64_decode_loop (map sextet_char (b64_sextets [a]) @ CHR ''='' # tail) V (- 8) out sz =
      Some (out @ [a])"
    using v d decoded_byte [OF v(1,4), of 4]
    by (simp add: sextet_char_facts Let_def)
qed

lemma length_sextets: "length (b64_sextets bs) = (length bs * 4 + 2) div 3"
  by (induction bs rule: b64_sextets.induct) (simp_all, presburger?)

lemma decode_sextets:
  assumes "length out + length bs \<le> sz" "length bs mod 3 \<noteq> 0 \<longrightarrow> (\<exists>t. tail = CHR ''='' # t)"
    "length bs mod 3 = 0 \<longrightarrow> tail = []"
  shows "b64_decode_loop (map sextet_char (b64_sextets bs) @ tail) V (- 8) out sz = Some (out @ bs)"
  using assms
proof (induction bs arbitrary: V out rule: b64_sextets.induct)
  case (1 a b c rest)
  have m: "length (a # b # c # rest) mod 3 = length rest mod 3"
    using mod_add_self2 [of "length rest" 3] by simp
  have "length out + 3 \<le> sz" using "1.prems"(1) by simp
  from decode_group [OF this, of a b c rest tail V] obtain V' where
    "b64_decode_loop (map sextet_char (b64_sextets (a # b # c # rest)) @ tail) V (- 8) out sz =
      b64_decode_loop (map sextet_char (b64_sextets rest) @ tail) V' (- 8) (out @ [a, b, c]) sz"
    by blast
  moreover have "b64_decode_loop (map sextet_char (b64_sextets rest) @ tail) V' (- 8) (out @ [a, b, c]) sz =
      Some ((out @ [a, b, c]) @ rest)"
    using "1.prems" unfolding m by (intro "1.IH") simp_all
  ultimately show ?case by simp
next
  case (2 a b)
  then obtain t where "tail = CHR ''='' # t" by auto
  with 2 decode_rest(1) show ?case by simp
next
  case (3 a)
  then obtain t where "tail = CHR ''='' # t" by auto
  with 3 decode_rest(2) show ?case by simp
next
  case 4
  then show ?case by simp
qed

text \<open>Decoding what the URL encoder produced returns the bytes, when they fit.\<close>

lemma base64_roundtrip:
  assumes "b64_encode bs n True = Some s" "length s < 508" "length bs \<le> sz"
  shows "b64_decode s sz = Some bs"
proof -
  have s: "s = map sextet_char (b64_sextets bs)"
    using assms(1) encode_url [of bs n] by (auto simp: b64_encode_def split: if_splits)
  have len: "length s = (length bs * 4 + 2) div 3" by (simp add: s length_sextets)
  let ?pad = "replicate ((4 - length s mod 4) mod 4) CHR ''=''"
  have m: "length s mod 4 = 0 \<longleftrightarrow> length bs mod 3 = 0" unfolding len by presburger
  have p: "length bs mod 3 \<noteq> 0 \<longrightarrow> (\<exists>t. ?pad = CHR ''='' # t)"
  proof
    assume "length bs mod 3 \<noteq> 0"
    then have "0 < (4 - length s mod 4) mod 4" unfolding m [symmetric] by simp
    then show "\<exists>t. ?pad = CHR ''='' # t" by (cases "(4 - length s mod 4) mod 4") auto
  qed
  have q: "length bs mod 3 = 0 \<longrightarrow> ?pad = []" unfolding m [symmetric] by simp
  have "b64_decode_loop (s @ ?pad) 0 (- 8) [] sz = Some ([] @ bs)"
    unfolding s [symmetric] using decode_sextets [of "[]" bs sz ?pad 0] p q assms(3)
    by (simp add: s [symmetric])
  moreover have "\<not> 512 \<le> length s + (4 - length s mod 4)" using assms(2) by linarith
  ultimately show ?thesis using assms(2) by (simp add: b64_decode_def Let_def)
qed

end
