(* ===== verification/Json_Text.thy ===== *)
theory Json_Text
  imports C_Strings
begin

text \<open>
  JSON text the way the program handles it: members are written with \<open>snprintf\<close> and read by
  searching for a quoted name with \<open>strstr\<close>. This theory has the quoting and what such a
  search finds when quoted values precede the name.
\<close>

definition dq :: char where "dq = CHR 0x22"

definition quoted :: "string \<Rightarrow> string" where
  "quoted s = CHR 0x22 # s @ [CHR 0x22]"

section \<open>Searching quoted names\<close>

lemma starts_with_stop: "x \<notin> set p \<Longrightarrow> starts_with p (s @ x # b) = starts_with p s"
  by (induction p s rule: starts_with.induct) auto

lemma strstr_None_suffix: "p \<noteq> [] \<Longrightarrow> c_strstr p (a @ s) = None \<Longrightarrow> \<not> starts_with p s"
proof (induction a)
  case Nil
  then show ?case by (cases s; cases p) (auto split: if_splits)
next
  case (Cons y a)
  then show ?case by (simp split: if_splits)
qed

text \<open>A stretch without an occurrence that ends in a character foreign to the pattern is
  skipped.\<close>

lemma strstr_skip_stop:
  assumes "p \<noteq> []" "x \<notin> set p" "c_strstr p (a @ [x]) = None"
  shows "c_strstr p (a @ x # b) = c_strstr p b"
proof -
  have "c_strstr p (a @ (x # b)) = c_strstr p (x # b)"
  proof (rule c_strstr_skip [OF assms(1)])
    fix a1 y a2
    assume a: "a = a1 @ y # a2"
    have "\<not> starts_with p (y # a2 @ [x])"
      using strstr_None_suffix [of p a1 "y # a2 @ [x]"] assms a by simp
    then show "\<not> starts_with p (y # a2 @ x # b)"
      using starts_with_stop [OF assms(2), of "y # a2"] by simp
  qed
  moreover have "\<not> starts_with p (x # b)" using assms(1,2) by (cases p) auto
  ultimately show ?thesis by simp
qed

definition no_quote :: "string \<Rightarrow> bool" where
  "no_quote s \<longleftrightarrow> CHR 0x22 \<notin> set s"

lemma starts_with_quoted:
  "no_quote s \<Longrightarrow> no_quote w \<Longrightarrow> starts_with (w @ [CHR 0x22]) (s @ CHR 0x22 # r) = (s = w)"
proof (induction w s rule: starts_with.induct)
  case (1 s)
  then show ?case by (cases s) (auto simp: no_quote_def)
next
  case (2 p ps)
  then show ?case by (auto simp: no_quote_def)
next
  case (3 p ps c cs)
  then show ?case by (auto simp: no_quote_def)
qed

text \<open>A quoted value other than the name searched for is skipped up to its closing quote.\<close>

lemma strstr_quoted_value:
  assumes "no_quote s" "no_quote w" "s \<noteq> w"
  shows "c_strstr (quoted w) (CHR 0x22 # s @ CHR 0x22 # r) = c_strstr (quoted w) (CHR 0x22 # r)"
proof -
  have "\<not> starts_with (quoted w) (CHR 0x22 # s @ CHR 0x22 # r)"
    using starts_with_quoted [OF assms(1,2)] assms(3) by (simp add: quoted_def)
  then show ?thesis
    using c_strstr_skip_chars [of "CHR 0x22" s "w @ [CHR 0x22]" "CHR 0x22 # r"] assms(1)
    by (simp add: quoted_def no_quote_def)
qed

end
