(* ===== verification/Auth_Rbac.thy ===== *)
theory Auth_Rbac
  imports Sha256 Base64 Json_Text
begin

text \<open>
  \<open>src/core/auth_rbac.c\<close> above the codecs: roles and the access decision, lab sessions
  (signed cookies), the login password, and the signed headers of a trusted proxy. A
  key is the list of its first \<open>key_len\<close> bytes; a request to \<open>time(NULL)\<close> is the argument
  \<open>t\<close>; seconds are integers (the code's \<open>int64_t\<close> holds them: no clock reaches 2^62). A
  principal is returned, and \<open>None\<close> stands for the result -1, when \<open>*out\<close> is cleared.
\<close>

definition EDGE_AUTH_SUB_MAX :: nat where "EDGE_AUTH_SUB_MAX = 64"
definition EDGE_AUTH_COOKIE_NAME :: string where "EDGE_AUTH_COOKIE_NAME = ''edge_session''"
definition EDGE_AUTH_PASSWORD_MAX :: nat where "EDGE_AUTH_PASSWORD_MAX = 128"

datatype edge_auth_mode =
    EDGE_AUTH_MODE_OPEN | EDGE_AUTH_MODE_LAB_PASSWORD | EDGE_AUTH_MODE_PROXY_HEADERS

definition EDGE_ROLE_EMPLOYEE :: u32 where "EDGE_ROLE_EMPLOYEE = 1"
definition EDGE_ROLE_EMPLOYEE_ADMIN :: u32 where "EDGE_ROLE_EMPLOYEE_ADMIN = 2"
definition EDGE_ROLE_CPE :: u32 where "EDGE_ROLE_CPE = 4"
definition EDGE_ROLE_CUSTOMER :: u32 where "EDGE_ROLE_CUSTOMER = 8"
definition EDGE_ROLE_SERVICE_OPENAI :: u32 where "EDGE_ROLE_SERVICE_OPENAI = 16"
definition EDGE_ROLE_INGEST :: u32 where "EDGE_ROLE_INGEST = 32"

lemmas role_defs =
  EDGE_ROLE_EMPLOYEE_def EDGE_ROLE_EMPLOYEE_ADMIN_def EDGE_ROLE_CPE_def EDGE_ROLE_CUSTOMER_def
  EDGE_ROLE_SERVICE_OPENAI_def EDGE_ROLE_INGEST_def

datatype edge_auth_decision = EDGE_AUTH_ALLOW | EDGE_AUTH_DENY

datatype edge_auth_resource =
    EDGE_RES_NONE
  | EDGE_RES_STATE_GET
  | EDGE_RES_STATE_PUT
  | EDGE_RES_STATE_DELETE
  | EDGE_RES_STATE_LIST
  | EDGE_RES_WS_STREAM
  | EDGE_RES_PACKAGES
  | EDGE_RES_OPENAI

record edge_principal =
  pr_authenticated :: bool
  pr_sub :: string
  pr_roles :: u32
  pr_exp :: int
  pr_router_ids :: "string list"

record edge_auth_ctx =
  ac_mode :: edge_auth_mode
  ac_lab_password :: string
  ac_hmac_key :: "u8 list"
  ac_proxy_hmac_key :: "u8 list"
  ac_session_ttl_s :: u32
  ac_proxy_max_skew_s :: u32
  ac_now_sec_override :: int

definition ct_eq :: "u8 list \<Rightarrow> u8 list \<Rightarrow> nat \<Rightarrow> bool" where
  "ct_eq a b n \<longleftrightarrow> fold (\<lambda>i d. d OR (a ! i XOR b ! i)) [0..<n] (0 :: u8) = 0"

definition edge_auth_ctx_init :: edge_auth_ctx where
  "edge_auth_ctx_init =
     \<lparr>ac_mode = EDGE_AUTH_MODE_OPEN, ac_lab_password = [], ac_hmac_key = [],
      ac_proxy_hmac_key = [], ac_session_ttl_s = 28800, ac_proxy_max_skew_s = 300,
      ac_now_sec_override = 0\<rparr>"

definition edge_principal_clear :: edge_principal where
  "edge_principal_clear =
     \<lparr>pr_authenticated = False, pr_sub = [], pr_roles = 0, pr_exp = 0, pr_router_ids = []\<rparr>"

definition edge_auth_role_has :: "u32 \<Rightarrow> u32 \<Rightarrow> bool" where
  "edge_auth_role_has roles role \<longleftrightarrow> roles AND role \<noteq> 0"

fun edge_auth_mode_name :: "edge_auth_mode \<Rightarrow> string" where
  "edge_auth_mode_name EDGE_AUTH_MODE_OPEN = ''open''"
| "edge_auth_mode_name EDGE_AUTH_MODE_LAB_PASSWORD = ''lab_password''"
| "edge_auth_mode_name EDGE_AUTH_MODE_PROXY_HEADERS = ''proxy_headers''"

fun edge_auth_resource_name :: "edge_auth_resource \<Rightarrow> string" where
  "edge_auth_resource_name EDGE_RES_STATE_GET = ''STATE_GET''"
| "edge_auth_resource_name EDGE_RES_STATE_PUT = ''STATE_PUT''"
| "edge_auth_resource_name EDGE_RES_STATE_DELETE = ''STATE_DELETE''"
| "edge_auth_resource_name EDGE_RES_STATE_LIST = ''STATE_LIST''"
| "edge_auth_resource_name EDGE_RES_WS_STREAM = ''WS_STREAM''"
| "edge_auth_resource_name EDGE_RES_PACKAGES = ''PACKAGES''"
| "edge_auth_resource_name EDGE_RES_OPENAI = ''OPENAI''"
| "edge_auth_resource_name EDGE_RES_NONE = ''NONE''"

definition edge_auth_role_parse :: "string option \<Rightarrow> u32" where
  "edge_auth_role_parse name =
     (if name = None then 0
      else if name = Some ''employee'' then EDGE_ROLE_EMPLOYEE
      else if name = Some ''employee_admin'' then EDGE_ROLE_EMPLOYEE_ADMIN
      else if name = Some ''cpe'' then EDGE_ROLE_CPE
      else if name = Some ''customer'' then EDGE_ROLE_CUSTOMER
      else if name = Some ''service_openai'' then EDGE_ROLE_SERVICE_OPENAI
      else if name = Some ''ingest'' then EDGE_ROLE_INGEST
      else 0)"

section \<open>Access decision\<close>

definition edge_auth_rbac_check ::
  "edge_principal option \<Rightarrow> edge_auth_resource \<Rightarrow> edge_auth_decision" where
  "edge_auth_rbac_check p res =
     (case p of
        None \<Rightarrow> EDGE_AUTH_DENY
      | Some pr \<Rightarrow>
          if \<not> pr_authenticated pr then EDGE_AUTH_DENY
          else if edge_auth_role_has (pr_roles pr) EDGE_ROLE_EMPLOYEE \<or>
                  edge_auth_role_has (pr_roles pr) EDGE_ROLE_EMPLOYEE_ADMIN
          then (case res of
                  EDGE_RES_STATE_GET \<Rightarrow> EDGE_AUTH_ALLOW
                | EDGE_RES_STATE_PUT \<Rightarrow> EDGE_AUTH_ALLOW
                | EDGE_RES_STATE_DELETE \<Rightarrow> EDGE_AUTH_ALLOW
                | EDGE_RES_STATE_LIST \<Rightarrow> EDGE_AUTH_ALLOW
                | EDGE_RES_WS_STREAM \<Rightarrow> EDGE_AUTH_ALLOW
                | EDGE_RES_PACKAGES \<Rightarrow> EDGE_AUTH_ALLOW
                | EDGE_RES_OPENAI \<Rightarrow> EDGE_AUTH_ALLOW
                | EDGE_RES_NONE \<Rightarrow> EDGE_AUTH_DENY)
          else if edge_auth_role_has (pr_roles pr) EDGE_ROLE_SERVICE_OPENAI
          then (if res = EDGE_RES_OPENAI then EDGE_AUTH_ALLOW else EDGE_AUTH_DENY)
          else if edge_auth_role_has (pr_roles pr) EDGE_ROLE_INGEST
          then (if res = EDGE_RES_STATE_PUT then EDGE_AUTH_ALLOW else EDGE_AUTH_DENY)
          else EDGE_AUTH_DENY)"

definition edge_auth_now_sec :: "int \<Rightarrow> edge_auth_ctx \<Rightarrow> int" where
  "edge_auth_now_sec t ctx = (if ac_now_sec_override ctx > 0 then ac_now_sec_override ctx else t)"

section \<open>Session payload\<close>

definition role_names :: "(u32 \<times> string) list" where
  "role_names =
     [(EDGE_ROLE_EMPLOYEE, ''employee''), (EDGE_ROLE_EMPLOYEE_ADMIN, ''employee_admin''),
      (EDGE_ROLE_CPE, ''cpe''), (EDGE_ROLE_CUSTOMER, ''customer''),
      (EDGE_ROLE_SERVICE_OPENAI, ''service_openai''), (EDGE_ROLE_INGEST, ''ingest'')]"

text \<open>The macro \<open>ADD\<close>, applied to one role bit after another; \<open>tmp\<close> is what the 128-byte
  buffer holds so far.\<close>

fun add_roles :: "u32 \<Rightarrow> (u32 \<times> string) list \<Rightarrow> bool \<Rightarrow> string \<Rightarrow> string option" where
  "add_roles roles [] first tmp = Some tmp"
| "add_roles roles ((rb, name) # rest) first tmp =
     (if roles AND rb \<noteq> 0
      then (let w = (if first then [] else '','') @ quoted name
            in if length w \<ge> 128 - length tmp then None
               else add_roles roles rest False (tmp @ w))
      else add_roles roles rest first tmp)"

definition roles_to_json_array :: "u32 \<Rightarrow> nat \<Rightarrow> string option" where
  "roles_to_json_array roles out_sz =
     (case add_roles roles role_names True ''['' of
        None \<Rightarrow> None
      | Some tmp \<Rightarrow>
          if length tmp + 2 > 128 then None
          else (let tmp1 = tmp @ '']'' in if length tmp1 + 1 > out_sz then None else Some tmp1))"

definition has_role_name :: "string \<Rightarrow> string \<Rightarrow> bool" where
  "has_role_name buf name \<longleftrightarrow> c_strstr (quoted name) buf \<noteq> None"

definition roles_in_array :: "string \<Rightarrow> u32" where
  "roles_in_array buf =
     (let f = (\<lambda>name rb roles. if has_role_name buf name then roles OR rb else roles)
      in f ''ingest'' EDGE_ROLE_INGEST (f ''service_openai'' EDGE_ROLE_SERVICE_OPENAI
           (f ''customer'' EDGE_ROLE_CUSTOMER (f ''cpe'' EDGE_ROLE_CPE
             (f ''employee'' EDGE_ROLE_EMPLOYEE (f ''employee_admin'' EDGE_ROLE_EMPLOYEE_ADMIN 0))))))"

definition parse_roles_array :: "string \<Rightarrow> u32" where
  "parse_roles_array json =
     (case c_strstr (quoted ''roles'') json of
        None \<Rightarrow> 0
      | Some p0 \<Rightarrow>
          (case c_strchr (CHR ''['') p0 of
             None \<Rightarrow> 0
           | Some p \<Rightarrow>
               (case c_strchr (CHR '']'') p of
                  None \<Rightarrow> 0
                | Some e \<Rightarrow>
                    if length p - length e \<ge> 128 then 0
                    else roles_in_array (take (length p - length e + 1) p))))"

text \<open>The copying loop of the string parsers: up to \<open>room\<close> characters, a backslash taking the
  next one literally; the characters copied and where the pointer stops.\<close>

fun read_json_string :: "string \<Rightarrow> nat \<Rightarrow> string \<times> string" where
  "read_json_string [] room = ([], [])"
| "read_json_string [c] room =
     (if c = CHR 0x22 \<or> room = 0 then ([], [c]) else ([c], []))"
| "read_json_string (c # d # s) room =
     (if c = CHR 0x22 \<or> room = 0 then ([], c # d # s)
      else if c = CHR 0x5C
      then (let (t, r) = read_json_string s (room - 1) in (d # t, r))
      else (let (t, r) = read_json_string (d # s) (room - 1) in (c # t, r)))"

definition parse_json_string_field :: "string \<Rightarrow> string \<Rightarrow> nat \<Rightarrow> string option" where
  "parse_json_string_field json field out_sz =
     (let key = c_copy 80 (quoted field)
      in (case c_strstr key json of
            None \<Rightarrow> None
          | Some p0 \<Rightarrow>
              (case c_strchr (CHR 0x22) (drop (length key) p0) of
                 None \<Rightarrow> None
               | Some p \<Rightarrow>
                   (let (t, r) = read_json_string (tl p) (out_sz - 1)
                    in if starts_with [CHR 0x22] r then Some t else None))))"

definition parse_json_int64_field :: "string \<Rightarrow> string \<Rightarrow> int option" where
  "parse_json_int64_field json field =
     (let key = c_copy 80 (quoted field)
      in (case c_strstr key json of
            None \<Rightarrow> None
          | Some p0 \<Rightarrow>
              (case c_strchr (CHR '':'') (drop (length key) p0) of
                 None \<Rightarrow> None
               | Some p \<Rightarrow>
                   (case c_strtoll (dropWhile (\<lambda>c. c = CHR '' '' \<or> c = CHR 0x09) (tl p)) of
                      None \<Rightarrow> None
                    | Some (v, _) \<Rightarrow> Some v))))"

section \<open>Sessions\<close>

definition session_payload :: "string \<Rightarrow> string \<Rightarrow> int \<Rightarrow> string" where
  "session_payload sub roles_json exp =
     CHR 0x7B # quoted ''sub'' @ '':'' @ quoted sub @ '','' @ quoted ''roles'' @ '':'' @ roles_json @
     '','' @ quoted ''exp'' @ '':'' @ dec_int exp @ [CHR 0x7D]"

definition edge_auth_session_issue ::
  "int \<Rightarrow> edge_auth_ctx \<Rightarrow> string option \<Rightarrow> u32 \<Rightarrow> nat \<Rightarrow> (string \<times> edge_principal) option" where
  "edge_auth_session_issue t ctx sub_arg roles cookie_val_sz =
     (if cookie_val_sz < 16 \<or> ac_hmac_key ctx = [] then None
      else
        (let sub = (case sub_arg of None \<Rightarrow> ''lab'' | Some s \<Rightarrow> if s = [] then ''lab'' else s)
         in (case roles_to_json_array roles 128 of
               None \<Rightarrow> None
             | Some roles_json \<Rightarrow>
                 (let exp = edge_auth_now_sec t ctx +
                        (if ac_session_ttl_s ctx \<noteq> 0 then uint (ac_session_ttl_s ctx) else 28800);
                      payload = session_payload sub roles_json exp
                  in if length payload \<ge> 256 then None
                     else (case b64_encode (bytes_of payload) 400 True of
                             None \<Rightarrow> None
                           | Some pay_b64 \<Rightarrow>
                               (case b64_encode (hmac_sha256 (ac_hmac_key ctx) (bytes_of payload)) 64 True of
                                  None \<Rightarrow> None
                                | Some sig_b64 \<Rightarrow>
                                    (let cookie = pay_b64 @ ''.'' @ sig_b64
                                     in if length cookie \<ge> cookie_val_sz then None
                                        else Some (cookie,
                                          edge_principal_clear\<lparr>pr_authenticated := True,
                                            pr_sub := c_copy EDGE_AUTH_SUB_MAX sub,
                                            pr_roles := roles, pr_exp := exp\<rparr>))))))))"

definition edge_auth_session_verify ::
  "int \<Rightarrow> edge_auth_ctx \<Rightarrow> string \<Rightarrow> edge_principal option" where
  "edge_auth_session_verify t ctx cookie =
     (if ac_hmac_key ctx = [] then None
      else
        (case c_strchr (CHR ''.'') cookie of
           None \<Rightarrow> None
         | Some dot \<Rightarrow>
             (let n = length cookie - length dot;
                  pay_b64 = take n cookie;
                  sig_b64 = tl dot
              in if n = 0 \<or> sig_b64 = [] then None
                 else if n \<ge> 400 then None
                 else if length sig_b64 \<ge> 64 then None
                 else
                   (case b64_decode pay_b64 320 of
                      None \<Rightarrow> None
                    | Some payload \<Rightarrow>
                        if payload = [] \<or> length payload \<ge> 320 then None
                        else
                          (let json = cstr (chars_of payload)
                           in (case b64_decode sig_b64 32 of
                                 None \<Rightarrow> None
                               | Some sig \<Rightarrow>
                                   if length sig \<noteq> 32 then None
                                   else if \<not> ct_eq (hmac_sha256 (ac_hmac_key ctx) payload) sig 32 then None
                                   else
                                     (case parse_json_string_field json ''sub'' EDGE_AUTH_SUB_MAX of
                                        None \<Rightarrow> None
                                      | Some sub \<Rightarrow>
                                          (case parse_json_int64_field json ''exp'' of
                                             None \<Rightarrow> None
                                           | Some exp \<Rightarrow>
                                               if exp > 0 \<and> edge_auth_now_sec t ctx \<ge> exp then None
                                               else Some (edge_principal_clear\<lparr>pr_authenticated := True,
                                                 pr_sub := c_copy EDGE_AUTH_SUB_MAX sub,
                                                 pr_roles := parse_roles_array json,
                                                 pr_exp := exp\<rparr>)))))))))"

function cookie_scan :: "string \<Rightarrow> nat \<Rightarrow> string option" where
  "cookie_scan p out_sz =
     (if p = [] then None
      else
        (let p1 = dropWhile (\<lambda>c. c = CHR '' '' \<or> c = CHR '';'') p
         in if starts_with (EDGE_AUTH_COOKIE_NAME @ ''='') p1
            then (let v = take (out_sz - 1)
                        (takeWhile (\<lambda>c. c \<noteq> CHR '';'') (drop (length EDGE_AUTH_COOKIE_NAME + 1) p1))
                  in if v \<noteq> [] then Some v else None)
            else cookie_scan (dropWhile (\<lambda>c. c \<noteq> CHR '';'') p1) out_sz))"
  by pat_completeness auto

termination cookie_scan
proof (relation "measure (\<lambda>(p, n). length p)")
  fix p p1 :: string and out_sz :: nat
  assume p: "p \<noteq> []" "p1 = dropWhile (\<lambda>c. c = CHR '' '' \<or> c = CHR '';'') p"
  have "length (dropWhile (\<lambda>c. c \<noteq> CHR '';'') p1) < length p"
  proof (cases "hd p = CHR '' '' \<or> hd p = CHR '';''")
    case True
    with p have "p1 = dropWhile (\<lambda>c. c = CHR '' '' \<or> c = CHR '';'') (tl p)" by (cases p) auto
    then have "length p1 \<le> length (tl p)" by (metis length_dropWhile_le)
    then show ?thesis
      using p(1) length_dropWhile_le [of "\<lambda>c. c \<noteq> CHR '';''" p1] by (cases p) auto
  next
    case False
    with p have "p1 = p" by (cases p) auto
    then have "dropWhile (\<lambda>c. c \<noteq> CHR '';'') p1 = dropWhile (\<lambda>c. c \<noteq> CHR '';'') (tl p)"
      using p(1) False by (cases p) auto
    then show ?thesis
      using p(1) length_dropWhile_le [of "\<lambda>c. c \<noteq> CHR '';''" "tl p"] by (cases p) auto
  qed
  then show "((dropWhile (\<lambda>c. c \<noteq> CHR '';'') p1, out_sz), p, out_sz) \<in> measure (\<lambda>(p, n). length p)"
    by simp
qed simp

declare cookie_scan.simps [simp del]

definition edge_auth_cookie_extract :: "string option \<Rightarrow> nat \<Rightarrow> string option" where
  "edge_auth_cookie_extract hdr out_sz =
     (case hdr of None \<Rightarrow> None | Some p \<Rightarrow> if out_sz = 0 then None else cookie_scan p out_sz)"

section \<open>Login password\<close>

definition edge_auth_password_ok :: "edge_auth_ctx \<Rightarrow> u8 list \<Rightarrow> bool" where
  "edge_auth_password_ok ctx password =
     (let expect = bytes_of (ac_lab_password ctx);
          expect_len = length expect;
          password_len = length password
      in if expect_len = 0 then False
         else
           (let mx0 = (if expect_len > password_len then expect_len else password_len);
                mx = (if mx0 > EDGE_AUTH_PASSWORD_MAX then EDGE_AUTH_PASSWORD_MAX else mx0);
                d = fold (\<lambda>i d.
                      (let a = (if i < password_len then password ! i else 0);
                           b = (if i < expect_len then expect ! i else 0)
                       in d OR (a XOR b))) [0..<mx] (0 :: u8);
                d1 = d OR ucast ((of_nat expect_len :: u64) XOR of_nat password_len)
            in d1 = 0))"

definition edge_auth_parse_login_password :: "string \<Rightarrow> nat \<Rightarrow> string option" where
  "edge_auth_parse_login_password body out_sz =
     (if out_sz = 0 \<or> length body = 0 \<or> length body \<ge> 512 then None
      else
        (case c_strstr (quoted ''password'') (cstr body) of
           None \<Rightarrow> None
         | Some p0 \<Rightarrow>
             (case c_strchr (CHR 0x22) (drop 10 p0) of
                None \<Rightarrow> None
              | Some p \<Rightarrow>
                  (let (t, r) = read_json_string (tl p) (out_sz - 1)
                   in if starts_with [CHR 0x22] r then Some t else None))))"

section \<open>Classification\<close>

definition edge_auth_classify :: "string option \<Rightarrow> string option \<Rightarrow> bool \<Rightarrow> edge_auth_resource" where
  "edge_auth_classify meth path state_is_list =
     (case (meth, path) of
        (Some m, Some p) \<Rightarrow>
          if starts_with ''/api/v1/stream'' p \<and> (length p = 14 \<or> p ! 14 = CHR ''?'')
          then (if m = ''GET'' then EDGE_RES_WS_STREAM else EDGE_RES_NONE)
          else if starts_with ''/api/v1/state/'' p \<and> m = ''GET''
          then (if state_is_list then EDGE_RES_STATE_LIST else EDGE_RES_STATE_GET)
          else if starts_with ''/api/v1/state/'' p \<and> m = ''PUT'' then EDGE_RES_STATE_PUT
          else if starts_with ''/api/v1/state/'' p \<and> m = ''DELETE'' then EDGE_RES_STATE_DELETE
          else if starts_with ''/packages'' p \<and>
                  (length p = 9 \<or> p ! 9 = CHR ''/'' \<or> p ! 9 = CHR ''?'') \<and> m = ''GET''
          then EDGE_RES_PACKAGES
          else if starts_with ''/v1/'' p \<or> p = ''/v1'' then EDGE_RES_OPENAI
          else EDGE_RES_NONE
      | _ \<Rightarrow> EDGE_RES_NONE)"

definition edge_auth_mode_enforced :: "edge_auth_mode \<Rightarrow> bool" where
  "edge_auth_mode_enforced mode \<longleftrightarrow>
     mode = EDGE_AUTH_MODE_LAB_PASSWORD \<or> mode = EDGE_AUTH_MODE_PROXY_HEADERS"

section \<open>Proxy headers\<close>

definition csv_sep :: "char \<Rightarrow> bool" where
  "csv_sep c \<longleftrightarrow> c = CHR '','' \<or> c = CHR '' '' \<or> c = CHR 0x09"

text \<open>The token loop of \<open>edge_auth_roles_from_csv\<close>: the first 63 characters of each token, then
  everything up to the next comma is skipped.\<close>

function csv_roles :: "string \<Rightarrow> u32 \<Rightarrow> u32" where
  "csv_roles p roles =
     (if p = [] then roles
      else
        (let p1 = dropWhile csv_sep p
         in if p1 = [] then roles
            else
              (let tok = take 63 (takeWhile (\<lambda>c. \<not> csv_sep c) p1);
                   bits = (if tok \<noteq> [] then edge_auth_role_parse (Some tok) else 0);
                   rest = dropWhile (\<lambda>c. c \<noteq> CHR '','') (drop (length tok) p1)
               in csv_roles rest (if bits \<noteq> 0 then roles OR bits else roles))))"
  by pat_completeness auto

termination csv_roles
proof (relation "measure (\<lambda>(p, r). length p)", simp, goal_cases)
  case (1 p roles p1 tok bits rest)
  have "\<not> csv_sep (hd p1)" using 1(2,3) hd_dropWhile [of csv_sep p] by auto
  with 1(3) have "tok \<noteq> []" using 1(4) by (cases p1) auto
  moreover have "length tok \<le> length p1"
    using 1(4) length_takeWhile_le [of "\<lambda>c. \<not> csv_sep c" p1] by simp
  ultimately have "length rest < length p1"
    using 1(6) length_dropWhile_le [of "\<lambda>c. c \<noteq> CHR '',''" "drop (length tok) p1"] 1(3)
    by (cases tok) auto
  moreover have "length p1 \<le> length p" unfolding 1(2) by (rule length_dropWhile_le)
  ultimately show ?case by simp
qed

declare csv_roles.simps [simp del]

definition edge_auth_roles_from_csv :: "string option \<Rightarrow> u32" where
  "edge_auth_roles_from_csv csv =
     (case csv of
        None \<Rightarrow> EDGE_ROLE_EMPLOYEE
      | Some p \<Rightarrow>
          if p = [] then EDGE_ROLE_EMPLOYEE
          else (let roles = csv_roles p 0 in if roles \<noteq> 0 then roles else EDGE_ROLE_EMPLOYEE))"

text \<open>\<open>None\<close> is the result -1; otherwise the text written, whose length is returned.\<close>

definition edge_auth_proxy_canonical ::
  "string \<Rightarrow> string option \<Rightarrow> string \<Rightarrow> nat \<Rightarrow> string option" where
  "edge_auth_proxy_canonical user roles_csv ts out_sz =
     (if user = [] \<or> ts = [] \<or> out_sz < 8 then None
      else
        (let r = (case roles_csv of None \<Rightarrow> ''employee'' | Some r \<Rightarrow> if r = [] then ''employee'' else r);
             text = ''v1'' @ [CHR 0x0A] @ ts @ [CHR 0x0A] @ user @ [CHR 0x0A] @ r
         in if length text \<ge> out_sz then None else Some text))"

definition edge_auth_proxy_sign ::
  "edge_auth_ctx \<Rightarrow> string \<Rightarrow> string option \<Rightarrow> int \<Rightarrow> nat \<Rightarrow> string option" where
  "edge_auth_proxy_sign ctx user roles_csv ts sig_out_sz =
     (if ac_proxy_hmac_key ctx = [] then None
      else (case edge_auth_proxy_canonical user roles_csv (c_copy 32 (dec_int ts)) 256 of
              None \<Rightarrow> None
            | Some canon \<Rightarrow>
                b64_encode (hmac_sha256 (ac_proxy_hmac_key ctx) (bytes_of canon)) sig_out_sz True))"

definition clean_chars :: "string \<Rightarrow> bool" where
  "clean_chars s \<longleftrightarrow> list_all (\<lambda>c. \<not> (code c < 0x20 \<or> c = CHR 0x0A \<or> c = CHR 0x0D)) s"

definition edge_auth_proxy_verify ::
  "int \<Rightarrow> edge_auth_ctx \<Rightarrow> string option \<Rightarrow> string option \<Rightarrow> string option \<Rightarrow> string option \<Rightarrow>
   edge_principal option" where
  "edge_auth_proxy_verify t ctx user_hdr roles_hdr ts_hdr sig_hdr =
     (case (user_hdr, ts_hdr, sig_hdr) of
        (Some user, Some tsh, Some sigh) \<Rightarrow>
          (let roles_use = (case roles_hdr of None \<Rightarrow> ''employee''
                            | Some r \<Rightarrow> if r \<noteq> [] then r else ''employee'');
               max_skew = (if ac_proxy_max_skew_s ctx \<noteq> 0 then uint (ac_proxy_max_skew_s ctx) else 300);
               now = edge_auth_now_sec t ctx
           in if user = [] \<or> ac_proxy_hmac_key ctx = [] then None
              else if length user \<ge> EDGE_AUTH_SUB_MAX then None
              else if \<not> clean_chars user then None
              else if \<not> clean_chars roles_use then None
              else (case c_strtoll tsh of
                      None \<Rightarrow> None
                    | Some (ts, e) \<Rightarrow>
                        if e \<noteq> [] \<or> ts \<le> 0 then None
                        else if (if now > ts then now - ts else ts - now) > max_skew then None
                        else (case edge_auth_proxy_canonical user (Some roles_use) tsh 256 of
                                None \<Rightarrow> None
                              | Some canon \<Rightarrow>
                                  (case b64_decode sigh 32 of
                                     None \<Rightarrow> None
                                   | Some sig \<Rightarrow>
                                       if length sig \<noteq> 32 then None
                                       else if \<not> ct_eq (hmac_sha256 (ac_proxy_hmac_key ctx) (bytes_of canon)) sig 32
                                       then None
                                       else Some (edge_principal_clear\<lparr>pr_authenticated := True,
                                         pr_sub := c_copy EDGE_AUTH_SUB_MAX user,
                                         pr_roles := edge_auth_roles_from_csv (Some roles_use),
                                         pr_exp := ts + max_skew\<rparr>)))))
      | _ \<Rightarrow> None)"

end
