(* ===== verification/Auth_Roles.thy ===== *)
theory Auth_Roles
  imports Auth_Rbac
begin

text \<open>
  The role list of a session payload: every set of known roles is printed into the 128-byte
  buffer and read back, by evaluation of the 64 cases.
\<close>

definition role_case :: "nat \<Rightarrow> bool" where
  "role_case n =
     (case roles_to_json_array (of_nat n) 128 of
        None \<Rightarrow> False
      | Some s \<Rightarrow> roles_in_array s = of_nat n \<and> length s \<le> 80 \<and> starts_with ''['' s \<and>
          CHR '']'' \<notin> set (butlast s) \<and> last s = CHR '']'' \<and> nul \<notin> set s \<and>
          \<not> has_role_name s ''exp'')"

lemma all_role_cases: "list_all role_case [0..<64]"
  by code_simp

definition known_roles :: "u32 \<Rightarrow> u32" where
  "known_roles r = r AND 63"

lemma roles_json_known: "roles_to_json_array r sz = roles_to_json_array (known_roles r) sz"
proof -
  have a: "(r AND 63) AND (1 :: u32) = r AND 1" "(r AND 63) AND (2 :: u32) = r AND 2"
    "(r AND 63) AND (4 :: u32) = r AND 4" "(r AND 63) AND (8 :: u32) = r AND 8"
    "(r AND 63) AND (16 :: u32) = r AND 16" "(r AND 63) AND (32 :: u32) = r AND 32"
    by (simp_all add: and.assoc)
  have "add_roles (known_roles r) role_names f tmp = add_roles r role_names f tmp" for f tmp
    by (simp only: role_names_def role_defs known_roles_def add_roles.simps a)
  then show ?thesis by (simp add: roles_to_json_array_def)
qed

lemma roles_json:
  obtains body where "roles_to_json_array r 128 = Some (''['' @ body @ '']'')"
    "CHR '']'' \<notin> set body" "nul \<notin> set body" "length body \<le> 78"
    "roles_in_array (''['' @ body @ '']'') = known_roles r"
    "\<not> has_role_name (''['' @ body @ '']'') ''exp''"
proof -
  have "unat (known_roles r) < 64"
  proof -
    have "known_roles r \<le> 63" unfolding known_roles_def by (rule word_and_le1)
    then show ?thesis by (simp add: word_le_nat_alt)
  qed
  then have "role_case (unat (known_roles r))" using all_role_cases by (simp add: list_all_iff)
  then obtain s where s: "roles_to_json_array r 128 = Some s" "roles_in_array s = known_roles r"
    "length s \<le> 80" "starts_with ''['' s" "CHR '']'' \<notin> set (butlast s)" "last s = CHR '']''"
    "nul \<notin> set s" "\<not> has_role_name s ''exp''"
    by (auto simp: role_case_def roles_json_known [of r] split: option.splits)
  from s(4) obtain t where t: "s = CHR ''['' # t" by (auto simp: starts_with_iff)
  with s(6) have "t \<noteq> []" by auto
  with t s(6) have "s = ''['' @ butlast t @ '']''" using append_butlast_last_id [of t] by auto
  moreover have "CHR '']'' \<notin> set (butlast t)" "nul \<notin> set (butlast t)" "length (butlast t) \<le> 78"
    using s(3,5,7) t \<open>t \<noteq> []\<close> by (auto dest: in_set_butlastD)
  ultimately show ?thesis using that s by metis
qed

end
