(* ===== verification/Auth_Session.thy ===== *)
theory Auth_Session
  imports Auth_Spec Auth_Roles
begin

text \<open>
  Lab sessions: the cookie \<open>edge_auth_session_issue\<close> produces is accepted by
  \<open>edge_auth_session_verify\<close> with the same principal until it expires, and an accepted
  cookie carries a MAC over exactly the payload bytes the principal is read from.
\<close>

section \<open>Reading the payload\<close>

definition plain_sub :: "string \<Rightarrow> bool" where
  "plain_sub s \<longleftrightarrow> s \<noteq> [] \<and> length s < EDGE_AUTH_SUB_MAX \<and> s \<noteq> ''exp'' \<and>
     list_all (\<lambda>c. c \<noteq> CHR 0x22 \<and> c \<noteq> CHR 0x5C \<and> c \<noteq> nul) s"

lemma read_json_plain:
  "list_all (\<lambda>c. c \<noteq> CHR 0x22 \<and> c \<noteq> CHR 0x5C) s \<Longrightarrow> length s \<le> n \<Longrightarrow>
   read_json_string (s @ CHR 0x22 # r) n = (s, CHR 0x22 # r)"
proof (induction s arbitrary: n)
  case Nil
  then show ?case by (cases r) simp_all
next
  case (Cons c s)
  then obtain m where n: "n = Suc m" by (cases n) auto
  obtain d t where t: "s @ CHR 0x22 # r = d # t" by (cases s) auto
  from Cons n t show ?case by simp
qed

lemma sub_field:
  assumes "plain_sub sub"
  shows "parse_json_string_field (session_payload sub rj e) ''sub'' EDGE_AUTH_SUB_MAX = Some sub"
  using assms read_json_plain [of sub 63]
  by (simp add: parse_json_string_field_def session_payload_def quoted_def c_copy_def plain_sub_def
      EDGE_AUTH_SUB_MAX_def list_all_iff)

lemma plain_subD: "plain_sub sub \<Longrightarrow> no_quote sub"
  by (auto simp: plain_sub_def no_quote_def list_all_iff)

lemma names_no_quote: "no_quote ''exp''" "no_quote ''roles''" "no_quote ''sub''"
  by (simp_all add: no_quote_def)

text \<open>The text after the role list.\<close>

definition exp_part :: "int \<Rightarrow> string" where
  "exp_part e = '','' @ quoted ''exp'' @ '':'' @ dec_int e @ [CHR 0x7D]"

lemma payload_eq:
  "session_payload sub rj e =
    CHR 0x7B # quoted ''sub'' @ '':'' @ CHR 0x22 # sub @ CHR 0x22 # '','' @ quoted ''roles'' @ '':'' @ rj @
    exp_part e"
  by (simp add: session_payload_def exp_part_def quoted_def)

lemma roles_found:
  assumes "no_quote sub"
  shows "\<exists>p0. c_strstr (quoted ''roles'') (session_payload sub (''['' @ b) e) = Some p0 \<and>
    c_strchr (CHR ''['') p0 = Some (''['' @ b @ exp_part e)"
proof (cases "sub = ''roles''")
  case True
  then show ?thesis by (simp add: payload_eq quoted_def)
next
  case False
  let ?r = "'','' @ quoted ''roles'' @ '':'' @ (''['' @ b) @ exp_part e"
  have "c_strstr (quoted ''roles'') (session_payload sub (''['' @ b) e) =
      c_strstr (quoted ''roles'') (CHR 0x22 # sub @ CHR 0x22 # ?r)"
    by (simp add: payload_eq quoted_def)
  also have "\<dots> = c_strstr (quoted ''roles'') (CHR 0x22 # ?r)"
    by (rule strstr_quoted_value [OF assms names_no_quote(2) False])
  also have "\<dots> = Some (quoted ''roles'' @ '':'' @ (''['' @ b) @ exp_part e)"
    by (simp add: quoted_def)
  finally show ?thesis by (simp add: quoted_def)
qed

lemma roles_field:
  assumes "no_quote sub" "CHR '']'' \<notin> set body" "length body \<le> 78"
  shows "parse_roles_array (session_payload sub (''['' @ body @ '']'') e) = roles_in_array (''['' @ body @ '']'')"
proof -
  obtain p0 where p0: "c_strstr (quoted ''roles'') (session_payload sub (''['' @ body @ '']'') e) = Some p0"
    "c_strchr (CHR ''['') p0 = Some (''['' @ (body @ '']'') @ exp_part e)"
    using roles_found [OF assms(1), of "body @ '']''"] by blast
  have "c_strchr (CHR '']'') (''['' @ (body @ '']'') @ exp_part e) = Some ('']'' @ exp_part e)"
    using c_strchr_append [of "CHR '']''" "''['' @ body" "'']'' @ exp_part e"] assms(2) by simp
  with p0 assms(3) show ?thesis by (simp add: parse_roles_array_def)
qed

lemma exp_field:
  assumes "no_quote sub" "sub \<noteq> ''exp''" "\<not> has_role_name (''['' @ body @ '']'') ''exp''"
    and "llong_min \<le> e" "e \<le> llong_max"
  shows "parse_json_int64_field (session_payload sub (''['' @ body @ '']'') e) ''exp'' = Some e"
proof -
  let ?rj = "''['' @ body @ '']''"
  let ?r = "'','' @ quoted ''roles'' @ '':'' @ ?rj @ exp_part e"
  have "c_strstr (quoted ''exp'') (session_payload sub ?rj e) =
      c_strstr (quoted ''exp'') (CHR 0x22 # sub @ CHR 0x22 # ?r)"
    by (simp add: payload_eq quoted_def)
  also have "\<dots> = c_strstr (quoted ''exp'') (CHR 0x22 # ?r)"
    by (rule strstr_quoted_value [OF assms(1) names_no_quote(1) assms(2)])
  also have "\<dots> = c_strstr (quoted ''exp'') (?rj @ exp_part e)"
    by (simp add: quoted_def)
  also have "\<dots> = c_strstr (quoted ''exp'') (exp_part e)"
    using strstr_skip_stop [of "quoted ''exp''" "CHR '']''" "''['' @ body" "exp_part e"] assms(3)
    by (simp add: has_role_name_def quoted_def)
  also have "\<dots> = Some (quoted ''exp'' @ '':'' @ dec_int e @ [CHR 0x7D])"
    by (simp add: exp_part_def quoted_def)
  finally have s: "c_strstr (quoted ''exp'') (session_payload sub ?rj e) =
      Some (quoted ''exp'' @ '':'' @ dec_int e @ [CHR 0x7D])" .
  have n: "dropWhile (\<lambda>c. c = CHR '' '' \<or> c = CHR 0x09) (dec_int e @ [CHR 0x7D]) =
      dec_int e @ [CHR 0x7D]"
  proof -
    obtain d ds where d: "dec_int e = d # ds" "is_digit d \<or> d = CHR ''-''" using dec_int_hd by blast
    then have "d \<noteq> CHR '' ''" "d \<noteq> CHR 0x09" by (auto simp: is_digit_def)
    with d show ?thesis by simp
  qed
  have "c_strtoll (dec_int e @ [CHR 0x7D]) = Some (e, [CHR 0x7D])"
    using strtoll_dec_int [OF assms(4,5), of "[CHR 0x7D]"] by (simp add: is_digit_def)
  with s n show ?thesis
    by (simp add: parse_json_int64_field_def c_copy_def quoted_def)
qed

section \<open>Issue and verify\<close>

lemma payload_no_nul:
  assumes "plain_sub sub" "nul \<notin> set rj"
  shows "nul \<notin> set (session_payload sub rj e)"
proof -
  have "nul \<notin> set (dec_int e)" using dec_int_chars [of e] by (auto simp: nul_def is_digit_def)
  with assms show ?thesis
    by (auto simp: session_payload_def quoted_def plain_sub_def list_all_iff nul_def)
qed

text \<open>The outcome of a successful issue.\<close>

lemma issue_cases:
  assumes "edge_auth_session_issue t ctx (Some sub) roles sz = Some (cookie, pr)" "sub \<noteq> []"
  obtains rj where "ac_hmac_key ctx \<noteq> []" "roles_to_json_array roles 128 = Some rj"
    "length (session_payload sub rj (pr_exp pr)) < 256"
    "cookie = map sextet_char (b64_sextets (bytes_of (session_payload sub rj (pr_exp pr)))) @ ''.'' @
      mac_text (hmac_sha256 (ac_hmac_key ctx) (bytes_of (session_payload sub rj (pr_exp pr))))"
    "pr = edge_principal_clear\<lparr>pr_authenticated := True, pr_sub := c_copy EDGE_AUTH_SUB_MAX sub,
      pr_roles := roles, pr_exp := pr_exp pr\<rparr>"
proof -
  let ?e = "edge_auth_now_sec t ctx + (if ac_session_ttl_s ctx \<noteq> 0 then uint (ac_session_ttl_s ctx) else 28800)"
  from assms obtain rj pay sig where i: "ac_hmac_key ctx \<noteq> []" "roles_to_json_array roles 128 = Some rj"
    "length (session_payload sub rj ?e) < 256"
    "b64_encode (bytes_of (session_payload sub rj ?e)) 400 True = Some pay"
    "b64_encode (hmac_sha256 (ac_hmac_key ctx) (bytes_of (session_payload sub rj ?e))) 64 True = Some sig"
    "cookie = pay @ ''.'' @ sig"
    "pr = edge_principal_clear\<lparr>pr_authenticated := True, pr_sub := c_copy EDGE_AUTH_SUB_MAX sub,
      pr_roles := roles, pr_exp := ?e\<rparr>"
    by (auto simp: edge_auth_session_issue_def Let_def split: if_splits option.splits)
  have e: "pr_exp pr = ?e" by (simp add: i(7))
  have p: "pay = map sextet_char (b64_sextets (bytes_of (session_payload sub rj ?e)))"
    using encode_url [of "bytes_of (session_payload sub rj ?e)" 400] i(3,4) by simp
  have g: "sig = mac_text (hmac_sha256 (ac_hmac_key ctx) (bytes_of (session_payload sub rj ?e)))"
    using mac_encode [of "hmac_sha256 (ac_hmac_key ctx) (bytes_of (session_payload sub rj ?e))" 64] i(5)
    by simp
  show ?thesis
    by (rule that [of rj]) (use i e p g in simp_all)
qed

lemma verify_cookie:
  fixes payload :: string
  assumes "ac_hmac_key ctx \<noteq> []" "payload \<noteq> []" "length payload < 256" "nul \<notin> set payload"
    and "parse_json_string_field payload ''sub'' EDGE_AUTH_SUB_MAX = Some sub"
    and "parse_json_int64_field payload ''exp'' = Some e"
    and "edge_auth_now_sec t ctx < e"
  shows "edge_auth_session_verify t ctx
      (map sextet_char (b64_sextets (bytes_of payload)) @ ''.'' @
       mac_text (hmac_sha256 (ac_hmac_key ctx) (bytes_of payload))) =
    Some (edge_principal_clear\<lparr>pr_authenticated := True, pr_sub := c_copy EDGE_AUTH_SUB_MAX sub,
      pr_roles := parse_roles_array payload, pr_exp := e\<rparr>)"
proof -
  let ?b = "bytes_of payload"
  let ?pay = "map sextet_char (b64_sextets ?b)" and ?mac = "hmac_sha256 (ac_hmac_key ctx) ?b"
  have dot: "c_strchr (CHR ''.'') (?pay @ ''.'' @ mac_text ?mac) = Some (''.'' @ mac_text ?mac)"
    using c_strchr_append [OF encoded_no_dot [of ?b], of "''.'' @ mac_text ?mac"] by simp
  have len: "length ?pay = (length payload * 4 + 2) div 3" by (simp add: length_sextets)
  have lens: "length ?pay < 400" "?pay \<noteq> []"
    using assms(2,3) len by (auto simp: length_greater_0_conv [symmetric] simp del: length_greater_0_conv)
  have enc: "b64_encode ?b 400 True = Some ?pay" using assms(3) by (intro encode_url) simp
  have dec: "b64_decode ?pay 320 = Some ?b"
    by (rule base64_roundtrip [OF enc]) (use lens(1) assms(3) in simp_all)
  have mac: "b64_decode (mac_text ?mac) 32 = Some ?mac" by (rule mac_text_decode) simp
  have ml: "length (mac_text ?mac) = 43" by (rule length_mac_text) simp
  have eq: "ct_eq ?mac ?mac 32" by (simp add: ct_eq_iff)
  have "?b \<noteq> []" using assms(2) by (metis length_0_conv length_bytes_of)
  then show ?thesis
    using assms dot lens dec mac ml eq
    by (auto simp: edge_auth_session_verify_def Let_def cstr_id)
qed

text \<open>Issuing succeeds whenever the payload and the cookie fit.\<close>

definition session_exp :: "int \<Rightarrow> edge_auth_ctx \<Rightarrow> int" where
  "session_exp t ctx =
     edge_auth_now_sec t ctx + (if ac_session_ttl_s ctx \<noteq> 0 then uint (ac_session_ttl_s ctx) else 28800)"

lemma issue_ok:
  assumes "ac_hmac_key ctx \<noteq> []" "sub \<noteq> []" "roles_to_json_array roles 128 = Some rj"
    and "length (session_payload sub rj (session_exp t ctx)) < 256" "400 \<le> sz"
  shows "\<exists>cookie pr. edge_auth_session_issue t ctx (Some sub) roles sz = Some (cookie, pr) \<and>
    pr_exp pr = session_exp t ctx"
proof -
  let ?p = "session_payload sub rj (session_exp t ctx)"
  have e: "b64_encode (bytes_of ?p) 400 True = Some (map sextet_char (b64_sextets (bytes_of ?p)))"
    using assms(4) by (intro encode_url) simp
  have m: "b64_encode (hmac_sha256 (ac_hmac_key ctx) (bytes_of ?p)) 64 True =
      Some (mac_text (hmac_sha256 (ac_hmac_key ctx) (bytes_of ?p)))"
    by (rule mac_encode) simp_all
  have l: "length (b64_sextets (bytes_of ?p)) + Suc (length (mac_text (hmac_sha256 (ac_hmac_key ctx) (bytes_of ?p)))) < sz"
    using assms(4,5) by (simp add: length_sextets length_mac_text)
  show ?thesis
    using assms e m l by (simp add: edge_auth_session_issue_def Let_def session_exp_def [symmetric])
qed

lemma issued_verifies:
  assumes "edge_auth_session_issue t ctx (Some sub) roles sz = Some (cookie, pr)"
    and "plain_sub sub" and "known_roles roles = roles"
    and "edge_auth_now_sec t' ctx < pr_exp pr" and "llong_min \<le> pr_exp pr" "pr_exp pr \<le> llong_max"
  shows "edge_auth_session_verify t' ctx cookie = Some pr \<and> pr_sub pr = sub \<and> pr_roles pr = roles"
proof -
  have ne: "sub \<noteq> []" using assms(2) by (simp add: plain_sub_def)
  from issue_cases [OF assms(1) ne] obtain rj where i: "ac_hmac_key ctx \<noteq> []"
    "roles_to_json_array roles 128 = Some rj"
    "length (session_payload sub rj (pr_exp pr)) < 256"
    "cookie = map sextet_char (b64_sextets (bytes_of (session_payload sub rj (pr_exp pr)))) @ ''.'' @
      mac_text (hmac_sha256 (ac_hmac_key ctx) (bytes_of (session_payload sub rj (pr_exp pr))))"
    "pr = edge_principal_clear\<lparr>pr_authenticated := True, pr_sub := c_copy EDGE_AUTH_SUB_MAX sub,
      pr_roles := roles, pr_exp := pr_exp pr\<rparr>" .
  let ?p = "session_payload sub rj (pr_exp pr)"
  from roles_json [of roles] obtain body where b: "rj = ''['' @ body @ '']''"
    "CHR '']'' \<notin> set body" "nul \<notin> set body" "length body \<le> 78"
    "roles_in_array (''['' @ body @ '']'') = roles" "\<not> has_role_name (''['' @ body @ '']'') ''exp''"
    using i(2) assms(3) by (metis option.inject)
  note q = plain_subD [OF assms(2)]
  have ne': "?p \<noteq> []" by (simp add: session_payload_def)
  have sub: "c_copy EDGE_AUTH_SUB_MAX sub = sub"
    using assms(2) by (simp add: plain_sub_def c_copy_fits)
  have nn: "nul \<notin> set ?p"
    by (rule payload_no_nul [OF assms(2)]) (use b in \<open>simp add: nul_def\<close>)
  have e: "parse_json_int64_field ?p ''exp'' = Some (pr_exp pr)"
    unfolding b(1) by (rule exp_field [OF q _ b(6) assms(5,6)]) (use assms(2) in \<open>simp add: plain_sub_def\<close>)
  have r: "parse_roles_array ?p = roles"
    unfolding b(1) using roles_field [OF q b(2,4)] b(5) by simp
  have v: "edge_auth_session_verify t' ctx cookie =
      Some (edge_principal_clear\<lparr>pr_authenticated := True, pr_sub := c_copy EDGE_AUTH_SUB_MAX sub,
        pr_roles := parse_roles_array ?p, pr_exp := pr_exp pr\<rparr>)"
    unfolding i(4)
    by (rule verify_cookie [OF i(1) ne' i(3) nn sub_field [OF assms(2)] e assms(4)])
  show ?thesis
    unfolding v r using i(5) sub by (metis edge_principal.select_convs(2,3) edge_principal.surjective
        edge_principal.update_convs)
qed

lemma read_json_length: "length (fst (read_json_string s n)) \<le> n"
proof (induction s n rule: read_json_string.induct)
  case (3 c d s room)
  then show ?case by (cases room) (auto split: prod.splits)
qed auto

lemma field_length:
  "parse_json_string_field json f (Suc n) = Some t \<Longrightarrow> length t \<le> n"
  using read_json_length
  by (auto simp: parse_json_string_field_def Let_def split: option.splits prod.splits if_splits)
     (metis fst_conv)

lemma field_copy:
  "parse_json_string_field json f EDGE_AUTH_SUB_MAX = Some t \<Longrightarrow> c_copy EDGE_AUTH_SUB_MAX t = t"
  using field_length [of json f 63 t] by (simp add: EDGE_AUTH_SUB_MAX_def c_copy_fits)

section \<open>Properties\<close>

text \<open>C35: A session cookie is accepted with exactly the principal it was issued for (subject,
  roles, expiry) as long as it has not expired: the JSON payload, the base64url coding, the
  HMAC and the cookie syntax compose. The subject must fit its 64-byte field, contain no
  quote or backslash and not be the field name exp, which the issuer does not check.\<close>

theorem session_roundtrip:
  assumes "edge_auth_session_issue t ctx (Some sub) roles sz = Some (cookie, pr)"
    and "plain_sub sub" and "known_roles roles = roles"
    and "edge_auth_now_sec t' ctx < pr_exp pr" and "llong_min \<le> pr_exp pr" "pr_exp pr \<le> llong_max"
  shows "edge_auth_session_verify t' ctx cookie = Some pr \<and> pr_sub pr = sub \<and> pr_roles pr = roles"
  by (rule issued_verifies [OF assms])

definition lab_ctx :: edge_auth_ctx where
  "lab_ctx = edge_auth_ctx_init\<lparr>ac_mode := EDGE_AUTH_MODE_LAB_PASSWORD, ac_hmac_key := [1, 2, 3],
     ac_proxy_hmac_key := [4, 5], ac_lab_password := ''secret''\<rparr>"

lemma lab_session_exp: "session_exp 1000 lab_ctx = 29800"
  by (simp add: session_exp_def edge_auth_now_sec_def lab_ctx_def edge_auth_ctx_init_def)

lemma lab_issue:
  "\<exists>cookie pr. edge_auth_session_issue 1000 lab_ctx (Some ''bob'') EDGE_ROLE_EMPLOYEE 768 = Some (cookie, pr) \<and>
    pr_exp pr = 29800"
proof -
  have r: "roles_to_json_array EDGE_ROLE_EMPLOYEE 128 = Some (''['' @ quoted ''employee'' @ '']'')"
    by (simp add: roles_to_json_array_def role_names_def role_defs quoted_def)
  have "length (dec_nat 29800) \<le> 5" by (rule dec_nat_length) simp_all
  then have "length (session_payload ''bob'' (''['' @ quoted ''employee'' @ '']'') (session_exp 1000 lab_ctx)) < 256"
    by (simp add: session_payload_def quoted_def lab_session_exp dec_int_def)
  from issue_ok [OF _ _ r this] show ?thesis
    by (simp add: lab_session_exp) (simp add: lab_ctx_def)
qed

lemma lab_cookie_verifies:
  assumes "edge_auth_session_issue 1000 lab_ctx (Some ''bob'') EDGE_ROLE_EMPLOYEE 768 = Some (cookie, pr)"
    and "pr_exp pr = 29800"
  shows "edge_auth_session_verify 2000 lab_ctx cookie = Some pr \<and> pr_sub pr = ''bob''"
proof -
  have p: "plain_sub ''bob''" by (simp add: plain_sub_def EDGE_AUTH_SUB_MAX_def nul_def)
  have k: "known_roles EDGE_ROLE_EMPLOYEE = EDGE_ROLE_EMPLOYEE" by (simp add: known_roles_def role_defs)
  have n: "edge_auth_now_sec 2000 lab_ctx < pr_exp pr"
    by (simp add: assms(2) edge_auth_now_sec_def lab_ctx_def edge_auth_ctx_init_def)
  show ?thesis
    using issued_verifies [OF assms(1) p k n] assms(2) by (simp add: llong_min_def llong_max_def)
qed

theorem session_roundtrip_witness:
  "\<exists>cookie pr. edge_auth_session_issue 1000 lab_ctx (Some ''bob'') EDGE_ROLE_EMPLOYEE 768 = Some (cookie, pr) \<and>
    edge_auth_session_verify 2000 lab_ctx cookie = Some pr \<and> pr_sub pr = ''bob''"
proof -
  from lab_issue obtain cookie pr where i:
    "edge_auth_session_issue 1000 lab_ctx (Some ''bob'') EDGE_ROLE_EMPLOYEE 768 = Some (cookie, pr)"
    "pr_exp pr = 29800" by blast
  have p: "plain_sub ''bob''" by (simp add: plain_sub_def EDGE_AUTH_SUB_MAX_def nul_def)
  have k: "known_roles EDGE_ROLE_EMPLOYEE = EDGE_ROLE_EMPLOYEE" by (simp add: known_roles_def role_defs)
  have n: "edge_auth_now_sec 2000 lab_ctx < pr_exp pr"
    by (simp add: i(2) edge_auth_now_sec_def lab_ctx_def edge_auth_ctx_init_def)
  show ?thesis
    using session_roundtrip [OF i(1) p k n] i by (simp add: llong_min_def llong_max_def)
qed

text \<open>C36: Nothing but a signed, unexpired cookie is accepted: an accepted cookie is a payload and
  a signature separated by the first dot, the signature decodes to the HMAC of the decoded
  payload under the session key, the principal is what that payload says, and its expiry,
  unless not positive, is in the future.\<close>

theorem session_sound:
  assumes "edge_auth_session_verify t ctx cookie = Some pr"
  shows "\<exists>pay payload sig. cookie = pay @ CHR ''.'' # sig \<and> CHR ''.'' \<notin> set pay \<and>
    b64_decode pay 320 = Some payload \<and>
    b64_decode sig 32 = Some (hmac_ref (ac_hmac_key ctx) payload) \<and>
    parse_json_string_field (cstr (chars_of payload)) ''sub'' EDGE_AUTH_SUB_MAX = Some (pr_sub pr) \<and>
    parse_json_int64_field (cstr (chars_of payload)) ''exp'' = Some (pr_exp pr) \<and>
    pr_roles pr = parse_roles_array (cstr (chars_of payload)) \<and> pr_authenticated pr \<and>
    (pr_exp pr \<le> 0 \<or> edge_auth_now_sec t ctx < pr_exp pr)"
proof -
  obtain dot where d: "c_strchr (CHR ''.'') cookie = Some dot"
    using assms by (auto simp: edge_auth_session_verify_def split: if_splits option.splits)
  then obtain pay sig where c: "cookie = pay @ dot" "dot = CHR ''.'' # sig" "CHR ''.'' \<notin> set pay"
    using c_strchr_SomeD by blast
  have n: "length cookie - length dot = length pay" "take (length pay) cookie = pay" "tl dot = sig"
    using c by simp_all
  obtain payload mac where p: "b64_decode pay 320 = Some payload" "b64_decode sig 32 = Some mac"
    "length mac = 32" "ct_eq (hmac_sha256 (ac_hmac_key ctx) payload) mac 32"
    "parse_json_string_field (cstr (chars_of payload)) ''sub'' EDGE_AUTH_SUB_MAX = Some (pr_sub pr)"
    "parse_json_int64_field (cstr (chars_of payload)) ''exp'' = Some (pr_exp pr)"
    "pr_roles pr = parse_roles_array (cstr (chars_of payload))" "pr_authenticated pr"
    "\<not> (0 < pr_exp pr \<and> pr_exp pr \<le> edge_auth_now_sec t ctx)"
    using assms d n
    by (auto simp: edge_auth_session_verify_def Let_def field_copy split: if_splits option.splits)
  have "mac = hmac_ref (ac_hmac_key ctx) payload"
    using p(3,4) by (simp add: ct_eq_iff hmac_eq [symmetric])
  with p c show ?thesis by (intro exI [of _ pay] exI [of _ payload] exI [of _ sig]) auto
qed

theorem session_sound_witness:
  "\<exists>cookie payload sig. edge_auth_session_verify 2000 lab_ctx cookie \<noteq> None \<and>
    b64_decode sig 32 = Some (hmac_ref [1, 2, 3] payload)"
proof -
  from lab_issue obtain cookie pr where i:
    "edge_auth_session_issue 1000 lab_ctx (Some ''bob'') EDGE_ROLE_EMPLOYEE 768 = Some (cookie, pr)"
    "pr_exp pr = 29800" by blast
  obtain pr' where v: "edge_auth_session_verify 2000 lab_ctx cookie = Some pr'"
    using lab_cookie_verifies [OF i] by blast
  show ?thesis using session_sound [OF v] v by (auto simp: lab_ctx_def)
qed

end
