(* ===== verification/Auth_Policy.thy ===== *)
theory Auth_Policy
  imports Auth_Session
begin

text \<open>
  The rest of authentication and authorization: the access matrix, the login password, the
  cookie header, role lists in headers, and the signed headers of a trusted proxy.
\<close>

section \<open>Access decision\<close>

lemma rbac_allow_iff:
  "edge_auth_rbac_check p res = EDGE_AUTH_ALLOW \<longleftrightarrow>
   (\<exists>pr. p = Some pr \<and> pr_authenticated pr \<and> res \<noteq> EDGE_RES_NONE \<and>
     (edge_auth_role_has (pr_roles pr) EDGE_ROLE_EMPLOYEE \<or>
      edge_auth_role_has (pr_roles pr) EDGE_ROLE_EMPLOYEE_ADMIN \<or>
      edge_auth_role_has (pr_roles pr) EDGE_ROLE_SERVICE_OPENAI \<and> res = EDGE_RES_OPENAI \<or>
      \<not> edge_auth_role_has (pr_roles pr) EDGE_ROLE_SERVICE_OPENAI \<and>
      edge_auth_role_has (pr_roles pr) EDGE_ROLE_INGEST \<and> res = EDGE_RES_STATE_PUT))"
  by (cases p; cases res) (auto simp: edge_auth_rbac_check_def)

section \<open>Password\<close>

lemma length_xor_zero:
  "(ucast ((of_nat a :: u64) XOR of_nat b) :: u8) = 0 \<longleftrightarrow> a mod 256 = b mod 256"
proof -
  have "(ucast ((of_nat a :: u64) XOR of_nat b) :: u8) = of_nat a XOR of_nat b"
    by (rule bit_word_eqI) (simp add: bit_simps)
  moreover have "(of_nat a :: u8) = of_nat b \<longleftrightarrow> a mod 256 = b mod 256"
    by (simp add: word_unat_eq_iff unat_of_nat)
  ultimately show ?thesis by (simp add: xor_zero_iff)
qed

definition padded :: "u8 list \<Rightarrow> nat \<Rightarrow> u8" where
  "padded bs i = (if i < length bs then bs ! i else 0)"

lemma password_ok_iff:
  "edge_auth_password_ok ctx pw \<longleftrightarrow> ac_lab_password ctx \<noteq> [] \<and>
    length (ac_lab_password ctx) mod 256 = length pw mod 256 \<and>
    (\<forall>i<min EDGE_AUTH_PASSWORD_MAX (max (length (ac_lab_password ctx)) (length pw)).
       padded pw i = padded (bytes_of (ac_lab_password ctx)) i)"
proof -
  let ?e = "bytes_of (ac_lab_password ctx)"
  have m: "(if (if length ?e > length pw then length ?e else length pw) > EDGE_AUTH_PASSWORD_MAX
      then EDGE_AUTH_PASSWORD_MAX else (if length ?e > length pw then length ?e else length pw)) =
    min EDGE_AUTH_PASSWORD_MAX (max (length ?e) (length pw))"
    by (simp add: min_def max_def)
  have e: "length ?e = 0 \<longleftrightarrow> ac_lab_password ctx = []" by simp
  show ?thesis
    unfolding edge_auth_password_ok_def Let_def m e
    by (auto simp: or_fold_zero or_eq_0_iff length_xor_zero xor_zero_iff padded_def)
qed

section \<open>Cookie header\<close>

definition other_cookie :: "string \<Rightarrow> bool" where
  "other_cookie s \<longleftrightarrow> CHR '';'' \<notin> set s \<and>
     \<not> starts_with (EDGE_AUTH_COOKIE_NAME @ ''='') (dropWhile (\<lambda>c. c = CHR '' '' \<or> c = CHR '';'') s)"

lemma scan_found:
  assumes "CHR '';'' \<notin> set v" "v \<noteq> []" "length v < sz" "r = [] \<or> hd r = CHR '';''"
  shows "cookie_scan (EDGE_AUTH_COOKIE_NAME @ ''='' @ v @ r) sz = Some v"
proof -
  have t: "takeWhile (\<lambda>c. c \<noteq> CHR '';'') (v @ r) = v"
    using assms(1,4) by (cases r) (auto simp: takeWhile_append2 takeWhile_tail)
  have "dropWhile (\<lambda>c. c = CHR '' '' \<or> c = CHR '';'') (EDGE_AUTH_COOKIE_NAME @ ''='' @ v @ r) =
      EDGE_AUTH_COOKIE_NAME @ ''='' @ v @ r"
    by (simp add: EDGE_AUTH_COOKIE_NAME_def)
  then show ?thesis
    using t assms(2,3) by (subst cookie_scan.simps) (simp add: EDGE_AUTH_COOKIE_NAME_def Let_def)
qed

lemma scan_nil: "cookie_scan [] sz = None"
  by (simp add: cookie_scan.simps)

lemma scan_sep:
  assumes "c = CHR '' '' \<or> c = CHR '';''"
  shows "cookie_scan (c # p) sz = cookie_scan p sz"
  using assms cookie_scan.simps [of "c # p" sz] cookie_scan.simps [of p sz]
  by (cases "p = []") (auto simp: Let_def scan_nil EDGE_AUTH_COOKIE_NAME_def)

lemma scan_skip:
  assumes "other_cookie s"
  shows "cookie_scan (s @ CHR '';'' # rest) sz = cookie_scan rest sz"
  using assms
proof (induction s)
  case Nil
  then show ?case by (simp add: scan_sep)
next
  case (Cons c s)
  let ?name = "EDGE_AUTH_COOKIE_NAME @ ''=''"
  have nc: "c \<noteq> CHR '';''" "CHR '';'' \<notin> set s" using Cons.prems by (auto simp: other_cookie_def)
  show ?case
  proof (cases "c = CHR '' ''")
    case True
    with Cons show ?thesis by (simp add: scan_sep other_cookie_def)
  next
    case False
    have d: "dropWhile (\<lambda>c. c = CHR '' '' \<or> c = CHR '';'') ((c # s) @ CHR '';'' # rest) = (c # s) @ CHR '';'' # rest"
      using False nc by simp
    have n: "\<not> starts_with ?name ((c # s) @ CHR '';'' # rest)"
    proof -
      have "CHR '';'' \<notin> set ?name" by (simp add: EDGE_AUTH_COOKIE_NAME_def)
      from starts_with_stop [OF this, of "c # s" rest] Cons.prems False nc show ?thesis
        by (simp add: other_cookie_def)
    qed
    have "dropWhile (\<lambda>c. c \<noteq> CHR '';'') ((c # s) @ CHR '';'' # rest) = CHR '';'' # rest"
      using nc by (simp, subst dropWhile_append2) auto
    then show ?thesis
      using d n scan_sep [of "CHR '';''" rest sz]
      by (subst cookie_scan.simps) (simp add: Let_def)
  qed
qed

lemma scan_others:
  "list_all other_cookie ss \<Longrightarrow> cookie_scan (concat (map (\<lambda>s. s @ '';'') ss) @ rest) sz = cookie_scan rest sz"
  by (induction ss) (simp_all add: scan_skip)

section \<open>Role lists\<close>

definition role_token :: "string \<Rightarrow> bool" where
  "role_token t \<longleftrightarrow> t \<noteq> [] \<and> length t \<le> 63 \<and> list_all (\<lambda>c. \<not> csv_sep c) t"

fun csv_join :: "string list \<Rightarrow> string" where
  "csv_join [] = []"
| "csv_join [t] = t"
| "csv_join (t # ts) = t @ CHR '','' # csv_join ts"

lemma csv_sep_comma: "csv_sep CHR '',''"
  by (simp add: csv_sep_def)

lemma csv_roles_step:
  assumes "role_token t" "r = [] \<or> (\<exists>q. r = CHR '','' # q)"
  shows "csv_roles (t @ r) roles = csv_roles r (roles OR edge_auth_role_parse (Some t))"
proof -
  obtain c s where t: "t = c # s" "\<not> csv_sep c" using assms(1) by (cases t) (auto simp: role_token_def)
  have tw: "takeWhile (\<lambda>c. \<not> csv_sep c) (t @ r) = t"
    using assms csv_sep_comma by (auto simp: role_token_def list_all_iff takeWhile_append)
  have "take 63 t = t" using assms(1) by (simp add: role_token_def)
  moreover have "dropWhile (\<lambda>c. c \<noteq> CHR '','') r = r" using assms(2) by auto
  moreover have "dropWhile csv_sep (t @ r) = t @ r" using t by simp
  ultimately show ?thesis
    using tw t(1) by (subst csv_roles.simps) (auto simp: Let_def)
qed

lemma csv_roles_comma: "csv_roles (CHR '','' # p) roles = csv_roles p roles"
  using csv_roles.simps [of "CHR '','' # p" roles] csv_roles.simps [of p roles]
  by (cases "p = []") (auto simp: csv_sep_comma Let_def)

lemma csv_roles_nil: "csv_roles [] roles = roles"
  by (simp add: csv_roles.simps)

lemma csv_roles_join:
  "list_all role_token ts \<Longrightarrow>
   csv_roles (csv_join ts) roles = fold (\<lambda>t r. r OR edge_auth_role_parse (Some t)) ts roles"
proof (induction ts arbitrary: roles rule: csv_join.induct)
  case 1
  then show ?case by (simp add: csv_roles_nil)
next
  case (2 t)
  then show ?case using csv_roles_step [of t "[]"] by (simp add: csv_roles_nil)
next
  case (3 t u ts)
  then show ?case
    using csv_roles_step [of t "CHR '','' # csv_join (u # ts)" roles] by (simp add: csv_roles_comma)
qed

section \<open>The canonical text of a proxy signature\<close>

definition canonical_text :: "string \<Rightarrow> string \<Rightarrow> string \<Rightarrow> string" where
  "canonical_text user roles ts = ''v1'' @ [CHR 0x0A] @ ts @ [CHR 0x0A] @ user @ [CHR 0x0A] @ roles"

lemma canonical_eq:
  "user \<noteq> [] \<Longrightarrow> ts \<noteq> [] \<Longrightarrow> roles \<noteq> [] \<Longrightarrow> 8 \<le> sz \<Longrightarrow>
   edge_auth_proxy_canonical user (Some roles) ts sz =
     (if length (canonical_text user roles ts) < sz then Some (canonical_text user roles ts) else None)"
  by (simp add: edge_auth_proxy_canonical_def canonical_text_def Let_def not_le)

lemma clean_no_newline: "clean_chars s \<Longrightarrow> CHR 0x0A \<notin> set s"
  by (auto simp: clean_chars_def list_all_iff)

text \<open>Splitting at the last newline is unambiguous.\<close>

lemma last_newline:
  assumes "a @ x # b = a' @ x # b'" "x \<notin> set b" "x \<notin> set b'"
  shows "a = a' \<and> b = b'"
proof -
  have t: "takeWhile (\<lambda>c. c \<noteq> x) (rev b @ x # rev a) = rev b"
    "takeWhile (\<lambda>c. c \<noteq> x) (rev b' @ x # rev a') = rev b'"
    using assms(2,3) by (simp_all add: takeWhile_append)
  have "rev b @ x # rev a = rev b' @ x # rev a'" using arg_cong [OF assms(1), of rev] by simp
  with t have "rev b = rev b'" by metis
  with assms(1) show ?thesis by simp
qed

lemma canonical_injective:
  assumes "canonical_text u r t = canonical_text u' r' t'"
    and "clean_chars u" "clean_chars r" "clean_chars u'" "clean_chars r'"
  shows "u = u' \<and> r = r' \<and> t = t'"
proof -
  have nl: "CHR 0x0A \<notin> set u" "CHR 0x0A \<notin> set r" "CHR 0x0A \<notin> set u'" "CHR 0x0A \<notin> set r'"
    using assms(2-5) by (simp_all add: clean_no_newline)
  have "(''v1'' @ CHR 0x0A # t @ CHR 0x0A # u) @ CHR 0x0A # r =
      (''v1'' @ CHR 0x0A # t' @ CHR 0x0A # u') @ CHR 0x0A # r'"
    using assms(1) by (simp add: canonical_text_def)
  from last_newline [OF this nl(2,4)]
  have r: "r = r'" and "''v1'' @ CHR 0x0A # t @ CHR 0x0A # u = ''v1'' @ CHR 0x0A # t' @ CHR 0x0A # u'"
    by blast+
  then have "t @ CHR 0x0A # u = t' @ CHR 0x0A # u'" by simp
  from last_newline [OF this nl(1,3)] r show ?thesis by blast
qed

section \<open>Proxy verification\<close>

definition roles_used :: "string option \<Rightarrow> string" where
  "roles_used r = (case r of None \<Rightarrow> ''employee'' | Some t \<Rightarrow> if t \<noteq> [] then t else ''employee'')"

definition max_skew :: "edge_auth_ctx \<Rightarrow> int" where
  "max_skew ctx = (if ac_proxy_max_skew_s ctx \<noteq> 0 then uint (ac_proxy_max_skew_s ctx) else 300)"

definition proxy_principal :: "string \<Rightarrow> string option \<Rightarrow> int \<Rightarrow> edge_principal" where
  "proxy_principal user roles e =
     edge_principal_clear\<lparr>pr_authenticated := True, pr_sub := user,
       pr_roles := edge_auth_roles_from_csv (Some (roles_used roles)), pr_exp := e\<rparr>"

definition proxy_accepts :: "int \<Rightarrow> edge_auth_ctx \<Rightarrow> string \<Rightarrow> string \<Rightarrow> string \<Rightarrow> int \<Rightarrow> string \<Rightarrow> bool" where
  "proxy_accepts now ctx user roles tsh ts sigh \<longleftrightarrow>
     ac_proxy_hmac_key ctx \<noteq> [] \<and> user \<noteq> [] \<and> length user < EDGE_AUTH_SUB_MAX \<and>
     clean_chars user \<and> clean_chars roles \<and> c_strtoll tsh = Some (ts, []) \<and> 0 < ts \<and>
     \<bar>now - ts\<bar> \<le> max_skew ctx \<and> length (canonical_text user roles tsh) < 256 \<and>
     mac_codec.signature_ok (ac_proxy_hmac_key ctx) (bytes_of (canonical_text user roles tsh)) sigh"

lemma strtoll_nonempty: "c_strtoll s = Some r \<Longrightarrow> s \<noteq> []"
  by (auto simp: c_strtoll_def)

lemma abs_skew: "(if now > ts then now - ts else ts - now) = \<bar>now - ts\<bar>" for now ts :: int
  by simp

lemma roles_used_nonempty: "roles_used r \<noteq> []"
  by (auto simp: roles_used_def split: option.split)

lemma proxy_verify_iff:
  "edge_auth_proxy_verify t ctx u r tsh sigh = Some pr \<longleftrightarrow>
   (\<exists>user th sg ts. u = Some user \<and> tsh = Some th \<and> sigh = Some sg \<and>
      proxy_accepts (edge_auth_now_sec t ctx) ctx user (roles_used r) th ts sg \<and>
      pr = proxy_principal user r (ts + max_skew ctx))"
proof (cases "\<exists>user th sg. u = Some user \<and> tsh = Some th \<and> sigh = Some sg")
  case False
  then show ?thesis by (auto simp: edge_auth_proxy_verify_def split: option.splits)
next
  case True
  then obtain user th sg where a: "u = Some user" "tsh = Some th" "sigh = Some sg" by blast
  let ?now = "edge_auth_now_sec t ctx" and ?roles = "roles_used r"
  show ?thesis
  proof (cases "c_strtoll th")
    case None
    then show ?thesis by (simp add: a edge_auth_proxy_verify_def proxy_accepts_def Let_def)
  next
    case (Some te)
    obtain ts e where te: "te = (ts, e)" by fastforce
    have can: "user \<noteq> [] \<Longrightarrow> edge_auth_proxy_canonical user (Some ?roles) th 256 =
        (if length (canonical_text user ?roles th) < 256 then Some (canonical_text user ?roles th) else None)"
      using canonical_eq strtoll_nonempty [OF Some] roles_used_nonempty by simp
    note m = mac_check [where s = sg and k = "ac_proxy_hmac_key ctx" and
        p = "bytes_of (canonical_text user ?roles th)"]
    show ?thesis
      unfolding a edge_auth_proxy_verify_def roles_used_def [symmetric] max_skew_def [symmetric]
        proxy_accepts_def Let_def abs_skew proxy_principal_def
      using can m
      by (cases "b64_decode sg 32") (auto simp: Some te c_copy_fits split: option.split)
  qed
qed

section \<open>Properties\<close>

text \<open>A request whose headers the proxy signed is accepted, with the user and the roles the
  proxy stated, when the user name and the roles have no control characters, the name fits,
  and the timestamp is within the allowed skew of the local clock.\<close>

theorem proxy_sign_verify:
  assumes "edge_auth_proxy_sign ctx user roles ts sz = Some sig"
    and "length user < EDGE_AUTH_SUB_MAX" "clean_chars user" "clean_chars (roles_used roles)"
    and "0 < ts" "ts \<le> llong_max" "\<bar>edge_auth_now_sec t ctx - ts\<bar> \<le> max_skew ctx"
  shows "edge_auth_proxy_verify t ctx (Some user) roles (Some (dec_int ts)) (Some sig) =
    Some (proxy_principal user roles (ts + max_skew ctx))"
proof -
  have "nat ts < 10 ^ 19" using assms(5,6) by (simp add: llong_max_def nat_less_iff)
  then have "length (dec_int ts) < 32"
    using dec_nat_length [of "nat ts" 19] assms(5) by (simp add: dec_int_def)
  then have d: "c_copy 32 (dec_int ts) = dec_int ts" by (rule c_copy_fits)
  have dn: "dec_int ts \<noteq> []" using dec_int_hd [of ts] by auto
  have can: "edge_auth_proxy_canonical user roles (dec_int ts) 256 =
      edge_auth_proxy_canonical user (Some (roles_used roles)) (dec_int ts) 256"
    by (auto simp: edge_auth_proxy_canonical_def roles_used_def Let_def split: option.split)
  from assms(1) obtain canon where c: "ac_proxy_hmac_key ctx \<noteq> []"
    "edge_auth_proxy_canonical user (Some (roles_used roles)) (dec_int ts) 256 = Some canon"
    "b64_encode (hmac_sha256 (ac_proxy_hmac_key ctx) (bytes_of canon)) sz True = Some sig"
    by (auto simp: edge_auth_proxy_sign_def d can split: if_splits option.splits)
  have u: "user \<noteq> []" using c(2) by (auto simp: edge_auth_proxy_canonical_def)
  have cn: "canon = canonical_text user (roles_used roles) (dec_int ts)"
    "length (canonical_text user (roles_used roles) (dec_int ts)) < 256"
    using c(2) canonical_eq [OF u dn roles_used_nonempty] by (auto split: if_splits)
  have "45 \<le> sz" using c(3) by (auto simp: b64_encode_def split: if_splits)
  then have "sig = mac_text (hmac_sha256 (ac_proxy_hmac_key ctx) (bytes_of canon))"
    using c(3) mac_encode by simp
  then have ok: "mac_codec.signature_ok (ac_proxy_hmac_key ctx)
      (bytes_of (canonical_text user (roles_used roles) (dec_int ts))) sig"
    using mac_codec.own_signature cn(1) by simp
  have "c_strtoll (dec_int ts @ []) = Some (ts, [])"
    using assms(5,6) by (intro strtoll_dec_int) (simp_all add: llong_min_def)
  then show ?thesis
    unfolding proxy_verify_iff using assms c(1) u cn(2) ok by (simp add: proxy_accepts_def)
qed

definition proxy_ctx :: edge_auth_ctx where
  "proxy_ctx = edge_auth_ctx_init\<lparr>ac_mode := EDGE_AUTH_MODE_PROXY_HEADERS, ac_proxy_hmac_key := [4, 5]\<rparr>"

lemma dec_int_7: "dec_int 7 = ''7''"
  by code_simp

lemma proxy_signs: "\<exists>sig. edge_auth_proxy_sign proxy_ctx ''alice'' (Some ''ingest'') 7 64 = Some sig"
proof -
  note d = dec_int_7
  have "edge_auth_proxy_canonical ''alice'' (Some ''ingest'') (c_copy 32 ''7'') 256 =
      Some (canonical_text ''alice'' ''ingest'' ''7'')"
    by (simp add: canonical_eq c_copy_def canonical_text_def)
  then show ?thesis
    by (simp add: edge_auth_proxy_sign_def d proxy_ctx_def mac_encode)
qed

theorem proxy_sign_verify_witness:
  "\<exists>sig. edge_auth_proxy_verify 100 proxy_ctx (Some ''alice'') (Some ''ingest'') (Some (dec_int 7)) (Some sig) =
    Some (proxy_principal ''alice'' (Some ''ingest'') 307)"
proof -
  obtain sig where s: "edge_auth_proxy_sign proxy_ctx ''alice'' (Some ''ingest'') 7 64 = Some sig"
    using proxy_signs by blast
  have m: "max_skew proxy_ctx = 300" by (simp add: max_skew_def proxy_ctx_def edge_auth_ctx_init_def)
  have n: "edge_auth_now_sec 100 proxy_ctx = 100"
    by (simp add: edge_auth_now_sec_def proxy_ctx_def edge_auth_ctx_init_def)
  show ?thesis
    using proxy_sign_verify [OF s, of 100]
    by (simp add: m n EDGE_AUTH_SUB_MAX_def clean_chars_def roles_used_def llong_max_def) blast
qed



lemma classify_openai_iff:
  "edge_auth_classify (Some m) (Some path) lst = EDGE_RES_OPENAI \<longleftrightarrow>
   starts_with ''/v1/'' path \<or> path = ''/v1''"
proof
  assume "edge_auth_classify (Some m) (Some path) lst = EDGE_RES_OPENAI"
  then show "starts_with ''/v1/'' path \<or> path = ''/v1''"
    by (simp add: edge_auth_classify_def split: if_splits)
next
  assume "starts_with ''/v1/'' path \<or> path = ''/v1''"
  then obtain r where "path = CHR ''/'' # CHR ''v'' # r" "starts_with ''/v1/'' path \<or> path = ''/v1''"
    by (auto simp: starts_with_iff)
  then show "edge_auth_classify (Some m) (Some path) lst = EDGE_RES_OPENAI"
    by (simp add: edge_auth_classify_def)
qed

lemma classify_put_iff:
  "edge_auth_classify (Some m) (Some path) lst = EDGE_RES_STATE_PUT \<longleftrightarrow>
   m = ''PUT'' \<and> starts_with ''/api/v1/state/'' path"
proof
  assume "edge_auth_classify (Some m) (Some path) lst = EDGE_RES_STATE_PUT"
  then show "m = ''PUT'' \<and> starts_with ''/api/v1/state/'' path"
    by (simp add: edge_auth_classify_def split: if_splits)
next
  assume "m = ''PUT'' \<and> starts_with ''/api/v1/state/'' path"
  moreover from this obtain r where "path = ''/api/v1/state/'' @ r"
    by (auto simp: starts_with_iff)
  ultimately show "edge_auth_classify (Some m) (Some path) lst = EDGE_RES_STATE_PUT"
    by (simp add: edge_auth_classify_def)
qed

text \<open>C37: Requests are denied by default. Access to a request needs an authenticated principal;
  employees get every route that is classified at all; the service role gets the routes
  under /v1 and nothing else; the ingest role (without the service role) gets PUT below
  /api/v1/state/ and nothing else; CPE and customer roles alone get nothing.\<close>

theorem rbac_least_privilege:
  "edge_auth_rbac_check p (edge_auth_classify (Some m) (Some path) lst) = EDGE_AUTH_ALLOW \<longleftrightarrow>
   (case p of
      None \<Rightarrow> False
    | Some pr \<Rightarrow> pr_authenticated pr \<and>
        (if pr_roles pr AND (EDGE_ROLE_EMPLOYEE OR EDGE_ROLE_EMPLOYEE_ADMIN) \<noteq> 0
         then edge_auth_classify (Some m) (Some path) lst \<noteq> EDGE_RES_NONE
         else if pr_roles pr AND EDGE_ROLE_SERVICE_OPENAI \<noteq> 0
         then starts_with ''/v1/'' path \<or> path = ''/v1''
         else pr_roles pr AND EDGE_ROLE_INGEST \<noteq> 0 \<and> m = ''PUT'' \<and>
              starts_with ''/api/v1/state/'' path))"
proof (cases p)
  case None
  then show ?thesis by (simp add: rbac_allow_iff)
next
  case (Some pr)
  have e: "pr_roles pr AND (EDGE_ROLE_EMPLOYEE OR EDGE_ROLE_EMPLOYEE_ADMIN) \<noteq> 0 \<longleftrightarrow>
      edge_auth_role_has (pr_roles pr) EDGE_ROLE_EMPLOYEE \<or>
      edge_auth_role_has (pr_roles pr) EDGE_ROLE_EMPLOYEE_ADMIN"
    by (simp only: edge_auth_role_has_def bit.conj_disj_distrib or_eq_0_iff de_Morgan_conj)
  show ?thesis
    unfolding Some rbac_allow_iff option.case option.inject e
      classify_openai_iff [of m path lst, symmetric] classify_put_iff [of m path lst, symmetric]
      edge_auth_role_has_def [of "pr_roles pr" EDGE_ROLE_SERVICE_OPENAI, symmetric]
      edge_auth_role_has_def [of "pr_roles pr" EDGE_ROLE_INGEST, symmetric]
    by (cases "edge_auth_classify (Some m) (Some path) lst") simp_all
qed

text \<open>The login check compares the whole password: for passwords of fewer than 256 bytes it
  accepts exactly the configured one, and an unset password accepts nothing.\<close>

theorem password_exact:
  assumes "length (ac_lab_password ctx) < EDGE_AUTH_PASSWORD_MAX" "length pw < 256"
  shows "edge_auth_password_ok ctx pw \<longleftrightarrow> ac_lab_password ctx \<noteq> [] \<and> pw = bytes_of (ac_lab_password ctx)"
proof (cases "length pw = length (ac_lab_password ctx)")
  case True
  then show ?thesis
    using assms by (auto simp: password_ok_iff padded_def EDGE_AUTH_PASSWORD_MAX_def
        intro!: nth_equalityI)
next
  case False
  with assms show ?thesis by (auto simp: password_ok_iff EDGE_AUTH_PASSWORD_MAX_def)
qed

theorem password_exact_witness:
  "edge_auth_password_ok lab_ctx (bytes_of ''secret'') \<and> \<not> edge_auth_password_ok lab_ctx (bytes_of ''Secret'')"
proof -
  have l: "ac_lab_password lab_ctx = ''secret''" by (simp add: lab_ctx_def)
  have ne: "bytes_of ''Secret'' \<noteq> bytes_of ''secret''"
  proof
    assume "bytes_of ''Secret'' = bytes_of ''secret''"
    then have "chars_of (bytes_of ''Secret'') = chars_of (bytes_of ''secret'')" by (rule arg_cong)
    then show False unfolding chars_of_bytes_of by simp
  qed
  show ?thesis
    using password_exact [of lab_ctx "bytes_of ''secret''"] password_exact [of lab_ctx "bytes_of ''Secret''"] ne
    by (simp add: l EDGE_AUTH_PASSWORD_MAX_def)
qed

text \<open>The length check of the login password is made on one byte only: a password followed by
  256 zero bytes is accepted as well.\<close>

theorem password_length_truncated:
  assumes "ac_lab_password ctx \<noteq> []"
  shows "edge_auth_password_ok ctx (bytes_of (ac_lab_password ctx) @ replicate 256 0)"
  using assms by (auto simp: password_ok_iff padded_def nth_append)

theorem password_length_truncated_witness:
  "edge_auth_password_ok lab_ctx (bytes_of ''secret'' @ replicate 256 0)"
  using password_length_truncated [of lab_ctx] by (simp add: lab_ctx_def)

text \<open>The session cookie is found in a Cookie header after any number of other cookies,
  whatever their blanks, and before any others, and is returned unchanged when it fits.\<close>

theorem cookie_found:
  assumes "list_all other_cookie ss" "CHR '';'' \<notin> set v" "v \<noteq> []" "length v < sz"
    and "rest = [] \<or> hd rest = CHR '';''"
  shows "edge_auth_cookie_extract
      (Some (concat (map (\<lambda>s. s @ '';'') ss) @ EDGE_AUTH_COOKIE_NAME @ ''='' @ v @ rest)) sz = Some v"
proof -
  have "sz \<noteq> 0" using assms(4) by auto
  then show ?thesis
    unfolding edge_auth_cookie_extract_def using scan_others [OF assms(1)] scan_found [OF assms(2-5)]
    by simp
qed

theorem cookie_found_witness:
  "edge_auth_cookie_extract (Some ''a=1; ;edge_sessionx=2;edge_session=abc; b=3'') 768 = Some ''abc''"
proof -
  have "list_all other_cookie [''a=1'', '' '', ''edge_sessionx=2'']"
    by (simp add: other_cookie_def EDGE_AUTH_COOKIE_NAME_def)
  from cookie_found [OF this, of "''abc''" 768 "''; b=3''"] show ?thesis
    by (simp add: EDGE_AUTH_COOKIE_NAME_def)
qed

text \<open>The roles of a comma-separated header are the union of the named roles; but when none of
  them is known, the principal gets the employee role, and with it every resource.\<close>

theorem csv_roles_union:
  assumes "list_all role_token ts" "ts \<noteq> []" "fold (\<lambda>t r. r OR edge_auth_role_parse (Some t)) ts 0 = r"
  shows "edge_auth_roles_from_csv (Some (csv_join ts)) = (if r \<noteq> 0 then r else EDGE_ROLE_EMPLOYEE) \<and>
    (r \<noteq> 0 \<or> res = EDGE_RES_NONE \<or>
     edge_auth_rbac_check (Some (proxy_principal u (Some (csv_join ts)) e)) res = EDGE_AUTH_ALLOW)"
proof -
  obtain t us where ts: "ts = t # us" "t \<noteq> []" using assms(1,2) by (cases ts) (auto simp: role_token_def)
  then have ne: "csv_join ts \<noteq> []" by (cases us) auto
  have eq: "edge_auth_roles_from_csv (Some (csv_join ts)) = (if r \<noteq> 0 then r else EDGE_ROLE_EMPLOYEE)"
    using ne csv_roles_join [OF assms(1), of 0] assms(3)
    by (simp add: edge_auth_roles_from_csv_def Let_def)
  moreover have "edge_auth_rbac_check (Some (proxy_principal u (Some (csv_join ts)) e)) res = EDGE_AUTH_ALLOW"
    if "r = 0" "res \<noteq> EDGE_RES_NONE"
    using that eq ne
    by (auto simp: rbac_allow_iff proxy_principal_def roles_used_def edge_auth_role_has_def role_defs)
  ultimately show ?thesis by blast
qed

theorem csv_roles_union_witness:
  "edge_auth_roles_from_csv (Some ''guest,visitor'') = EDGE_ROLE_EMPLOYEE"
proof -
  have t: "list_all role_token [''guest'', ''visitor'']" by (simp add: role_token_def csv_sep_def)
  have r: "fold (\<lambda>t r. r OR edge_auth_role_parse (Some t)) [''guest'', ''visitor''] 0 = 0"
    by (simp add: edge_auth_role_parse_def)
  show ?thesis using csv_roles_union [OF t _ r, of EDGE_RES_NONE "[]" 0] by simp
qed

end
