(* ===== verification/Ws_Accept.thy ===== *)
theory Ws_Accept
  imports Sha256 Base64
begin

text \<open>
  The WebSocket handshake of \<open>src/host/ws_stream.c\<close>: the compact SHA-1, the accept key of
  RFC 6455 and the 101 response. The hash context keeps one byte count, from which the
  position in the 64-byte block is read; \<open>sha1_update\<close> is proved to give the digest of the
  padded message, whatever the uninitialised block held.
\<close>

definition EDGE_WS_KEY_MAX :: nat where "EDGE_WS_KEY_MAX = 64"
definition EDGE_WS_ACCEPT_MAX :: nat where "EDGE_WS_ACCEPT_MAX = 64"

section \<open>SHA-1\<close>

record sha1_ctx =
  s1_state :: "u32 list"
  s1_count :: u64
  s1_buffer :: "u8 list"

definition sha1_rol :: "u32 \<Rightarrow> nat \<Rightarrow> u32" where
  "sha1_rol v n = push_bit n v OR drop_bit (32 - n) v"

text \<open>The message schedule after its sixteen words (which are those of SHA-256).\<close>

fun sha1_schedule :: "nat \<Rightarrow> u32 list \<Rightarrow> u32 list" where
  "sha1_schedule 0 w = w"
| "sha1_schedule (Suc n) w =
     (let i = length w
      in sha1_schedule n
           (w @ [sha1_rol (w ! (i - 3) XOR w ! (i - 8) XOR w ! (i - 14) XOR w ! (i - 16)) 1]))"

type_synonym sha1_regs = "u32 \<times> u32 \<times> u32 \<times> u32 \<times> u32"

definition sha1_round :: "nat \<times> u32 \<Rightarrow> sha1_regs \<Rightarrow> sha1_regs" where
  "sha1_round = (\<lambda>(i, w) (a, b, c, d, e).
     let (f, k) =
           (if i < 20 then ((b AND c) OR (NOT b AND d), 0x5A827999)
            else if i < 40 then (b XOR c XOR d, 0x6ED9EBA1)
            else if i < 60 then ((b AND c) OR (b AND d) OR (c AND d), 0x8F1BBCDC)
            else (b XOR c XOR d, 0xCA62C1D6));
         t = sha1_rol a 5 + f + e + k + w
     in (t, a, sha1_rol b 30, c, d))"

definition sha1_transform :: "u32 list \<Rightarrow> u8 list \<Rightarrow> u32 list" where
  "sha1_transform st blk =
     (let w = sha1_schedule 64 (block_words blk);
          (a, b, c, d, e) =
            fold sha1_round (zip [0..<80] w) (st ! 0, st ! 1, st ! 2, st ! 3, st ! 4)
      in [st ! 0 + a, st ! 1 + b, st ! 2 + c, st ! 3 + d, st ! 4 + e])"

definition sha1_h0 :: "u32 list" where
  "sha1_h0 = [0x67452301, 0xEFCDAB89, 0x98BADCFE, 0x10325476, 0xC3D2E1F0]"

definition sha1_init :: "sha1_ctx \<Rightarrow> sha1_ctx" where
  "sha1_init ctx = ctx\<lparr>s1_state := sha1_h0, s1_count := 0\<rparr>"

text \<open>One turn of the copy loop of \<open>sha1_update\<close>, on the state, the block and the index in it.\<close>

definition sha1_step :: "u8 \<Rightarrow> u32 list \<times> u8 list \<times> nat \<Rightarrow> u32 list \<times> u8 list \<times> nat" where
  "sha1_step x = (\<lambda>(st, buf, idx).
     let buf1 = buf[idx := x]
     in if idx + 1 = 64 then (sha1_transform st buf1, buf1, 0) else (st, buf1, idx + 1))"

definition sha1_update :: "sha1_ctx \<Rightarrow> u8 list \<Rightarrow> sha1_ctx" where
  "sha1_update ctx bs =
     (let idx = unat (s1_count ctx AND 63);
          (st, buf, _) = fold sha1_step bs (s1_state ctx, s1_buffer ctx, idx)
      in ctx\<lparr>s1_count := s1_count ctx + of_nat (length bs), s1_state := st, s1_buffer := buf\<rparr>)"

definition sha1_final :: "sha1_ctx \<Rightarrow> u8 list" where
  "sha1_final ctx =
     (let bits = s1_count ctx * 8;
          idx = unat (s1_count ctx AND 63);
          pad_len = (if idx < 56 then 56 - idx else 120 - idx);
          ctx1 = sha1_update ctx (0x80 # replicate (pad_len - 1) 0);
          lenb = map (\<lambda>i. ucast (drop_bit ((7 - i) * 8) bits)) [0..<8];
          ctx2 = sha1_update ctx1 lenb
      in concat (map (\<lambda>w. [ucast (drop_bit 24 w), ucast (drop_bit 16 w), ucast (drop_bit 8 w), ucast w])
           (take 5 (s1_state ctx2))))"

text \<open>The context is a local of the caller; \<open>sha1_init\<close> does not set its block.\<close>

definition sha1_ctx0 :: sha1_ctx where
  "sha1_ctx0 = \<lparr>s1_state = [], s1_count = 0, s1_buffer = replicate 64 0\<rparr>"

section \<open>Handshake\<close>

definition ws_guid :: string where
  "ws_guid = ''258EAFA5-E914-47DA-95CA-C5AB0DC85B11''"

definition tab :: char where "tab = CHR 0x09"
definition cr :: char where "cr = CHR 0x0d"
definition lf :: char where "lf = CHR 0x0a"

definition crlf :: string where "crlf = [cr, lf]"

definition trim_key :: "string \<Rightarrow> string" where
  "trim_key s =
     rev (dropWhile (\<lambda>c. c = CHR '' '' \<or> c = tab \<or> c = cr \<or> c = lf)
       (rev (dropWhile (\<lambda>c. c = CHR '' '' \<or> c = tab) s)))"

text \<open>The encoder of this file is the one of \<open>auth_rbac.c\<close> without the URL alphabet.\<close>

definition ws_b64_encode :: "u8 list \<Rightarrow> nat \<Rightarrow> string option" where
  "ws_b64_encode inp out_sz =
     (let need = ((length inp + 2) div 3) * 4 + 1
      in if out_sz < need then None else Some (b64_groups inp))"

definition edge_ws_accept_key :: "string option \<Rightarrow> nat \<Rightarrow> string option" where
  "edge_ws_accept_key sec_ws_key out_sz =
     (case sec_ws_key of
        None \<Rightarrow> None
      | Some s \<Rightarrow>
          if out_sz < 29 then None
          else (let key = trim_key s
                in if length key = 0 \<or> length key \<ge> EDGE_WS_KEY_MAX then None
                   else ws_b64_encode
                          (sha1_final (sha1_update (sha1_init sha1_ctx0) (bytes_of (key @ ws_guid))))
                          out_sz))"

definition edge_ws_build_101 :: "string option \<Rightarrow> nat \<Rightarrow> string option" where
  "edge_ws_build_101 sec_ws_key out_cap =
     (case edge_ws_accept_key sec_ws_key EDGE_WS_ACCEPT_MAX of
        None \<Rightarrow> None
      | Some accept \<Rightarrow>
          (let text = ''HTTP/1.1 101 Switching Protocols'' @ crlf @
                      ''Upgrade: websocket'' @ crlf @
                      ''Connection: Upgrade'' @ crlf @
                      ''Sec-WebSocket-Accept: '' @ accept @ crlf @
                      crlf
           in if length text \<ge> out_cap then None else Some text))"

definition edge_ws_path_is_stream :: "string option \<Rightarrow> bool" where
  "edge_ws_path_is_stream path =
     (case path of
        None \<Rightarrow> False
      | Some p \<Rightarrow> p = ''/api/v1/stream'' \<or> starts_with ''/api/v1/stream?'' p)"

section \<open>Streaming equals the reference\<close>

definition sha1_ref :: "u8 list \<Rightarrow> u8 list" where
  "sha1_ref msg =
     (let p = sha_pad msg
      in concat (map be32 (fold (\<lambda>b st. sha1_transform st b) (blocks (length p div 64) p) sha1_h0)))"

text \<open>The loop state after the bytes of \<open>msg\<close>.\<close>

definition sha1_loop :: "u8 list \<Rightarrow> u32 list \<times> u8 list \<times> nat \<Rightarrow> bool" where
  "sha1_loop msg = (\<lambda>(st, buf, idx).
     length buf = 64 \<and> idx = length msg mod 64 \<and>
     take idx buf = drop (64 * (length msg div 64)) msg \<and>
     st = fold (\<lambda>b st. sha1_transform st b) (blocks (length msg div 64) msg) sha1_h0)"

lemma sha1_loop_byte:
  assumes "sha1_loop msg s"
  shows "sha1_loop (msg @ [x]) (sha1_step x s)"
proof -
  obtain st buf idx where s: "s = (st, buf, idx)" by (cases s)
  let ?n = "length msg div 64" and ?d = "length msg mod 64"
  have len: "length msg = 64 * ?n + ?d" by simp
  have d: "?d < 64" by simp
  have c: "length buf = 64" "idx = ?d" "take ?d buf = drop (64 * ?n) msg"
    "st = fold (\<lambda>b st. sha1_transform st b) (blocks ?n msg) sha1_h0"
    using assms by (auto simp: sha1_loop_def s)
  have take1: "take (Suc ?d) (buf[?d := x]) = drop (64 * ?n) msg @ [x]"
    using c d by (simp add: take_Suc_conv_app_nth)
  have same: "blocks ?n (msg @ ys) = blocks ?n msg" for ys
    by (rule blocks_prefix) simp
  show ?thesis
  proof (cases "Suc ?d = 64")
    case True
    then have div: "length (msg @ [x]) div 64 = ?n + 1" "length (msg @ [x]) mod 64 = 0"
      using len by simp_all presburger+
    have "blocks (Suc ?n) (msg @ [x]) = blocks ?n msg @ [drop (64 * ?n) msg @ [x]]"
      using blocks_snoc [of "msg @ [x]" ?n] same [of "[x]"] True len by simp
    moreover have "buf[?d := x] = drop (64 * ?n) msg @ [x]"
      using take1 True c(1) by simp
    ultimately show ?thesis
      using c True div len by (simp add: sha1_loop_def sha1_step_def s Let_def)
  next
    case False
    then have "length (msg @ [x]) div 64 = ?n" "length (msg @ [x]) mod 64 = Suc ?d"
      using d len by (simp_all add: mod_Suc div_Suc)
    with False c take1 same show ?thesis
      by (simp add: sha1_loop_def sha1_step_def s Let_def)
  qed
qed

lemma sha1_loop_bytes: "sha1_loop a s \<Longrightarrow> sha1_loop (a @ b) (fold sha1_step b s)"
proof (induction b arbitrary: a s)
  case Nil
  then show ?case by simp
next
  case (Cons x b)
  from Cons.IH [OF sha1_loop_byte [OF Cons.prems, of x]] show ?case by simp
qed

definition sha1_absorbed :: "u8 list \<Rightarrow> sha1_ctx \<Rightarrow> bool" where
  "sha1_absorbed msg ctx \<longleftrightarrow> s1_count ctx = of_nat (length msg) \<and>
     sha1_loop msg (s1_state ctx, s1_buffer ctx, length msg mod 64)"

lemma count_index: "unat ((of_nat n :: u64) AND 63) = n mod 64"
proof -
  have "(of_nat n :: u64) AND 63 = take_bit 6 (of_nat n)"
    by (simp add: take_bit_eq_mask mask_eq_exp_minus_1)
  then have "unat ((of_nat n :: u64) AND 63) = take_bit 6 (take_bit 64 n)"
    by (simp add: unsigned_take_bit_eq unsigned_of_nat)
  also have "\<dots> = take_bit 6 n" by (simp only: take_bit_take_bit)
  finally show ?thesis by (simp add: take_bit_eq_mod)
qed

lemma sha1_absorbed_init: "length (s1_buffer ctx) = 64 \<Longrightarrow> sha1_absorbed [] (sha1_init ctx)"
  by (simp add: sha1_absorbed_def sha1_init_def sha1_loop_def)

lemma sha1_absorbed_update:
  assumes "sha1_absorbed a ctx"
  shows "sha1_absorbed (a @ b) (sha1_update ctx b)"
proof -
  have l: "sha1_loop a (s1_state ctx, s1_buffer ctx, length a mod 64)" and
    n: "s1_count ctx = of_nat (length a)"
    using assms by (auto simp: sha1_absorbed_def)
  obtain st buf idx where f:
    "fold sha1_step b (s1_state ctx, s1_buffer ctx, length a mod 64) = (st, buf, idx)"
    by (cases "fold sha1_step b (s1_state ctx, s1_buffer ctx, length a mod 64)")
  from sha1_loop_bytes [OF l, of b] have r: "sha1_loop (a @ b) (st, buf, idx)" by (simp only: f)
  then have "idx = length (a @ b) mod 64" by (simp add: sha1_loop_def)
  with r f n show ?thesis
    by (simp add: sha1_absorbed_def sha1_update_def count_index)
qed

lemma sha1_pad_split:
  "msg @ (0x80 # replicate ((if length msg mod 64 < 56 then 56 - length msg mod 64
      else 120 - length msg mod 64) - 1) 0) @ be64 (of_nat (8 * length msg)) = sha_pad msg"
proof -
  let ?d = "length msg mod 64"
  have d: "?d < 64" by simp
  have "(119 - ?d) mod 64 = (if ?d < 56 then 56 - ?d else 120 - ?d) - 1"
  proof (cases "?d < 56")
    case True
    then have r: "119 - ?d = 64 + (55 - ?d)" "55 - ?d < 64" by arith+
    have "(119 - ?d) mod 64 = 55 - ?d" unfolding r(1) mod_add_self1 by (rule mod_less [OF r(2)])
    then show ?thesis using True by simp
  next
    case False
    with d show ?thesis by simp
  qed
  then show ?thesis by (simp add: sha_pad_def)
qed

lemma ucast_and_ff: "(ucast (w AND 0xff :: u32) :: u8) = ucast w"
proof -
  have "w AND 0xff = take_bit 8 w"
    by (simp add: take_bit_eq_mask mask_eq_exp_minus_1)
  then show ?thesis
    by (auto intro!: bit_word_eqI simp: bit_simps)
qed

lemma be32_bytes:
  "be32 w = [ucast (drop_bit 24 w), ucast (drop_bit 16 w), ucast (drop_bit 8 w), ucast w]"
  by (simp add: be32_def ucast_and_ff upt_rec)

lemma length_bits: "map (\<lambda>i. ucast (drop_bit ((7 - i) * 8) (bits :: u64))) [0..<8] = be64 bits"
  by (simp add: be64_def upt_rec)

lemma length_sha1_transform [simp]: "length (sha1_transform st blk) = 5"
  by (simp add: sha1_transform_def Let_def split: prod.split)

lemma length_sha1_fold: "length st = 5 \<Longrightarrow> length (fold (\<lambda>b st. sha1_transform st b) bs st) = 5"
  by (induction bs arbitrary: st) simp_all

lemma sha1_final_ref:
  assumes a: "sha1_absorbed msg ctx"
  shows "sha1_final ctx = sha1_ref msg"
proof -
  let ?pl = "if length msg mod 64 < 56 then 56 - length msg mod 64 else 120 - length msg mod 64"
  let ?ctx2 = "sha1_update (sha1_update ctx (0x80 # replicate (?pl - 1) 0)) (be64 (of_nat (8 * length msg)))"
  have n: "s1_count ctx = of_nat (length msg)" using a by (simp add: sha1_absorbed_def)
  have bits: "s1_count ctx * 8 = of_nat (8 * length msg)" by (simp add: n mult.commute)
  have "sha1_absorbed (sha_pad msg) ?ctx2"
    using sha1_absorbed_update [OF sha1_absorbed_update [OF a, of "0x80 # replicate (?pl - 1) 0"],
        of "be64 (of_nat (8 * length msg))"]
    by (simp only: append_assoc sha1_pad_split)
  then have st: "s1_state ?ctx2 = fold (\<lambda>b st. sha1_transform st b)
      (blocks (length (sha_pad msg) div 64) (sha_pad msg)) sha1_h0"
    by (simp add: sha1_absorbed_def sha1_loop_def)
  have l: "length (s1_state ?ctx2) = 5"
    unfolding st by (rule length_sha1_fold) (simp add: sha1_h0_def)
  have "sha1_final ctx = concat (map be32 (take 5 (s1_state ?ctx2)))"
    unfolding sha1_final_def Let_def bits length_bits
    unfolding n count_index be32_bytes ..
  also have "take 5 (s1_state ?ctx2) = s1_state ?ctx2"
    using l by (intro take_all) (simp only:)
  finally show ?thesis
    unfolding sha1_ref_def Let_def st .
qed

lemma sha1_streaming:
  "length (s1_buffer ctx) = 64 \<Longrightarrow>
   sha1_final (sha1_update (sha1_update (sha1_init ctx) a) b) = sha1_ref (a @ b)"
  using sha1_final_ref [OF sha1_absorbed_update [OF sha1_absorbed_update [OF sha1_absorbed_init]]]
  by simp

lemma sha1_oneshot: "sha1_final (sha1_update (sha1_init sha1_ctx0) a) = sha1_ref a"
  using sha1_final_ref [OF sha1_absorbed_update [OF sha1_absorbed_init], of sha1_ctx0 a]
  by (simp add: sha1_ctx0_def)

lemma length_sha1_ref [simp]: "length (sha1_ref msg) = 20"
proof -
  have "length (fold (\<lambda>b st. sha1_transform st b) bs sha1_h0) = 5" for bs
    by (rule length_sha1_fold) (simp add: sha1_h0_def)
  then show ?thesis
    by (simp add: sha1_ref_def Let_def length_concat comp_def sum_list_triv)
qed

end
