(* ===== verification/Ws_Accept_Vectors.thy ===== *)
theory Ws_Accept_Vectors
  imports Ws_Accept
begin

text \<open>
  The accept key of the WebSocket handshake is the value RFC 6455 prescribes.
\<close>

definition key_blank :: "char \<Rightarrow> bool" where
  "key_blank c \<longleftrightarrow> c = CHR '' '' \<or> c = tab"

definition key_trail :: "char \<Rightarrow> bool" where
  "key_trail c \<longleftrightarrow> key_blank c \<or> c = cr \<or> c = lf"

lemma dropWhile_prefix:
  "\<forall>c\<in>set pre. P c \<Longrightarrow> k \<noteq> [] \<Longrightarrow> \<not> P (hd k) \<Longrightarrow> dropWhile P (pre @ k @ post) = k @ post"
  by (induction pre) (auto simp: dropWhile_append neq_Nil_conv)

lemma trim_key_eq:
  assumes "\<forall>c\<in>set pre. key_blank c" "\<forall>c\<in>set post. key_trail c" "k \<noteq> []"
    and "\<not> key_trail (hd k)" "\<not> key_trail (last k)"
  shows "trim_key (pre @ k @ post) = k"
proof -
  have "\<not> key_blank (hd k)" using assms(4) by (simp add: key_trail_def)
  then have "dropWhile key_blank (pre @ k @ post) = k @ post"
    using assms(1,3) by (intro dropWhile_prefix)
  moreover have "dropWhile key_trail (rev (k @ post)) = rev k"
    using dropWhile_prefix [of "rev post" key_trail "rev k" "[]"] assms(2,3,5)
    by (simp add: hd_rev)
  moreover have "(\<lambda>c. c = CHR '' '' \<or> c = tab) = key_blank"
    "(\<lambda>c. c = CHR '' '' \<or> c = tab \<or> c = cr \<or> c = lf) = key_trail"
    by (auto simp: key_blank_def key_trail_def)
  ultimately show ?thesis by (simp add: trim_key_def)
qed

lemma length_b64_groups: "length (b64_groups xs) = (length xs + 2) div 3 * 4"
proof (induction xs rule: b64_groups.induct)
  case (1 a b c rest)
  have "(5 + n) div 3 = Suc (Suc (Suc n) div 3)" for n :: nat by presburger
  with 1 show ?case by (simp add: Let_def)
qed (simp_all add: Let_def)

text \<open>C40: The handshake key. The header value, with blanks around it ignored, is hashed together
  with the GUID of RFC 6455 by a SHA-1 that equals the reference digest of the padded
  message, and the result is its 28-character Base64 text, provided the output has room for
  29 bytes and the key has fewer than 64 characters; otherwise the handshake is refused.\<close>

theorem ws_accept_key_correct:
  assumes "\<forall>c\<in>set pre. key_blank c" "\<forall>c\<in>set post. key_trail c" "k \<noteq> []"
    and "\<not> key_trail (hd k)" "\<not> key_trail (last k)"
  shows "edge_ws_accept_key (Some (pre @ k @ post)) sz =
    (if sz < 29 \<or> length k \<ge> EDGE_WS_KEY_MAX then None
     else Some (b64_groups (sha1_ref (bytes_of (k @ ws_guid))))) \<and>
    length (b64_groups (sha1_ref (bytes_of (k @ ws_guid)))) = 28"
  using assms
  by (simp add: edge_ws_accept_key_def trim_key_eq Let_def sha1_oneshot ws_b64_encode_def length_b64_groups)

theorem ws_accept_key_correct_witness:
  "edge_ws_accept_key (Some ([CHR '' ''] @ ''dGhlIHNhbXBsZSBub25jZQ=='' @ [cr, lf])) 64 =
   Some (b64_groups (sha1_ref (bytes_of (''dGhlIHNhbXBsZSBub25jZQ=='' @ ws_guid))))"
proof -
  have b: "\<forall>c\<in>set [CHR '' '']. key_blank c" "\<forall>c\<in>set [cr, lf]. key_trail c"
    by (simp_all add: key_blank_def key_trail_def)
  have k: "\<not> key_trail (hd ''dGhlIHNhbXBsZSBub25jZQ=='')" "\<not> key_trail (last ''dGhlIHNhbXBsZSBub25jZQ=='')"
    by (simp_all add: key_blank_def key_trail_def tab_def cr_def lf_def)
  show ?thesis
    using ws_accept_key_correct [OF b _ k, of 64] by (simp add: EDGE_WS_KEY_MAX_def)
qed

end
