(* ===== verification/Ws_Hub_Spec.thy ===== *)
theory Ws_Hub_Spec
  imports Ws_Hub
begin

text \<open>
  What the hub promises: every subscribed slot has a list of pending messages, a broadcast
  appends to each of them and sheds what exceeds eight, \<open>take\<close> removes the head, and an
  unsubscribed slot has nothing. The detailed hub is related to this map of lists by the
  invariant on its rings, and its operations are simulated step by step.
\<close>

section \<open>One subscriber\<close>

definition sub_items :: "edge_ws_sub \<Rightarrow> string list" where
  "sub_items s = map the (ring_list (ws_q s) (ws_head s) (ws_n s))"

definition sub_wf :: "edge_ws_sub \<Rightarrow> bool" where
  "sub_wf s \<longleftrightarrow>
     length (ws_q s) = EDGE_WS_PENDING_MAX \<and> length (ws_qlen s) = EDGE_WS_PENDING_MAX \<and>
     ws_head s < EDGE_WS_PENDING_MAX \<and> ws_n s \<le> EDGE_WS_PENDING_MAX \<and>
     ws_tail s = (ws_head s + ws_n s) mod EDGE_WS_PENDING_MAX \<and>
     ring_list (ws_q s) (ws_head s) (ws_n s) = map Some (sub_items s) \<and>
     ring_list (ws_qlen s) (ws_head s) (ws_n s) = map length (sub_items s) \<and>
     (ws_active s \<or> ws_n s = 0)"

lemma length_sub_items [simp]: "length (sub_items s) = ws_n s"
  by (simp add: sub_items_def)

definition sub_pop :: "edge_ws_sub \<Rightarrow> edge_ws_sub" where
  "sub_pop s =
     s\<lparr>ws_q := (ws_q s)[ws_head s := None], ws_qlen := (ws_qlen s)[ws_head s := 0],
       ws_head := (ws_head s + 1) mod EDGE_WS_PENDING_MAX, ws_n := ws_n s - 1\<rparr>"

definition sub_append :: "string \<Rightarrow> edge_ws_sub \<Rightarrow> edge_ws_sub" where
  "sub_append msg s =
     s\<lparr>ws_q := (ws_q s)[ws_tail s := Some msg], ws_qlen := (ws_qlen s)[ws_tail s := length msg],
       ws_tail := (ws_tail s + 1) mod EDGE_WS_PENDING_MAX, ws_n := ws_n s + 1\<rparr>"

lemma sub_push_eq:
  "sub_push mem s msg =
     (if \<not> ws_active s then (-1, s)
      else let s1 = (if ws_n s \<ge> EDGE_WS_PENDING_MAX then sub_pop s else s)
           in if mem then (0, sub_append msg s1) else (-1, s1))"
  by (simp add: sub_push_def sub_pop_def sub_append_def Let_def)

lemma sub_zero_wf: "sub_wf sub_zero" "sub_items sub_zero = []"
  by (simp_all add: sub_wf_def sub_zero_def sub_items_def EDGE_WS_PENDING_MAX_def)

lemma ring_list_pop_erased:
  assumes "h < length buf" "0 < n" "n \<le> length buf"
  shows "ring_list (buf[h := x]) ((h + 1) mod length buf) (n - 1) = tl (ring_list buf h n)"
proof -
  have "ring_list (buf[h := x]) h n = x # tl (ring_list buf h n)"
    by (rule ring_list_overwrite_head [OF assms])
  moreover have "ring_list (buf[h := x]) h n =
      buf[h := x] ! h # ring_list (buf[h := x]) ((h + 1) mod length buf) (n - 1)"
    using ring_list_pop [of h "buf[h := x]" n] assms by simp
  ultimately show ?thesis by simp
qed

lemma sub_pop_facts:
  assumes wf: "sub_wf s" and n: "0 < ws_n s"
  shows "sub_wf (sub_pop s)" "sub_items (sub_pop s) = tl (sub_items s)"
    "ws_q s ! ws_head s = Some (hd (sub_items s))"
    "ws_qlen s ! ws_head s = length (hd (sub_items s))"
proof -
  have b: "length (ws_q s) = EDGE_WS_PENDING_MAX" "length (ws_qlen s) = EDGE_WS_PENDING_MAX"
    "ws_head s < EDGE_WS_PENDING_MAX" "ws_n s \<le> EDGE_WS_PENDING_MAX"
    "ws_tail s = (ws_head s + ws_n s) mod EDGE_WS_PENDING_MAX" and
    q: "ring_list (ws_q s) (ws_head s) (ws_n s) = map Some (sub_items s)" and
    l: "ring_list (ws_qlen s) (ws_head s) (ws_n s) = map length (sub_items s)" and
    a: "ws_active s"
    using wf n by (auto simp: sub_wf_def)
  have q': "ring_list ((ws_q s)[ws_head s := None]) ((ws_head s + 1) mod EDGE_WS_PENDING_MAX) (ws_n s - 1) =
      map Some (tl (sub_items s))"
    using ring_list_pop_erased [of "ws_head s" "ws_q s" "ws_n s" None] b n q by (simp add: map_tl)
  have l': "ring_list ((ws_qlen s)[ws_head s := 0]) ((ws_head s + 1) mod EDGE_WS_PENDING_MAX) (ws_n s - 1) =
      map length (tl (sub_items s))"
    using ring_list_pop_erased [of "ws_head s" "ws_qlen s" "ws_n s" 0] b n l by (simp add: map_tl)
  show i: "sub_items (sub_pop s) = tl (sub_items s)"
    unfolding sub_items_def [of "sub_pop s"] using q' by (simp add: sub_pop_def comp_def)
  show "sub_wf (sub_pop s)"
    unfolding sub_wf_def i
    using b a q' l' n ring_tail_pop [of "ws_n s" "ws_head s" EDGE_WS_PENDING_MAX]
    by (simp add: sub_pop_def EDGE_WS_PENDING_MAX_def)
  have ne: "sub_items s \<noteq> []" using n length_sub_items [of s] by (cases "sub_items s") auto
  show "ws_q s ! ws_head s = Some (hd (sub_items s))"
    using ring_list_pop [of "ws_head s" "ws_q s" "ws_n s"] b n q ne by (cases "sub_items s") auto
  show "ws_qlen s ! ws_head s = length (hd (sub_items s))"
    using ring_list_pop [of "ws_head s" "ws_qlen s" "ws_n s"] b n l ne by (cases "sub_items s") auto
qed

lemma sub_append_facts:
  assumes wf: "sub_wf s" and n: "ws_n s < EDGE_WS_PENDING_MAX" and a: "ws_active s"
  shows "sub_wf (sub_append msg s)" "sub_items (sub_append msg s) = sub_items s @ [msg]"
proof -
  have b: "length (ws_q s) = EDGE_WS_PENDING_MAX" "length (ws_qlen s) = EDGE_WS_PENDING_MAX"
    "ws_head s < EDGE_WS_PENDING_MAX" "ws_tail s = (ws_head s + ws_n s) mod EDGE_WS_PENDING_MAX" and
    q: "ring_list (ws_q s) (ws_head s) (ws_n s) = map Some (sub_items s)" and
    l: "ring_list (ws_qlen s) (ws_head s) (ws_n s) = map length (sub_items s)"
    using wf by (auto simp: sub_wf_def)
  have q': "ring_list ((ws_q s)[ws_tail s := Some msg]) (ws_head s) (Suc (ws_n s)) =
      map Some (sub_items s @ [msg])"
    using ring_list_push [of "ws_n s" "ws_q s" "ws_head s" "Some msg"] b n q by simp
  have l': "ring_list ((ws_qlen s)[ws_tail s := length msg]) (ws_head s) (Suc (ws_n s)) =
      map length (sub_items s @ [msg])"
    using ring_list_push [of "ws_n s" "ws_qlen s" "ws_head s" "length msg"] b n l by simp
  show i: "sub_items (sub_append msg s) = sub_items s @ [msg]"
    unfolding sub_items_def [of "sub_append msg s"] using q' by (simp add: sub_append_def comp_def)
  show "sub_wf (sub_append msg s)"
    unfolding sub_wf_def i
    using b a q' l' n by (simp add: sub_append_def mod_Suc_eq)
qed

text \<open>The contract of one push: shed the head of a full queue, append if memory allows.\<close>

definition shed :: "string list \<Rightarrow> string list" where
  "shed q = (if length q \<ge> EDGE_WS_PENDING_MAX then tl q else q)"

lemma sub_push_facts:
  assumes wf: "sub_wf s" and a: "ws_active s" and r: "sub_push mem s msg = (rc, s')"
  shows "rc = (if mem then 0 else -1)" "sub_wf s'" "ws_active s'"
    "sub_items s' = shed (sub_items s) @ (if mem then [msg] else [])"
proof -
  define s1 where "s1 = (if ws_n s \<ge> EDGE_WS_PENDING_MAX then sub_pop s else s)"
  have nle: "ws_n s \<le> EDGE_WS_PENDING_MAX" using wf by (simp add: sub_wf_def)
  have 1: "sub_wf s1 \<and> sub_items s1 = shed (sub_items s) \<and> ws_active s1 \<and> ws_n s1 < EDGE_WS_PENDING_MAX"
  proof (cases "ws_n s \<ge> EDGE_WS_PENDING_MAX")
    case True
    then have "0 < ws_n s" by (simp add: EDGE_WS_PENDING_MAX_def)
    with True nle a show ?thesis
      using sub_pop_facts(1,2) [OF wf] by (simp add: s1_def shed_def sub_pop_def)
  next
    case False
    with wf a show ?thesis by (simp add: s1_def shed_def)
  qed
  have s': "s' = (if mem then sub_append msg s1 else s1)" and rc: "rc = (if mem then 0 else -1)"
    using r a by (simp_all add: sub_push_eq Let_def s1_def [symmetric] split: if_splits)
  show "rc = (if mem then 0 else -1)" by (rule rc)
  show "sub_wf s'" "ws_active s'" "sub_items s' = shed (sub_items s) @ (if mem then [msg] else [])"
    unfolding s' using 1 sub_append_facts [of s1 msg] by (simp_all add: sub_append_def)
qed

text \<open>A subscriber's queue is a queue that sheds its oldest message.\<close>

definition sub_queue_wf :: "edge_ws_sub \<Rightarrow> bool" where
  "sub_queue_wf s \<longleftrightarrow> sub_wf s \<and> ws_active s"

definition sub_put :: "string \<Rightarrow> edge_ws_sub \<Rightarrow> edge_ws_sub" where
  "sub_put msg s = snd (sub_push True s msg)"

definition sub_get :: "edge_ws_sub \<Rightarrow> (string \<times> edge_ws_sub) option" where
  "sub_get s = (if ws_n s = 0 then None else Some (the (ws_q s ! ws_head s), sub_pop s))"

lemma sub_put_facts:
  assumes "sub_queue_wf q"
  shows "sub_queue_wf (sub_put x q) \<and> sub_items (sub_put x q) = shed (sub_items q) @ [x]"
proof -
  obtain rc q' where r: "sub_push True q x = (rc, q')" by (cases "sub_push True q x")
  have "sub_wf q" "ws_active q" using assms by (simp_all add: sub_queue_wf_def)
  from sub_push_facts(2-4) [OF this r] r show ?thesis by (simp add: sub_queue_wf_def sub_put_def)
qed

interpretation sub_queue: sliding_queue sub_queue_wf sub_items "\<lambda>_. EDGE_WS_PENDING_MAX" sub_put sub_get
proof (unfold_locales, goal_cases)
  case (1 q)
  then show ?case by (simp add: sub_queue_wf_def sub_wf_def)
next
  case (2 q x)
  then show ?case by (simp add: sub_put_facts)
next
  case (3 q x)
  then show ?case by simp
next
  case (4 q x)
  then show ?case using sub_put_facts [of q x] by (simp add: shed_def)
next
  case (5 q)
  then show ?case using length_sub_items [of q] by (simp add: sub_get_def)
next
  case (6 q x xs)
  then have "0 < ws_n q" using length_sub_items [of q] by simp
  with 6 sub_pop_facts [of q] show ?case by (auto simp: sub_get_def sub_queue_wf_def sub_pop_def)
next
  case (7 q x)
  then show ?case using sub_put_facts [of q x] by (simp add: shed_def)
next
  case (8 q)
  then show ?case by (simp add: EDGE_WS_PENDING_MAX_def)
qed

section \<open>The hub and its map of queues\<close>

definition hub_wf :: "edge_ws_hub \<Rightarrow> bool" where
  "hub_wf h \<longleftrightarrow> length (hub_subs h) = hub_max_subs h \<and>
     (\<forall>s\<in>set (hub_subs h). sub_wf s \<and> (\<forall>m\<in>set (sub_items s). length m < EDGE_WS_MSG_MAX))"

definition hub_view :: "edge_ws_hub \<Rightarrow> nat \<Rightarrow> string list option" where
  "hub_view h i =
     (if i < length (hub_subs h) \<and> ws_active (hub_subs h ! i)
      then Some (sub_items (hub_subs h ! i)) else None)"

lemma hub_wfD:
  assumes "hub_wf h" "i < length (hub_subs h)"
  shows "sub_wf (hub_subs h ! i)" "\<forall>m\<in>set (sub_items (hub_subs h ! i)). length m < EDGE_WS_MSG_MAX"
  using assms nth_mem [OF assms(2)] unfolding hub_wf_def by blast+

lemma hub_wf_upd:
  assumes "hub_wf h" "sub_wf s" "\<forall>m\<in>set (sub_items s). length m < EDGE_WS_MSG_MAX"
  shows "hub_wf (upd_sub h c s)"
  using assms set_update_subset_insert [of "hub_subs h" "nat c" s]
  by (auto simp: hub_wf_def upd_sub_def)

lemma upd_sub_simps [simp]:
  "hub_max_subs (upd_sub h c s) = hub_max_subs h" "length (hub_subs (upd_sub h c s)) = length (hub_subs h)"
  "hub_next_rid (upd_sub h c s) = hub_next_rid h"
  by (simp_all add: upd_sub_def)

lemma hub_view_upd:
  "nat c < length (hub_subs h) \<Longrightarrow>
   hub_view (upd_sub h c s) = (hub_view h)(nat c := if ws_active s then Some (sub_items s) else None)"
  by (auto simp: hub_view_def upd_sub_def nth_list_update)

text \<open>The loop of a broadcast touches exactly the active subscribers.\<close>

lemma sum_first:
  "(\<Sum>j<Suc n. f j) = f 0 + (\<Sum>j<n. f (Suc j))" for f :: "nat \<Rightarrow> nat"
  by (rule sum.lessThan_Suc_shift)

definition cast_one :: "bool \<Rightarrow> string \<Rightarrow> edge_ws_sub \<Rightarrow> edge_ws_sub \<Rightarrow> bool" where
  "cast_one mem msg s s' \<longleftrightarrow>
     (if ws_active s
      then sub_wf s' \<and> ws_active s' \<and>
           sub_items s' = shed (sub_items s) @ (if mem then [msg] else [])
      else s' = s)"

lemma cast_loop_facts:
  assumes "cast_loop mem msg i ss = (n, ss')" "\<forall>s\<in>set ss. sub_wf s"
  shows "length ss' = length ss \<and>
    (\<forall>j<length ss. cast_one (mem (i + j)) msg (ss ! j) (ss' ! j)) \<and>
    n = (\<Sum>j<length ss. if ws_active (ss ! j) \<and> mem (i + j) then 1 else 0)"
  using assms
proof (induction ss arbitrary: i n ss')
  case Nil
  then show ?case by simp
next
  case (Cons s ss)
  obtain n1 ss1 where 1: "cast_loop mem msg (i + 1) ss = (n1, ss1)"
    by (cases "cast_loop mem msg (i + 1) ss")
  obtain rc s1 where 2: "sub_push (mem i) s msg = (rc, s1)" by (cases "sub_push (mem i) s msg")
  have wf: "sub_wf s" "\<forall>s\<in>set ss. sub_wf s" using Cons.prems(2) by simp_all
  note ih = Cons.IH [OF 1 wf(2)]
  have "n = (if ws_active s \<and> mem i then 1 else 0) + n1 \<and>
      (\<exists>s'. ss' = s' # ss1 \<and> cast_one (mem i) msg s s')"
  proof (cases "ws_active s")
    case True
    note f = sub_push_facts [OF wf(1) True 2]
    from Cons.prems(1) 1 2 True f(1) have "n = (if mem i then 1 else 0) + n1" "ss' = s1 # ss1"
      by (simp_all add: Let_def split: if_splits)
    with True f(2-4) show ?thesis by (simp add: cast_one_def)
  next
    case False
    with Cons.prems(1) 1 have "n = n1" "ss' = s # ss1" by (simp_all add: Let_def)
    with False show ?thesis by (simp add: cast_one_def)
  qed
  then obtain s' where n: "n = (if ws_active s \<and> mem i then 1 else 0) + n1" and
    s': "ss' = s' # ss1" "cast_one (mem i) msg s s'" by blast
  from ih s' show ?case
    unfolding n length_Cons sum_first All_less_Suc2 by simp
qed

section \<open>The abstract hub\<close>

datatype hub_op =
    Subscribe int
  | Unsubscribe int
  | Broadcast "nat \<Rightarrow> bool" string string string "string option" "string option"
  | Take int nat

datatype hub_res = Rc int | Copies nat | Taken int "string option"

fun hub_step :: "hub_op \<Rightarrow> edge_ws_hub \<Rightarrow> hub_res \<times> edge_ws_hub" where
  "hub_step (Subscribe c) h = (case edge_ws_hub_subscribe h c of (rc, h') \<Rightarrow> (Rc rc, h'))"
| "hub_step (Unsubscribe c) h = (Rc 0, edge_ws_hub_unsubscribe h c)"
| "hub_step (Broadcast mem ns key op v rid) h =
     (case edge_ws_hub_broadcast_state_changed mem h (Some ns) (Some key) (Some op) v rid of
        (n, h') \<Rightarrow> (Copies n, h'))"
| "hub_step (Take c cap) h =
     (case edge_ws_hub_take_pending h c cap of ((rc, m), h') \<Rightarrow> (Taken rc m, h'))"

definition slot_ok :: "nat \<Rightarrow> int \<Rightarrow> bool" where
  "slot_ok slots c \<longleftrightarrow> 0 \<le> c \<and> nat c < slots"

fun hub_spec :: "nat \<Rightarrow> hub_op \<Rightarrow> (nat \<Rightarrow> string list option) \<Rightarrow> hub_res \<times> (nat \<Rightarrow> string list option)" where
  "hub_spec slots (Subscribe c) m =
     (if slot_ok slots c
      then (Rc 0, m(nat c := Some (case m (nat c) of None \<Rightarrow> [] | Some q \<Rightarrow> q)))
      else (Rc (-1), m))"
| "hub_spec slots (Unsubscribe c) m = (Rc 0, if slot_ok slots c then m(nat c := None) else m)"
| "hub_spec slots (Broadcast mem ns key op v rid) m =
     (case edge_ws_format_state_changed EDGE_WS_MSG_MAX (Some ns) (Some key) (Some op) v rid of
        None \<Rightarrow> (Copies 0, m)
      | Some msg \<Rightarrow>
          (Copies (card {i. m i \<noteq> None \<and> mem i}),
           \<lambda>i. map_option (\<lambda>q. shed q @ (if mem i then [msg] else [])) (m i)))"
| "hub_spec slots (Take c cap) m =
     (if cap = 0 \<or> \<not> slot_ok slots c then (Taken (-1) None, m)
      else case m (nat c) of
        Some (x # q) \<Rightarrow>
          (if length x + 1 > cap then (Taken (-1) None, m)
           else (Taken 1 (Some x), m(nat c := Some q)))
      | _ \<Rightarrow> (Taken 0 None, m))"

lemma bad_slot_iff: "bad_slot h c \<longleftrightarrow> \<not> slot_ok (hub_max_subs h) c"
  by (auto simp: bad_slot_def slot_ok_def)

lemma format_length:
  "edge_ws_format_state_changed cap ns key op v rid = Some msg \<Longrightarrow> length msg < cap"
  by (auto simp: edge_ws_format_state_changed_def Let_def split: option.splits if_splits)

lemma subscribe_refines:
  assumes "hub_wf h" "edge_ws_hub_subscribe h c = (rc, h')"
  shows "hub_wf h' \<and> hub_max_subs h' = hub_max_subs h \<and>
    hub_spec (hub_max_subs h) (Subscribe c) (hub_view h) = (Rc rc, hub_view h')"
proof (cases "slot_ok (hub_max_subs h) c")
  case True
  let ?s = "hub_subs h ! nat c"
  have c: "nat c < length (hub_subs h)" using True assms(1) by (simp add: slot_ok_def hub_wf_def)
  have h': "h' = upd_sub h c (?s\<lparr>ws_active := True\<rparr>)" "rc = 0"
    using assms(2) True by (simp_all add: edge_ws_hub_subscribe_def bad_slot_iff)
  have s: "sub_wf (?s\<lparr>ws_active := True\<rparr>)" "sub_items (?s\<lparr>ws_active := True\<rparr>) = sub_items ?s"
    using hub_wfD(1) [OF assms(1) c] by (simp_all add: sub_wf_def sub_items_def)
  have idle: "\<not> ws_active ?s \<Longrightarrow> sub_items ?s = []"
    using hub_wfD(1) [OF assms(1) c] by (simp add: sub_wf_def sub_items_def)
  show ?thesis
    using True c s idle hub_wfD(2) [OF assms(1) c] hub_wf_upd [OF assms(1) s(1), of c]
    by (auto simp: h' hub_view_upd hub_view_def fun_eq_iff)
next
  case False
  then show ?thesis using assms by (simp add: edge_ws_hub_subscribe_def bad_slot_iff)
qed

lemma unsubscribe_refines:
  assumes "hub_wf h"
  shows "hub_wf (edge_ws_hub_unsubscribe h c) \<and>
    hub_max_subs (edge_ws_hub_unsubscribe h c) = hub_max_subs h \<and>
    hub_spec (hub_max_subs h) (Unsubscribe c) (hub_view h) = (Rc 0, hub_view (edge_ws_hub_unsubscribe h c))"
proof (cases "slot_ok (hub_max_subs h) c")
  case True
  let ?s = "(hub_subs h ! nat c)\<lparr>ws_q := replicate EDGE_WS_PENDING_MAX None,
     ws_qlen := replicate EDGE_WS_PENDING_MAX 0, ws_head := 0, ws_tail := 0, ws_n := 0, ws_active := False\<rparr>"
  have c: "nat c < length (hub_subs h)" using True assms(1) by (simp add: slot_ok_def hub_wf_def)
  have h': "edge_ws_hub_unsubscribe h c = upd_sub h c ?s"
    using True by (simp add: edge_ws_hub_unsubscribe_def bad_slot_iff)
  have s: "sub_wf ?s" "sub_items ?s = []" by (simp_all add: sub_wf_def sub_items_def EDGE_WS_PENDING_MAX_def)
  show ?thesis
    using True c s hub_wf_upd [OF assms s(1), of c] by (simp add: h' hub_view_upd)
next
  case False
  then show ?thesis using assms by (simp add: edge_ws_hub_unsubscribe_def bad_slot_iff)
qed

lemma card_as_sum:
  "card {i. i < n \<and> P i} = (\<Sum>j<n. if P j then 1 else 0)" for n :: nat
proof -
  have "(\<Sum>j<n. if P j then 1 else 0 :: nat) = card ({..<n} \<inter> {j. P j})"
    by (induction n) (auto simp: lessThan_Suc Int_insert_left)
  moreover have "{..<n} \<inter> {j. P j} = {i. i < n \<and> P i}" by auto
  ultimately show ?thesis by simp
qed

lemma broadcast_refines:
  assumes wf: "hub_wf h"
    and r: "edge_ws_hub_broadcast_state_changed mem h (Some ns) (Some key) (Some op) v rid = (n, h')"
  shows "hub_wf h' \<and> hub_max_subs h' = hub_max_subs h \<and>
    hub_spec (hub_max_subs h) (Broadcast mem ns key op v rid) (hub_view h) = (Copies n, hub_view h')"
proof (cases "edge_ws_format_state_changed EDGE_WS_MSG_MAX (Some ns) (Some key) (Some op) v rid")
  case None
  then show ?thesis using wf r by (simp add: edge_ws_hub_broadcast_state_changed_def)
next
  case (Some msg)
  let ?ss = "hub_subs h"
  obtain ss' where l: "cast_loop mem msg 0 ?ss = (n, ss')" and h': "h' = h\<lparr>hub_subs := ss'\<rparr>"
    using r Some by (auto simp: edge_ws_hub_broadcast_state_changed_def split: prod.splits)
  have "\<forall>s\<in>set ?ss. sub_wf s" using wf by (simp add: hub_wf_def)
  from cast_loop_facts [OF l this] have len: "length ss' = length ?ss"
    and one: "\<And>j. j < length ?ss \<Longrightarrow> cast_one (mem j) msg (?ss ! j) (ss' ! j)"
    and n: "n = (\<Sum>j<length ?ss. if ws_active (?ss ! j) \<and> mem j then 1 else 0)"
    by simp_all
  have short: "length msg < EDGE_WS_MSG_MAX" using format_length [OF Some] .
  have "sub_wf s \<and> (\<forall>m\<in>set (sub_items s). length m < EDGE_WS_MSG_MAX)" if "s \<in> set ss'" for s
  proof -
    from that obtain j where j: "j < length ?ss" "s = ss' ! j" by (metis in_set_conv_nth len)
    have "set (shed q) \<subseteq> set q" for q by (cases q) (auto simp: shed_def)
    with one [OF j(1)] hub_wfD [OF wf j(1)] short j(2) show ?thesis
      by (auto simp: cast_one_def split: if_splits)
  qed
  with wf len have "hub_wf h'" by (simp add: hub_wf_def h')
  moreover have "hub_view h' = (\<lambda>i. map_option (\<lambda>q. shed q @ (if mem i then [msg] else [])) (hub_view h i))"
    using one len by (auto simp: hub_view_def h' cast_one_def fun_eq_iff)
  moreover have "n = card {i. hub_view h i \<noteq> None \<and> mem i}"
  proof -
    have "{i. hub_view h i \<noteq> None \<and> mem i} = {i. i < length ?ss \<and> (ws_active (?ss ! i) \<and> mem i)}"
      by (auto simp: hub_view_def)
    then show ?thesis unfolding n card_as_sum [symmetric] by (simp only:)
  qed
  ultimately show ?thesis using Some by (simp add: h')
qed

lemma take_refines:
  assumes wf: "hub_wf h" and r: "edge_ws_hub_take_pending h c cap = ((rc, m), h')"
  shows "hub_wf h' \<and> hub_max_subs h' = hub_max_subs h \<and>
    hub_spec (hub_max_subs h) (Take c cap) (hub_view h) = (Taken rc m, hub_view h')"
proof (cases "cap = 0 \<or> \<not> slot_ok (hub_max_subs h) c")
  case True
  then show ?thesis using wf r by (auto simp: edge_ws_hub_take_pending_def bad_slot_iff)
next
  case False
  let ?s = "hub_subs h ! nat c"
  have c: "nat c < length (hub_subs h)" using False wf by (simp add: slot_ok_def hub_wf_def)
  note w = hub_wfD [OF wf c]
  have pop: "edge_ws_hub_take_pending h c cap =
     (if \<not> ws_active ?s \<or> ws_n ?s = 0 then ((0, None), h)
      else if ws_qlen ?s ! ws_head ?s + 1 > cap then ((-1, None), h)
      else ((1, ws_q ?s ! ws_head ?s), upd_sub h c (sub_pop ?s)))"
    using False by (simp add: edge_ws_hub_take_pending_def bad_slot_iff sub_pop_def Let_def)
  show ?thesis
  proof (cases "\<not> ws_active ?s \<or> ws_n ?s = 0")
    case True
    then have "hub_view h (nat c) = None \<or> hub_view h (nat c) = Some []"
      using c by (auto simp: hub_view_def sub_items_def)
    then show ?thesis using True False wf r pop by auto
  next
    case act: False
    then have n: "0 < ws_n ?s" and a: "ws_active ?s" by auto
    note f = sub_pop_facts [OF w(1) n]
    obtain x q where q: "sub_items ?s = x # q" using n length_sub_items [of ?s] by (cases "sub_items ?s") auto
    have v: "hub_view h (nat c) = Some (x # q)" using c a q by (simp add: hub_view_def)
    have a': "ws_active (sub_pop ?s)" using a by (simp add: sub_pop_def)
    have w': "hub_wf (upd_sub h c (sub_pop ?s))"
      using f(1,2) w(2) q by (intro hub_wf_upd [OF wf]) simp_all
    show ?thesis
    proof (cases "length x + 1 > cap")
      case True
      then show ?thesis using False act wf r pop v f(4) q by auto
    next
      case fits: False
      have "rc = 1" "m = Some x" "h' = upd_sub h c (sub_pop ?s)"
        using r pop act fits f(3,4) q by auto
      then show ?thesis
        using False fits v w' a' f(2) q c by (simp add: hub_view_upd)
    qed
  qed
qed

lemma hub_step_refines:
  assumes "hub_wf h \<and> hub_max_subs h = slots" "hub_step x h = (r, h')"
  shows "(hub_wf h' \<and> hub_max_subs h' = slots) \<and> hub_spec slots x (hub_view h) = (r, hub_view h')"
proof (cases x)
  case (Subscribe c)
  with assms show ?thesis using subscribe_refines [of h c] by (auto split: prod.splits)
next
  case (Unsubscribe c)
  with assms show ?thesis using unsubscribe_refines [of h c] by auto
next
  case (Broadcast mem ns key op v rid)
  with assms show ?thesis using broadcast_refines [of h mem ns key op v rid] by (auto split: prod.splits)
next
  case (Take c cap)
  with assms show ?thesis using take_refines [of h c cap] by (auto split: prod.splits)
qed

interpretation hub: simulation "\<lambda>h. hub_wf h \<and> hub_max_subs h = slots" hub_view hub_step "hub_spec slots"
  for slots
  by unfold_locales (rule hub_step_refines)

lemma hub_created:
  assumes "edge_ws_hub_create mem n = Some h"
  shows "hub_wf h" "hub_view h = Map.empty" "hub_max_subs h = (if n = 0 then 64 else n)"
  using assms sub_zero_wf
  by (auto simp: edge_ws_hub_create_def hub_wf_def hub_view_def sub_zero_def fun_eq_iff Let_def split: if_splits)

section \<open>Delivery to one subscriber\<close>

type_synonym announcement = "string \<times> string \<times> string \<times> string option \<times> string option"

definition change_text :: "announcement \<Rightarrow> string option" where
  "change_text = (\<lambda>(ns, key, op, v, rid).
     edge_ws_format_state_changed EDGE_WS_MSG_MAX (Some ns) (Some key) (Some op) v rid)"

definition hub_cast :: "announcement \<Rightarrow> edge_ws_hub \<Rightarrow> edge_ws_hub" where
  "hub_cast = (\<lambda>(ns, key, op, v, rid) h.
     snd (edge_ws_hub_broadcast_state_changed (\<lambda>_. True) h (Some ns) (Some key) (Some op) v rid))"

text \<open>What the writer of a connection does: take one message into a buffer of the maximal
  message size; \<open>None\<close> when it gets none.\<close>

definition hub_pop :: "int \<Rightarrow> edge_ws_hub \<Rightarrow> (string \<times> edge_ws_hub) option" where
  "hub_pop c h =
     (case edge_ws_hub_take_pending h c EDGE_WS_MSG_MAX of
        ((rc, Some m), h') \<Rightarrow> if rc = 1 then Some (m, h') else None
      | _ \<Rightarrow> None)"

definition pending :: "edge_ws_hub \<Rightarrow> int \<Rightarrow> string list" where
  "pending h c = sub_items (hub_subs h ! nat c)"

lemma nth_cast_loop:
  "j < length ss \<Longrightarrow> ws_active (ss ! j) \<Longrightarrow>
   snd (cast_loop mem msg i ss) ! j = snd (sub_push (mem (i + j)) (ss ! j) msg)"
proof (induction ss arbitrary: i j)
  case Nil
  then show ?case by simp
next
  case (Cons s ss)
  show ?case
  proof (cases j)
    case 0
    with Cons.prems show ?thesis by (simp add: Let_def case_prod_beta)
  next
    case (Suc k)
    with Cons.prems Cons.IH [of k "i + 1"] show ?thesis by (simp add: Let_def case_prod_beta)
  qed
qed

lemma subscribed_iff:
  "hub_wf h \<Longrightarrow> edge_ws_hub_is_subscribed h c \<longleftrightarrow>
   0 \<le> c \<and> nat c < length (hub_subs h) \<and> ws_active (hub_subs h ! nat c)"
  by (auto simp: edge_ws_hub_is_subscribed_def bad_slot_def hub_wf_def)

lemma hub_cast_facts:
  assumes "hub_wf h" "edge_ws_hub_is_subscribed h c" "change_text x = Some msg"
  shows "hub_wf (hub_cast x h)" "hub_subs (hub_cast x h) ! nat c = sub_put msg (hub_subs h ! nat c)"
    "length (hub_subs (hub_cast x h)) = length (hub_subs h)"
proof -
  obtain ns key op v rid where x: "x = (ns, key, op, v, rid)" by (cases x)
  obtain n h' where b:
    "edge_ws_hub_broadcast_state_changed (\<lambda>_. True) h (Some ns) (Some key) (Some op) v rid = (n, h')"
    by (cases "edge_ws_hub_broadcast_state_changed (\<lambda>_. True) h (Some ns) (Some key) (Some op) v rid")
  have h': "hub_cast x h = h'" using b by (simp add: x hub_cast_def)
  from broadcast_refines [OF assms(1) b] assms(1)
  show "hub_wf (hub_cast x h)" "length (hub_subs (hub_cast x h)) = length (hub_subs h)"
    by (simp_all add: h' hub_wf_def)
  have "hub_subs h' = snd (cast_loop (\<lambda>_. True) msg 0 (hub_subs h))"
    using b assms(3)
    by (auto simp: x change_text_def edge_ws_hub_broadcast_state_changed_def split: prod.splits)
  then show "hub_subs (hub_cast x h) ! nat c = sub_put msg (hub_subs h ! nat c)"
    using assms(2) subscribed_iff [OF assms(1)] by (simp add: h' nth_cast_loop sub_put_def)
qed

lemma sub_put_active: "ws_active s \<Longrightarrow> ws_active (sub_put m s)"
  by (simp add: sub_put_def sub_push_eq sub_append_def sub_pop_def Let_def)

lemma hub_cast_many:
  assumes "hub_wf h" "edge_ws_hub_is_subscribed h c" "map change_text xs = map Some ms"
  shows "hub_wf (fold hub_cast xs h) \<and> edge_ws_hub_is_subscribed (fold hub_cast xs h) c \<and>
    hub_subs (fold hub_cast xs h) ! nat c = fold sub_put ms (hub_subs h ! nat c)"
  using assms
proof (induction xs arbitrary: h ms)
  case Nil
  then show ?case by simp
next
  case (Cons x xs)
  then obtain m ms' where m: "ms = m # ms'" "change_text x = Some m" "map change_text xs = map Some ms'"
    by (cases ms) auto
  note f = hub_cast_facts [OF Cons.prems(1,2) m(2)]
  have "edge_ws_hub_is_subscribed (hub_cast x h) c"
    using Cons.prems(1,2) f by (simp add: subscribed_iff sub_put_active)
  from Cons.IH [OF f(1) this m(3)] f m(1) show ?case by simp
qed

lemma hub_pop_eq:
  assumes "hub_wf h" "edge_ws_hub_is_subscribed h c"
  shows "hub_pop c h = map_option (\<lambda>(m, s). (m, upd_sub h c s)) (sub_get (hub_subs h ! nat c))"
proof (cases "ws_n (hub_subs h ! nat c) = 0")
  case True
  then show ?thesis
    by (simp add: hub_pop_def edge_ws_hub_take_pending_def sub_get_def Let_def)
next
  case False
  have c: "nat c < length (hub_subs h)" "ws_active (hub_subs h ! nat c)" "0 \<le> c"
    using assms by (simp_all add: subscribed_iff)
  note w = hub_wfD [OF assms(1) c(1)]
  note f = sub_pop_facts [OF w(1)]
  have "sub_items (hub_subs h ! nat c) \<noteq> []"
    using False by (metis length_sub_items list.size(3))
  then have "length (hd (sub_items (hub_subs h ! nat c))) < EDGE_WS_MSG_MAX"
    using w(2) by simp
  then show ?thesis
    using False c f(3,4) assms(1)
    by (simp add: hub_pop_def edge_ws_hub_take_pending_def sub_get_def Let_def bad_slot_def
        hub_wf_def sub_pop_def EDGE_WS_MSG_MAX_def)
qed

lemma in_set_tl: "x \<in> set (tl xs) \<Longrightarrow> x \<in> set xs"
  by (cases xs) simp_all

lemma hub_drain:
  assumes "hub_wf h" "edge_ws_hub_is_subscribed h c"
  shows "fst (drain (hub_pop c) n h) = fst (drain sub_get n (hub_subs h ! nat c))"
  using assms
proof (induction n arbitrary: h)
  case 0
  then show ?case by simp
next
  case (Suc n)
  let ?s = "hub_subs h ! nat c"
  have c: "nat c < length (hub_subs h)" "ws_active ?s" "0 \<le> c"
    using Suc.prems by (simp_all add: subscribed_iff)
  show ?case
  proof (cases "sub_get ?s")
    case None
    with hub_pop_eq [OF Suc.prems] show ?thesis by simp
  next
    case (Some p)
    then have n: "0 < ws_n ?s" and p: "p = (the (ws_q ?s ! ws_head ?s), sub_pop ?s)"
      by (auto simp: sub_get_def split: if_splits)
    note w = hub_wfD [OF Suc.prems(1) c(1)]
    note f = sub_pop_facts [OF w(1) n]
    let ?h = "upd_sub h c (sub_pop ?s)"
    have "hub_wf ?h"
      using f(1,2) w(2) by (intro hub_wf_upd [OF Suc.prems(1)]) (auto dest: in_set_tl)
    moreover from this have "edge_ws_hub_is_subscribed ?h c"
      using c by (simp add: subscribed_iff upd_sub_def sub_pop_def)
    ultimately have "fst (drain (hub_pop c) n ?h) = fst (drain sub_get n (sub_pop ?s))"
      using Suc.IH c(1) by (simp add: upd_sub_def)
    with hub_pop_eq [OF Suc.prems] Some p show ?thesis
      by (simp add: case_prod_beta Let_def)
  qed
qed

section \<open>Properties\<close>

text \<open>C6: The hub implements a map from subscribed slots to lists of pending messages. Over any
  sequence of subscribe, unsubscribe, broadcast and take, with allocations that may fail at
  any subscriber, the results are those of the map: a broadcast appends one copy to every
  subscriber's list and to no other, sheds the oldest of eight, and counts the copies made;
  take hands out the head only if it fits the buffer; unsubscribing forgets the list.\<close>

theorem hub_refines_spec:
  assumes "edge_ws_hub_create mem n = Some h0" "run_steps hub_step ops h0 = (rs, h)"
  shows "run_steps (hub_spec (if n = 0 then 64 else n)) ops Map.empty = (rs, hub_view h)"
  using hub.run_sim [of h0 "if n = 0 then 64 else n" ops rs h] hub_created [OF assms(1)] assms(2)
  by simp

definition demo_text :: "string" where
  "demo_text = changed_head ''ns'' ''k'' ''delete'' @ ''null'' @ changed_tail ''r1''"

definition demo_ops :: "hub_op list" where
  "demo_ops = [Subscribe 1, Subscribe 7, Broadcast (\<lambda>_. True) ''ns'' ''k'' ''delete'' None (Some ''r1''),
     Take 0 100, Take 1 20, Take 1 4608, Take 1 4608]"

theorem hub_refines_spec_witness:
  "\<exists>h. run_steps (hub_spec 2) demo_ops Map.empty =
    ([Rc 0, Rc (-1), Copies 1, Taken 0 None, Taken (-1) None, Taken 1 (Some demo_text), Taken 0 None],
     hub_view h)"
proof -
  obtain h0 where c: "edge_ws_hub_create True 2 = Some h0" by (simp add: edge_ws_hub_create_def)
  obtain rs h where r: "run_steps hub_step demo_ops h0 = (rs, h)"
    by (cases "run_steps hub_step demo_ops h0")
  have "map_option (\<lambda>h. fst (run_steps hub_step demo_ops h)) (edge_ws_hub_create True 2) =
     Some [Rc 0, Rc (-1), Copies 1, Taken 0 None, Taken (-1) None, Taken 1 (Some demo_text), Taken 0 None]"
    by code_simp
  with c r have "rs = [Rc 0, Rc (-1), Copies 1, Taken 0 None, Taken (-1) None, Taken 1 (Some demo_text), Taken 0 None]"
    by simp
  with hub_refines_spec [OF c r] show ?thesis by auto
qed



end
