(* ===== verification/Static_Files.thy ===== *)
theory Static_Files
  imports C_Strings
begin

text \<open>
  Static file serving (\<open>src/host/static_files.c\<close>): from the path of a request to a file
  below a root directory. The file system is a parameter: what \<open>stat\<close> says of a path, with
  the contents of a regular file, and whether it can be opened. The resolver is proved
  equal to a reference on path segments, and so never leaves the root.
\<close>

section \<open>Resolving a request path\<close>

text \<open>Size of the two local arrays \<open>rel\<close> and \<open>clean\<close>.\<close>

definition rel_size :: nat where "rel_size = 512"

definition strip_query :: "string \<Rightarrow> string" where
  "strip_query p = takeWhile (\<lambda>c. c \<noteq> CHR ''?'' \<and> c \<noteq> CHR ''#'') p"

definition bad_char :: "char \<Rightarrow> bool" where
  "bad_char c \<longleftrightarrow> code c < 32 \<or> c = CHR 0x5c \<or> code c = 127"

text \<open>The component at the front of a path, and what follows it and its slash.\<close>

definition path_head :: "string \<Rightarrow> string" where
  "path_head s = takeWhile (\<lambda>c. c \<noteq> CHR ''/'') s"

definition path_rest :: "string \<Rightarrow> string" where
  "path_rest s = tl (dropWhile (\<lambda>c. c \<noteq> CHR ''/'') s)"

lemma path_split: "length (path_head s) + length (path_rest s) \<le> length s"
proof -
  have "length (path_head s) + length (dropWhile (\<lambda>c. c \<noteq> CHR ''/'') s) = length s"
    unfolding path_head_def by (metis length_append takeWhile_dropWhile_id)
  then show ?thesis by (simp add: path_rest_def)
qed

lemma path_split_strict:
  assumes "path_rest s \<noteq> []"
  shows "length (path_head s) + length (path_rest s) < length s"
proof -
  have "length (path_head s) + length (dropWhile (\<lambda>c. c \<noteq> CHR ''/'') s) = length s"
    unfolding path_head_def by (metis length_append takeWhile_dropWhile_id)
  with assms show ?thesis by (cases "dropWhile (\<lambda>c. c \<noteq> CHR ''/'') s") (simp_all add: path_rest_def)
qed

lemma path_rest_shrinks: "length (path_rest (x # xs)) < Suc (length xs)"
  using path_split [of "x # xs"] path_split_strict [of "x # xs"] by (cases "path_rest (x # xs)") simp_all

text \<open>The walk over the components of the relative path; the second argument is the array
  \<open>clean\<close> built so far.\<close>

function clean_walk :: "string \<Rightarrow> string \<Rightarrow> string option" where
  "clean_walk [] clean = Some clean"
| "clean_walk (x # xs) clean =
     (let comp = path_head (x # xs); rest = path_rest (x # xs)
      in if comp = [] then clean_walk rest clean
         else if comp = ''.'' \<or> comp = ''..'' then None
         else if (\<exists>c\<in>set comp. bad_char c) then None
         else if clean \<noteq> [] \<and> length clean + 1 \<ge> rel_size then None
         else (let clean1 = (if clean \<noteq> [] then clean @ ''/'' else clean)
               in if length clean1 + length comp \<ge> rel_size then None
                  else clean_walk rest (clean1 @ comp)))"
  by pat_completeness auto

termination clean_walk
  by (relation "measure (\<lambda>(s, _). length s)") (simp_all add: path_rest_shrinks)

declare clean_walk.simps(2) [simp del]

definition edge_static_resolve :: "string option \<Rightarrow> string option \<Rightarrow> nat \<Rightarrow> string option" where
  "edge_static_resolve root url_path out_sz =
     (case root of
        None \<Rightarrow> None
      | Some [] \<Rightarrow> None
      | Some root \<Rightarrow>
          if out_sz < 4 then None
          else
            let url = (case url_path of None \<Rightarrow> ''/'' | Some u \<Rightarrow> u);
                rel = strip_query url
            in if length rel \<ge> rel_size then None
               else
                 let rel1 = dropWhile (\<lambda>c. c = CHR ''/'') rel;
                     rel2 = (if rel1 = [] then ''index.html'' else rel1)
                 in case clean_walk rel2 [] of
                      None \<Rightarrow> None
                    | Some clean \<Rightarrow>
                        let rel3 = (if clean = [] then ''index.html'' else clean)
                        in if length root + 1 + length rel3 + 1 > out_sz then None
                           else if last root = CHR ''/'' then Some (root @ rel3)
                           else Some (root @ ''/'' @ rel3))"

section \<open>Content types\<close>

fun c_strrchr :: "char \<Rightarrow> string \<Rightarrow> string option" where
  "c_strrchr c [] = None"
| "c_strrchr c (x # xs) =
     (case c_strrchr c xs of Some t \<Rightarrow> Some t | None \<Rightarrow> if x = c then Some (x # xs) else None)"

definition ext_type :: "string \<Rightarrow> string" where
  "ext_type ext =
     (if ext = ''html'' \<or> ext = ''htm'' then ''text/html; charset=utf-8''
      else if ext = ''js'' \<or> ext = ''mjs'' then ''application/javascript; charset=utf-8''
      else if ext = ''css'' then ''text/css; charset=utf-8''
      else if ext = ''json'' then ''application/json''
      else if ext = ''svg'' then ''image/svg+xml''
      else if ext = ''png'' then ''image/png''
      else if ext = ''jpg'' \<or> ext = ''jpeg'' then ''image/jpeg''
      else if ext = ''wasm'' then ''application/wasm''
      else if ext = ''wmap'' \<or> ext = ''fmap'' then ''application/octet-stream''
      else if ext = ''txt'' \<or> ext = ''map'' then ''text/plain; charset=utf-8''
      else ''application/octet-stream'')"

text \<open>\<open>None\<close> when there is no room to write anything.\<close>

definition edge_static_content_type :: "string option \<Rightarrow> nat \<Rightarrow> string option" where
  "edge_static_content_type path ctype_sz =
     (if ctype_sz = 0 then None
      else case Option.bind path (c_strrchr (CHR ''.'')) of
        None \<Rightarrow> Some (c_copy ctype_sz ''application/octet-stream'')
      | Some ext \<Rightarrow> Some (c_copy ctype_sz (ext_type (tl ext))))"

section \<open>Reading and loading\<close>

datatype fs_node = Regular "u8 list" | Directory | Special

text \<open>What the file system answers: the node \<open>stat\<close> finds, and whether \<open>fopen\<close> and a full
  \<open>fread\<close> succeed.\<close>

record file_system =
  fs_stat :: "string \<Rightarrow> fs_node option"
  fs_readable :: "string \<Rightarrow> bool"

definition edge_static_read_file :: "file_system \<Rightarrow> string option \<Rightarrow> nat \<Rightarrow> u8 list option" where
  "edge_static_read_file fs path max_bytes =
     (case path of
        None \<Rightarrow> None
      | Some p \<Rightarrow>
          if max_bytes = 0 then None
          else case fs_stat fs p of
            Some (Regular bytes) \<Rightarrow>
              if length bytes > max_bytes then None
              else if \<not> fs_readable fs p then None
              else Some bytes
          | _ \<Rightarrow> None)"

definition fspath_size :: nat where "fspath_size = 1024"

text \<open>A directory is replaced by the \<open>index.html\<close> in it.\<close>

definition index_of_dir :: "file_system \<Rightarrow> string \<Rightarrow> string option" where
  "index_of_dir fs p =
     (if fs_stat fs p = Some Directory
      then if length p + 12 \<ge> fspath_size then None
           else Some ((if last p \<noteq> CHR ''/'' then p @ ''/'' else p) @ ''index.html'')
      else Some p)"

definition edge_static_load ::
  "file_system \<Rightarrow> string option \<Rightarrow> string option \<Rightarrow> nat \<Rightarrow> nat \<Rightarrow> (u8 list \<times> string option) option" where
  "edge_static_load fs root url_path max_bytes ctype_sz =
     (case edge_static_resolve root url_path fspath_size of
        None \<Rightarrow> None
      | Some p0 \<Rightarrow>
          (case index_of_dir fs p0 of
             None \<Rightarrow> None
           | Some p \<Rightarrow>
               (case edge_static_read_file fs (Some p) max_bytes of
                  None \<Rightarrow> None
                | Some bytes \<Rightarrow> Some (bytes, edge_static_content_type (Some p) ctype_sz))))"

section \<open>The reference on segments\<close>

fun split_on :: "char \<Rightarrow> string \<Rightarrow> string list" where
  "split_on c [] = [[]]"
| "split_on c (x # xs) =
     (if x = c then [] # split_on c xs
      else (case split_on c xs of [] \<Rightarrow> [[x]] | s # ss \<Rightarrow> (x # s) # ss))"

fun join_path :: "string list \<Rightarrow> string" where
  "join_path [] = []"
| "join_path [s] = s"
| "join_path (s # ss) = s @ ''/'' @ join_path ss"

definition segments :: "string \<Rightarrow> string list" where
  "segments p = filter (\<lambda>s. s \<noteq> []) (split_on (CHR ''/'') p)"

text \<open>A segment that names an entry of a directory and nothing else.\<close>

definition good_segment :: "string \<Rightarrow> bool" where
  "good_segment s \<longleftrightarrow> s \<noteq> [] \<and> s \<noteq> ''.'' \<and> s \<noteq> ''..'' \<and> CHR ''/'' \<notin> set s \<and> \<not> (\<exists>c\<in>set s. bad_char c)"

definition with_slash :: "string \<Rightarrow> string" where
  "with_slash root = (if last root = CHR ''/'' then root else root @ ''/'')"

definition resolve_ref :: "string \<Rightarrow> string \<Rightarrow> nat \<Rightarrow> string option" where
  "resolve_ref root url out_sz =
     (let p = strip_query url;
          segs = (if segments p = [] then [''index.html''] else segments p)
      in if length p < 512 \<and> (\<forall>s\<in>set segs. good_segment s) \<and>
            length root + length (join_path segs) + 2 \<le> out_sz \<and> 4 \<le> out_sz
         then Some (with_slash root @ join_path segs) else None)"

lemma split_on_ne [simp]: "split_on c s \<noteq> []"
  by (cases s) (auto split: list.split)

lemma split_on_take:
  "split_on c s = takeWhile (\<lambda>x. x \<noteq> c) s #
     (case dropWhile (\<lambda>x. x \<noteq> c) s of [] \<Rightarrow> [] | y # ys \<Rightarrow> split_on c ys)"
  by (induction s) auto

lemma segments_Cons_split:
  "segments s = (if path_head s = [] then [] else [path_head s]) @
     (case dropWhile (\<lambda>c. c \<noteq> CHR ''/'') s of [] \<Rightarrow> [] | y # ys \<Rightarrow> segments ys)"
  unfolding segments_def split_on_take [of _ s] path_head_def
  by (cases "dropWhile (\<lambda>c. c \<noteq> CHR ''/'') s")
    (simp_all del: dropWhile_eq_Nil_conv dropWhile_eq_Cons_conv takeWhile_eq_Nil_iff)

lemma segments_step:
  "segments s = (if path_head s = [] then [] else [path_head s]) @ segments (path_rest s)"
  unfolding segments_Cons_split [of s] path_rest_def
  by (cases "dropWhile (\<lambda>c. c \<noteq> CHR ''/'') s")
    (simp_all add: segments_def del: dropWhile_eq_Nil_conv dropWhile_eq_Cons_conv)

lemma segments_Nil [simp]: "segments [] = []"
  by (simp add: segments_def)

lemma segments_no_slash: "\<forall>t\<in>set (segments s). t \<noteq> [] \<and> CHR ''/'' \<notin> set t"
proof -
  have "\<forall>t\<in>set (split_on c s). c \<notin> set t" for c
    by (induction s) (auto split: list.splits)
  then show ?thesis by (auto simp: segments_def)
qed

lemma segments_slashes: "segments (dropWhile (\<lambda>c. c = CHR ''/'') s) = segments s"
  by (induction s) (simp_all add: segments_def split: list.split)

lemma segments_none: "segments s = [] \<longleftrightarrow> dropWhile (\<lambda>c. c = CHR ''/'') s = []"
proof (induction s)
  case Nil
  then show ?case by simp
next
  case (Cons x s)
  then show ?case by (simp add: segments_def split: list.split)
qed

text \<open>The walk collects the segments; inside the 512-byte arrays its overflow checks never
  fire.\<close>

definition append_path :: "string \<Rightarrow> string list \<Rightarrow> string" where
  "append_path clean segs =
     (if clean = [] then join_path segs
      else if segs = [] then clean else clean @ ''/'' @ join_path segs)"

lemma append_path_Cons:
  "s \<noteq> [] \<Longrightarrow> append_path ((if clean \<noteq> [] then clean @ ''/'' else clean) @ s) segs =
   append_path clean (s # segs)"
  by (cases segs) (simp_all add: append_path_def)

lemma clean_walk_segments:
  assumes "s = [] \<or> length clean + (if clean = [] then 0 else 1) + length s < rel_size"
  shows "clean_walk s clean =
    (if \<forall>t\<in>set (segments s). good_segment t then Some (append_path clean (segments s)) else None)"
  using assms
proof (induction s clean rule: clean_walk.induct)
  case (1 clean)
  then show ?case by (simp add: append_path_def)
next
  case (2 x xs clean)
  let ?comp = "path_head (x # xs)" and ?rest = "path_rest (x # xs)"
  note split = path_split [of "x # xs"] path_split_strict [of "x # xs"]
  show ?case
  proof (cases "?comp = []")
    case True
    have "?rest = [] \<or> length clean + (if clean = [] then 0 else 1) + length ?rest < rel_size"
      using "2.prems" split(1) by (auto simp: add.assoc)
    from "2.IH"(1) [OF refl refl True this] True show ?thesis
      by (simp add: clean_walk.simps(2) segments_step [of "x # xs"])
  next
    case False
    show ?thesis
    proof (cases "good_segment ?comp")
      case bad: False
      have "CHR ''/'' \<notin> set ?comp" by (auto simp: path_head_def dest: set_takeWhileD)
      with bad False have "?comp = ''.'' \<or> ?comp = ''..'' \<or> (\<exists>c\<in>set ?comp. bad_char c)"
        by (auto simp: good_segment_def)
      then show ?thesis
        using False bad by (auto simp: clean_walk.simps(2) segments_step [of "x # xs"] Let_def)
    next
      case good: True
      let ?clean1 = "if clean \<noteq> [] then clean @ ''/'' else clean"
      have no: "\<not> (?comp = ''.'' \<or> ?comp = ''..'')" "\<not> (\<exists>c\<in>set ?comp. bad_char c)"
        using good by (simp_all add: good_segment_def)
      have room: "\<not> (clean \<noteq> [] \<and> length clean + 1 \<ge> rel_size)"
        "\<not> length ?clean1 + length ?comp \<ge> rel_size"
        using "2.prems" split(1) by (auto split: if_splits)
      have "?rest = [] \<or> length (?clean1 @ ?comp) + (if ?clean1 @ ?comp = [] then 0 else 1) +
          length ?rest < rel_size"
        using "2.prems" split(2) False by (cases "?rest = []") (simp_all split: if_splits)
      from "2.IH"(2) [OF refl refl False no room(1) refl room(2) this]
      have ih: "clean_walk ?rest (?clean1 @ ?comp) =
          (if \<forall>t\<in>set (segments ?rest). good_segment t
           then Some (append_path (?clean1 @ ?comp) (segments ?rest)) else None)" .
      have ap: "append_path (?clean1 @ ?comp) (segments ?rest) = append_path clean (?comp # segments ?rest)"
        by (rule append_path_Cons [OF False])
      have "clean_walk (x # xs) clean = clean_walk ?rest (?clean1 @ ?comp)"
        unfolding clean_walk.simps(2) Let_def using False no room by (simp only: if_False)
      then show ?thesis
        unfolding ih ap segments_step [of "x # xs"] using False good by simp
    qed
  qed
qed

lemma join_path_ne: "segs \<noteq> [] \<Longrightarrow> \<forall>s\<in>set segs. s \<noteq> [] \<Longrightarrow> join_path segs \<noteq> []"
  by (cases segs rule: join_path.cases) auto

lemma index_good: "good_segment ''index.html''"
  by (simp add: good_segment_def bad_char_def)

lemma index_walk: "clean_walk ''index.html'' [] = Some ''index.html''"
  using clean_walk_segments [of "''index.html''" "[]"] index_good
  by (simp add: rel_size_def segments_def append_path_def)

lemma resolve_eq:
  assumes "root \<noteq> []"
  shows "edge_static_resolve (Some root) (Some url) sz = resolve_ref root url sz"
proof -
  let ?p = "strip_query url"
  let ?q = "dropWhile (\<lambda>c. c = CHR ''/'') ?p"
  let ?segs = "if segments ?p = [] then [''index.html''] else segments ?p"
  obtain r rs where root: "root = r # rs" using assms by (cases root) auto
  have ne: "\<forall>s\<in>set ?segs. s \<noteq> []" using segments_no_slash by auto
  have walk: "clean_walk (if ?q = [] then ''index.html'' else ?q) [] =
      (if \<forall>s\<in>set ?segs. good_segment s then Some (join_path ?segs) else None)"
    if "length ?p < rel_size"
  proof (cases "?q = []")
    case True
    then show ?thesis using index_walk index_good by (simp add: segments_none)
  next
    case False
    have "length ?q < rel_size" using that length_dropWhile_le [of _ ?p] le_less_trans by blast
    then show ?thesis
      using False clean_walk_segments [of ?q "[]"]
      by (simp add: segments_slashes segments_none append_path_def del: dropWhile_eq_Nil_conv)
  qed
  have "join_path ?segs \<noteq> []" using join_path_ne [OF _ ne] by simp
  then show ?thesis
    using walk root
    by (simp add: edge_static_resolve_def resolve_ref_def rel_size_def with_slash_def Let_def
        del: dropWhile_eq_Nil_conv last.simps)
qed

section \<open>Properties\<close>

text \<open>C31: Path resolution equals its specification on segments: cut the query and fragment,
  split at slashes, drop empty segments, take index.html when nothing is left, refuse the
  request if any segment is a dot, a double dot or has a control character, delete or
  backslash, or if it does not fit; otherwise append the segments to the root. In
  particular the overflow checks of the 512-byte component array never reject a path that
  passed the length check.\<close>

theorem static_resolve_spec:
  assumes "root \<noteq> []"
  shows "edge_static_resolve (Some root) (Some url) sz = resolve_ref root url sz"
  by (rule resolve_eq [OF assms])

theorem static_resolve_spec_witness:
  "resolve_ref ''/srv'' ''//map/./x'' 1024 = None \<and>
   resolve_ref ''/srv/'' ''/map//app.js?v=1'' 1024 = Some ''/srv/map/app.js''"
proof -
  have "edge_static_resolve (Some ''/srv'') (Some ''//map/./x'') 1024 = None"
    "edge_static_resolve (Some ''/srv/'') (Some ''/map//app.js?v=1'') 1024 = Some ''/srv/map/app.js''"
    by code_simp+
  then show ?thesis
    using static_resolve_spec [of "''/srv''" "''//map/./x''" 1024]
      static_resolve_spec [of "''/srv/''" "''/map//app.js?v=1''" 1024] by simp
qed

text \<open>C30: No file outside the root is ever served: whatever the request path, the bytes returned
  are those of a regular file no larger than the limit whose path is the root followed by
  segments none of which is a dot or a double dot or contains a slash.\<close>

theorem static_load_confined:
  assumes "edge_static_load fs (Some root) url max_bytes sz = Some (bytes, ctype)"
  shows "\<exists>segs. segs \<noteq> [] \<and> (\<forall>s\<in>set segs. good_segment s) \<and> length bytes \<le> max_bytes \<and>
    fs_stat fs (with_slash root @ join_path segs) = Some (Regular bytes)"
proof -
  obtain p0 p where p0: "edge_static_resolve (Some root) url fspath_size = Some p0"
    and p: "index_of_dir fs p0 = Some p" and b: "edge_static_read_file fs (Some p) max_bytes = Some bytes"
    using assms by (auto simp: edge_static_load_def split: option.splits)
  have root: "root \<noteq> []" using p0 by (auto simp: edge_static_resolve_def)
  define u where "u = (case url of None \<Rightarrow> ''/'' | Some u \<Rightarrow> u)"
  have "edge_static_resolve (Some root) url fspath_size = edge_static_resolve (Some root) (Some u) fspath_size"
    by (simp add: u_def edge_static_resolve_def split: option.split)
  then have "resolve_ref root u fspath_size = Some p0" using p0 resolve_eq [OF root] by simp
  moreover define segs where "segs = (if segments (strip_query u) = [] then [''index.html''] else segments (strip_query u))"
  ultimately have s: "segs \<noteq> []" "\<forall>s\<in>set segs. good_segment s" "p0 = with_slash root @ join_path segs"
    unfolding resolve_ref_def Let_def segs_def [symmetric]
    by (simp_all add: segs_def split: if_splits)
  have f: "fs_stat fs p = Some (Regular bytes)" "length bytes \<le> max_bytes"
    using b by (auto simp: edge_static_read_file_def split: if_splits option.splits fs_node.splits)
  have last: "last p0 \<noteq> CHR ''/''"
  proof -
    have "last (join_path segs) = last (last segs)" "join_path segs \<noteq> []"
      using s(1,2) by (induction segs rule: join_path.induct) (auto simp: good_segment_def)
    moreover have "good_segment (last segs)" using s(1,2) by simp
    then have "last (last segs) \<noteq> CHR ''/''"
      using last_in_set [of "last segs"] by (auto simp: good_segment_def simp del: last_in_set)
    ultimately show ?thesis using s(3) by simp
  qed
  have snoc: "join_path (segs @ [i]) = join_path segs @ ''/'' @ i" for i
    using s(1) by (induction segs rule: join_path.induct) auto
  show ?thesis
  proof (cases "fs_stat fs p0 = Some Directory")
    case True
    then have "p = with_slash root @ join_path (segs @ [''index.html''])"
      using p last s(3) by (auto simp: index_of_dir_def snoc split: if_splits)
    then show ?thesis using f s(2) index_good by (intro exI [of _ "segs @ [''index.html'']"]) auto
  next
    case False
    then have "p = p0" using p by (simp add: index_of_dir_def)
    then show ?thesis using f s by blast
  qed
qed

definition demo_fs :: file_system where
  "demo_fs = \<lparr>fs_stat = [''/srv/map'' \<mapsto> Directory, ''/srv/map/index.html'' \<mapsto> Regular [1, 2]],
     fs_readable = (\<lambda>_. True)\<rparr>"

theorem static_load_confined_witness:
  "edge_static_load demo_fs (Some ''/srv'') (Some ''/map/'') 100 96 =
     Some ([1, 2], Some ''text/html; charset=utf-8'') \<and>
   (\<exists>segs. segs \<noteq> [] \<and> fs_stat demo_fs (with_slash ''/srv'' @ join_path segs) = Some (Regular [1, 2]))"
proof -
  have l: "edge_static_load demo_fs (Some ''/srv'') (Some ''/map/'') 100 96 =
     Some ([1, 2], Some ''text/html; charset=utf-8'')"
    by code_simp
  from static_load_confined [OF l] l show ?thesis by blast
qed

end
