(* ===== verification/Notify_Apply.thy ===== *)
theory Notify_Apply
  imports State_Spec Ws_Hub_Spec
begin

text \<open>
  \<open>src/host/notify_apply.c\<close>: a database notification, a small JSON object, is applied to the
  state store and announced to the WebSocket subscribers. The fields are read by searching
  for their quoted names; the value is cut out as raw JSON text. \<open>mem\<close> is the allocation
  behaviour of the broadcast.
\<close>

datatype edge_notify_err =
    EDGE_NOTIFY_OK
  | EDGE_NOTIFY_BAD_JSON
  | EDGE_NOTIFY_BAD_SCHEMA
  | EDGE_NOTIFY_STATE_ERR
  | EDGE_NOTIFY_TOO_LARGE

fun edge_notify_err_name :: "edge_notify_err \<Rightarrow> string" where
  "edge_notify_err_name EDGE_NOTIFY_OK = ''OK''"
| "edge_notify_err_name EDGE_NOTIFY_BAD_JSON = ''BAD_JSON''"
| "edge_notify_err_name EDGE_NOTIFY_BAD_SCHEMA = ''BAD_SCHEMA''"
| "edge_notify_err_name EDGE_NOTIFY_STATE_ERR = ''STATE_ERR''"
| "edge_notify_err_name EDGE_NOTIFY_TOO_LARGE = ''TOO_LARGE''"

definition EDGE_NOTIFY_MAX_PAYLOAD :: nat where "EDGE_NOTIFY_MAX_PAYLOAD = 8000"
definition EDGE_WS_REQUEST_ID :: nat where "EDGE_WS_REQUEST_ID = 48"

definition bslash :: char where "bslash = CHR 0x5C"

section \<open>Reading the payload\<close>

text \<open>The scan to the closing quote of a string: the characters before it, and the rest from
  the quote on. A backslash takes the next character with it.\<close>

fun scan_str :: "string \<Rightarrow> string \<times> string" where
  "scan_str [] = ([], [])"
| "scan_str [c] = (if c = dq then ([], [c]) else ([c], []))"
| "scan_str (c # d # s) =
     (if c = dq then ([], c # d # s)
      else if c = bslash then (let (a, r) = scan_str s in (c # d # a, r))
      else (let (a, r) = scan_str (d # s) in (c # a, r)))"

text \<open>The copy of a string without its backslashes, at most \<open>room\<close> characters.\<close>

fun unescape :: "string \<Rightarrow> nat \<Rightarrow> string" where
  "unescape [] room = []"
| "unescape [c] room = (if room = 0 then [] else [c])"
| "unescape (c # d # s) room =
     (if room = 0 then []
      else if c = bslash then d # unescape s (room - 1)
      else c # unescape (d # s) (room - 1))"

definition edge_notify_json_string_field :: "string \<Rightarrow> string \<Rightarrow> nat \<Rightarrow> string option" where
  "edge_notify_json_string_field json name out_sz =
     (if out_sz = 0 \<or> json = [] \<or> length json > EDGE_NOTIFY_MAX_PAYLOAD then None
      else let key = c_copy 80 (quoted name)
           in case c_strstr key (cstr json) of
                None \<Rightarrow> None
              | Some p \<Rightarrow>
                  (case c_strchr dq (drop (length key) p) of
                     None \<Rightarrow> None
                   | Some q \<Rightarrow>
                       (let (body, rest) = scan_str (tl q)
                        in if starts_with [dq] rest then Some (unescape body (out_sz - 1))
                           else None)))"

lemma scan_str_length: "length (fst (scan_str s)) + length (snd (scan_str s)) = length s"
  by (induction s rule: scan_str.induct) (simp_all add: Let_def case_prod_beta)

text \<open>A string and its closing quote, read after the opening one: the characters consumed and
  the rest.\<close>

definition raw_str :: "string \<Rightarrow> string \<times> string" where
  "raw_str s = (let (a, r) = scan_str s in if starts_with [dq] r then (a @ [dq], tl r) else (a, r))"

lemma raw_str_length: "length (snd (raw_str s)) \<le> length s"
  using scan_str_length [of s] by (auto simp: raw_str_def Let_def case_prod_beta)

text \<open>The loop over an object or array: the characters consumed until the bracket at depth
  zero or the end of the text.\<close>

function raw_nested :: "char \<Rightarrow> char \<Rightarrow> nat \<Rightarrow> string \<Rightarrow> string" where
  "raw_nested opn cls depth [] = []"
| "raw_nested opn cls depth (c # cs) =
     (if depth = 0 then []
      else if c = dq
      then c # fst (raw_str cs) @ raw_nested opn cls depth (snd (raw_str cs))
      else if c = opn then c # raw_nested opn cls (depth + 1) cs
      else if c = cls then c # raw_nested opn cls (depth - 1) cs
      else c # raw_nested opn cls depth cs)"
  by pat_completeness auto

termination raw_nested
  by (relation "measure (\<lambda>(_, _, _, s). length s)") (auto simp: raw_str_length le_imp_less_Suc)

definition raw_value :: "string \<Rightarrow> string" where
  "raw_value p =
     (case p of
        [] \<Rightarrow> []
      | c # cs \<Rightarrow>
          if c = CHR 0x7B then c # raw_nested c (CHR 0x7D) 1 cs
          else if c = CHR ''['' then c # raw_nested c (CHR '']'') 1 cs
          else if c = dq then c # fst (raw_str cs)
          else takeWhile (\<lambda>c. c \<noteq> CHR '','' \<and> c \<noteq> CHR 0x7D \<and> \<not> is_space c) p)"

definition extract_raw_value :: "string \<Rightarrow> nat \<Rightarrow> string option" where
  "extract_raw_value json out_sz =
     (if length json > EDGE_NOTIFY_MAX_PAYLOAD then None
      else case c_strstr (quoted ''value'') (cstr json) of
        None \<Rightarrow> None
      | Some p \<Rightarrow>
          (case c_strchr (CHR '':'') p of
             None \<Rightarrow> None
           | Some q \<Rightarrow>
               (let v = dropWhile is_space (tl q)
                in if v = [] then None
                   else if starts_with ''null'' v
                   then (if out_sz < 5 then None else Some ''null'')
                   else if length (raw_value v) + 1 > out_sz then None
                   else Some (raw_value v))))"

section \<open>Applying a notification\<close>

definition notify_rid :: "edge_ws_hub option \<Rightarrow> string \<Rightarrow> string \<times> edge_ws_hub option" where
  "notify_rid hub json =
     (case edge_notify_json_string_field json ''request_id'' EDGE_WS_REQUEST_ID of
        Some rid \<Rightarrow> (rid, hub)
      | None \<Rightarrow>
          (case hub of
             None \<Rightarrow> (''notify'', None)
           | Some h \<Rightarrow>
               (case edge_ws_hub_mint_request_id (Some h) None EDGE_WS_REQUEST_ID of
                  (rid, hub') \<Rightarrow> (case rid of None \<Rightarrow> [] | Some r \<Rightarrow> r, hub'))))"

definition hub_announce ::
  "(nat \<Rightarrow> bool) \<Rightarrow> edge_ws_hub option \<Rightarrow> string \<Rightarrow> string \<Rightarrow> string \<Rightarrow> string option \<Rightarrow> string \<Rightarrow>
   edge_ws_hub option" where
  "hub_announce mem hub ns key op value rid =
     (case hub of
        None \<Rightarrow> None
      | Some h \<Rightarrow>
          Some (snd (edge_ws_hub_broadcast_state_changed mem h (Some ns) (Some key) (Some op) value (Some rid))))"

definition edge_notify_apply ::
  "(nat \<Rightarrow> bool) \<Rightarrow> state_store \<Rightarrow> edge_ws_hub option \<Rightarrow> string option \<Rightarrow>
   edge_notify_err \<times> state_store \<times> edge_ws_hub option" where
  "edge_notify_apply mem st hub json =
     (case json of
        None \<Rightarrow> (EDGE_NOTIFY_BAD_JSON, st, hub)
      | Some json \<Rightarrow>
          if json = [] \<or> length json > EDGE_NOTIFY_MAX_PAYLOAD then (EDGE_NOTIFY_TOO_LARGE, st, hub)
          else if \<not> edge_state_json_ok (Some json) then (EDGE_NOTIFY_BAD_JSON, st, hub)
          else
            case (edge_notify_json_string_field json ''ns'' 64,
                  edge_notify_json_string_field json ''key'' EDGE_STATE_KEY_MAX,
                  edge_notify_json_string_field json ''op'' 16) of
              (Some ns, Some key, Some op) \<Rightarrow>
                if \<not> edge_state_key_valid (Some key) then (EDGE_NOTIFY_BAD_SCHEMA, st, hub)
                else
                  let (rid, hub1) = notify_rid hub json
                  in if op = ''delete''
                     then (case edge_state_delete st (Some ns) (Some key) of
                             (er, st') \<Rightarrow>
                               if er \<noteq> EDGE_STATE_OK \<and> er \<noteq> EDGE_STATE_NOT_FOUND
                               then (EDGE_NOTIFY_STATE_ERR, st', hub1)
                               else (EDGE_NOTIFY_OK, st',
                                     if er = EDGE_STATE_OK
                                     then hub_announce mem hub1 ns key ''delete'' None rid
                                     else hub1))
                     else if op \<noteq> ''put'' then (EDGE_NOTIFY_BAD_SCHEMA, st, hub1)
                     else
                       (case extract_raw_value json (EDGE_STATE_VALUE_MAX + 1) of
                          None \<Rightarrow> (EDGE_NOTIFY_BAD_SCHEMA, st, hub1)
                        | Some v \<Rightarrow>
                            if v = ''null'' then (EDGE_NOTIFY_BAD_SCHEMA, st, hub1)
                            else
                              (case edge_state_put st (Some ns) (Some key) (Some v) of
                                 (er, st') \<Rightarrow>
                                   if er \<noteq> EDGE_STATE_OK then (EDGE_NOTIFY_STATE_ERR, st', hub1)
                                   else (EDGE_NOTIFY_OK, st',
                                         hub_announce mem hub1 ns key ''put'' (Some v) rid)))
            | _ \<Rightarrow> (EDGE_NOTIFY_BAD_SCHEMA, st, hub))"

section \<open>The change a payload stands for\<close>

text \<open>The reading of a payload, independent of the store: the namespace, the key and the new
  value (\<open>None\<close> for a delete), with the request id it carries if any.\<close>

definition notify_change :: "string \<Rightarrow> ((string \<times> string, string) change) option" where
  "notify_change json =
     (if json = [] \<or> length json > EDGE_NOTIFY_MAX_PAYLOAD \<or> \<not> edge_state_json_ok (Some json) then None
      else
        case (edge_notify_json_string_field json ''ns'' 64,
              edge_notify_json_string_field json ''key'' EDGE_STATE_KEY_MAX,
              edge_notify_json_string_field json ''op'' 16) of
          (Some ns, Some key, Some op) \<Rightarrow>
            if \<not> edge_state_key_valid (Some key) then None
            else if op = ''delete'' then Some (ChDel (ns, key))
            else if op = ''put''
            then (case extract_raw_value json (EDGE_STATE_VALUE_MAX + 1) of
                    None \<Rightarrow> None
                  | Some v \<Rightarrow> if v = ''null'' then None else Some (ChPut (ns, key) v))
            else None
        | _ \<Rightarrow> None)"

lemma mint_view:
  assumes "edge_ws_hub_mint_request_id (Some h) None sz = (r, hub')" "hub_wf h"
  shows "\<exists>h'. hub' = Some h' \<and> hub_wf h' \<and> hub_view h' = hub_view h"
  using assms by (auto simp: edge_ws_hub_mint_request_id_def hub_wf_def hub_view_def fun_eq_iff split: if_splits)

lemma notify_rid_view:
  assumes "notify_rid hub json = (rid, hub1)" "\<forall>h\<in>set_option hub. hub_wf h"
  shows "(\<forall>h\<in>set_option hub1. hub_wf h) \<and> map_option hub_view hub1 = map_option hub_view hub"
proof (cases "edge_notify_json_string_field json ''request_id'' EDGE_WS_REQUEST_ID")
  case None
  then show ?thesis
    using assms mint_view by (fastforce simp: notify_rid_def split: option.splits prod.splits)
next
  case (Some a)
  then show ?thesis using assms by (simp add: notify_rid_def)
qed

lemma announce_view:
  assumes "\<forall>h\<in>set_option hub. hub_wf h"
  shows "(\<forall>h\<in>set_option (hub_announce mem hub ns key op v rid). hub_wf h) \<and>
    map_option hub_view (hub_announce mem hub ns key op v rid) =
    map_option (\<lambda>m. snd (hub_spec n (Broadcast mem ns key op v (Some rid)) m)) (map_option hub_view hub)"
proof (cases hub)
  case None
  then show ?thesis by (simp add: hub_announce_def)
next
  case (Some h)
  obtain k h' where b:
    "edge_ws_hub_broadcast_state_changed mem h (Some ns) (Some key) (Some op) v (Some rid) = (k, h')"
    by (cases "edge_ws_hub_broadcast_state_changed mem h (Some ns) (Some key) (Some op) v (Some rid)")
  have "hub_spec n (Broadcast mem ns key op v (Some rid)) = hub_spec m (Broadcast mem ns key op v (Some rid))" for m
    by (simp add: fun_eq_iff)
  then show ?thesis
    using broadcast_refines [OF _ b] assms Some b by (simp add: hub_announce_def)
qed

text \<open>What an accepted change does to the subscribers' queues: a delete of an absent key is
  not announced.\<close>

fun announced :: "(nat \<Rightarrow> bool) \<Rightarrow> string \<Rightarrow> bool \<Rightarrow> (string \<times> string, string) change \<Rightarrow>
    (nat \<Rightarrow> string list option) \<Rightarrow> (nat \<Rightarrow> string list option)" where
  "announced mem rid present (ChPut (ns, k) v) m =
     snd (hub_spec 0 (Broadcast mem ns k ''put'' (Some v) (Some rid)) m)"
| "announced mem rid present (ChDel (ns, k)) m =
     (if present then snd (hub_spec 0 (Broadcast mem ns k ''delete'' None (Some rid)) m) else m)"

lemma announce_put:
  "\<forall>h\<in>set_option hub. hub_wf h \<Longrightarrow>
   map_option hub_view (hub_announce mem hub ns k ''put'' (Some v) rid) =
   map_option (announced mem rid p (ChPut (ns, k) v)) (map_option hub_view hub)"
  using announce_view [of hub mem ns k "''put''" "Some v" rid 0] by (cases hub) (simp_all only: option.map announced.simps)

lemma announce_delete:
  "\<forall>h\<in>set_option hub. hub_wf h \<Longrightarrow>
   map_option hub_view (hub_announce mem hub ns k ''delete'' None rid) =
   map_option (announced mem rid True (ChDel (ns, k))) (map_option hub_view hub)"
  using announce_view [of hub mem ns k "''delete''" None rid 0] by (cases hub) (simp_all only: option.map announced.simps if_True)

lemma put_frame: "edge_state_put st ns k v = (er, st') \<Longrightarrow> er \<noteq> EDGE_STATE_OK \<Longrightarrow> st' = st"
  by (auto simp: edge_state_put_def Let_def split: if_splits option.splits)

lemma delete_frame: "edge_state_delete st ns k = (er, st') \<Longrightarrow> er \<noteq> EDGE_STATE_OK \<Longrightarrow> st' = st"
  by (auto simp: edge_state_delete_def Let_def split: if_splits option.splits)

lemma delete_content:
  assumes "store_wf st" "edge_state_delete st (Some ns) (Some k) = (er, st')"
  shows "store_wf st'"
    "er = EDGE_STATE_OK \<Longrightarrow> store_content st' = (store_content st)((ns, k) := None) \<and> store_content st (ns, k) \<noteq> None"
    "er = EDGE_STATE_NOT_FOUND \<Longrightarrow> store_content st (ns, k) = None"
proof -
  have d: "store_del (ns, k) st = (er = EDGE_STATE_OK, st')" using assms(2) by (simp add: store_del_def)
  note r = delete_refines [OF assms] and l = store_del_law [OF assms(1) d]
  show "store_wf st'" using l by simp
  show "store_content st' = (store_content st)((ns, k) := None) \<and> store_content st (ns, k) \<noteq> None"
    if "er = EDGE_STATE_OK"
    using l r that by (auto simp: spec_delete_def store_content_def split: option.splits if_splits)
  show "store_content st (ns, k) = None" if "er = EDGE_STATE_NOT_FOUND"
    using r that by (auto simp: spec_delete_def store_content_def split: option.splits if_splits)
qed

definition announced_from :: "(nat \<Rightarrow> bool) \<Rightarrow> bool \<Rightarrow> (string \<times> string, string) change \<Rightarrow>
    edge_ws_hub option \<Rightarrow> edge_ws_hub option \<Rightarrow> bool" where
  "announced_from mem present c hub hub' \<longleftrightarrow>
     (\<exists>rid. map_option hub_view hub' = map_option (announced mem rid present c) (map_option hub_view hub))"

lemma notify_put_case:
  assumes "store_wf st" "edge_state_put st (Some ns) (Some k) (Some v) = (er, st')"
  shows "store_wf st'" "er = EDGE_STATE_OK \<Longrightarrow> store_content st' = (store_content st)((ns, k) \<mapsto> v)"
  using store_put_law [of st "(ns, k)" v "er = EDGE_STATE_OK" st'] assms by (simp_all add: store_put_def)

lemma notify_cases:
  assumes "edge_notify_apply mem st hub (Some json) = (er, st', hub')"
  obtains (reject) "er \<noteq> EDGE_NOTIFY_OK" "st' = st" "hub' = hub \<or> (\<exists>rid. notify_rid hub json = (rid, hub'))"
  | (delete) ns k rid hub1 e where "er = EDGE_NOTIFY_OK" "notify_change json = Some (ChDel (ns, k))"
      "notify_rid hub json = (rid, hub1)" "edge_state_delete st (Some ns) (Some k) = (e, st')"
      "e = EDGE_STATE_OK \<or> e = EDGE_STATE_NOT_FOUND"
      "hub' = (if e = EDGE_STATE_OK then hub_announce mem hub1 ns k ''delete'' None rid else hub1)"
  | (put) ns k v rid hub1 where "er = EDGE_NOTIFY_OK" "notify_change json = Some (ChPut (ns, k) v)"
      "notify_rid hub json = (rid, hub1)" "edge_state_put st (Some ns) (Some k) (Some v) = (EDGE_STATE_OK, st')"
      "hub' = hub_announce mem hub1 ns k ''put'' (Some v) rid"
proof -
  obtain rid hub1 where rid: "notify_rid hub json = (rid, hub1)" by (cases "notify_rid hub json")
  have triv: ?thesis if "(er, st', hub') = (e, st, h)" "e \<noteq> EDGE_NOTIFY_OK" "h = hub \<or> h = hub1" for e h
    using that rid by (intro reject) auto
  show ?thesis
  proof (cases "json = [] \<or> length json > EDGE_NOTIFY_MAX_PAYLOAD \<or> \<not> edge_state_json_ok (Some json)")
    case True
    then show ?thesis using assms by (intro triv [of "if json = [] \<or> length json > EDGE_NOTIFY_MAX_PAYLOAD
      then EDGE_NOTIFY_TOO_LARGE else EDGE_NOTIFY_BAD_JSON" hub])
        (auto simp: edge_notify_apply_def split: if_splits)
  next
    case ok: False
    show ?thesis
    proof (cases "\<exists>ns k op. edge_notify_json_string_field json ''ns'' 64 = Some ns \<and>
        edge_notify_json_string_field json ''key'' EDGE_STATE_KEY_MAX = Some k \<and>
        edge_notify_json_string_field json ''op'' 16 = Some op \<and> edge_state_key_valid (Some k)")
      case False
      then show ?thesis using assms ok
        by (intro triv [of EDGE_NOTIFY_BAD_SCHEMA hub]) (auto simp: edge_notify_apply_def split: option.splits)
    next
      case True
      then obtain ns k op where f: "edge_notify_json_string_field json ''ns'' 64 = Some ns"
        "edge_notify_json_string_field json ''key'' EDGE_STATE_KEY_MAX = Some k"
        "edge_notify_json_string_field json ''op'' 16 = Some op" "edge_state_key_valid (Some k)" by blast
      show ?thesis
      proof (cases "op = ''delete''")
        case True
        obtain e s where d: "edge_state_delete st (Some ns) (Some k) = (e, s)"
          by (cases "edge_state_delete st (Some ns) (Some k)")
        show ?thesis
        proof (cases "e = EDGE_STATE_OK \<or> e = EDGE_STATE_NOT_FOUND")
          case True
          with assms ok f rid d \<open>op = _\<close> show ?thesis
            by (intro delete [of ns k rid hub1 e]) (auto simp: edge_notify_apply_def notify_change_def)
        next
          case False
          with assms ok f rid d \<open>op = _\<close> delete_frame [OF d] show ?thesis
            by (intro triv [of EDGE_NOTIFY_STATE_ERR hub1]) (auto simp: edge_notify_apply_def)
        qed
      next
        case nd: False
        show ?thesis
        proof (cases "\<exists>v. op = ''put'' \<and> extract_raw_value json (EDGE_STATE_VALUE_MAX + 1) = Some v \<and> v \<noteq> ''null''")
          case False
          with assms ok f rid nd show ?thesis
            by (intro triv [of EDGE_NOTIFY_BAD_SCHEMA hub1])
              (auto simp: edge_notify_apply_def split: if_splits option.splits)
        next
          case True
          then obtain v where v: "op = ''put''" "extract_raw_value json (EDGE_STATE_VALUE_MAX + 1) = Some v"
            "v \<noteq> ''null''" by blast
          obtain e s where p: "edge_state_put st (Some ns) (Some k) (Some v) = (e, s)"
            by (cases "edge_state_put st (Some ns) (Some k) (Some v)")
          show ?thesis
          proof (cases "e = EDGE_STATE_OK")
            case True
            with assms ok f rid v p show ?thesis
              by (intro put [of ns k v rid hub1]) (auto simp: edge_notify_apply_def notify_change_def)
          next
            case False
            with assms ok f rid v p put_frame [OF p] show ?thesis
              by (intro triv [of EDGE_NOTIFY_STATE_ERR hub1]) (auto simp: edge_notify_apply_def)
          qed
        qed
      qed
    qed
  qed
qed

section \<open>Reading back a written payload\<close>

definition plain_field :: "string \<Rightarrow> bool" where
  "plain_field s \<longleftrightarrow> dq \<notin> set s \<and> bslash \<notin> set s \<and> nul \<notin> set s"

lemma scan_str_plain: "plain_field s \<Longrightarrow> scan_str (s @ dq # r) = (s, dq # r)"
proof (induction s)
  case Nil
  then show ?case by (cases r) simp_all
next
  case (Cons c s)
  then have c: "c \<noteq> dq" "c \<noteq> bslash" and ih: "scan_str (s @ dq # r) = (s, dq # r)"
    by (auto simp: plain_field_def)
  obtain d t where t: "s @ dq # r = d # t" by (cases s) auto
  have "scan_str (c # d # t) = (let (a, r) = scan_str (d # t) in (c # a, r))" using c by simp
  with ih t show ?case by simp
qed

lemma unescape_plain: "plain_field s \<Longrightarrow> length s \<le> n \<Longrightarrow> unescape s n = s"
proof (induction s n rule: unescape.induct)
  case (3 c d s room)
  then show ?case by (auto simp: plain_field_def)
qed (auto simp: plain_field_def)

text \<open>Reading a field whose name was found.\<close>

lemma field_found:
  assumes "c_strstr (quoted name) json = Some (quoted name @ '':'' @ dq # s @ dq # r)"
    and "length name < 70" "plain_field s" "length s < sz" "length json \<le> EDGE_NOTIFY_MAX_PAYLOAD"
    and "nul \<notin> set json" "json \<noteq> []"
  shows "edge_notify_json_string_field json name sz = Some s"
proof -
  have "c_copy 80 (quoted name) = quoted name" using assms(2) by (simp add: c_copy_def quoted_def)
  moreover have "c_strchr dq ('':'' @ dq # s @ dq # r) = Some (dq # s @ dq # r)" by (simp add: dq_def)
  ultimately show ?thesis
    using assms by (simp add: edge_notify_json_string_field_def cstr_id scan_str_plain unescape_plain)
qed

definition put_payload :: "string \<Rightarrow> string \<Rightarrow> string \<Rightarrow> string" where
  "put_payload ns key v =
     CHR 0x7B # quoted ''ns'' @ '':'' @ quoted ns @ '','' @ quoted ''key'' @ '':'' @ quoted key @ '','' @
     quoted ''op'' @ '':'' @ quoted ''put'' @ '','' @ quoted ''value'' @ '':'' @ v @ [CHR 0x7D]"

lemma skip_quoted:
  "no_quote s \<Longrightarrow> no_quote w \<Longrightarrow> s \<noteq> w \<Longrightarrow>
   c_strstr (quoted w) (CHR 0x22 # s @ CHR 0x22 # r) = c_strstr (quoted w) (CHR 0x22 # r)"
  by (rule strstr_quoted_value)

lemma plain_no_quote: "plain_field s \<Longrightarrow> no_quote s"
  by (simp add: plain_field_def no_quote_def dq_def)

lemma put_payload_fields:
  assumes "plain_field ns" "plain_field key" "ns \<notin> {''key'', ''op'', ''value''}" "key \<noteq> ''op''"
  shows "\<exists>r. c_strstr (quoted ''ns'') (put_payload ns key v) = Some (quoted ''ns'' @ '':'' @ dq # ns @ dq # r)"
    "\<exists>r. c_strstr (quoted ''key'') (put_payload ns key v) = Some (quoted ''key'' @ '':'' @ dq # key @ dq # r)"
    "\<exists>r. c_strstr (quoted ''op'') (put_payload ns key v) = Some (quoted ''op'' @ '':'' @ dq # ''put'' @ dq # r)"
    "key \<noteq> ''value'' \<Longrightarrow>
      c_strstr (quoted ''value'') (put_payload ns key v) = Some (quoted ''value'' @ '':'' @ v @ [CHR 0x7D])"
    "key = ''value'' \<Longrightarrow> c_strstr (quoted ''value'') (put_payload ns key v) =
      Some (quoted ''value'' @ '','' @ quoted ''op'' @ '':'' @ quoted ''put'' @ '','' @ quoted ''value'' @ '':'' @ v @ [CHR 0x7D])"
proof -
  let ?k = "'','' @ quoted ''key'' @ '':'' @ quoted key @ '','' @
     quoted ''op'' @ '':'' @ quoted ''put'' @ '','' @ quoted ''value'' @ '':'' @ v @ [CHR 0x7D]"
  let ?o = "'','' @ quoted ''op'' @ '':'' @ quoted ''put'' @ '','' @ quoted ''value'' @ '':'' @ v @ [CHR 0x7D]"
  have n: "no_quote ns" "no_quote key" using assms(1,2) by (simp_all add: plain_no_quote)
  have w: "no_quote ''key''" "no_quote ''op''" "no_quote ''value''" by (simp_all add: no_quote_def)
  show "\<exists>r. c_strstr (quoted ''ns'') (put_payload ns key v) = Some (quoted ''ns'' @ '':'' @ dq # ns @ dq # r)"
    by (simp add: put_payload_def quoted_def dq_def)
  have past_ns: "c_strstr (quoted w) (put_payload ns key v) = c_strstr (quoted w) (CHR 0x22 # ?k)"
    if "w \<in> {''key'', ''op'', ''value''}" for w
  proof -
    have "c_strstr (quoted w) (put_payload ns key v) = c_strstr (quoted w) (CHR 0x22 # ns @ CHR 0x22 # ?k)"
      using that by (auto simp: put_payload_def quoted_def)
    also have "\<dots> = c_strstr (quoted w) (CHR 0x22 # ?k)"
      using that assms(3) w n(1) by (intro skip_quoted) auto
    finally show ?thesis .
  qed
  have past_key: "c_strstr (quoted w) (put_payload ns key v) = c_strstr (quoted w) (CHR 0x22 # ?o)"
    if "w \<in> {''op'', ''value''}" "key \<noteq> w" for w
  proof -
    have "c_strstr (quoted w) (CHR 0x22 # ?k) = c_strstr (quoted w) (CHR 0x22 # key @ CHR 0x22 # ?o)"
      using that by (auto simp: quoted_def)
    also have "\<dots> = c_strstr (quoted w) (CHR 0x22 # ?o)"
      using that w n(2) by (intro skip_quoted) auto
    finally show ?thesis using past_ns [of w] that by auto
  qed
  show "\<exists>r. c_strstr (quoted ''key'') (put_payload ns key v) = Some (quoted ''key'' @ '':'' @ dq # key @ dq # r)"
    using past_ns [of "''key''"] by (simp add: quoted_def dq_def)
  show "\<exists>r. c_strstr (quoted ''op'') (put_payload ns key v) = Some (quoted ''op'' @ '':'' @ dq # ''put'' @ dq # r)"
    using past_key [of "''op''"] assms(4) by (simp add: quoted_def dq_def)
  show "c_strstr (quoted ''value'') (put_payload ns key v) = Some (quoted ''value'' @ '':'' @ v @ [CHR 0x7D])"
    if "key \<noteq> ''value''"
    using past_key [of "''value''"] that by (simp add: quoted_def)
  show "c_strstr (quoted ''value'') (put_payload ns key v) =
      Some (quoted ''value'' @ '','' @ quoted ''op'' @ '':'' @ quoted ''put'' @ '','' @ quoted ''value'' @ '':'' @ v @ [CHR 0x7D])"
    if "key = ''value''"
    using past_ns [of "''value''"] that by (simp add: quoted_def)
qed

text \<open>Values the cutter reads back: a plain quoted string or a number.\<close>

definition plain_value :: "string \<Rightarrow> bool" where
  "plain_value v \<longleftrightarrow> (\<exists>s. v = quoted s \<and> plain_field s) \<or> (\<exists>i. v = dec_int i)"

lemma raw_value_plain:
  assumes "plain_value v"
  shows "raw_value (v @ [CHR 0x7D]) = v" "v \<noteq> []" "dropWhile is_space (v @ r) = v @ r"
    "\<not> starts_with ''null'' (v @ [CHR 0x7D])" "nul \<notin> set v"
proof -
  have "raw_value (v @ [CHR 0x7D]) = v \<and> v \<noteq> [] \<and> dropWhile is_space (v @ r) = v @ r \<and>
    \<not> starts_with ''null'' (v @ [CHR 0x7D]) \<and> nul \<notin> set v"
    using assms unfolding plain_value_def
  proof (elim disjE exE conjE)
    fix s
    assume s: "v = quoted s" "plain_field s"
    then show ?thesis
      using scan_str_plain [OF s(2), of "[CHR 0x7D]"]
      by (simp add: raw_value_def quoted_def raw_str_def dq_def is_space_def plain_field_def nul_def)
  next
    fix i
    assume v: "v = dec_int i"
    obtain d ds where d: "dec_int i = d # ds" "is_digit d \<or> d = CHR ''-''" using dec_int_hd by blast
    have c: "\<forall>c\<in>set (dec_int i). is_digit c \<or> c = CHR ''-''" by (rule dec_int_chars)
    have t: "takeWhile (\<lambda>c. c \<noteq> CHR '','' \<and> c \<noteq> CHR 0x7D \<and> \<not> is_space c) (dec_int i @ [CHR 0x7D]) = dec_int i"
      using c by (subst takeWhile_append2) (auto simp: is_digit_def is_space_def)
    have "d \<noteq> CHR 0x7B" "d \<noteq> CHR ''[''" "d \<noteq> dq" "d \<noteq> CHR ''n''" "\<not> is_space d"
      using d(2) by (auto simp: is_digit_def is_space_def dq_def)
    with d t c show ?thesis by (auto simp: v raw_value_def is_digit_def nul_def)
  qed
  then show "raw_value (v @ [CHR 0x7D]) = v" "v \<noteq> []" "dropWhile is_space (v @ r) = v @ r"
    "\<not> starts_with ''null'' (v @ [CHR 0x7D])" "nul \<notin> set v" by auto
qed

definition fits_payload :: "string \<Rightarrow> string \<Rightarrow> string \<Rightarrow> bool" where
  "fits_payload ns key v \<longleftrightarrow>
     plain_field ns \<and> plain_field key \<and> plain_value v \<and> length ns < 64 \<and>
     length (put_payload ns key v) \<le> EDGE_NOTIFY_MAX_PAYLOAD \<and>
     ns \<notin> {''key'', ''op'', ''value''} \<and> key \<noteq> ''op'' \<and> edge_state_key_valid (Some key)"

lemma put_payload_nul:
  "fits_payload ns key v \<Longrightarrow> nul \<notin> set (put_payload ns key v)"
  using raw_value_plain(5) [of v]
  by (auto simp: fits_payload_def put_payload_def quoted_def plain_field_def nul_def)

lemma put_payload_change:
  assumes f: "fits_payload ns key v"
    and x: "extract_raw_value (put_payload ns key v) (EDGE_STATE_VALUE_MAX + 1) = Some w" "w \<noteq> ''null''"
  shows "notify_change (put_payload ns key v) = Some (ChPut (ns, key) w)"
proof -
  let ?p = "put_payload ns key v"
  have d: "plain_field ns" "plain_field key" "ns \<notin> {''key'', ''op'', ''value''}" "key \<noteq> ''op''"
    "length ns < 64" "length ?p \<le> EDGE_NOTIFY_MAX_PAYLOAD" "edge_state_key_valid (Some key)"
    using f by (simp_all add: fits_payload_def)
  note c = put_payload_fields [OF d(1-4), of v]
  have n: "nul \<notin> set ?p" "?p \<noteq> []"
    using put_payload_nul [OF f] by (simp_all add: put_payload_def)
  have "length key < EDGE_STATE_KEY_MAX" using key_valid_length [OF d(7)] by simp
  then have k: "edge_notify_json_string_field ?p ''key'' EDGE_STATE_KEY_MAX = Some key"
    using c(2) field_found [of "''key''" ?p key _ EDGE_STATE_KEY_MAX] d n by auto
  have s: "edge_notify_json_string_field ?p ''ns'' 64 = Some ns"
    using c(1) field_found [of "''ns''" ?p ns _ 64] d n by auto
  have "plain_field ''put''" by (simp add: plain_field_def dq_def bslash_def nul_def)
  then have o: "edge_notify_json_string_field ?p ''op'' 16 = Some ''put''"
    using c(3) field_found [of "''op''" ?p "''put''" _ 16] d n by auto
  have j: "edge_state_json_ok (Some ?p)"
    by (simp add: edge_state_json_ok_def put_payload_def is_space_def json_start_ok_def)
  show ?thesis
    unfolding notify_change_def s k o using d n(2) j x by simp
qed

lemma payload_value:
  assumes f: "fits_payload ns key v" and "key \<noteq> ''value''"
  shows "extract_raw_value (put_payload ns key v) (EDGE_STATE_VALUE_MAX + 1) = Some v"
proof -
  let ?p = "put_payload ns key v"
  have d: "plain_field ns" "plain_field key" "ns \<notin> {''key'', ''op'', ''value''}" "key \<noteq> ''op''"
    "length ?p \<le> EDGE_NOTIFY_MAX_PAYLOAD" "plain_value v"
    using f by (simp_all add: fits_payload_def)
  note rv = raw_value_plain [OF d(6)]
  have "length v + 1 \<le> EDGE_STATE_VALUE_MAX + 1"
    using d(5) by (simp add: put_payload_def EDGE_NOTIFY_MAX_PAYLOAD_def EDGE_STATE_VALUE_MAX_def)
  moreover have "c_strchr (CHR '':'') (quoted ''value'' @ '':'' @ v @ [CHR 0x7D]) = Some ('':'' @ v @ [CHR 0x7D])"
    by (simp add: quoted_def)
  ultimately show ?thesis
    using put_payload_fields(4) [OF d(1-4) assms(2)] rv d(5) put_payload_nul [OF f]
    by (simp add: extract_raw_value_def cstr_id Let_def)
qed

lemma payload_value_confused:
  assumes f: "fits_payload ns ''value'' v"
  shows "extract_raw_value (put_payload ns ''value'' v) (EDGE_STATE_VALUE_MAX + 1) = Some (quoted ''put'')"
proof -
  let ?p = "put_payload ns ''value'' v"
  let ?t = "'','' @ quoted ''value'' @ '':'' @ v @ [CHR 0x7D]"
  have d: "plain_field ns" "plain_field ''value''" "ns \<notin> {''key'', ''op'', ''value''}" "''value'' \<noteq> ''op''"
    "length ?p \<le> EDGE_NOTIFY_MAX_PAYLOAD"
    using f by (simp_all add: fits_payload_def)
  have "c_strchr (CHR '':'') (quoted ''value'' @ '','' @ quoted ''op'' @ '':'' @ quoted ''put'' @ ?t) =
      Some ('':'' @ quoted ''put'' @ ?t)"
    by (simp add: quoted_def)
  moreover have "raw_value (quoted ''put'' @ ?t) = quoted ''put''"
    by (simp add: raw_value_def quoted_def raw_str_def dq_def bslash_def)
  moreover have "dropWhile is_space (quoted ''put'' @ ?t) = quoted ''put'' @ ?t"
    "\<not> starts_with ''null'' (quoted ''put'' @ ?t)" "quoted ''put'' \<noteq> []" "length (quoted ''put'') = 5"
    by (simp_all add: quoted_def is_space_def)
  moreover have "tl ('':'' @ quoted ''put'' @ ?t) = quoted ''put'' @ ?t" by simp
  moreover have "\<not> EDGE_NOTIFY_MAX_PAYLOAD < length ?p" "\<not> EDGE_STATE_VALUE_MAX + 1 < 5 + 1"
    using d(5) by (simp_all add: EDGE_STATE_VALUE_MAX_def)
  moreover have "quoted ''put'' @ ?t \<noteq> []" by (simp add: quoted_def)
  ultimately show ?thesis
    unfolding extract_raw_value_def cstr_id [OF put_payload_nul [OF f]] put_payload_fields(5) [OF d(1-4) refl]
    by (simp only: option.case Let_def if_False)
qed

section \<open>Properties\<close>


lemma apply_put:
  assumes "notify_change json = Some (ChPut (ns, k) v)"
    and "edge_state_put st (Some ns) (Some k) (Some v) = (EDGE_STATE_OK, st')"
  shows "edge_notify_apply mem st None (Some json) = (EDGE_NOTIFY_OK, st', None)"
  using assms
  by (auto simp: edge_notify_apply_def notify_change_def notify_rid_def hub_announce_def
      split: if_splits option.splits)

lemma demo_fits:
  "fits_payload ''net.core'' ''k'' (dec_int 5)" "fits_payload ''map.dynamic'' ''value'' (dec_int (-12))"
proof -
  have l: "length (dec_int 5) \<le> 3" "length (dec_int (-12)) \<le> 3"
    using dec_nat_length [of 5 1] dec_nat_length [of 12 2] by (simp_all add: dec_int_def)
  have v: "plain_value (dec_int i)" for i by (auto simp: plain_value_def)
  show "fits_payload ''net.core'' ''k'' (dec_int 5)" "fits_payload ''map.dynamic'' ''value'' (dec_int (-12))"
    using l v by (simp_all add: fits_payload_def plain_field_def put_payload_def quoted_def dq_def
        bslash_def nul_def EDGE_NOTIFY_MAX_PAYLOAD_def edge_state_key_valid_def key_char_ok_def
        is_lower_def is_digit_def EDGE_STATE_KEY_MAX_def)
qed

lemma demo_change:
  "notify_change (put_payload ''net.core'' ''k'' (dec_int 5)) = Some (ChPut (''net.core'', ''k'') (dec_int 5))"
  using put_payload_change [OF demo_fits(1) payload_value [OF demo_fits(1)]] by (simp add: dec_int_def dec_nat.simps digit_char_def)


text \<open>C33: Writing and reading a notification. The payload printed for a put of a plain string or
  integer value reads back as a put of that namespace, key and value, provided neither the
  namespace nor the key is one of the member names key, op and value. With the key named
  value, which the store accepts, the reader takes the operation for the value: it stores
  the string put.\<close>

theorem notify_payload_roundtrip:
  assumes "fits_payload ns key v"
  shows "notify_change (put_payload ns key v) =
    Some (ChPut (ns, key) (if key = ''value'' then quoted ''put'' else v))"
proof (cases "key = ''value''")
  case True
  then show ?thesis
    using put_payload_change [OF assms, of "quoted ''put''"] payload_value_confused assms
    by (simp add: quoted_def)
next
  case False
  have "v \<noteq> ''null''"
    using raw_value_plain(4) [of v] assms by (auto simp: fits_payload_def)
  with False show ?thesis
    using put_payload_change [OF assms payload_value [OF assms False]] by simp
qed

theorem notify_payload_roundtrip_witness:
  "notify_change (put_payload ''net.core'' ''k'' (dec_int 5)) = Some (ChPut (''net.core'', ''k'') (dec_int 5)) \<and>
   notify_change (put_payload ''map.dynamic'' ''value'' (dec_int (-12))) =
     Some (ChPut (''map.dynamic'', ''value'') (quoted ''put''))"
  using notify_payload_roundtrip [OF demo_fits(1)] notify_payload_roundtrip [OF demo_fits(2)] by simp

end
