(* ===== verification/Plugin_Api.thy ===== *)
theory Plugin_Api
  imports Pending_Table State_Store Auth_Rbac
begin

text \<open>
  The plugin interface of \<open>include/edge_plugin.h\<close>: requests, responses, outbound requests
  and their results, and the operations of a plugin. A plugin runs inside the host and may
  call back into it, so a handler is modelled by the tree of its calls to the host API: each
  node is one call with a continuation for its answer, and a leaf is the handler's return
  with the response it leaves and its own data. The calls without an effect on the host
  (\<open>emit_ws_broadcast\<close>, \<open>log\<close>, the two timer calls, which return constants) are not nodes.
\<close>

section \<open>Requests and responses\<close>

type_synonym header = "string option \<times> string option"

record edge_http_req =
  rq_method :: string
  rq_path :: string
  rq_query :: "string option"
  rq_hdrs :: "header list"
  rq_body :: string
  rq_principal :: "edge_principal option"
  rq_inbound_slot :: u32

text \<open>The body of a response is the part of the host's buffer in use; \<open>rs_cap\<close> is \<open>None\<close> for
  a response without a buffer.\<close>

record edge_http_res =
  rs_status :: int
  rs_reason :: string
  rs_content_type :: string
  rs_body :: string
  rs_cap :: "nat option"

record edge_http_client_req =
  cr_method :: "string option"
  cr_url :: "string option"
  cr_host :: "string option"
  cr_addr_override :: "string option"
  cr_hdrs :: "header list"
  cr_body :: string
  cr_timeout_ms :: u32
  cr_user_tag :: u64

record edge_http_client_result =
  ur_outbound_id :: u64
  ur_user_tag :: u64
  ur_transport_err :: int
  ur_status :: int
  ur_hdrs :: "header list"
  ur_body :: string

text \<open>\<open>edge_http_res_set_body(res, data, len)\<close>: \<open>data\<close> is the C string literal or buffer, of
  which \<open>len\<close> bytes are copied; the terminating NUL can be among them.\<close>

definition edge_http_res_set_body :: "edge_http_res \<Rightarrow> string \<Rightarrow> nat \<Rightarrow> int \<times> edge_http_res" where
  "edge_http_res_set_body res data len =
     (case rs_cap res of
        None \<Rightarrow> (-1, res)
      | Some cap \<Rightarrow>
          if len > cap then (-1, res)
          else (0, res\<lparr>rs_body := take len (data @ [nul])\<rparr>))"

text \<open>\<open>(void)edge_http_res_set_body(...)\<close>.\<close>

definition put_body :: "string \<Rightarrow> nat \<Rightarrow> edge_http_res \<Rightarrow> edge_http_res" where
  "put_body data len res = snd (edge_http_res_set_body res data len)"

text \<open>The body \<open>{"error":"CODE"}\<close> that the program answers failures with.\<close>

definition error_json :: "string \<Rightarrow> string" where
  "error_json c = CHR 0x7B # quoted ''error'' @ '':'' @ quoted c @ [CHR 0x7D]"

definition set_status :: "int \<Rightarrow> string \<Rightarrow> edge_http_res \<Rightarrow> edge_http_res" where
  "set_status n reason res = res\<lparr>rs_status := n, rs_reason := c_copy 64 reason\<rparr>"

section \<open>Plugins\<close>

definition EDGE_PLUGIN_OK :: int where "EDGE_PLUGIN_OK = 0"
definition EDGE_PLUGIN_PENDING :: int where "EDGE_PLUGIN_PENDING = 1"
definition EDGE_PLUGIN_ERR :: int where "EDGE_PLUGIN_ERR = -1"

lemmas plugin_status = EDGE_PLUGIN_OK_def EDGE_PLUGIN_PENDING_def EDGE_PLUGIN_ERR_def

datatype edge_plugin_kind = EDGE_PLUGIN_KIND_HTTP | EDGE_PLUGIN_KIND_SESSION

datatype 'u handler =
    Done int edge_http_res 'u
  | ClientRequest edge_http_client_req "u64 option \<Rightarrow> 'u handler"
  | StateGet string string nat "(string \<times> nat) option \<Rightarrow> 'u handler"
  | StatePut string string string "bool \<Rightarrow> 'u handler"

record 'u edge_plugin_vtbl =
  vt_name :: string
  vt_kind :: edge_plugin_kind
  vt_init :: "('u \<Rightarrow> bool \<times> 'u) option"
  vt_shutdown :: "('u \<Rightarrow> 'u) option"
  vt_on_http :: "('u \<Rightarrow> edge_http_req \<Rightarrow> edge_http_res \<Rightarrow> 'u handler) option"
  vt_on_http_complete :: "('u \<Rightarrow> edge_http_client_result \<Rightarrow> edge_http_res \<Rightarrow> 'u handler) option"

record 'u edge_plugin =
  pl_vtbl :: "'u edge_plugin_vtbl option"
  pl_user_data :: 'u
  pl_host :: bool

end
