(* ===== verification/Plugin_Host.thy ===== *)
theory Plugin_Host
  imports Plugin_Api
begin

text \<open>
  \<open>src/host/plugin_host.c\<close>: the registry of plugins and routes, the host API they call, and
  the rules for requests that wait for an outbound call (PENDING). The plugin objects live
  outside the host: \<open>env\<close> maps a plugin pointer to its object. The pointers that
  \<open>last_req\<close> keeps into the \<open>last_*\<close> arrays are flags here, so the request read through
  them has what the arrays hold at that time.
\<close>

definition EDGE_PLUGIN_HOST_MAX_PLUGINS :: nat where "EDGE_PLUGIN_HOST_MAX_PLUGINS = 16"
definition EDGE_PLUGIN_HOST_MAX_ROUTES :: nat where "EDGE_PLUGIN_HOST_MAX_ROUTES = 32"

type_synonym 'u plugin_env = "plugin_ref \<Rightarrow> 'u edge_plugin"

record plugin_host =
  ph_state :: "state_store option"
  ph_pending :: pending_table
  ph_plugins :: "plugin_ref list"
  ph_routes :: "(string \<times> plugin_ref) list"
  ph_active_plugin :: "plugin_ref option"
  ph_active_inbound_slot :: u32
  ph_active_in_on_http :: bool
  ph_client_req_started :: bool
  ph_next_outbound_id :: u64
  ph_last_method :: string
  ph_last_url :: string
  ph_last_host :: string
  ph_last_addr :: string
  ph_last_body :: string
  ph_last_body_cap :: nat
  ph_last_hdrs :: "(string \<times> string) list"
  ph_lr_host :: bool
  ph_lr_addr :: bool
  ph_lr_timeout_ms :: u32
  ph_lr_user_tag :: u64
  ph_last_outbound_id :: u64
  ph_has_last_req :: bool

section \<open>Host API\<close>

text \<open>The answer of a get: the text written to \<open>out\<close> and the length reported.\<close>

definition api_state_get :: "plugin_host \<Rightarrow> string \<Rightarrow> string \<Rightarrow> nat \<Rightarrow> (string \<times> nat) option" where
  "api_state_get h ns key cap =
     (case ph_state h of
        None \<Rightarrow> None
      | Some st \<Rightarrow>
          (case edge_state_get st (Some ns) (Some key) (Some cap) of
             (er, out, got) \<Rightarrow>
               if er \<noteq> EDGE_STATE_OK then None
               else Some (case out of None \<Rightarrow> [] | Some t \<Rightarrow> t, case got of None \<Rightarrow> 0 | Some n \<Rightarrow> n)))"

definition api_state_put :: "plugin_host \<Rightarrow> string \<Rightarrow> string \<Rightarrow> string \<Rightarrow> bool \<times> plugin_host" where
  "api_state_put h ns key val =
     (case ph_state h of
        None \<Rightarrow> (False, h)
      | Some st \<Rightarrow>
          (case edge_state_put st (Some ns) (Some key) (Some val) of
             (er, st') \<Rightarrow> (er = EDGE_STATE_OK, h\<lparr>ph_state := Some st'\<rparr>)))"

definition opt_str :: "string option \<Rightarrow> string" where
  "opt_str s = (case s of None \<Rightarrow> [] | Some t \<Rightarrow> t)"

text \<open>\<open>mem\<close>: whether growing the body buffer succeeds.\<close>

definition store_last_req :: "bool \<Rightarrow> plugin_host \<Rightarrow> edge_http_client_req \<Rightarrow> int \<times> plugin_host" where
  "store_last_req mem h req =
     (case (cr_method req, cr_url req) of
        (Some meth, Some url) \<Rightarrow>
          let h1 = h\<lparr>ph_last_method := c_copy 16 meth, ph_last_url := c_copy 512 url,
                     ph_last_host := c_copy 256 (opt_str (cr_host req)),
                     ph_last_addr := c_copy 64 (opt_str (cr_addr_override req))\<rparr>;
              blen = length (cr_body req)
          in if blen > ph_last_body_cap h1 \<and> \<not> mem then (-1, h1)
             else
               let h2 = h1\<lparr>ph_last_body := cr_body req,
                           ph_last_body_cap := max blen (ph_last_body_cap h1)\<rparr>
               in (0, h2\<lparr>ph_last_hdrs := map (\<lambda>(n, v). (c_copy 64 (opt_str n), c_copy 384 (opt_str v)))
                                             (take 8 (cr_hdrs req)),
                         ph_lr_host := ph_last_host h2 \<noteq> [], ph_lr_addr := ph_last_addr h2 \<noteq> [],
                         ph_lr_timeout_ms := cr_timeout_ms req, ph_lr_user_tag := cr_user_tag req,
                         ph_has_last_req := True\<rparr>)
      | _ \<Rightarrow> (-1, h))"

definition api_http_client_request ::
  "bool \<Rightarrow> plugin_host \<Rightarrow> edge_http_client_req \<Rightarrow> u64 option \<times> plugin_host" where
  "api_http_client_request mem h req =
     (if \<not> ph_active_in_on_http h \<or> ph_active_plugin h = None then (None, h)
      else if ph_client_req_started h then (None, h)
      else if edge_pending_full (ph_pending h) then (None, h)
      else if edge_pending_find_inbound (ph_pending h) (ph_active_inbound_slot h) \<noteq> None then (None, h)
      else
        let (rc, h1) = store_last_req mem h req
        in if rc \<noteq> 0 then (None, h1)
           else
             let id0 = ph_next_outbound_id h1;
                 h2 = h1\<lparr>ph_next_outbound_id := id0 + 1\<rparr>;
                 (oid, h3) = (if id0 = 0
                             then (ph_next_outbound_id h2,
                                   h2\<lparr>ph_next_outbound_id := ph_next_outbound_id h2 + 1\<rparr>)
                             else (id0, h2));
                 (rc2, t) = edge_pending_insert (ph_pending h3) (ph_active_inbound_slot h3) oid
                              (ph_active_plugin h3) (cr_user_tag req) (cr_timeout_ms req) 0 None
             in if rc2 \<noteq> 0 then (None, h3\<lparr>ph_pending := t\<rparr>)
                else (Some oid, h3\<lparr>ph_pending := t, ph_client_req_started := True,
                                  ph_last_outbound_id := oid\<rparr>))"

text \<open>Running a handler in the host: every call is answered by the host API.\<close>

primrec run_handler ::
  "'u handler \<Rightarrow> (edge_http_client_req \<Rightarrow> bool) \<Rightarrow> plugin_host \<Rightarrow> (int \<times> edge_http_res \<times> 'u) \<times> plugin_host" where
  "run_handler (Done st res u) mem h = ((st, res, u), h)"
| "run_handler (ClientRequest req k) mem h =
     (let (oid, h') = api_http_client_request (mem req) h req in run_handler (k oid) mem h')"
| "run_handler (StateGet ns key cap k) mem h = run_handler (k (api_state_get h ns key cap)) mem h"
| "run_handler (StatePut ns key val k) mem h =
     (let (ok, h') = api_state_put h ns key val in run_handler (k ok) mem h')"

section \<open>Registry\<close>

text \<open>\<open>cfg\<close> is the number of pending slots and the state store; the two flags are the
  allocations of the host and of its table.\<close>

definition edge_plugin_host_create ::
  "bool \<Rightarrow> bool \<Rightarrow> (nat \<times> state_store option) option \<Rightarrow> plugin_host option" where
  "edge_plugin_host_create mem_h mem_t cfg =
     (let cap = (case cfg of Some (n, _) \<Rightarrow> if n > 0 then n else EDGE_PENDING_DEFAULT_CAP
                          | None \<Rightarrow> EDGE_PENDING_DEFAULT_CAP);
          st = (case cfg of Some (_, s) \<Rightarrow> s | None \<Rightarrow> None)
      in if \<not> mem_h then None
         else case edge_pending_create mem_t cap of
           None \<Rightarrow> None
         | Some t \<Rightarrow>
             Some \<lparr>ph_state = st, ph_pending = t, ph_plugins = [], ph_routes = [],
                   ph_active_plugin = None, ph_active_inbound_slot = 0, ph_active_in_on_http = False,
                   ph_client_req_started = False, ph_next_outbound_id = 1,
                   ph_last_method = [], ph_last_url = [], ph_last_host = [], ph_last_addr = [],
                   ph_last_body = [], ph_last_body_cap = 0, ph_last_hdrs = [],
                   ph_lr_host = False, ph_lr_addr = False, ph_lr_timeout_ms = 0, ph_lr_user_tag = 0,
                   ph_last_outbound_id = 0, ph_has_last_req = False\<rparr>)"

text \<open>The shutdown of every registered plugin, in order of registration.\<close>

definition shutdown_plugin :: "plugin_ref \<Rightarrow> 'u plugin_env \<Rightarrow> 'u plugin_env" where
  "shutdown_plugin r env =
     (let p = env r;
          u = (case Option.bind (pl_vtbl p) vt_shutdown of None \<Rightarrow> pl_user_data p | Some f \<Rightarrow> f (pl_user_data p))
      in env(r := p\<lparr>pl_user_data := u, pl_host := False\<rparr>))"

definition edge_plugin_host_destroy :: "plugin_host \<Rightarrow> 'u plugin_env \<Rightarrow> 'u plugin_env" where
  "edge_plugin_host_destroy h env = fold shutdown_plugin (ph_plugins h) env"

definition edge_plugin_host_register ::
  "plugin_host \<Rightarrow> 'u plugin_env \<Rightarrow> plugin_ref \<Rightarrow> int \<times> plugin_host \<times> 'u plugin_env" where
  "edge_plugin_host_register h env r =
     (case pl_vtbl (env r) of
        None \<Rightarrow> (-1, h, env)
      | Some vt \<Rightarrow>
          if length (ph_plugins h) \<ge> EDGE_PLUGIN_HOST_MAX_PLUGINS then (-1, h, env)
          else
            let p1 = (env r)\<lparr>pl_host := True\<rparr>
            in case vt_init vt of
                 None \<Rightarrow> (0, h\<lparr>ph_plugins := ph_plugins h @ [r]\<rparr>, env(r := p1))
               | Some init \<Rightarrow>
                   (case init (pl_user_data p1) of
                      (ok, u) \<Rightarrow>
                        if \<not> ok then (-1, h, env(r := p1\<lparr>pl_user_data := u, pl_host := False\<rparr>))
                        else (0, h\<lparr>ph_plugins := ph_plugins h @ [r]\<rparr>, env(r := p1\<lparr>pl_user_data := u\<rparr>))))"

definition route_prefix_size :: nat where "route_prefix_size = 128"

definition edge_plugin_host_add_route ::
  "plugin_host \<Rightarrow> string option \<Rightarrow> plugin_ref option \<Rightarrow> int \<times> plugin_host" where
  "edge_plugin_host_add_route h path_prefix plugin =
     (case (path_prefix, plugin) of
        (Some p, Some r) \<Rightarrow>
          if p = [] then (-1, h)
          else if length (ph_routes h) \<ge> EDGE_PLUGIN_HOST_MAX_ROUTES then (-1, h)
          else if length p \<ge> route_prefix_size then (-1, h)
          else (0, h\<lparr>ph_routes := ph_routes h @ [(c_copy route_prefix_size p, r)]\<rparr>)
      | _ \<Rightarrow> (-1, h))"

text \<open>The test on one route: the prefix, and a boundary after it.\<close>

definition route_matches :: "string \<Rightarrow> string \<Rightarrow> bool" where
  "route_matches path p \<longleftrightarrow>
     p \<noteq> [] \<and> starts_with p path \<and>
     (length path = length p \<or> path ! length p = CHR ''/'' \<or> last p = CHR ''/'')"

fun match_loop :: "string \<Rightarrow> (string \<times> plugin_ref) list \<Rightarrow> plugin_ref option \<Rightarrow> nat \<Rightarrow> plugin_ref option" where
  "match_loop path [] best best_len = best"
| "match_loop path ((p, r) # rs) best best_len =
     (if route_matches path p \<and> length p \<ge> best_len
      then match_loop path rs (Some r) (length p)
      else match_loop path rs best best_len)"

definition edge_plugin_host_match :: "plugin_host \<Rightarrow> string option \<Rightarrow> plugin_ref option" where
  "edge_plugin_host_match h path =
     (case path of None \<Rightarrow> None | Some p \<Rightarrow> match_loop p (ph_routes h) None 0)"

section \<open>Dispatch and completion\<close>

definition internal_error :: "edge_http_res \<Rightarrow> edge_http_res" where
  "internal_error res = set_status 500 ''Internal Server Error'' res"

definition edge_plugin_host_dispatch_http ::
  "(edge_http_client_req \<Rightarrow> bool) \<Rightarrow> plugin_host \<Rightarrow> 'u plugin_env \<Rightarrow> plugin_ref \<Rightarrow> edge_http_req \<Rightarrow>
   edge_http_res \<Rightarrow> int \<times> edge_http_res \<times> plugin_host \<times> 'u plugin_env" where
  "edge_plugin_host_dispatch_http mem h env r req res =
     (case pl_vtbl (env r) of
        None \<Rightarrow> (EDGE_PLUGIN_ERR, res, h, env)
      | Some vt \<Rightarrow>
          if vt_kind vt \<noteq> EDGE_PLUGIN_KIND_HTTP then (EDGE_PLUGIN_ERR, res, h, env)
          else case vt_on_http vt of
            None \<Rightarrow> (EDGE_PLUGIN_ERR, res, h, env)
          | Some on_http \<Rightarrow>
              if edge_pending_find_inbound (ph_pending h) (rq_inbound_slot req) \<noteq> None
              then (EDGE_PLUGIN_ERR,
                    put_body (error_json ''NESTED_PENDING'') 26 (internal_error res), h, env)
              else
                let h1 = h\<lparr>ph_active_plugin := Some r, ph_active_inbound_slot := rq_inbound_slot req,
                           ph_active_in_on_http := True, ph_client_req_started := False\<rparr>;
                    ((st, res1, u), h2) =
                      run_handler (on_http (pl_user_data (env r)) req res) mem h1;
                    env1 = env(r := (env r)\<lparr>pl_user_data := u\<rparr>);
                    h3 = h2\<lparr>ph_active_in_on_http := False, ph_active_plugin := None\<rparr>
                in if st = EDGE_PLUGIN_PENDING
                   then if \<not> ph_client_req_started h3
                        then (EDGE_PLUGIN_ERR,
                              put_body (error_json ''PENDING_WITHOUT_OUTBOUND'') 35 (internal_error res1),
                              h3\<lparr>ph_pending := snd (edge_pending_release_inbound (ph_pending h3)
                                                     (rq_inbound_slot req))\<rparr>, env1)
                        else (EDGE_PLUGIN_PENDING, res1, h3, env1)
                   else if st = EDGE_PLUGIN_OK then (EDGE_PLUGIN_OK, res1, h3, env1)
                   else (EDGE_PLUGIN_ERR, if rs_status res1 = 0 then internal_error res1 else res1, h3, env1))"

definition edge_plugin_host_complete_outbound ::
  "(edge_http_client_req \<Rightarrow> bool) \<Rightarrow> plugin_host \<Rightarrow> 'u plugin_env \<Rightarrow> edge_http_client_result \<Rightarrow>
   edge_http_res \<Rightarrow> int \<times> edge_http_res \<times> plugin_host \<times> 'u plugin_env" where
  "edge_plugin_host_complete_outbound mem h env upstream res =
     (if ur_outbound_id upstream = 0 then (EDGE_PLUGIN_ERR, res, h, env)
      else case edge_pending_find_outbound (ph_pending h) (ur_outbound_id upstream) of
        None \<Rightarrow> (EDGE_PLUGIN_ERR, res, h, env)
      | Some i \<Rightarrow>
          let plugin = pe_plugin (pt_slots (ph_pending h) ! i);
              release = (\<lambda>h. h\<lparr>ph_pending := edge_pending_release (ph_pending h) (Some i)\<rparr>)
          in case Option.bind plugin (\<lambda>r. Option.bind (pl_vtbl (env r))
                   (\<lambda>vt. map_option (Pair r) (vt_on_http_complete vt))) of
               None \<Rightarrow>
                 (EDGE_PLUGIN_ERR, put_body (error_json ''NO_COMPLETE_HANDLER'') 30 (res\<lparr>rs_status := 500\<rparr>),
                  release h, env)
             | Some (r, on_complete) \<Rightarrow>
                 let ((st, res1, u), h1) =
                       run_handler (on_complete (pl_user_data (env r)) upstream res) mem h;
                     env1 = env(r := (env r)\<lparr>pl_user_data := u\<rparr>);
                     h2 = release h1
                 in if st = EDGE_PLUGIN_PENDING
                    then (EDGE_PLUGIN_ERR, put_body (error_json ''DOUBLE_PENDING'') 25 (internal_error res1), h2, env1)
                    else if st = EDGE_PLUGIN_OK then (EDGE_PLUGIN_OK, res1, h2, env1)
                    else (EDGE_PLUGIN_ERR,
                          if rs_status res1 = 0 then set_status 502 ''Bad Gateway'' res1 else res1, h2, env1))"

definition edge_plugin_host_cancel_inbound :: "plugin_host \<Rightarrow> u32 \<Rightarrow> int \<times> plugin_host" where
  "edge_plugin_host_cancel_inbound h inbound_slot =
     (case edge_pending_release_inbound (ph_pending h) inbound_slot of
        (rc, t) \<Rightarrow> (rc, h\<lparr>ph_pending := t\<rparr>))"

definition edge_plugin_host_last_client_req :: "plugin_host \<Rightarrow> edge_http_client_req option" where
  "edge_plugin_host_last_client_req h =
     (if \<not> ph_has_last_req h then None
      else Some \<lparr>cr_method = Some (ph_last_method h), cr_url = Some (ph_last_url h),
                 cr_host = (if ph_lr_host h then Some (ph_last_host h) else None),
                 cr_addr_override = (if ph_lr_addr h then Some (ph_last_addr h) else None),
                 cr_hdrs = map (\<lambda>(n, v). (Some n, Some v)) (ph_last_hdrs h),
                 cr_body = ph_last_body h, cr_timeout_ms = ph_lr_timeout_ms h,
                 cr_user_tag = ph_lr_user_tag h\<rparr>)"

definition edge_plugin_host_last_outbound_id :: "plugin_host \<Rightarrow> u64" where
  "edge_plugin_host_last_outbound_id h = ph_last_outbound_id h"

section \<open>Finishing a pending request\<close>

record outbound_opts =
  oo_allow_blocking_dns :: bool
  oo_max_response_body :: nat
  oo_default_timeout_ms :: u32

definition edge_outbound_opts_defaults :: outbound_opts where
  "edge_outbound_opts_defaults =
     \<lparr>oo_allow_blocking_dns = False, oo_max_response_body = 4 * 1024 * 1024, oo_default_timeout_ms = 60000\<rparr>"

text \<open>The blocking exchange \<open>exec\<close> (\<open>edge_outbound_http_execute\<close>) is given the request, the
  options and the size of the body buffer and answers the return code, the result it left
  in \<open>up\<close> and the body bytes. \<open>EIO\<close> is 5.\<close>

type_synonym outbound_exec =
  "edge_http_client_req \<Rightarrow> outbound_opts \<Rightarrow> nat \<Rightarrow> int \<times> edge_http_client_result \<times> string"

definition edge_plugin_host_finish_pending_sync ::
  "outbound_exec \<Rightarrow> bool \<Rightarrow> (edge_http_client_req \<Rightarrow> bool) \<Rightarrow> plugin_host \<Rightarrow> 'u plugin_env \<Rightarrow> bool \<Rightarrow>
   nat \<Rightarrow> edge_http_res \<Rightarrow> int \<times> edge_http_res \<times> plugin_host \<times> 'u plugin_env" where
  "edge_plugin_host_finish_pending_sync exec mem_buf mem h env allow_dns max_body res =
     (case edge_plugin_host_last_client_req h of
        None \<Rightarrow> (EDGE_PLUGIN_ERR, res, h, env)
      | Some creq \<Rightarrow>
          if ph_last_outbound_id h = 0 then (EDGE_PLUGIN_ERR, res, h, env)
          else
            let d = edge_outbound_opts_defaults;
                opts = d\<lparr>oo_allow_blocking_dns := allow_dns,
                         oo_max_response_body := (if max_body \<noteq> 0 then max_body else oo_max_response_body d),
                         oo_default_timeout_ms := (if cr_timeout_ms creq \<noteq> 0 then cr_timeout_ms creq
                                                   else oo_default_timeout_ms d)\<rparr>;
                cap = max 4096 (oo_max_response_body opts)
            in if \<not> mem_buf
               then (EDGE_PLUGIN_ERR, put_body (error_json ''NOMEM'') 16 (res\<lparr>rs_status := 500\<rparr>),
                     h\<lparr>ph_pending := snd (edge_pending_release_outbound (ph_pending h) (ph_last_outbound_id h))\<rparr>,
                     env)
               else
                 let (rc, up, body) = exec creq opts cap;
                     up1 = (if rc \<noteq> 0 then up\<lparr>ur_transport_err := 5\<rparr> else up)
                 in edge_plugin_host_complete_outbound mem h env
                      (up1\<lparr>ur_outbound_id := ph_last_outbound_id h, ur_user_tag := cr_user_tag creq,
                           ur_body := body\<rparr>) res)"

end
