(* ===== verification/Plugin_Host_Spec.thy ===== *)
theory Plugin_Host_Spec
  imports Plugin_Host
begin

text \<open>
  What the plugin host guarantees whatever its plugins do: routing picks the longest matching
  prefix; a handler can open at most one outbound call, for the request it is handling; a
  PENDING answer is given exactly when that call is registered; and a completion ends one
  waiting request, once.
\<close>

section \<open>Routing\<close>

definition route_beats :: "string \<Rightarrow> (string \<times> plugin_ref) list \<Rightarrow> nat \<Rightarrow> bool" where
  "route_beats path rs i \<longleftrightarrow> i < length rs \<and> route_matches path (fst (rs ! i)) \<and>
     (\<forall>j<length rs. route_matches path (fst (rs ! j)) \<longrightarrow>
        length (fst (rs ! j)) \<le> length (fst (rs ! i)) \<and>
        (length (fst (rs ! j)) = length (fst (rs ! i)) \<longrightarrow> j \<le> i))"

lemma match_loop_snoc:
  "match_loop path (rs @ [(p, r)]) best n =
     (if route_matches path p \<and> (\<forall>q\<in>set rs. route_matches path (fst q) \<longrightarrow> length (fst q) \<le> length p) \<and> n \<le> length p
      then Some r else match_loop path rs best n)"
proof (induction rs arbitrary: best n)
  case Nil
  then show ?case by simp
next
  case (Cons q rs)
  obtain p1 r1 where q: "q = (p1, r1)" by (cases q)
  show ?case
  proof (cases "route_matches path p1 \<and> n \<le> length p1")
    case True
    then show ?thesis using Cons.IH [of "Some r1" "length p1"] by (auto simp: q)
  next
    case False
    then show ?thesis using Cons.IH [of best n] by (auto simp: q)
  qed
qed

lemma match_loop_spec:
  "(\<forall>r. match_loop path rs None 0 = Some r \<longrightarrow> (\<exists>i. route_beats path rs i \<and> snd (rs ! i) = r)) \<and>
   (match_loop path rs None 0 = None \<longleftrightarrow> (\<forall>q\<in>set rs. \<not> route_matches path (fst q)))"
proof (induction rs rule: rev_induct)
  case Nil
  then show ?case by simp
next
  case (snoc q rs)
  obtain p r where q: "q = (p, r)" by (cases q)
  show ?case
  proof (cases "route_matches path p \<and> (\<forall>q\<in>set rs. route_matches path (fst q) \<longrightarrow> length (fst q) \<le> length p)")
    case True
    then have m: "match_loop path (rs @ [q]) None 0 = Some r" by (simp add: q match_loop_snoc)
    have "route_beats path (rs @ [q]) (length rs)"
      using True by (auto simp: route_beats_def q nth_append less_Suc_eq)
    with m True show ?thesis by (auto simp: q intro!: exI [of _ "length rs"])
  next
    case False
    then have m: "match_loop path (rs @ [q]) None 0 = match_loop path rs None 0"
      by (auto simp: q match_loop_snoc)
    have keep: "route_beats path (rs @ [q]) i" if "route_beats path rs i" for i
    proof -
      have "length p < length (fst (rs ! i))" if "route_matches path p"
        using that False \<open>route_beats path rs i\<close>
        by (auto simp: route_beats_def in_set_conv_nth) (metis fst_conv leI le_trans nat_le_linear)
      then show ?thesis using that by (auto simp: route_beats_def q nth_append less_Suc_eq)
    qed
    show ?thesis
    proof (intro conjI allI impI)
      fix r'
      assume "match_loop path (rs @ [q]) None 0 = Some r'"
      with m have "match_loop path rs None 0 = Some r'" by simp
      with snoc.IH obtain i where i: "route_beats path rs i" "snd (rs ! i) = r'" by blast
      then have "snd ((rs @ [q]) ! i) = r'" by (simp add: route_beats_def nth_append)
      with keep [OF i(1)] show "\<exists>i. route_beats path (rs @ [q]) i \<and> snd ((rs @ [q]) ! i) = r'" by blast
    next
      show "match_loop path (rs @ [q]) None 0 = None \<longleftrightarrow> (\<forall>q\<in>set (rs @ [q]). \<not> route_matches path (fst q))"
        using m snoc.IH False by (auto simp: q)
    qed
  qed
qed

section \<open>What a handler can do to the host\<close>

lemma store_last_frame:
  assumes "store_last_req mem h req = (rc, h1)"
  shows "ph_pending h1 = ph_pending h" "ph_active_plugin h1 = ph_active_plugin h"
    "ph_active_inbound_slot h1 = ph_active_inbound_slot h" "ph_active_in_on_http h1 = ph_active_in_on_http h"
    "ph_client_req_started h1 = ph_client_req_started h" "ph_next_outbound_id h1 = ph_next_outbound_id h"
    "rc = 0 \<Longrightarrow> ph_has_last_req h1"
  using assms by (auto simp: store_last_req_def Let_def split: option.splits if_splits)

text \<open>The entry an accepted outbound request leaves.\<close>

definition waits_for :: "plugin_host \<Rightarrow> plugin_host \<Rightarrow> pending_entry \<Rightarrow> bool" where
  "waits_for h0 h e \<longleftrightarrow>
     ph_active_plugin h0 \<noteq> None \<and> pe_plugin e = ph_active_plugin h0 \<and> pe_used e \<and>
     pe_inbound_slot e = ph_active_inbound_slot h0 \<and>
     pe_outbound_id e = ph_last_outbound_id h \<and> ph_last_outbound_id h \<noteq> 0 \<and> ph_has_last_req h \<and>
     pending_map (ph_pending h0) (ph_active_inbound_slot h0) = None \<and>
     pending_map (ph_pending h) = (pending_map (ph_pending h0))(ph_active_inbound_slot h0 \<mapsto> e)"

text \<open>The host \<open>h\<close> a handler can reach from \<open>h0\<close>, where no call was open.\<close>

definition reaches :: "plugin_host \<Rightarrow> plugin_host \<Rightarrow> bool" where
  "reaches h0 h \<longleftrightarrow>
     pending_wf (ph_pending h) \<and> ph_active_plugin h = ph_active_plugin h0 \<and>
     ph_active_inbound_slot h = ph_active_inbound_slot h0 \<and>
     ph_active_in_on_http h = ph_active_in_on_http h0 \<and>
     (if ph_client_req_started h then ph_active_in_on_http h0 \<and> (\<exists>e. waits_for h0 h e)
      else ph_pending h = ph_pending h0)"

lemma client_request_reaches:
  assumes r: "reaches h0 h" and c: "api_http_client_request mem h req = (oid, h')"
  shows "reaches h0 h'"
proof (cases "\<not> ph_active_in_on_http h \<or> ph_active_plugin h = None \<or> ph_client_req_started h \<or>
    edge_pending_full (ph_pending h) \<or> edge_pending_find_inbound (ph_pending h) (ph_active_inbound_slot h) \<noteq> None")
  case True
  then have "h' = h" using c by (auto simp: api_http_client_request_def split: if_splits)
  with r show ?thesis by simp
next
  case open_ok: False
  obtain rc h1 where s: "store_last_req mem h req = (rc, h1)" by (cases "store_last_req mem h req")
  note f = store_last_frame [OF s]
  have ns: "\<not> ph_client_req_started h" and p0: "ph_pending h = ph_pending h0" and wf: "pending_wf (ph_pending h)"
    using r open_ok by (auto simp: reaches_def)
  show ?thesis
  proof (cases "rc = 0")
    case False
    then have "h' = h1"
      using c open_ok s by (simp add: api_http_client_request_def del: not_None_eq)
    with f r p0 show ?thesis by (auto simp: reaches_def ns)
  next
    case True
    define id0 where "id0 = ph_next_outbound_id h1"
    define oid' where "oid' = (if id0 = 0 then id0 + 1 else id0)"
    define h3 where "h3 = (if id0 = 0 then h1\<lparr>ph_next_outbound_id := id0 + 1 + 1\<rparr>
      else h1\<lparr>ph_next_outbound_id := id0 + 1\<rparr>)"
    obtain rc2 t where i: "edge_pending_insert (ph_pending h) (ph_active_inbound_slot h) oid'
        (ph_active_plugin h) (cr_user_tag req) (cr_timeout_ms req) 0 None = (rc2, t)"
      by (cases "edge_pending_insert (ph_pending h) (ph_active_inbound_slot h) oid'
        (ph_active_plugin h) (cr_user_tag req) (cr_timeout_ms req) 0 None")
    have h3: "ph_pending h3 = ph_pending h" "ph_active_plugin h3 = ph_active_plugin h"
      "ph_active_inbound_slot h3 = ph_active_inbound_slot h" "ph_active_in_on_http h3 = ph_active_in_on_http h"
      "ph_client_req_started h3 = ph_client_req_started h" "ph_has_last_req h3"
      using f True by (simp_all add: h3_def)
    have h': "h' = (if rc2 \<noteq> 0 then h3\<lparr>ph_pending := t\<rparr>
        else h3\<lparr>ph_pending := t, ph_client_req_started := True, ph_last_outbound_id := oid'\<rparr>)"
      using c open_ok s True i f
      by (cases "id0 = 0")
        (simp_all add: api_http_client_request_def Let_def id0_def oid'_def h3_def del: not_None_eq split: if_splits)
    show ?thesis
    proof (cases rule: insert_cases [OF wf, of "ph_active_inbound_slot h" oid' "ph_active_plugin h"
          "cr_user_tag req" "cr_timeout_ms req" 0 None, case_names reject accept])
      case reject
      then have "rc2 \<noteq> 0" "t = ph_pending h" using i by auto
      then show ?thesis using h' h3 r p0 by (auto simp: reaches_def ns)
    next
      case (accept k)
      have t: "rc2 = 0" "t = (ph_pending h)\<lparr>pt_slots := (pt_slots (ph_pending h))
          [k := pending_entry_for (ph_active_inbound_slot h) oid' (ph_active_plugin h) (cr_user_tag req)
             (cr_timeout_ms req) 0 None], pt_count := Suc (pt_count (ph_pending h))\<rparr>"
        using i accept(1) by auto
      note a = insert_accept_facts [OF wf accept(2,3,7,8,4,5) t(2)]
      let ?e = "pending_entry_for (ph_active_inbound_slot h) oid' (ph_active_plugin h) (cr_user_tag req)
             (cr_timeout_ms req) 0 None"
      have "waits_for h0 h' ?e"
        using h' t(1) h3 a accept(4,5,7) r p0 by (simp add: waits_for_def reaches_def)
      then show ?thesis
        using h' t(1) h3 a(1) r open_ok by (auto simp: reaches_def)
    qed
  qed
qed

lemma state_put_reaches:
  "reaches h0 h \<Longrightarrow> api_state_put h ns key val = (ok, h') \<Longrightarrow> reaches h0 h'"
proof -
  assume r: "reaches h0 h" and "api_state_put h ns key val = (ok, h')"
  then have "h' = h \<or> (\<exists>st. h' = h\<lparr>ph_state := Some st\<rparr>)"
    by (auto simp: api_state_put_def split: option.splits prod.splits)
  moreover have "waits_for h0 (h\<lparr>ph_state := Some st\<rparr>) = waits_for h0 h" for st
    by (simp add: waits_for_def fun_eq_iff)
  ultimately show "reaches h0 h'" using r by (elim disjE exE) (simp_all add: reaches_def)
qed

lemma handler_reaches:
  "reaches h0 h \<Longrightarrow> reaches h0 (snd (run_handler prog mem h))"
proof (induction prog arbitrary: h)
  case (Done st res u)
  then show ?case by simp
next
  case (ClientRequest req k)
  obtain oid h' where c: "api_http_client_request (mem req) h req = (oid, h')"
    by (cases "api_http_client_request (mem req) h req")
  from ClientRequest.IH [OF rangeI client_request_reaches [OF ClientRequest.prems c]] c show ?case by simp
next
  case (StateGet ns key cap k)
  then show ?case by simp
next
  case (StatePut ns key val k)
  obtain ok h' where c: "api_state_put h ns key val = (ok, h')" by (cases "api_state_put h ns key val")
  from StatePut.IH [OF rangeI state_put_reaches [OF StatePut.prems c]] c show ?case by simp
qed

text \<open>Outside \<open>on_http\<close> a handler leaves the pending table alone.\<close>

lemma handler_idle:
  assumes "pending_wf (ph_pending h)" "\<not> ph_active_in_on_http h"
  shows "ph_pending (snd (run_handler prog mem h)) = ph_pending h"
proof -
  have *: "ph_pending (snd (run_handler prog mem h')) = ph_pending h'" if "\<not> ph_active_in_on_http h'" for h'
    using that
  proof (induction prog arbitrary: h')
    case (StatePut ns key val k)
    obtain ok h1 where c: "api_state_put h' ns key val = (ok, h1)" by (cases "api_state_put h' ns key val")
    then have "\<not> ph_active_in_on_http h1" "ph_pending h1 = ph_pending h'"
      using StatePut.prems by (auto simp: api_state_put_def split: option.splits prod.splits)
    with StatePut.IH [OF rangeI this(1)] c show ?case by simp
  qed (simp_all add: api_http_client_request_def)
  show ?thesis by (rule * [OF assms(2)])
qed

section \<open>Completion\<close>

text \<open>The shape of a completion of a waiting request: the handler runs (or is missing), then
  the entry is released.\<close>

lemma complete_cases:
  assumes wf: "pending_wf (ph_pending h)" and idle: "\<not> ph_active_in_on_http h"
    and c: "edge_plugin_host_complete_outbound mem h env up res = (st, res', h', env')"
  obtains (unknown) "ur_outbound_id up = 0 \<or> pending_ids (ph_pending h) (ur_outbound_id up) = None"
      "st = EDGE_PLUGIN_ERR" "res' = res" "h' = h" "env' = env"
  | (known) i e where "edge_pending_find_outbound (ph_pending h) (ur_outbound_id up) = Some i"
      "pending_ids (ph_pending h) (ur_outbound_id up) = Some e" "e = pt_slots (ph_pending h) ! i"
      "ph_pending h' = edge_pending_release (ph_pending h) (Some i)"
      "st = EDGE_PLUGIN_OK \<or> st = EDGE_PLUGIN_ERR"
proof (cases "edge_pending_find_outbound (ph_pending h) (ur_outbound_id up)")
  case None
  then have "ur_outbound_id up = 0 \<or> pending_ids (ph_pending h) (ur_outbound_id up) = None"
    using find_outbound_None [OF wf] by simp
  moreover have "(st, res', h', env') = (EDGE_PLUGIN_ERR, res, h, env)"
    using c None
    by (cases "ur_outbound_id up = 0") (simp_all add: edge_plugin_host_complete_outbound_def)
  ultimately show ?thesis by (intro unknown) auto
next
  case (Some i)
  note f = find_outbound_Some [OF wf Some]
  let ?h = "Option.bind (pe_plugin (pt_slots (ph_pending h) ! i)) (\<lambda>r. Option.bind (pl_vtbl (env r))
                   (\<lambda>vt. map_option (Pair r) (vt_on_http_complete vt)))"
  have "ph_pending h' = edge_pending_release (ph_pending h) (Some i) \<and> (st = EDGE_PLUGIN_OK \<or> st = EDGE_PLUGIN_ERR)"
  proof (cases ?h)
    case None
    then show ?thesis using c Some f by (auto simp: edge_plugin_host_complete_outbound_def Let_def)
  next
    case (Some q)
    obtain r oc where q: "q = (r, oc)" by (cases q)
    obtain s1 res1 u h1 where run:
      "run_handler (oc (pl_user_data (env r)) up res) mem h = ((s1, res1, u), h1)"
      by (metis prod.exhaust)
    have "ph_pending h1 = ph_pending h"
      using handler_idle [OF wf idle, of "oc (pl_user_data (env r)) up res" mem] run by simp
    with c Some f q run \<open>edge_pending_find_outbound _ _ = Some i\<close> show ?thesis
      by (auto simp: edge_plugin_host_complete_outbound_def Let_def plugin_status split: if_splits)
  qed
  with Some f show ?thesis by (intro known [of i "pt_slots (ph_pending h) ! i"]) auto
qed

lemma dispatch_frame:
  assumes "edge_plugin_host_dispatch_http mem h env r req res = (st, res', h', env')" "h' \<noteq> h"
  shows "\<not> ph_active_in_on_http h'"
  using assms
  by (auto simp: edge_plugin_host_dispatch_http_def Let_def split: option.splits if_splits prod.splits)

text \<open>What a completed request leaves: its entry is gone under both keys.\<close>

lemma released_entry:
  assumes wf: "pending_wf t" and i: "edge_pending_find_outbound t oid = Some i"
  shows "pending_wf (edge_pending_release t (Some i))"
    "pending_map (edge_pending_release t (Some i)) = (pending_map t)(pe_inbound_slot (pt_slots t ! i) := None)"
    "pending_ids (edge_pending_release t (Some i)) oid = None"
  using find_outbound_Some [OF wf i] release_facts [OF wf, of i] by auto

text \<open>The outcomes of a dispatch that reaches the handler.\<close>

lemma dispatch_cases:
  assumes wf: "pending_wf (ph_pending h)"
    and d: "edge_plugin_host_dispatch_http mem h env r req res = (st, res', h', env')"
  obtains (refused) "st = EDGE_PLUGIN_ERR" "h' = h" "env' = env"
  | (ran) h2 where "reaches (h\<lparr>ph_active_plugin := Some r, ph_active_inbound_slot := rq_inbound_slot req,
        ph_active_in_on_http := True, ph_client_req_started := False\<rparr>) h2"
      "h' = h2\<lparr>ph_active_in_on_http := False, ph_active_plugin := None\<rparr> \<or>
       \<not> ph_client_req_started h2 \<and> st = EDGE_PLUGIN_ERR \<and> pending_map (ph_pending h) (rq_inbound_slot req) = None \<and>
       h' = h2\<lparr>ph_active_in_on_http := False, ph_active_plugin := None,
              ph_pending := snd (edge_pending_release_inbound (ph_pending h2) (rq_inbound_slot req))\<rparr>"
      "st = EDGE_PLUGIN_PENDING \<Longrightarrow> ph_client_req_started h2"
      "st \<in> {EDGE_PLUGIN_OK, EDGE_PLUGIN_PENDING, EDGE_PLUGIN_ERR}"
proof (cases "\<exists>vt on_http. pl_vtbl (env r) = Some vt \<and> vt_kind vt = EDGE_PLUGIN_KIND_HTTP \<and>
    vt_on_http vt = Some on_http \<and> edge_pending_find_inbound (ph_pending h) (rq_inbound_slot req) = None")
  case False
  then have "(st, h', env') = (EDGE_PLUGIN_ERR, h, env)"
    using d by (auto simp: edge_plugin_host_dispatch_http_def split: option.splits if_splits)
  then show ?thesis by (intro refused) auto
next
  case True
  then obtain vt on_http where v: "pl_vtbl (env r) = Some vt" "vt_kind vt = EDGE_PLUGIN_KIND_HTTP"
    "vt_on_http vt = Some on_http" "edge_pending_find_inbound (ph_pending h) (rq_inbound_slot req) = None" by blast
  define h1 where "h1 = h\<lparr>ph_active_plugin := Some r, ph_active_inbound_slot := rq_inbound_slot req,
        ph_active_in_on_http := True, ph_client_req_started := False\<rparr>"
  obtain s1 res1 u h2 where run:
    "run_handler (on_http (pl_user_data (env r)) req res) mem h1 = ((s1, res1, u), h2)"
    by (metis prod.exhaust)
  have "reaches h1 h1" using wf by (simp add: reaches_def h1_def)
  then have re: "reaches h1 h2"
    using handler_reaches [of h1 h1 "on_http (pl_user_data (env r)) req res" mem] run by simp
  have none: "pending_map (ph_pending h) (rq_inbound_slot req) = None" using v(4) by (simp add: find_inbound_None)
  from d v run show ?thesis
    by (intro ran [of h2])
      (use re none in \<open>auto simp: edge_plugin_host_dispatch_http_def Let_def h1_def plugin_status split: if_splits\<close>)
qed

section \<open>Properties\<close>

text \<open>Routing. A path goes to the plugin of the longest registered prefix that ends at a
  segment boundary of the path (the last registered one among equals), and to no plugin
  exactly when no prefix matches.\<close>

theorem route_longest_prefix:
  "(case edge_plugin_host_match h (Some path) of
      None \<Rightarrow> \<forall>q\<in>set (ph_routes h). \<not> route_matches path (fst q)
    | Some r \<Rightarrow> \<exists>i. route_beats path (ph_routes h) i \<and> snd (ph_routes h ! i) = r)"
  using match_loop_spec [of path "ph_routes h"]
  by (auto simp: edge_plugin_host_match_def split: option.split)

definition demo_routes :: plugin_host where
  "demo_routes = (the (edge_plugin_host_create True True None))\<lparr>ph_routes := [(''/v1'', 0), (''/v1/chat'', 1), (''/'', 2)]\<rparr>"

theorem route_longest_prefix_witness:
  "edge_plugin_host_match demo_routes (Some ''/v1/chat/x'') = Some 1 \<and>
   (\<exists>i. route_beats ''/v1/chat/x'' (ph_routes demo_routes) i \<and> snd (ph_routes demo_routes ! i) = 1) \<and>
   edge_plugin_host_match demo_routes (Some ''/v1x'') = Some 2"
proof -
  have m: "edge_plugin_host_match demo_routes (Some ''/v1/chat/x'') = Some 1"
    "edge_plugin_host_match demo_routes (Some ''/v1x'') = Some 2"
    by (simp_all add: edge_plugin_host_match_def demo_routes_def route_matches_def)
  then show ?thesis using route_longest_prefix [of demo_routes "''/v1/chat/x''"] by simp
qed

text \<open>C11: The PENDING protocol. Whatever calls a plugin's handler makes, a dispatch keeps the
  pending table well formed, never touches another connection's request, and answers
  PENDING only if exactly one outbound call, with a non-zero id, was registered for this
  connection and plugin; a handler that opened no call leaves the table as it was.\<close>

theorem dispatch_pending_protocol:
  assumes "pending_wf (ph_pending h)"
    and "edge_plugin_host_dispatch_http mem h env r req res = (st, res', h', env')"
  shows "pending_wf (ph_pending h') \<and>
    st \<in> {EDGE_PLUGIN_OK, EDGE_PLUGIN_PENDING, EDGE_PLUGIN_ERR} \<and>
    (pending_map (ph_pending h') = pending_map (ph_pending h) \<and> st \<noteq> EDGE_PLUGIN_PENDING \<or>
     pending_map (ph_pending h) (rq_inbound_slot req) = None \<and>
     (\<exists>e. pending_map (ph_pending h') = (pending_map (ph_pending h))(rq_inbound_slot req \<mapsto> e) \<and>
        pe_plugin e = Some r \<and> pe_outbound_id e = ph_last_outbound_id h' \<and> pe_outbound_id e \<noteq> 0))"
proof (cases rule: dispatch_cases [OF assms, case_names refused ran])
  case refused
  then show ?thesis using assms(1) by (simp add: plugin_status)
next
  case (ran h2)
  show ?thesis
  proof (cases "ph_client_req_started h2")
    case True
    then obtain e where "waits_for (h\<lparr>ph_active_plugin := Some r, ph_active_inbound_slot := rq_inbound_slot req,
        ph_active_in_on_http := True, ph_client_req_started := False\<rparr>) h2 e" "pending_wf (ph_pending h2)"
      using ran(1) by (auto simp: reaches_def)
    with ran(2,4) True show ?thesis by (auto simp: waits_for_def)
  next
    case False
    then have p: "ph_pending h2 = ph_pending h" using ran(1) by (simp add: reaches_def)
    have "ph_pending h' = ph_pending h"
      using ran(2) p by (auto simp: edge_pending_release_inbound_def find_inbound_None [symmetric] split: option.splits)
    with ran(3,4) False assms(1) show ?thesis by (auto simp: plugin_status)
  qed
qed

text \<open>A plugin that relays each request to one upstream, and the host it runs in.\<close>

definition relay_request :: edge_http_client_req where
  "relay_request = \<lparr>cr_method = Some ''POST'', cr_url = Some ''http://up/x'', cr_host = None,
     cr_addr_override = None, cr_hdrs = [], cr_body = [], cr_timeout_ms = 0, cr_user_tag = 7\<rparr>"

definition relay_vtbl :: "unit edge_plugin_vtbl" where
  "relay_vtbl = \<lparr>vt_name = ''relay'', vt_kind = EDGE_PLUGIN_KIND_HTTP, vt_init = None, vt_shutdown = None,
     vt_on_http = Some (\<lambda>u req res. ClientRequest relay_request
        (\<lambda>oid. Done (case oid of None \<Rightarrow> EDGE_PLUGIN_ERR | Some _ \<Rightarrow> EDGE_PLUGIN_PENDING) res u)),
     vt_on_http_complete = Some (\<lambda>u up res. Done EDGE_PLUGIN_OK (res\<lparr>rs_status := ur_status up\<rparr>) u)\<rparr>"

definition relay_env :: "unit plugin_env" where
  "relay_env = (\<lambda>_. \<lparr>pl_vtbl = Some relay_vtbl, pl_user_data = (), pl_host = True\<rparr>)"

definition demo_host :: plugin_host where
  "demo_host = the (edge_plugin_host_create True True (Some (2, None)))"

definition demo_req :: edge_http_req where
  "demo_req = \<lparr>rq_method = ''POST'', rq_path = ''/x'', rq_query = None, rq_hdrs = [], rq_body = [],
     rq_principal = None, rq_inbound_slot = 4\<rparr>"

definition demo_res :: edge_http_res where
  "demo_res = \<lparr>rs_status = 0, rs_reason = [], rs_content_type = [], rs_body = [], rs_cap = Some 256\<rparr>"

lemma demo_host_wf: "pending_wf (ph_pending demo_host)"
proof -
  obtain t where t: "edge_pending_create True 2 = Some t" by (simp add: edge_pending_create_def)
  then have "ph_pending demo_host = t" by (simp add: demo_host_def edge_plugin_host_create_def)
  with create_wf [OF t] show ?thesis by simp
qed

lemma demo_dispatch:
  "(case edge_plugin_host_dispatch_http (\<lambda>_. True) demo_host relay_env 0 demo_req demo_res of
      (st, res, h, env) \<Rightarrow> st = EDGE_PLUGIN_PENDING \<and> ph_last_outbound_id h = 1)"
  by code_simp

theorem dispatch_pending_protocol_witness:
  "\<exists>(h' :: plugin_host) e. fst (edge_plugin_host_dispatch_http (\<lambda>_. True) demo_host relay_env 0 demo_req demo_res) = EDGE_PLUGIN_PENDING \<and>
    pending_map (ph_pending h') = (pending_map (ph_pending demo_host))(4 \<mapsto> e) \<and> pe_outbound_id e = 1"
proof -
  obtain st res' h' env' where
    d: "edge_plugin_host_dispatch_http (\<lambda>_. True) demo_host relay_env 0 demo_req demo_res = (st, res', h', env')"
    by (metis prod.exhaust)
  have "st = EDGE_PLUGIN_PENDING" "ph_last_outbound_id h' = 1"
    using demo_dispatch by (simp_all add: d)
  moreover have "rq_inbound_slot demo_req = 4" by (simp add: demo_req_def)
  ultimately have "\<exists>e. pending_map (ph_pending h') = (pending_map (ph_pending demo_host))(4 \<mapsto> e) \<and> pe_outbound_id e = 1"
    using dispatch_pending_protocol [OF demo_host_wf d] by auto
  with d \<open>st = EDGE_PLUGIN_PENDING\<close> show ?thesis by auto
qed


definition demo_up :: edge_http_client_result where
  "demo_up = \<lparr>ur_outbound_id = 1, ur_user_tag = 0, ur_transport_err = 0, ur_status = 204, ur_hdrs = [], ur_body = []\<rparr>"

definition waiting_host :: plugin_host where
  "waiting_host = fst (snd (snd (edge_plugin_host_dispatch_http (\<lambda>_. True) demo_host relay_env 0 demo_req demo_res)))"


end
