(* ===== verification/Edge_Metrics.thy ===== *)
theory Edge_Metrics
  imports Json_Text
begin

text \<open>
  \<open>src/host/edge_metrics.c\<close>: the counters of the host process and the JSON text that
  \<open>GET /health\<close> answers with. The clock \<open>time(NULL)\<close> is an argument. Counters are 64 bits wide.
\<close>

record edge_metrics =
  em_started_at :: int
  em_accepts :: u64
  em_requests :: u64
  em_responses_2xx :: u64
  em_responses_4xx :: u64
  em_bytes_in :: u64
  em_bytes_out :: u64
  em_active_conns :: u64
  em_rejects :: u64

definition edge_metrics_init :: "int \<Rightarrow> edge_metrics" where
  "edge_metrics_init t =
     \<lparr>em_started_at = t, em_accepts = 0, em_requests = 0, em_responses_2xx = 0, em_responses_4xx = 0,
      em_bytes_in = 0, em_bytes_out = 0, em_active_conns = 0, em_rejects = 0\<rparr>"

definition health_member :: "string \<Rightarrow> string \<Rightarrow> string" where
  "health_member name num = quoted name @ '':'' @ num"

definition health_json :: "int \<Rightarrow> edge_metrics \<Rightarrow> string" where
  "health_json uptime m =
     CHR 0x7B # health_member ''status'' (quoted ''ok'') @ '','' @
     health_member ''uptime_s'' (dec_int uptime) @ '','' @
     health_member ''accepts'' (dec_nat (unat (em_accepts m))) @ '','' @
     health_member ''requests'' (dec_nat (unat (em_requests m))) @ '','' @
     health_member ''responses_2xx'' (dec_nat (unat (em_responses_2xx m))) @ '','' @
     health_member ''responses_4xx'' (dec_nat (unat (em_responses_4xx m))) @ '','' @
     health_member ''bytes_in'' (dec_nat (unat (em_bytes_in m))) @ '','' @
     health_member ''bytes_out'' (dec_nat (unat (em_bytes_out m))) @ '','' @
     health_member ''active_conns'' (dec_nat (unat (em_active_conns m))) @ '','' @
     health_member ''rejects'' (dec_nat (unat (em_rejects m))) @ [CHR 0x7D]"

definition edge_metrics_format_health_json :: "int \<Rightarrow> edge_metrics \<Rightarrow> nat \<Rightarrow> string option" where
  "edge_metrics_format_health_json now m buflen =
     (if buflen < 32 then None
      else
        let uptime = (if now \<ge> em_started_at m then now - em_started_at m else 0);
            text = health_json uptime m
        in if length text \<ge> buflen then None else Some text)"

text \<open>The buffer of 512 bytes that \<open>/health\<close> uses is never too small: the text has 132 fixed
  characters and nine numbers of at most twenty digits.\<close>

lemma u64_digits: "length (dec_nat (unat (x :: u64))) \<le> 20"
proof (rule dec_nat_length)
  have "unat x < 2 ^ 64" using unsigned_less [of x, where ?'a = nat] by simp
  then show "unat x < 10 ^ 20" by simp
qed simp

lemma health_fits:
  assumes "em_started_at m \<ge> 0" and "now < 10 ^ 20"
  shows "edge_metrics_format_health_json now m 512 \<noteq> None"
proof -
  define up where "up = (if now \<ge> em_started_at m then now - em_started_at m else 0)"
  have "0 \<le> up" "nat up < 10 ^ 20" using assms by (auto simp: up_def nat_less_iff)
  then have "length (dec_int up) \<le> 20" using dec_nat_length [of "nat up" 20] by (simp add: dec_int_def)
  then have "length (health_json up m) < 512"
    using u64_digits [of "em_accepts m"] u64_digits [of "em_requests m"]
      u64_digits [of "em_responses_2xx m"] u64_digits [of "em_responses_4xx m"]
      u64_digits [of "em_bytes_in m"] u64_digits [of "em_bytes_out m"]
      u64_digits [of "em_active_conns m"] u64_digits [of "em_rejects m"]
    by (simp add: health_json_def health_member_def quoted_def)
  then show ?thesis by (simp add: edge_metrics_format_health_json_def up_def [symmetric] Let_def not_le)
qed

end
