(* ===== verification/Http1_Response.thy ===== *)
theory Http1_Response
  imports Edge_Metrics Plugin_Api Ws_Accept Static_Files
begin

text \<open>
  The responses of \<open>src/host/edge_http1_serve.c\<close>: the status line, headers and body written
  into the host's output buffer, the error bodies of the state API, static files, and the
  counters. A handler of the program returns -1 (hard error), 0 (not answered) or 1 (a
  response of \<open>*out_len\<close> bytes is in \<open>out\<close>); this is the type \<open>serve_rc\<close>. The functions that
  answer are proved to write only well-framed responses.
\<close>

datatype serve_rc = Hard_Error | Not_Answered | Answered string

text \<open>The header text; \<open>n\<close> is the length of the body.\<close>

definition header_block :: "int \<Rightarrow> string \<Rightarrow> string \<Rightarrow> string \<Rightarrow> nat \<Rightarrow> string" where
  "header_block status reason ctype extra n =
     ''HTTP/1.1 '' @ dec_int status @ '' '' @ reason @ crlf @
     ''Content-Type: '' @ ctype @ crlf @
     ''Content-Length: '' @ dec_nat n @ crlf @ extra @ ''Connection: close'' @ crlf @ crlf"

definition build_response_ex ::
  "nat \<Rightarrow> int \<Rightarrow> string option \<Rightarrow> string option \<Rightarrow> string option \<Rightarrow> string option \<Rightarrow> nat \<Rightarrow> string option" where
  "build_response_ex out_cap status reason ctype extra_headers body body_len0 =
     (if out_cap < 64 then None
      else
        let reason1 = (case reason of None \<Rightarrow> ''OK'' | Some r \<Rightarrow> r);
            ctype1 = (case ctype of None \<Rightarrow> ''text/plain'' | Some c \<Rightarrow> c);
            (body1, body_len) = (case body of None \<Rightarrow> ([], 0) | Some b \<Rightarrow> (b, body_len0));
            extra = (case extra_headers of None \<Rightarrow> [] | Some e \<Rightarrow> e);
            head = header_block status reason1 ctype1 extra body_len
        in if length head \<ge> out_cap then None
           else if body_len > 0 \<and> length head + body_len \<ge> out_cap then None
           else Some (head @ take body_len (body1 @ [nul])))"

definition build_response ::
  "nat \<Rightarrow> int \<Rightarrow> string \<Rightarrow> string \<Rightarrow> string \<Rightarrow> nat \<Rightarrow> string option" where
  "build_response out_cap status reason ctype body body_len =
     build_response_ex out_cap status (Some reason) (Some ctype) None (Some body) body_len"

definition note_response :: "edge_metrics option \<Rightarrow> int \<Rightarrow> edge_metrics option" where
  "note_response m status =
     map_option (\<lambda>m.
       let m1 = m\<lparr>em_requests := em_requests m + 1\<rparr>
       in if status \<ge> 200 \<and> status < 300
          then m1\<lparr>em_responses_2xx := em_responses_2xx m1 + 1\<rparr>
          else if status \<ge> 400 \<and> status < 500
          then m1\<lparr>em_responses_4xx := em_responses_4xx m1 + 1\<rparr>
          else m1) m"

text \<open>What every branch of the program does with a response: a response that does not fit is
  a hard error; one that does is counted.\<close>

definition finish ::
  "string option \<Rightarrow> edge_metrics option \<Rightarrow> int \<Rightarrow> serve_rc \<times> edge_metrics option" where
  "finish built m status =
     (case built of None \<Rightarrow> (Hard_Error, m) | Some out \<Rightarrow> (Answered out, note_response m status))"

definition respond ::
  "edge_metrics option \<Rightarrow> nat \<Rightarrow> int \<Rightarrow> string \<Rightarrow> string \<Rightarrow> string \<Rightarrow> nat \<Rightarrow> serve_rc \<times> edge_metrics option" where
  "respond m out_cap status reason ctype body body_len =
     finish (build_response out_cap status reason ctype body body_len) m status"

definition json_type :: string where "json_type = ''application/json''"

definition respond_json ::
  "edge_metrics option \<Rightarrow> nat \<Rightarrow> int \<Rightarrow> string \<Rightarrow> string \<Rightarrow> nat \<Rightarrow> serve_rc \<times> edge_metrics option" where
  "respond_json m out_cap status reason body body_len =
     respond m out_cap status reason json_type body body_len"

definition deny_unauthorized :: "edge_metrics option \<Rightarrow> nat \<Rightarrow> serve_rc \<times> edge_metrics option" where
  "deny_unauthorized m out_cap =
     respond_json m out_cap 401 ''Unauthorized'' (error_json ''UNAUTHORIZED'')
       (length (error_json ''UNAUTHORIZED''))"

definition deny_forbidden :: "edge_metrics option \<Rightarrow> nat \<Rightarrow> serve_rc \<times> edge_metrics option" where
  "deny_forbidden m out_cap =
     respond_json m out_cap 403 ''Forbidden'' (error_json ''FORBIDDEN'') (length (error_json ''FORBIDDEN''))"

text \<open>Status, reason and body of a state error; bodies are cut at the size of the buffer.\<close>

fun err_to_http :: "edge_state_err \<Rightarrow> nat \<Rightarrow> int \<times> string \<times> string" where
  "err_to_http EDGE_STATE_OK n =
     (200, ''OK'', c_copy n (CHR 0x7B # quoted ''ok'' @ '':true'' @ [CHR 0x7D]))"
| "err_to_http EDGE_STATE_NOT_FOUND n = (404, ''Not Found'', c_copy n (error_json ''NOT_FOUND''))"
| "err_to_http EDGE_STATE_NS_DISABLED n = (403, ''Forbidden'', c_copy n (error_json ''NS_DISABLED''))"
| "err_to_http EDGE_STATE_TOO_LARGE n = (413, ''Payload Too Large'', c_copy n (error_json ''TOO_LARGE''))"
| "err_to_http EDGE_STATE_NS_FULL n = (507, ''Insufficient Storage'', c_copy n (error_json ''NS_FULL''))"
| "err_to_http EDGE_STATE_BAD_KEY n =
     (400, ''Bad Request'', c_copy n (error_json (edge_state_err_name EDGE_STATE_BAD_KEY)))"
| "err_to_http EDGE_STATE_BAD_JSON n =
     (400, ''Bad Request'', c_copy n (error_json (edge_state_err_name EDGE_STATE_BAD_JSON)))"
| "err_to_http EDGE_STATE_BAD_NS n =
     (400, ''Bad Request'', c_copy n (error_json (edge_state_err_name EDGE_STATE_BAD_NS)))"
| "err_to_http _ n = (500, ''Internal Server Error'', c_copy n (error_json ''INTERNAL''))"

definition errbody_size :: nat where "errbody_size = 128"

text \<open>The answer to a failed state operation.\<close>

definition respond_err ::
  "edge_metrics option \<Rightarrow> nat \<Rightarrow> edge_state_err \<Rightarrow> serve_rc \<times> edge_metrics option" where
  "respond_err m out_cap er =
     (case err_to_http er errbody_size of
        (status, reason, body) \<Rightarrow> respond_json m out_cap status reason body (length body))"

definition EDGE_STATIC_MAX_FILE :: nat where "EDGE_STATIC_MAX_FILE = 64 * 1024"
definition hdr_room :: nat where "hdr_room = 256"
definition ctype_size :: nat where "ctype_size = 96"

text \<open>\<open>mem\<close>: the copy of the body can be allocated.\<close>

definition try_static ::
  "file_system \<Rightarrow> bool \<Rightarrow> string option \<Rightarrow> string \<Rightarrow> nat \<Rightarrow> nat \<Rightarrow> string option" where
  "try_static fs mem root url_path max_file0 out_cap =
     (if root = None \<or> root = Some [] \<or> out_cap \<le> hdr_room + 1 then None
      else
        let max_file = (if max_file0 = 0 then EDGE_STATIC_MAX_FILE else max_file0);
            body_cap = min (out_cap - hdr_room) max_file
        in case edge_static_load fs root (Some url_path) body_cap ctype_size of
             None \<Rightarrow> None
           | Some (bytes, ctype) \<Rightarrow>
               if \<not> mem \<and> bytes \<noteq> [] then None
               else build_response out_cap 200 ''OK'' (case ctype of None \<Rightarrow> [] | Some c \<Rightarrow> c)
                      (chars_of bytes) (length bytes))"

section \<open>Framing\<close>

text \<open>A well-framed response: status line, \<open>Content-Length\<close> equal to the number of bytes after
  the blank line.\<close>

definition framed :: "int \<Rightarrow> string \<Rightarrow> string \<Rightarrow> bool" where
  "framed status body out \<longleftrightarrow>
     (\<exists>reason ctype extra. out = header_block status reason ctype extra (length body) @ body)"

text \<open>A response of the program: framed with a status, and inside the buffer.\<close>

definition response_of :: "nat \<Rightarrow> int \<Rightarrow> string \<Rightarrow> bool" where
  "response_of out_cap status out \<longleftrightarrow> length out < out_cap \<and> (\<exists>body. framed status body out)"

lemma build_response_ex_framed:
  assumes "build_response_ex cap status reason ctype extra (Some body) n = Some out"
    and "n \<le> Suc (length body)"
  shows "framed status (take n (body @ [nul])) out \<and> length out < cap"
proof -
  let ?h = "header_block status (case reason of None \<Rightarrow> ''OK'' | Some r \<Rightarrow> r)
    (case ctype of None \<Rightarrow> ''text/plain'' | Some c \<Rightarrow> c) (case extra of None \<Rightarrow> [] | Some e \<Rightarrow> e) n"
  have l: "length (take n (body @ [nul])) = n" using assms(2) by simp
  have o: "out = ?h @ take n (body @ [nul])" and c: "length ?h < cap" "n > 0 \<longrightarrow> length ?h + n < cap"
    using assms(1) by (auto simp add: build_response_ex_def Let_def split: if_splits)
  have "framed status (take n (body @ [nul])) out" unfolding framed_def l o by blast
  moreover have "length out < cap" using c l by (cases "n = 0") (simp_all add: o)
  ultimately show ?thesis by blast
qed

lemma build_response_framed:
  assumes "build_response cap status reason ctype body n = Some out" and "n \<le> Suc (length body)"
  shows "framed status (take n (body @ [nul])) out \<and> length out < cap"
  using assms build_response_ex_framed unfolding build_response_def by blast

text \<open>A response is built exactly when the buffer has room for it.\<close>

lemma build_response_fits:
  assumes "64 \<le> cap"
    and "length (header_block status reason ctype [] n) + n < cap"
  shows "build_response cap status reason ctype body n =
    Some (header_block status reason ctype [] n @ take n (body @ [nul]))"
  using assms by (simp add: build_response_def build_response_ex_def Let_def)

lemma finish_cases:
  assumes "finish built m status = (rc, m')"
  obtains (fail) "built = None" "rc = Hard_Error" "m' = m"
    | (ok) out where "built = Some out" "rc = Answered out" "m' = note_response m status"
  using assms by (auto simp: finish_def split: option.splits)

lemma finish_not_silent [simp]: "fst (finish built m status) \<noteq> Not_Answered"
  by (auto simp: finish_def split: option.split)

lemma respond_not_silent [simp]: "fst (respond m cap status reason ctype body n) \<noteq> Not_Answered"
  by (simp add: respond_def)

lemma respond_json_not_silent [simp]: "fst (respond_json m cap status reason body n) \<noteq> Not_Answered"
  by (simp add: respond_json_def)

lemma respond_framed:
  assumes "fst (respond m cap status reason ctype body n) = Answered out" and "n \<le> Suc (length body)"
  shows "framed status (take n (body @ [nul])) out \<and> length out < cap"
proof -
  from assms(1) have "build_response cap status reason ctype body n = Some out"
    by (auto simp: respond_def finish_def split: option.splits)
  from build_response_framed [OF this assms(2)] show ?thesis .
qed

lemma respond_response:
  assumes "fst (respond m cap status reason ctype body n) = Answered out" and "n \<le> Suc (length body)"
  shows "response_of cap status out"
  using respond_framed [OF assms] by (auto simp: response_of_def)

lemma respond_json_response:
  assumes "fst (respond_json m cap status reason body n) = Answered out" and "n \<le> Suc (length body)"
  shows "response_of cap status out"
  using assms respond_response unfolding respond_json_def by blast

lemma try_static_response:
  assumes "try_static fs mem root url mf cap = Some out"
  shows "response_of cap 200 out"
  using assms build_response_framed
  by (fastforce simp: try_static_def response_of_def Let_def split: if_splits option.splits prod.splits)

lemma deny_response:
  "fst (deny_unauthorized m cap) = Answered out \<Longrightarrow> response_of cap 401 out"
  "fst (deny_forbidden m cap) = Answered out \<Longrightarrow> response_of cap 403 out"
  by (auto simp: deny_unauthorized_def deny_forbidden_def intro: respond_json_response)

text \<open>The status of the answer to a failed state operation.\<close>

definition err_status :: "edge_state_err \<Rightarrow> int" where
  "err_status er = fst (err_to_http er errbody_size)"

lemma respond_err_response:
  "fst (respond_err m cap er) = Answered out \<Longrightarrow> response_of cap (err_status er) out"
  by (auto simp: respond_err_def err_status_def split: prod.splits intro: respond_json_response)

lemma respond_err_not_silent [simp]: "fst (respond_err m cap er) \<noteq> Not_Answered"
  by (simp add: respond_err_def split: prod.split)

text \<open>The status line tells the statuses apart.\<close>

lemma dec_int_inj_pos:
  assumes "0 \<le> a" "0 \<le> b" "dec_int a @ CHR '' '' # s = dec_int b @ CHR '' '' # t"
  shows "a = b"
proof -
  have d: "\<forall>c\<in>set (dec_nat n). is_digit c" for n by (rule dec_nat_digits)
  have nd: "\<not> is_digit (CHR '' '')" by (simp add: is_digit_def)
  have r: "read_digits 0 (dec_nat n @ CHR '' '' # u) = (n, CHR '' '' # u)" for n u
    using read_digits_dec_nat [of 0 n "CHR '' '' # u"] nd by (simp add: read_digits_stop)
  from assms have "dec_nat (nat a) @ CHR '' '' # s = dec_nat (nat b) @ CHR '' '' # t"
    by (simp add: dec_int_def)
  then have "nat a = nat b" using r by (metis prod.inject)
  with assms show ?thesis by simp
qed

lemma header_block_status:
  assumes "header_block a r1 c1 e1 n1 @ b1 = header_block b r2 c2 e2 n2 @ b2" "0 \<le> a" "0 \<le> b"
  shows "a = b"
proof -
  have h: "header_block x r c e n @ y = ''HTTP/1.1 '' @ (dec_int x @ CHR '' '' # (r @ crlf @
     ''Content-Type: '' @ c @ crlf @
     ''Content-Length: '' @ dec_nat n @ crlf @ e @ ''Connection: close'' @ crlf @ crlf @ y))"
    for x r c e n y by (simp add: header_block_def)
  have "\<exists>s t. dec_int a @ CHR '' '' # s = dec_int b @ CHR '' '' # t"
    using assms(1) unfolding h same_append_eq by blast
  then show ?thesis using dec_int_inj_pos [OF assms(2,3)] by blast
qed

lemma response_status:
  assumes "response_of cap a out" "response_of cap b out" "0 \<le> a" "0 \<le> b"
  shows "a = b"
  using assms header_block_status unfolding response_of_def framed_def by metis

end
