(* ===== verification/Http1_Serve.thy ===== *)
theory Http1_Serve
  imports Http1_Response Plugin_Host Notify_Apply
begin

text \<open>
  \<open>src/host/edge_http1_serve.c\<close>: one HTTP/1 connection from the bytes of a request to the bytes
  of a response. The parser \<open>http1\<close> is a library outside the repository and a parameter, as
  are the clock, the file system, the blocking outbound exchange and the allocator; they are
  the fields of \<open>http1_env\<close>. The objects the connection points to without owning them (store,
  hub, plugin host) are fields of its record: the caller hands them in and takes them back.
\<close>

section \<open>The connection and its environment\<close>

datatype http1_event =
    PROTOCOL_EVENT_ERROR
  | HTTP1_EVENT_REQUEST_LINE string string
  | HTTP1_EVENT_HEADERS_COMPLETE
  | HTTP1_EVENT_BODY_CHUNK
  | HTTP1_EVENT_OTHER

record 'p http1_env =
  en_create :: "'p option"
  en_reset :: "'p \<Rightarrow> 'p"
  en_feed_input :: "'p \<Rightarrow> string \<Rightarrow> 'p"
  en_next_event :: "'p \<Rightarrow> (http1_event \<times> 'p) option"
  en_get_header :: "'p \<Rightarrow> string \<Rightarrow> nat \<Rightarrow> string option"
  en_is_websocket_upgrade :: "'p \<Rightarrow> bool"
  en_time :: int
  en_fs :: file_system
  en_exec :: outbound_exec
  en_mem :: bool
  en_mem_req :: "edge_http_client_req \<Rightarrow> bool"
  en_mem_sub :: "nat \<Rightarrow> bool"

record http1_docroot =
  dr_spa_root :: "string option"
  dr_packages_root :: "string option"
  dr_max_file_bytes :: nat

text \<open>\<open>hs_acc\<close> holds the bytes in use of the array \<open>acc\<close>. \<open>hs_same_store\<close> tells that the plugin
  host was configured with the very store the connection points to.\<close>

record ('p, 'u) http1_serve =
  hs_h1 :: 'p
  hs_method :: string
  hs_path :: string
  hs_headers_done :: bool
  hs_done :: bool
  hs_roots :: http1_docroot
  hs_store :: "state_store option"
  hs_hub :: "edge_ws_hub option"
  hs_auth :: "edge_auth_ctx option"
  hs_principal :: edge_principal
  hs_plugins :: "(plugin_host \<times> 'u plugin_env) option"
  hs_same_store :: bool
  hs_allow_blocking_dns :: bool
  hs_max_upstream_body :: nat
  hs_service_api_key :: "string option"
  hs_inbound_slot :: u32
  hs_acc :: string
  hs_content_length :: int
  hs_body_off :: nat
  hs_have_body_off :: bool
  hs_ws_upgrade :: bool
  hs_ws_key :: string
  hs_request_id :: string

definition EDGE_HTTP_ACC_MAX :: nat where "EDGE_HTTP_ACC_MAX = EDGE_STATE_VALUE_MAX + 4096"
definition method_size :: nat where "method_size = 16"
definition path_size :: nat where "path_size = 512"
definition EDGE_AUTH_COOKIE_MAX :: nat where "EDGE_AUTH_COOKIE_MAX = 768"
definition EDGE_AUTH_ROLES_CSV_MAX :: nat where "EDGE_AUTH_ROLES_CSV_MAX = 128"
definition EDGE_AUTH_PROXY_SIG_MAX :: nat where "EDGE_AUTH_PROXY_SIG_MAX = 64"

definition no_docroots :: http1_docroot where
  "no_docroots = \<lparr>dr_spa_root = None, dr_packages_root = None, dr_max_file_bytes = 0\<rparr>"

text \<open>\<open>calloc\<close> leaves every field zero.\<close>

definition edge_http1_serve_create :: "'p http1_env \<Rightarrow> bool \<Rightarrow> ('p, 'u) http1_serve option" where
  "edge_http1_serve_create en mem =
     (if \<not> mem then None
      else map_option (\<lambda>p.
        \<lparr>hs_h1 = p, hs_method = [], hs_path = [], hs_headers_done = False, hs_done = False,
         hs_roots = no_docroots, hs_store = None, hs_hub = None, hs_auth = None,
         hs_principal = edge_principal_clear, hs_plugins = None, hs_same_store = False,
         hs_allow_blocking_dns = False, hs_max_upstream_body = 0, hs_service_api_key = None,
         hs_inbound_slot = 0, hs_acc = [], hs_content_length = -1, hs_body_off = 0,
         hs_have_body_off = False, hs_ws_upgrade = False, hs_ws_key = [], hs_request_id = []\<rparr>)
        (en_create en))"

definition edge_http1_serve_reset :: "'p http1_env \<Rightarrow> ('p, 'u) http1_serve \<Rightarrow> ('p, 'u) http1_serve" where
  "edge_http1_serve_reset en s =
     s\<lparr>hs_h1 := en_reset en (hs_h1 s), hs_method := [], hs_path := [], hs_headers_done := False,
       hs_done := False, hs_acc := [], hs_content_length := -1, hs_body_off := 0,
       hs_have_body_off := False, hs_ws_upgrade := False, hs_ws_key := [], hs_request_id := [],
       hs_principal := edge_principal_clear\<rparr>"

definition edge_http1_serve_set_docroots ::
  "('p, 'u) http1_serve \<Rightarrow> http1_docroot option \<Rightarrow> ('p, 'u) http1_serve" where
  "edge_http1_serve_set_docroots s roots =
     s\<lparr>hs_roots := (case roots of None \<Rightarrow> no_docroots | Some r \<Rightarrow> r)\<rparr>"

definition edge_http1_serve_set_state ::
  "('p, 'u) http1_serve \<Rightarrow> state_store option \<Rightarrow> ('p, 'u) http1_serve" where
  "edge_http1_serve_set_state s st = s\<lparr>hs_store := st\<rparr>"

definition edge_http1_serve_set_ws_hub ::
  "('p, 'u) http1_serve \<Rightarrow> edge_ws_hub option \<Rightarrow> ('p, 'u) http1_serve" where
  "edge_http1_serve_set_ws_hub s hub = s\<lparr>hs_hub := hub\<rparr>"

definition edge_http1_serve_set_auth ::
  "('p, 'u) http1_serve \<Rightarrow> edge_auth_ctx option \<Rightarrow> ('p, 'u) http1_serve" where
  "edge_http1_serve_set_auth s auth = s\<lparr>hs_auth := auth\<rparr>"

definition edge_http1_serve_set_plugin_host ::
  "('p, 'u) http1_serve \<Rightarrow> (plugin_host \<times> 'u plugin_env) option \<Rightarrow> ('p, 'u) http1_serve" where
  "edge_http1_serve_set_plugin_host s ph = s\<lparr>hs_plugins := ph\<rparr>"

definition edge_http1_serve_set_outbound_policy ::
  "('p, 'u) http1_serve \<Rightarrow> bool \<Rightarrow> nat \<Rightarrow> ('p, 'u) http1_serve" where
  "edge_http1_serve_set_outbound_policy s dns max_body =
     s\<lparr>hs_allow_blocking_dns := dns, hs_max_upstream_body := max_body\<rparr>"

definition edge_http1_serve_set_service_api_key ::
  "('p, 'u) http1_serve \<Rightarrow> string option \<Rightarrow> ('p, 'u) http1_serve" where
  "edge_http1_serve_set_service_api_key s k = s\<lparr>hs_service_api_key := k\<rparr>"

definition edge_http1_serve_took_ws_upgrade :: "('p, 'u) http1_serve \<Rightarrow> bool" where
  "edge_http1_serve_took_ws_upgrade s = hs_ws_upgrade s"

section \<open>Paths\<close>

definition path_is_health :: "string \<Rightarrow> bool" where
  "path_is_health path \<longleftrightarrow> path = ''/health'' \<or> starts_with ''/health?'' path"

definition path_is_packages :: "string \<Rightarrow> string option" where
  "path_is_packages path =
     (if starts_with ''/packages/'' path then Some (drop 9 path)
      else if path = ''/packages'' then Some ''/''
      else None)"

definition path_is_lab_login :: "string \<Rightarrow> bool" where
  "path_is_lab_login path \<longleftrightarrow> path = ''/auth/lab-login'' \<or> starts_with ''/auth/lab-login?'' path"

definition path_is_auth_me :: "string \<Rightarrow> bool" where
  "path_is_auth_me path \<longleftrightarrow> path = ''/auth/me'' \<or> starts_with ''/auth/me?'' path"

definition path_is_v1 :: "string \<Rightarrow> bool" where
  "path_is_v1 path \<longleftrightarrow> starts_with ''/v1/'' path \<or> path = ''/v1''"

text \<open>A path of the state API, taken apart: namespace, key (empty for a list), prefix, list?\<close>

record state_path =
  sp_ns :: string
  sp_key :: string
  sp_prefix :: string
  sp_is_list :: bool

definition query_prefix :: "string \<Rightarrow> nat \<Rightarrow> string" where
  "query_prefix q prefix_sz =
     (case c_strstr ''prefix='' q of
        None \<Rightarrow> []
      | Some pr \<Rightarrow> take (prefix_sz - 1) (takeWhile (\<lambda>c. c \<noteq> CHR ''&'') (drop 7 pr)))"

definition path_is_state :: "string \<Rightarrow> nat \<Rightarrow> nat \<Rightarrow> nat \<Rightarrow> state_path option" where
  "path_is_state path ns_sz key_sz prefix_sz =
     (if \<not> starts_with ''/api/v1/state/'' path then None
      else
        let p0 = drop 14 path;
            q = c_strchr (CHR ''?'') p0;
            p = takeWhile (\<lambda>c. c \<noteq> CHR ''?'') p0
        in if length p \<ge> 512 then None
           else case c_strchr (CHR ''/'') p of
             None \<Rightarrow>
               if length p = 0 \<or> length p \<ge> ns_sz then None
               else Some \<lparr>sp_ns = p, sp_key = [],
                          sp_prefix = (case q of None \<Rightarrow> [] | Some t \<Rightarrow> query_prefix t prefix_sz),
                          sp_is_list = True\<rparr>
           | Some slash \<Rightarrow>
               let nlen = length p - length slash; k = tl slash
               in if nlen = 0 \<or> nlen \<ge> ns_sz then None
                  else if length k = 0 \<or> length k \<ge> key_sz then None
                  else Some \<lparr>sp_ns = take nlen p, sp_key = k, sp_prefix = [], sp_is_list = False\<rparr>)"

section \<open>The request body\<close>

fun body_start :: "string \<Rightarrow> nat \<Rightarrow> nat option" where
  "body_start (a # b # c # d # r) i =
     (if a = cr \<and> b = lf \<and> c = cr \<and> d = lf then Some (i + 4)
      else if a = lf \<and> b = lf then Some (i + 2)
      else body_start (b # c # d # r) (i + 1))"
| "body_start _ i = None"

definition mark_body_off :: "('p, 'u) http1_serve \<Rightarrow> ('p, 'u) http1_serve" where
  "mark_body_off s =
     (case body_start (hs_acc s) 0 of
        None \<Rightarrow> s
      | Some off \<Rightarrow> s\<lparr>hs_body_off := off, hs_have_body_off := True\<rparr>)"

definition marked :: "('p, 'u) http1_serve \<Rightarrow> ('p, 'u) http1_serve" where
  "marked s = (if \<not> hs_have_body_off s then mark_body_off s else s)"

definition wait_full_body :: "('p, 'u) http1_serve \<Rightarrow> bool \<times> ('p, 'u) http1_serve" where
  "wait_full_body s =
     (if hs_content_length s \<le> 0 then (True, s)
      else
        let s1 = marked s;
            have_n = (if hs_have_body_off s1 then length (hs_acc s1) - hs_body_off s1 else 0)
        in (have_n \<ge> nat (hs_content_length s1), s1))"

text \<open>The body bytes present, cut at the announced length.\<close>

definition cut_body :: "('p, 'u) http1_serve \<Rightarrow> string" where
  "cut_body s =
     (let b = drop (hs_body_off s) (hs_acc s)
      in if hs_content_length s \<ge> 0 \<and> length b > nat (hs_content_length s)
         then take (nat (hs_content_length s)) b else b)"

definition get_body :: "('p, 'u) http1_serve \<Rightarrow> string \<times> ('p, 'u) http1_serve" where
  "get_body s =
     (let s1 = marked s in (if \<not> hs_have_body_off s1 then [] else cut_body s1, s1))"

section \<open>Access control\<close>

definition auth_enforced :: "('p, 'u) http1_serve \<Rightarrow> bool" where
  "auth_enforced s \<longleftrightarrow> (\<exists>a. hs_auth s = Some a \<and> edge_auth_mode_enforced (ac_mode a))"

lemma auth_enforced_code [code]:
  "auth_enforced s = (case hs_auth s of None \<Rightarrow> False | Some a \<Rightarrow> edge_auth_mode_enforced (ac_mode a))"
  by (simp add: auth_enforced_def split: option.split)

text \<open>\<open>Not_Answered\<close>: the request may go on.\<close>

definition require_rbac ::
  "('p, 'u) http1_serve \<Rightarrow> edge_auth_resource \<Rightarrow> edge_metrics option \<Rightarrow> nat \<Rightarrow>
   serve_rc \<times> edge_metrics option" where
  "require_rbac s res m out_cap =
     (if \<not> auth_enforced s \<or> res = EDGE_RES_NONE then (Not_Answered, m)
      else if \<not> pr_authenticated (hs_principal s) then deny_unauthorized m out_cap
      else if edge_auth_rbac_check (Some (hs_principal s)) res \<noteq> EDGE_AUTH_ALLOW
      then deny_forbidden m out_cap
      else (Not_Answered, m))"

definition notify_state_changed ::
  "(nat \<Rightarrow> bool) \<Rightarrow> ('p, 'u) http1_serve \<Rightarrow> string \<Rightarrow> string \<Rightarrow> string \<Rightarrow> string option \<Rightarrow>
   ('p, 'u) http1_serve" where
  "notify_state_changed mem s ns key op value =
     s\<lparr>hs_hub := map_option (\<lambda>h. snd (edge_ws_hub_broadcast_state_changed mem h (Some ns) (Some key)
                                        (Some op) value (Some (hs_request_id s)))) (hs_hub s)\<rparr>"

end
