(* ===== verification/Http1_Dispatch.thy ===== *)
theory Http1_Dispatch
  imports Http1_Serve
begin

text \<open>
  The routes of \<open>src/host/edge_http1_serve.c\<close>, one definition per handler, and the dispatcher
  that tries them in the order of the code. A handler gets the connection, the counters and
  the size of the output buffer, and gives back its answer with the new connection and
  counters.
\<close>

type_synonym ('p, 'u) served = "serve_rc \<times> ('p, 'u) http1_serve \<times> edge_metrics option"

text \<open>An answer that leaves the connection as it is.\<close>

definition answer_on :: "('p, 'u) http1_serve \<Rightarrow> serve_rc \<times> edge_metrics option \<Rightarrow> ('p, 'u) served" where
  "answer_on s r = (fst r, s, snd r)"

definition method_not_allowed :: "edge_metrics option \<Rightarrow> nat \<Rightarrow> serve_rc \<times> edge_metrics option" where
  "method_not_allowed m cap = respond_json m cap 405 ''Method Not Allowed'' (error_json ''METHOD'') 18"

section \<open>Login and session\<close>

definition set_cookie_text :: "string \<Rightarrow> u32 \<Rightarrow> string" where
  "set_cookie_text cookie ttl =
     ''Set-Cookie: '' @ EDGE_AUTH_COOKIE_NAME @ ''='' @ cookie @
     ''; HttpOnly; Path=/; SameSite=Lax; Max-Age='' @ dec_nat (unat ttl) @ crlf"

definition login_json :: "edge_principal \<Rightarrow> string" where
  "login_json p =
     CHR 0x7B # quoted ''ok'' @ '':true,'' @ quoted ''sub'' @ '':'' @ quoted (pr_sub p) @ '','' @
     quoted ''roles'' @ '':['' @ quoted ''employee'' @ ''],'' @
     quoted ''exp'' @ '':'' @ dec_int (pr_exp p) @ [CHR 0x7D]"

definition dispatch_lab_login ::
  "'p http1_env \<Rightarrow> ('p, 'u) http1_serve \<Rightarrow> edge_metrics option \<Rightarrow> nat \<Rightarrow> ('p, 'u) served" where
  "dispatch_lab_login en s m cap =
     (if \<not> path_is_lab_login (hs_path s) then (Not_Answered, s, m)
      else if hs_method s \<noteq> ''POST'' then answer_on s (method_not_allowed m cap)
      else case hs_auth s of
        None \<Rightarrow> answer_on s (respond_json m cap 503 ''Service Unavailable'' (error_json ''AUTH_DISABLED'') 26)
      | Some auth \<Rightarrow>
          if ac_mode auth \<noteq> EDGE_AUTH_MODE_LAB_PASSWORD
          then answer_on s (respond_json m cap 503 ''Service Unavailable'' (error_json ''AUTH_DISABLED'') 26)
          else
            let (full, s1) = wait_full_body s
            in if \<not> full then (Not_Answered, s1, m)
               else
                 let (body, s2) = get_body s1
                 in case edge_auth_parse_login_password body EDGE_AUTH_PASSWORD_MAX of
                      None \<Rightarrow> answer_on s2 (respond_json m cap 400 ''Bad Request'' (error_json ''BAD_BODY'') 19)
                    | Some password \<Rightarrow>
                        if \<not> edge_auth_password_ok auth (bytes_of password)
                        then answer_on s2 (respond_json m cap 401 ''Unauthorized'' (error_json ''BAD_PASSWORD'') 24)
                        else case edge_auth_session_issue (en_time en) auth (Some ''lab'') EDGE_ROLE_EMPLOYEE
                                    EDGE_AUTH_COOKIE_MAX of
                          None \<Rightarrow>
                            answer_on s2 (respond_json m cap 500 ''Internal Server Error'' (error_json ''SESSION'') 19)
                        | Some (cookie, issued) \<Rightarrow>
                            let s3 = s2\<lparr>hs_principal := issued\<rparr>;
                                ttl = (if ac_session_ttl_s auth \<noteq> 0 then ac_session_ttl_s auth else 28800);
                                set_cookie = set_cookie_text cookie ttl;
                                json = login_json issued
                            in if length set_cookie \<ge> EDGE_AUTH_COOKIE_MAX + 128 then (Hard_Error, s3, m)
                               else if length json \<ge> 256 then (Hard_Error, s3, m)
                               else answer_on s3
                                      (finish (build_response_ex cap 200 (Some ''OK'') (Some json_type)
                                                 (Some set_cookie) (Some json) (length json)) m 200))"

definition me_json :: "edge_principal \<Rightarrow> string" where
  "me_json p =
     CHR 0x7B # quoted ''sub'' @ '':'' @ quoted (pr_sub p) @ '','' @
     quoted ''roles'' @ '':['' @ quoted ''employee'' @
     (if edge_auth_role_has (pr_roles p) EDGE_ROLE_EMPLOYEE_ADMIN then '','' @ quoted ''employee_admin'' else []) @
     ''],'' @ quoted ''exp'' @ '':'' @ dec_int (pr_exp p) @ [CHR 0x7D]"

definition dispatch_auth_me ::
  "('p, 'u) http1_serve \<Rightarrow> edge_metrics option \<Rightarrow> nat \<Rightarrow> ('p, 'u) served" where
  "dispatch_auth_me s m cap =
     (if \<not> path_is_auth_me (hs_path s) then (Not_Answered, s, m)
      else if hs_method s \<noteq> ''GET'' then answer_on s (method_not_allowed m cap)
      else if \<not> pr_authenticated (hs_principal s) then answer_on s (deny_unauthorized m cap)
      else
        let json = me_json (hs_principal s)
        in if length json \<ge> 256 then (Hard_Error, s, m)
           else answer_on s (respond_json m cap 200 ''OK'' json (length json)))"

section \<open>WebSocket upgrade\<close>

definition dispatch_stream ::
  "'p http1_env \<Rightarrow> ('p, 'u) http1_serve \<Rightarrow> edge_metrics option \<Rightarrow> nat \<Rightarrow> ('p, 'u) served" where
  "dispatch_stream en s m cap =
     (if \<not> edge_ws_path_is_stream (Some (hs_path s)) then (Not_Answered, s, m)
      else
        let (gate, m1) = require_rbac s EDGE_RES_WS_STREAM m cap
        in if gate \<noteq> Not_Answered then (gate, s, m1)
           else if hs_method s \<noteq> ''GET'' then answer_on s (method_not_allowed m1 cap)
           else if \<not> en_is_websocket_upgrade en (hs_h1 s) \<or> hs_ws_key s = []
           then answer_on s (respond_json m1 cap 400 ''Bad Request'' (error_json ''WS_UPGRADE_REQUIRED'') 32)
           else case edge_ws_build_101 (Some (hs_ws_key s)) cap of
             None \<Rightarrow>
               answer_on s (respond_json m1 cap 500 ''Internal Server Error'' (error_json ''WS_ACCEPT'') 20)
           | Some out \<Rightarrow>
               (Answered out, s\<lparr>hs_ws_upgrade := True\<rparr>,
                map_option (\<lambda>m. m\<lparr>em_requests := em_requests m + 1,
                                   em_responses_2xx := em_responses_2xx m + 1\<rparr>) m1))"

section \<open>State API\<close>

text \<open>The list of keys as JSON; a key is added while the buffer of 8192 bytes has room for the
  longest one.\<close>

definition listbuf_size :: nat where "listbuf_size = 8192"

fun list_keys :: "string list \<Rightarrow> bool \<Rightarrow> string \<Rightarrow> string" where
  "list_keys [] first buf = buf"
| "list_keys (k # ks) first buf =
     (if length buf + EDGE_STATE_KEY_MAX + 4 < listbuf_size
      then list_keys ks False (buf @ (if first then [] else '','') @ quoted k)
      else buf)"

definition list_json :: "string list \<Rightarrow> string" where
  "list_json ks =
     (let buf = list_keys ks True (CHR 0x7B # quoted ''keys'' @ '':['')
      in if length buf + 2 < listbuf_size then buf @ '']'' @ [CHR 0x7D] else buf)"

definition state_get_list ::
  "('p, 'u) http1_serve \<Rightarrow> state_store \<Rightarrow> state_path \<Rightarrow> edge_metrics option \<Rightarrow> nat \<Rightarrow> ('p, 'u) served" where
  "state_get_list s st sp m cap =
     (case edge_state_list st (Some (sp_ns sp)) (if sp_prefix sp = [] then None else Some (sp_prefix sp)) 64 of
        None \<Rightarrow>
          answer_on s (respond_err m cap
            (if edge_state_ns_enabled st (Some (sp_ns sp)) then EDGE_STATE_BAD_NS else EDGE_STATE_NS_DISABLED))
      | Some ks \<Rightarrow> answer_on s (respond_json m cap 200 ''OK'' (list_json ks) (length (list_json ks))))"

definition state_get_value ::
  "('p, 'u) http1_serve \<Rightarrow> state_store \<Rightarrow> state_path \<Rightarrow> edge_metrics option \<Rightarrow> nat \<Rightarrow> ('p, 'u) served" where
  "state_get_value s st sp m cap =
     (case edge_state_get st (Some (sp_ns sp)) (Some (sp_key sp)) (Some (EDGE_STATE_VALUE_MAX + 1)) of
        (er, out, got) \<Rightarrow>
          if er \<noteq> EDGE_STATE_OK then answer_on s (respond_err m cap er)
          else answer_on s (respond_json m cap 200 ''OK'' (case out of None \<Rightarrow> [] | Some v \<Rightarrow> v)
                              (case got of None \<Rightarrow> 0 | Some n \<Rightarrow> n)))"

definition bad_key :: "edge_metrics option \<Rightarrow> nat \<Rightarrow> serve_rc \<times> edge_metrics option" where
  "bad_key m cap = respond_json m cap 400 ''Bad Request'' (error_json ''BAD_KEY'') 18"

definition no_content :: "edge_metrics option \<Rightarrow> nat \<Rightarrow> serve_rc \<times> edge_metrics option" where
  "no_content m cap = respond_json m cap 204 ''No Content'' [] 0"

definition state_put ::
  "'p http1_env \<Rightarrow> ('p, 'u) http1_serve \<Rightarrow> state_store \<Rightarrow> state_path \<Rightarrow> edge_metrics option \<Rightarrow> nat \<Rightarrow>
   ('p, 'u) served" where
  "state_put en s st sp m cap =
     (if sp_is_list sp \<or> sp_key sp = [] then answer_on s (bad_key m cap)
      else if \<not> hs_have_body_off s then (Not_Answered, s, m)
      else if hs_content_length s \<ge> 0 \<and>
              length (drop (hs_body_off s) (hs_acc s)) < nat (hs_content_length s)
      then (Not_Answered, s, m)
      else
        let body = cut_body s;
            (er, st') = edge_state_put st (Some (sp_ns sp)) (Some (sp_key sp)) (Some body);
            s1 = s\<lparr>hs_store := Some st'\<rparr>
        in if er = EDGE_STATE_OK
           then answer_on (notify_state_changed (en_mem_sub en) s1 (sp_ns sp) (sp_key sp) ''put'' (Some body))
                  (no_content m cap)
           else answer_on s1 (respond_err m cap er))"

definition state_delete ::
  "'p http1_env \<Rightarrow> ('p, 'u) http1_serve \<Rightarrow> state_store \<Rightarrow> state_path \<Rightarrow> edge_metrics option \<Rightarrow> nat \<Rightarrow>
   ('p, 'u) served" where
  "state_delete en s st sp m cap =
     (if sp_is_list sp \<or> sp_key sp = [] then answer_on s (bad_key m cap)
      else
        let (er, st') = edge_state_delete st (Some (sp_ns sp)) (Some (sp_key sp));
            s1 = s\<lparr>hs_store := Some st'\<rparr>
        in if er = EDGE_STATE_OK
           then answer_on (notify_state_changed (en_mem_sub en) s1 (sp_ns sp) (sp_key sp) ''delete'' None)
                  (no_content m cap)
           else answer_on s1 (respond_err m cap er))"

definition state_ns_size :: nat where "state_ns_size = 64"

definition dispatch_state ::
  "'p http1_env \<Rightarrow> ('p, 'u) http1_serve \<Rightarrow> edge_metrics option \<Rightarrow> nat \<Rightarrow> ('p, 'u) served" where
  "dispatch_state en s m cap =
     (case path_is_state (hs_path s) state_ns_size EDGE_STATE_KEY_MAX EDGE_STATE_KEY_MAX of
        None \<Rightarrow> (Not_Answered, s, m)
      | Some sp \<Rightarrow>
          let (gate, m1) = require_rbac s
                (edge_auth_classify (Some (hs_method s)) (Some (hs_path s)) (sp_is_list sp)) m cap
          in if gate \<noteq> Not_Answered then (gate, s, m1)
             else case hs_store s of
               None \<Rightarrow>
                 answer_on s (respond_json m1 cap 503 ''Service Unavailable'' (error_json ''STATE_UNAVAILABLE'') 30)
             | Some st \<Rightarrow>
                 if hs_method s = ''GET'' then
                   (if sp_is_list sp then state_get_list s st sp m1 cap else state_get_value s st sp m1 cap)
                 else if hs_method s = ''PUT'' then state_put en s st sp m1 cap
                 else if hs_method s = ''DELETE'' then state_delete en s st sp m1 cap
                 else answer_on s (method_not_allowed m1 cap))"

section \<open>Plugin routes\<close>

definition lab_employee :: edge_principal where
  "lab_employee = edge_principal_clear\<lparr>pr_authenticated := True, pr_sub := ''lab'', pr_roles := EDGE_ROLE_EMPLOYEE\<rparr>"

text \<open>The store the host and the connection share is one object.\<close>

definition lend_store :: "('p, 'u) http1_serve \<Rightarrow> plugin_host \<Rightarrow> plugin_host" where
  "lend_store s ph = (if hs_same_store s then ph\<lparr>ph_state := hs_store s\<rparr> else ph)"

definition return_store :: "plugin_host \<Rightarrow> ('p, 'u) http1_serve \<Rightarrow> ('p, 'u) http1_serve" where
  "return_store ph s = (if hs_same_store s then s\<lparr>hs_store := ph_state ph\<rparr> else s)"

definition call_plugin ::
  "'p http1_env \<Rightarrow> ('p, 'u) http1_serve \<Rightarrow> plugin_host \<Rightarrow> 'u plugin_env \<Rightarrow> plugin_ref \<Rightarrow>
   edge_metrics option \<Rightarrow> nat \<Rightarrow> ('p, 'u) served" where
  "call_plugin en s ph env pl m cap =
     (let pcap0 = (if hs_max_upstream_body s \<noteq> 0 then hs_max_upstream_body s else 256 * 1024);
          pcap = (if pcap0 < 65536 then 65536 else pcap0)
      in if \<not> en_mem en then (Hard_Error, s, m)
         else
           let (body, s1) = get_body s;
               preq = \<lparr>rq_method = hs_method s1, rq_path = hs_path s1, rq_query = None, rq_hdrs = [],
                       rq_body = body, rq_principal = Some (hs_principal s1),
                       rq_inbound_slot = hs_inbound_slot s1\<rparr>;
               pres = \<lparr>rs_status = 0, rs_reason = [], rs_content_type = [], rs_body = [], rs_cap = Some pcap\<rparr>;
               (pst, res, ph1, env1) =
                 edge_plugin_host_dispatch_http (en_mem_req en) (lend_store s1 ph) env pl preq pres;
               (pst2, res2, ph2, env2) =
                 (if pst = EDGE_PLUGIN_PENDING
                  then edge_plugin_host_finish_pending_sync (en_exec en) (en_mem en) (en_mem_req en) ph1 env1
                         (hs_allow_blocking_dns s1) (hs_max_upstream_body s1) res
                  else (pst, res, ph1, env1));
               status = (if rs_status res2 = 0 then if pst2 = EDGE_PLUGIN_OK then 200 else 500
                         else rs_status res2);
               s2 = return_store ph2 (s1\<lparr>hs_plugins := Some (ph2, env2)\<rparr>)
           in answer_on s2
                (respond m cap status (if rs_reason res2 = [] then ''OK'' else rs_reason res2)
                   (if rs_content_type res2 = [] then json_type else rs_content_type res2)
                   (rs_body res2) (length (rs_body res2))))"

definition dispatch_plugins ::
  "'p http1_env \<Rightarrow> ('p, 'u) http1_serve \<Rightarrow> edge_metrics option \<Rightarrow> nat \<Rightarrow> ('p, 'u) served" where
  "dispatch_plugins en s m cap =
     (case hs_plugins s of
        None \<Rightarrow> (Not_Answered, s, m)
      | Some (ph, env) \<Rightarrow>
          if \<not> path_is_v1 (hs_path s) then (Not_Answered, s, m)
          else case edge_plugin_host_match ph (Some (hs_path s)) of
            None \<Rightarrow> answer_on s (respond_json m cap 404 ''Not Found'' (error_json ''NOT_FOUND'') 20)
          | Some pl \<Rightarrow>
              if \<not> auth_enforced s
              then call_plugin en (s\<lparr>hs_principal := lab_employee\<rparr>) ph env pl m cap
              else
                let (gate, m1) = require_rbac s EDGE_RES_OPENAI m cap
                in if gate \<noteq> Not_Answered then (gate, s, m1) else call_plugin en s ph env pl m1 cap)"

section \<open>Health, packages and the single page application\<close>

definition dispatch_health ::
  "'p http1_env \<Rightarrow> ('p, 'u) http1_serve \<Rightarrow> edge_metrics option \<Rightarrow> nat \<Rightarrow> ('p, 'u) served" where
  "dispatch_health en s m cap =
     (case edge_metrics_format_health_json (en_time en)
             (case m of None \<Rightarrow> edge_metrics_init (en_time en) | Some mm \<Rightarrow> mm) 512 of
        None \<Rightarrow> answer_on s (respond m cap 500 ''Internal Server Error'' ''text/plain'' (''metrics error'' @ [lf]) 14)
      | Some json \<Rightarrow> answer_on s (respond_json m cap 200 ''OK'' json (length json)))"

definition not_found_text :: "edge_metrics option \<Rightarrow> nat \<Rightarrow> serve_rc \<times> edge_metrics option" where
  "not_found_text m cap = respond m cap 404 ''Not Found'' ''text/plain'' (''not found'' @ [lf]) 10"

definition max_file_of :: "('p, 'u) http1_serve \<Rightarrow> nat" where
  "max_file_of s =
     (if dr_max_file_bytes (hs_roots s) \<noteq> 0 then dr_max_file_bytes (hs_roots s) else EDGE_STATIC_MAX_FILE)"

definition dispatch_packages ::
  "'p http1_env \<Rightarrow> ('p, 'u) http1_serve \<Rightarrow> string \<Rightarrow> edge_metrics option \<Rightarrow> nat \<Rightarrow> ('p, 'u) served" where
  "dispatch_packages en s suffix m cap =
     (let (gate, m1) = require_rbac s EDGE_RES_PACKAGES m cap
      in if gate \<noteq> Not_Answered then (gate, s, m1)
         else case try_static (en_fs en) (en_mem en) (dr_packages_root (hs_roots s)) suffix (max_file_of s) cap of
           Some out \<Rightarrow> (Answered out, s, note_response m1 200)
         | None \<Rightarrow> answer_on s (not_found_text m1 cap))"

definition dispatch_spa ::
  "'p http1_env \<Rightarrow> ('p, 'u) http1_serve \<Rightarrow> edge_metrics option \<Rightarrow> nat \<Rightarrow> ('p, 'u) served" where
  "dispatch_spa en s m cap =
     (let root = dr_spa_root (hs_roots s) in
      if root \<noteq> None \<and> root \<noteq> Some []
      then let url = (if hs_path s = [] then ''/'' else hs_path s)
           in case try_static (en_fs en) (en_mem en) root url (max_file_of s) cap of
                Some out \<Rightarrow> (Answered out, s, note_response m 200)
              | None \<Rightarrow>
                  (case (if url = ''/'' then None
                         else try_static (en_fs en) (en_mem en) root ''/index.html'' (max_file_of s) cap) of
                     Some out \<Rightarrow> (Answered out, s, note_response m 200)
                   | None \<Rightarrow> answer_on s (not_found_text m cap))
      else if hs_path s = [] \<or> hs_path s = ''/''
      then answer_on s (respond m cap 200 ''OK'' ''text/plain'' (''ok'' @ [lf]) 3)
      else answer_on s (not_found_text m cap))"

section \<open>The dispatcher\<close>

text \<open>A handler that does not answer passes the request to the next one.\<close>

definition or_else ::
  "('p, 'u) served \<Rightarrow> (('p, 'u) http1_serve \<Rightarrow> edge_metrics option \<Rightarrow> ('p, 'u) served) \<Rightarrow> ('p, 'u) served" where
  "or_else r f = (case r of (rc, s, m) \<Rightarrow> if rc = Not_Answered then f s m else (rc, s, m))"

text \<open>The part after the API routes: only GET is served.\<close>

definition dispatch_get ::
  "'p http1_env \<Rightarrow> ('p, 'u) http1_serve \<Rightarrow> edge_metrics option \<Rightarrow> nat \<Rightarrow> ('p, 'u) served" where
  "dispatch_get en s m cap =
     (if hs_method s \<noteq> [] \<and> hs_method s \<noteq> ''GET''
      then answer_on s (respond m cap 405 ''Method Not Allowed'' ''text/plain'' (''method not allowed'' @ [lf]) 19)
      else if path_is_health (hs_path s) then dispatch_health en s m cap
      else case path_is_packages (hs_path s) of
        Some suffix \<Rightarrow> dispatch_packages en s suffix m cap
      | None \<Rightarrow> dispatch_spa en s m cap)"

definition dispatch ::
  "'p http1_env \<Rightarrow> ('p, 'u) http1_serve \<Rightarrow> edge_metrics option \<Rightarrow> nat \<Rightarrow> ('p, 'u) served" where
  "dispatch en s m cap =
     or_else (dispatch_lab_login en s m cap) (\<lambda>s m.
     or_else (dispatch_auth_me s m cap) (\<lambda>s m.
     or_else (dispatch_plugins en s m cap) (\<lambda>s m.
     or_else (if edge_ws_path_is_stream (Some (hs_path s)) then dispatch_stream en s m cap
              else (Not_Answered, s, m)) (\<lambda>s m.
     or_else (if starts_with ''/api/v1/state/'' (hs_path s) then dispatch_state en s m cap
              else (Not_Answered, s, m)) (\<lambda>s m.
     dispatch_get en s m cap)))))"

section \<open>Feeding bytes\<close>

text \<open>The principal of a request: a session cookie in the password mode, signed headers in the
  proxy mode, and a service key when neither authenticated.\<close>

definition ladder_principal :: "'p http1_env \<Rightarrow> 'p \<Rightarrow> edge_auth_ctx option \<Rightarrow> edge_principal" where
  "ladder_principal en h1 auth =
     (let get = en_get_header en h1 in
      case auth of
        None \<Rightarrow> edge_principal_clear
      | Some a \<Rightarrow>
          (case (if ac_mode a = EDGE_AUTH_MODE_LAB_PASSWORD
                 then Option.bind (get ''Cookie'' 768)
                        (\<lambda>hdr. edge_auth_cookie_extract (Some hdr) EDGE_AUTH_COOKIE_MAX)
                 else None) of
             Some cookie \<Rightarrow>
               (case edge_auth_session_verify (en_time en) a cookie of
                  None \<Rightarrow> edge_principal_clear | Some p \<Rightarrow> p)
           | None \<Rightarrow>
               if ac_mode a = EDGE_AUTH_MODE_PROXY_HEADERS
               then
                 (case (get ''X-User'' EDGE_AUTH_SUB_MAX, get ''X-Auth-Timestamp'' 32,
                        get ''X-Auth-Signature'' EDGE_AUTH_PROXY_SIG_MAX) of
                    (Some user, Some ts, Some sig) \<Rightarrow>
                      let roles = (case get ''X-Roles'' EDGE_AUTH_ROLES_CSV_MAX of None \<Rightarrow> [] | Some r \<Rightarrow> r)
                      in (case edge_auth_proxy_verify (en_time en) a (Some user)
                                 (if roles = [] then None else Some roles) (Some ts) (Some sig) of
                            None \<Rightarrow> edge_principal_clear | Some p \<Rightarrow> p)
                  | _ \<Rightarrow> edge_principal_clear)
               else edge_principal_clear))"

definition bearer_ok :: "'p http1_env \<Rightarrow> 'p \<Rightarrow> string option \<Rightarrow> bool" where
  "bearer_ok en h1 key =
     (case key of
        None \<Rightarrow> False
      | Some k \<Rightarrow> k \<noteq> [] \<and>
          (case en_get_header en h1 ''Authorization'' 384 of
             None \<Rightarrow> False
           | Some authz \<Rightarrow> starts_with ''Bearer '' authz \<and> drop 7 authz = k))"

definition request_principal :: "'p http1_env \<Rightarrow> 'p \<Rightarrow> edge_auth_ctx option \<Rightarrow> string option \<Rightarrow> edge_principal" where
  "request_principal en h1 auth key =
     (let p = ladder_principal en h1 auth
      in if \<not> pr_authenticated p \<and> bearer_ok en h1 key
         then p\<lparr>pr_authenticated := True, pr_sub := ''service'', pr_roles := EDGE_ROLE_SERVICE_OPENAI\<rparr>
         else p)"

definition header_request_id ::
  "'p http1_env \<Rightarrow> 'p \<Rightarrow> edge_ws_hub option \<Rightarrow> string \<times> edge_ws_hub option" where
  "header_request_id en h1 hub =
     (case en_get_header en h1 ''X-Request-Id'' EDGE_WS_REQUEST_ID of
        Some (c # cs) \<Rightarrow> (c_copy EDGE_WS_REQUEST_ID (c # cs), hub)
      | _ \<Rightarrow>
          (case hub of
             None \<Rightarrow> (''eh0'', None)
           | Some h \<Rightarrow>
               (case edge_ws_hub_mint_request_id (Some h) None EDGE_WS_REQUEST_ID of
                  (rid, h') \<Rightarrow> (case rid of None \<Rightarrow> [] | Some r \<Rightarrow> r, h'))))"

definition on_headers_complete :: "'p http1_env \<Rightarrow> ('p, 'u) http1_serve \<Rightarrow> ('p, 'u) http1_serve" where
  "on_headers_complete en s =
     (let s1 = mark_body_off (s\<lparr>hs_headers_done := True\<rparr>);
          get = en_get_header en (hs_h1 s1);
          cl = (case get ''Content-Length'' 32 of
                  None \<Rightarrow> 0
                | Some t \<Rightarrow> (case c_strtoll t of None \<Rightarrow> 0 | Some (v, _) \<Rightarrow> v));
          key = (case get ''Sec-WebSocket-Key'' EDGE_WS_KEY_MAX of None \<Rightarrow> [] | Some k \<Rightarrow> k);
          (rid, hub) = header_request_id en (hs_h1 s1) (hs_hub s1)
      in s1\<lparr>hs_content_length := cl, hs_ws_key := key, hs_request_id := rid, hs_hub := hub,
            hs_principal := request_principal en (hs_h1 s1) (hs_auth s1) (hs_service_api_key s1)\<rparr>)"

fun on_event :: "'p http1_env \<Rightarrow> http1_event \<Rightarrow> ('p, 'u) http1_serve \<Rightarrow> ('p, 'u) http1_serve" where
  "on_event en (HTTP1_EVENT_REQUEST_LINE meth path) s =
     s\<lparr>hs_method := c_copy method_size meth, hs_path := c_copy path_size path\<rparr>"
| "on_event en HTTP1_EVENT_HEADERS_COMPLETE s = on_headers_complete en s"
| "on_event en _ s = s"

text \<open>The loop over the parser's events; the flag is \<open>bad\<close>. Whether it ends is up to the
  parser, so it may have no result.\<close>

partial_function (option) drain_events ::
  "'p http1_env \<Rightarrow> ('p, 'u) http1_serve \<Rightarrow> (bool \<times> ('p, 'u) http1_serve) option" where
  "drain_events en s =
     (case en_next_event en (hs_h1 s) of
        None \<Rightarrow> Some (False, s)
      | Some (ev, h1) \<Rightarrow>
          if ev = PROTOCOL_EVENT_ERROR then Some (True, s\<lparr>hs_h1 := h1\<rparr>)
          else drain_events en (on_event en ev (s\<lparr>hs_h1 := h1\<rparr>)))"

text \<open>An answered request closes the connection's turn.\<close>

definition mark_done :: "('p, 'u) served \<Rightarrow> ('p, 'u) served" where
  "mark_done r =
     (case r of
        (Answered out, s, m) \<Rightarrow> (Answered out, s\<lparr>hs_done := True\<rparr>, m)
      | _ \<Rightarrow> r)"

definition feed_events ::
  "'p http1_env \<Rightarrow> bool \<times> ('p, 'u) http1_serve \<Rightarrow> edge_metrics option \<Rightarrow> nat \<Rightarrow> ('p, 'u) served" where
  "feed_events en r m cap =
     (case r of (bad, s) \<Rightarrow>
        if bad
        then mark_done (answer_on s (respond m cap 400 ''Bad Request'' ''text/plain'' (''bad request'' @ [lf]) 12))
        else if \<not> hs_headers_done s then (Not_Answered, s, m)
        else
          let (full, s1) = (if (hs_method s = ''PUT'' \<or> hs_method s = ''POST'') \<and> hs_content_length s > 0
                            then wait_full_body s else (True, s))
          in if \<not> full then (Not_Answered, s1, m) else mark_done (dispatch en s1 m cap))"

definition edge_http1_serve_feed ::
  "'p http1_env \<Rightarrow> ('p, 'u) http1_serve \<Rightarrow> string \<Rightarrow> edge_metrics option \<Rightarrow> nat \<Rightarrow>
   ('p, 'u) served option" where
  "edge_http1_serve_feed en s data m cap =
     (if hs_done s then Some (Hard_Error, s, m)
      else if data = [] then Some (Not_Answered, s, m)
      else
        let m1 = map_option (\<lambda>m. m\<lparr>em_bytes_in := em_bytes_in m + of_nat (length data)\<rparr>) m
        in if length (hs_acc s) + length data > EDGE_HTTP_ACC_MAX
           then Some (mark_done (answer_on s
                  (respond m1 cap 413 ''Payload Too Large'' ''text/plain'' (''request too large'' @ [lf]) 18)))
           else
             let s1 = s\<lparr>hs_acc := hs_acc s @ data, hs_h1 := en_feed_input en (hs_h1 s) data\<rparr>
             in map_option (\<lambda>r. feed_events en r m1 cap) (drain_events en s1))"

end
