(* ===== verification/Http1_Framing.thy ===== *)
theory Http1_Framing
  imports Http1_Dispatch State_Spec
begin

text \<open>
  What every answer of the HTTP/1 server has in common: it fits the output buffer and its
  \<open>Content-Length\<close> is the number of its body bytes, on every route and every error path. The
  feeding loop returns whenever the parser runs out of events, and answers at most once.
\<close>

lemma answer_on_simps [simp]:
  "fst (answer_on s r) = fst r" "fst (snd (answer_on s r)) = s" "snd (snd (answer_on s r)) = snd r"
  by (simp_all add: answer_on_def)

lemma length_error_json [simp]: "length (error_json c) = length c + 12"
  by (simp add: error_json_def quoted_def)

definition good_answer :: "nat \<Rightarrow> serve_rc \<Rightarrow> bool" where
  "good_answer cap rc \<longleftrightarrow>
     (case rc of
        Answered out \<Rightarrow>
          (\<exists>status. response_of cap status out) \<or> (\<exists>key. edge_ws_build_101 key cap = Some out)
      | _ \<Rightarrow> True)"

lemma good_trivial [simp]: "good_answer cap Hard_Error" "good_answer cap Not_Answered"
  by (simp_all add: good_answer_def)

lemma good_response [simp]: "response_of cap status out \<Longrightarrow> good_answer cap (Answered out)"
  by (auto simp: good_answer_def)

lemma good_upgrade [simp]: "edge_ws_build_101 key cap = Some out \<Longrightarrow> good_answer cap (Answered out)"
  by (auto simp: good_answer_def)

lemma good_static [simp]: "try_static fs mem root url mf cap = Some out \<Longrightarrow> good_answer cap (Answered out)"
  by (rule good_response, rule try_static_response)

lemma good_from: "(\<And>out. rc = Answered out \<Longrightarrow> response_of cap status out) \<Longrightarrow> good_answer cap rc"
  by (cases rc) auto

lemma good_respond [simp]: "n \<le> Suc (length body) \<Longrightarrow> good_answer cap (fst (respond m cap status reason ctype body n))"
  by (rule good_from, rule respond_response)

lemma good_respond_json [simp]:
  "n \<le> Suc (length body) \<Longrightarrow> good_answer cap (fst (respond_json m cap status reason body n))"
  by (simp add: respond_json_def)

lemma good_respond_err [simp]: "good_answer cap (fst (respond_err m cap er))"
  by (rule good_from, rule respond_err_response)

lemma good_deny [simp]:
  "good_answer cap (fst (deny_unauthorized m cap))" "good_answer cap (fst (deny_forbidden m cap))"
  by (simp_all add: deny_unauthorized_def deny_forbidden_def)

lemma good_finish_ex [simp]:
  "n \<le> Suc (length body) \<Longrightarrow>
   good_answer cap (fst (finish (build_response_ex cap status reason ctype extra (Some body) n) m st))"
  by (auto simp: finish_def response_of_def split: option.split dest!: build_response_ex_framed
      intro!: good_response [of cap status])

lemma good_gate [simp]: "good_answer cap (fst (require_rbac s res m cap))"
  by (simp add: require_rbac_def)

lemma good_method [simp]: "good_answer cap (fst (method_not_allowed m cap))"
  by (simp add: method_not_allowed_def)

lemma good_small [simp]:
  "good_answer cap (fst (bad_key m cap))" "good_answer cap (fst (no_content m cap))"
  "good_answer cap (fst (not_found_text m cap))"
  by (simp_all add: bad_key_def no_content_def not_found_text_def)

lemma gate_cases: "require_rbac s res m cap = (gate, m1) \<Longrightarrow> good_answer cap gate"
  by (metis fst_conv good_gate)

lemma good_login [simp]: "good_answer cap (fst (dispatch_lab_login en s m cap))"
  by (auto simp: dispatch_lab_login_def Let_def split: option.splits prod.splits)

lemma good_me [simp]: "good_answer cap (fst (dispatch_auth_me s m cap))"
  by (auto simp: dispatch_auth_me_def Let_def)

lemma good_stream [simp]: "good_answer cap (fst (dispatch_stream en s m cap))"
  by (auto simp: dispatch_stream_def Let_def split: option.splits prod.splits dest: gate_cases)

text \<open>Values of the store fit the buffer they are read into.\<close>

definition values_bounded :: "state_store \<Rightarrow> bool" where
  "values_bounded st \<longleftrightarrow> store_wf st \<and> st_max_value st \<le> EDGE_STATE_VALUE_MAX"

lemma view_bounded:
  assumes "values_bounded st" "store_view st ns = Some (en, kv)" "kv k = Some v"
  shows "length v \<le> EDGE_STATE_VALUE_MAX"
proof -
  from assms(2) obtain n where n: "slot_map ns_registered ns_name (st_ns st) ns = Some n" "kv = ns_kv n"
    by (auto simp: store_view_def ns_view_def)
  from slot_map_SomeD [OF n(1)] assms(1) have wf: "ns_wf (st_max_keys st) (st_max_value st) n"
    by (auto simp: values_bounded_def store_wf_def)
  from assms(3) n(2) obtain e where e: "slot_map se_used se_key (ns_entries n) k = Some e" "v = se_value e"
    by (auto simp: ns_kv_def)
  from slot_map_SomeD [OF e(1)] wf have "length v \<le> st_max_value st"
    by (auto simp: ns_wf_def entry_ok_def e(2))
  with assms(1) show ?thesis by (simp add: values_bounded_def)
qed

lemma bounded_get:
  assumes "values_bounded st"
  shows "edge_state_get st (Some ns) (Some k) (Some (EDGE_STATE_VALUE_MAX + 1)) =
    (case spec_get (store_view st) ns k of
       (er, None) \<Rightarrow> (er, None, None) | (er, Some v) \<Rightarrow> (er, Some v, Some (length v)))"
proof -
  have "store_wf st" using assms by (simp add: values_bounded_def)
  moreover have "length v \<le> EDGE_STATE_VALUE_MAX" if "spec_get (store_view st) ns k = (er, Some v)" for er v
    using that view_bounded [OF assms] by (auto simp: spec_get_def split: option.splits if_splits)
  ultimately show ?thesis by (auto simp: get_refines split: prod.split option.split)
qed

lemma good_get_value:
  assumes "values_bounded st"
  shows "good_answer cap (fst (state_get_value s st sp m cap))"
  by (auto simp: state_get_value_def bounded_get [OF assms, simplified]
      split: prod.splits option.splits)

lemma good_state_rest [simp]:
  "good_answer cap (fst (state_get_list s st sp m cap))"
  "good_answer cap (fst (state_put en s st sp m cap))"
  "good_answer cap (fst (state_delete en s st sp m cap))"
  by (auto simp: state_get_list_def state_put_def state_delete_def Let_def split: option.split prod.split)

definition store_bounded :: "('p, 'u) http1_serve \<Rightarrow> bool" where
  "store_bounded s \<longleftrightarrow> (case hs_store s of None \<Rightarrow> True | Some st \<Rightarrow> values_bounded st)"

lemma good_state:
  assumes "store_bounded s"
  shows "good_answer cap (fst (dispatch_state en s m cap))"
proof (cases "hs_store s")
  case None
  then show ?thesis by (auto simp: dispatch_state_def Let_def split: option.splits prod.splits dest: gate_cases)
next
  case (Some st)
  with assms have "values_bounded st" by (simp add: store_bounded_def)
  note g = good_get_value [OF this]
  from Some show ?thesis
    by (auto simp: dispatch_state_def Let_def g split: option.splits prod.splits dest: gate_cases)
qed

lemma good_call [simp]: "good_answer cap (fst (call_plugin en s ph env pl m cap))"
  unfolding call_plugin_def Let_def split_beta
  by (simp del: split_paired_All split_paired_Ex)

lemma good_plugins [simp]: "good_answer cap (fst (dispatch_plugins en s m cap))"
proof (cases "hs_plugins s")
  case None
  then show ?thesis by (simp add: dispatch_plugins_def)
next
  case (Some x)
  obtain ph env where x: "x = (ph, env)" by fastforce
  show ?thesis
    unfolding dispatch_plugins_def Some x option.case prod.case Let_def split_beta
    by (simp split: option.split)
qed

lemma good_health [simp]: "good_answer cap (fst (dispatch_health en s m cap))"
  unfolding dispatch_health_def by (simp split: option.split)

lemma good_packages [simp]: "good_answer cap (fst (dispatch_packages en s suffix m cap))"
  unfolding dispatch_packages_def Let_def split_beta by (simp split: option.split)

lemma good_spa [simp]: "good_answer cap (fst (dispatch_spa en s m cap))"
  unfolding dispatch_spa_def Let_def by (simp split: option.split)

lemma good_get [simp]: "good_answer cap (fst (dispatch_get en s m cap))"
  unfolding dispatch_get_def by (simp split: option.split)

section \<open>The routes of a request\<close>

lemma mark_body_off_simps [simp]:
  "hs_store (mark_body_off s) = hs_store s" "hs_hub (mark_body_off s) = hs_hub s"
  "hs_plugins (mark_body_off s) = hs_plugins s" "hs_auth (mark_body_off s) = hs_auth s"
  "hs_principal (mark_body_off s) = hs_principal s" "hs_method (mark_body_off s) = hs_method s"
  "hs_path (mark_body_off s) = hs_path s" "hs_ws_upgrade (mark_body_off s) = hs_ws_upgrade s"
  "hs_same_store (mark_body_off s) = hs_same_store s" "hs_h1 (mark_body_off s) = hs_h1 s"
  "hs_done (mark_body_off s) = hs_done s" "hs_request_id (mark_body_off s) = hs_request_id s"
  "auth_enforced (mark_body_off s) = auth_enforced s"
  by (simp_all add: mark_body_off_def auth_enforced_def split: option.split)

text \<open>Looking for the body changes nothing else.\<close>

definition same_request :: "('p, 'u) http1_serve \<Rightarrow> ('p, 'u) http1_serve \<Rightarrow> bool" where
  "same_request s s0 \<longleftrightarrow> s0 = s \<or> s0 = mark_body_off s"

lemma same_request_refl [simp]: "same_request s s"
  by (simp add: same_request_def)

lemma same_requestD:
  assumes "same_request s s0"
  shows "hs_store s0 = hs_store s" "hs_hub s0 = hs_hub s" "hs_plugins s0 = hs_plugins s"
    "hs_auth s0 = hs_auth s" "hs_principal s0 = hs_principal s" "hs_method s0 = hs_method s"
    "hs_path s0 = hs_path s" "hs_ws_upgrade s0 = hs_ws_upgrade s" "auth_enforced s0 = auth_enforced s"
  using assms by (auto simp: same_request_def)

lemma wait_full_body_same: "wait_full_body s = (full, s0) \<Longrightarrow> same_request s s0"
  by (auto simp: wait_full_body_def marked_def same_request_def Let_def split: if_splits)

lemma login_passes:
  assumes "dispatch_lab_login en s m cap = (Not_Answered, s0, m0)"
  shows "same_request s s0 \<and> m0 = m"
proof -
  obtain full s1 where w: "wait_full_body s = (full, s1)" by fastforce
  have n: "answer_on x (respond_json m cap a b c d) \<noteq> (Not_Answered, s0, m0)"
    "answer_on x (method_not_allowed m cap) \<noteq> (Not_Answered, s0, m0)"
    "answer_on x (finish f m a) \<noteq> (Not_Answered, s0, m0)"
    for x a b c d and f :: "string option"
    by (metis answer_on_simps(1) fst_conv respond_json_not_silent)
      (metis answer_on_simps(1) fst_conv method_not_allowed_def respond_json_not_silent,
       metis answer_on_simps(1) fst_conv finish_not_silent)
  show ?thesis
    using assms wait_full_body_same [OF w]
    by (auto simp: dispatch_lab_login_def Let_def w n split: if_splits option.splits prod.splits)
qed

lemma or_else_cases:
  assumes "or_else r f = (rc, s', m')"
  obtains (this) "r = (rc, s', m')" "rc \<noteq> Not_Answered"
    | (that) s0 m0 where "r = (Not_Answered, s0, m0)" "f s0 m0 = (rc, s', m')"
  using assms by (cases r) (auto simp: or_else_def split: if_splits)

lemma me_passes:
  assumes "dispatch_auth_me s m cap = (rc, s0, m0)"
  shows "s0 = s \<and> (rc = Not_Answered \<longrightarrow> m0 = m)"
  using assms
  by (auto simp: dispatch_auth_me_def answer_on_def Let_def method_not_allowed_def deny_unauthorized_def
      prod_eq_iff split: if_splits)

lemma call_not_silent [simp]: "fst (call_plugin en s ph env pl m cap) \<noteq> Not_Answered"
  unfolding call_plugin_def Let_def split_beta by simp

lemma plugins_pass:
  assumes "dispatch_plugins en s m cap = (Not_Answered, s0, m0)"
  shows "s0 = s \<and> m0 = m"
proof (cases "hs_plugins s")
  case None
  with assms show ?thesis by (simp add: dispatch_plugins_def)
next
  case (Some x)
  obtain ph env where x: "x = (ph, env)" by fastforce
  have n: "call_plugin en s' ph env pl m' cap \<noteq> (Not_Answered, s0, m0)"
    "answer_on s' (respond_json m' cap a b c d) \<noteq> (Not_Answered, s0, m0)" for s' pl m' a b c d
    by (metis call_not_silent fst_conv) (metis answer_on_simps(1) fst_conv respond_json_not_silent)
  show ?thesis
    using assms unfolding dispatch_plugins_def Some x option.case prod.case Let_def split_beta
    by (simp add: n split: option.splits if_splits)
qed

lemma stream_passes:
  assumes "dispatch_stream en s m cap = (Not_Answered, s0, m0)"
  shows "\<not> edge_ws_path_is_stream (Some (hs_path s))"
proof
  assume p: "edge_ws_path_is_stream (Some (hs_path s))"
  have n: "answer_on s' (respond_json m' cap a b c d) \<noteq> (Not_Answered, s0, m0)"
    "answer_on s' (method_not_allowed m' cap) \<noteq> (Not_Answered, s0, m0)" for s' m' a b c d
    by (metis answer_on_simps(1) fst_conv respond_json_not_silent)
      (metis answer_on_simps(1) fst_conv method_not_allowed_def respond_json_not_silent)
  show False
    using assms p unfolding dispatch_stream_def Let_def split_beta
    by (simp add: n split: option.splits if_splits)
qed

lemma state_passes:
  assumes "dispatch_state en s m cap = (Not_Answered, s0, m0)"
  shows "s0 = s"
proof (cases "path_is_state (hs_path s) state_ns_size EDGE_STATE_KEY_MAX EDGE_STATE_KEY_MAX")
  case None
  with assms show ?thesis by (simp add: dispatch_state_def)
next
  case (Some sp)
  have n: "answer_on s' r = (Not_Answered, s0, m0) \<longleftrightarrow> r = (Not_Answered, m0) \<and> s' = s0" for s' r
    by (cases r) (auto simp: answer_on_def)
  have f: "r \<noteq> (Not_Answered, m0)" if "fst r \<noteq> Not_Answered" for r using that by auto
  show ?thesis
    using assms unfolding dispatch_state_def Some option.case Let_def split_beta
      state_get_list_def state_get_value_def state_put_def state_delete_def
    by (auto simp: n f bad_key_def no_content_def method_not_allowed_def split: option.splits if_splits)
qed

text \<open>Where the answer of a request came from.\<close>

lemma route_cases:
  assumes "dispatch en s m cap = (rc, s', m')"
  obtains (login) "dispatch_lab_login en s m cap = (rc, s', m')" "rc \<noteq> Not_Answered"
    | (me) s0 where "same_request s s0" "dispatch_auth_me s0 m cap = (rc, s', m')" "rc \<noteq> Not_Answered"
    | (plugins) s0 where "same_request s s0" "dispatch_plugins en s0 m cap = (rc, s', m')" "rc \<noteq> Not_Answered"
    | (stream) s0 where "same_request s s0" "edge_ws_path_is_stream (Some (hs_path s))"
        "dispatch_stream en s0 m cap = (rc, s', m')" "rc \<noteq> Not_Answered"
    | (state) s0 where "same_request s s0" "starts_with ''/api/v1/state/'' (hs_path s)"
        "dispatch_state en s0 m cap = (rc, s', m')" "rc \<noteq> Not_Answered"
    | (get) s0 m0 where "same_request s s0" "dispatch_get en s0 m0 cap = (rc, s', m')"
  using assms unfolding dispatch_def
proof (cases rule: or_else_cases [case_names l1 l2])
  case l1
  then show ?thesis by (rule login)
next
  case (l2 s1 m1)
  with login_passes have s1: "same_request s s1" and m1: "m1 = m" by blast+
  from l2(2) show ?thesis
  proof (cases rule: or_else_cases [case_names a1 a2])
    case a1
    with s1 m1 show ?thesis using me by simp
  next
    case (a2 s2 m2)
    with me_passes m1 have 2: "s2 = s1" "m2 = m" by blast+
    from a2(2) show ?thesis
    proof (cases rule: or_else_cases [case_names p1 p2])
      case p1
      with s1 2 show ?thesis using plugins by simp
    next
      case (p2 s3 m3)
      with plugins_pass 2 have 3: "s3 = s1" "m3 = m" by blast+
      from p2(2) show ?thesis
      proof (cases rule: or_else_cases [case_names w1 w2])
        case w1
        then show ?thesis using stream [OF s1] same_requestD [OF s1] 3 by (simp split: if_splits)
      next
        case (w2 s4 m4)
        from w2(1) have 4: "s4 = s1" "m4 = m" using 3 by (auto split: if_splits dest: stream_passes)
        from w2(2) show ?thesis
        proof (cases rule: or_else_cases [case_names d1 d2])
          case d1
          then show ?thesis using state [OF s1] same_requestD [OF s1] 4 by (simp split: if_splits)
        next
          case (d2 s5 m5)
          from d2(1) have "s5 = s1" using 4 by (auto split: if_splits dest: state_passes)
          with d2(2) show ?thesis using get [OF s1] by simp
        qed
      qed
    qed
  qed
qed

lemma good_dispatch:
  assumes "store_bounded s"
  shows "good_answer cap (fst (dispatch en s m cap))"
proof -
  obtain rc s' m' where d: "dispatch en s m cap = (rc, s', m')" by (metis prod_cases3)
  have sb: "store_bounded s0" if "same_request s s0" for s0
    using assms same_requestD [OF that] by (simp add: store_bounded_def)
  from d have "good_answer cap rc"
  proof (cases rule: route_cases)
    case login
    then show ?thesis by (metis fst_conv good_login)
  next
    case (me s0)
    then show ?thesis by (metis fst_conv good_me)
  next
    case (plugins s0)
    then show ?thesis by (metis fst_conv good_plugins)
  next
    case (stream s0)
    then show ?thesis by (metis fst_conv good_stream)
  next
    case (state s0)
    then show ?thesis by (metis fst_conv good_state sb)
  next
    case (get s0 m0)
    then show ?thesis by (metis fst_conv good_get)
  qed
  with d show ?thesis by simp
qed

section \<open>Feeding\<close>

text \<open>The parser hands out finitely many events for the bytes it was given: a number it keeps
  goes down with each one.\<close>

definition parser_drains :: "'p http1_env \<Rightarrow> ('p \<Rightarrow> nat) \<Rightarrow> bool" where
  "parser_drains en queued \<longleftrightarrow>
     (\<forall>p e p'. en_next_event en p = Some (e, p') \<longrightarrow> queued p' < queued p)"

lemma on_event_h1 [simp]: "hs_h1 (on_event en ev s) = hs_h1 s"
  by (cases "(en, ev, s)" rule: on_event.cases)
    (simp_all add: on_headers_complete_def Let_def split_beta)

lemma on_event_frame [simp]:
  "hs_store (on_event en ev s) = hs_store s" "hs_plugins (on_event en ev s) = hs_plugins s"
  "hs_auth (on_event en ev s) = hs_auth s" "hs_done (on_event en ev s) = hs_done s"
  "hs_ws_upgrade (on_event en ev s) = hs_ws_upgrade s" "hs_same_store (on_event en ev s) = hs_same_store s"
  "hs_service_api_key (on_event en ev s) = hs_service_api_key s"
  by (cases "(en, ev, s)" rule: on_event.cases;
      simp add: on_headers_complete_def Let_def split_beta mark_body_off_def split: option.split)+

lemma drain_total:
  assumes "parser_drains en queued"
  shows "\<exists>r. drain_events en s = Some r"
proof (induction "queued (hs_h1 s)" arbitrary: s rule: less_induct)
  case less
  show ?case
  proof (cases "en_next_event en (hs_h1 s)")
    case None
    then show ?thesis by (intro exI) (subst drain_events.simps, simp)
  next
    case (Some x)
    obtain ev p where x: "x = (ev, p)" by fastforce
    with Some assms have "queued p < queued (hs_h1 s)" by (auto simp: parser_drains_def)
    then have "\<exists>r. drain_events en (on_event en ev (s\<lparr>hs_h1 := p\<rparr>)) = Some r"
      by (intro less) simp
    then show ?thesis using Some x by (subst drain_events.simps) auto
  qed
qed

text \<open>What the handlers of events keep, draining keeps.\<close>

lemma drain_keeps:
  assumes "\<And>s h1. I s \<Longrightarrow> I (s\<lparr>hs_h1 := h1\<rparr>)" "\<And>s ev. I s \<Longrightarrow> I (on_event en ev s)"
    and "drain_events en s = Some (bad, s')" "I s"
  shows "I s'"
proof -
  have "en = en \<longrightarrow> I s \<longrightarrow> I (snd (bad, s'))"
  proof (rule drain_events.raw_induct [where P = "\<lambda>e x y. e = en \<longrightarrow> I x \<longrightarrow> I (snd y)", OF _ assms(3)])
    fix drain e x y
    assume IH: "\<And>e x y. drain e x = Some y \<Longrightarrow> e = en \<longrightarrow> I x \<longrightarrow> I (snd y)"
      and step: "(case en_next_event e (hs_h1 x) of None \<Rightarrow> Some (False, x)
        | Some (ev, h1) \<Rightarrow> if ev = PROTOCOL_EVENT_ERROR then Some (True, x\<lparr>hs_h1 := h1\<rparr>)
            else drain e (on_event e ev (x\<lparr>hs_h1 := h1\<rparr>))) = Some y"
    show "e = en \<longrightarrow> I x \<longrightarrow> I (snd y)"
    proof (cases "en_next_event e (hs_h1 x)")
      case None
      with step show ?thesis by auto
    next
      case (Some n)
      obtain ev p where n: "n = (ev, p)" by fastforce
      show ?thesis
      proof (cases "ev = PROTOCOL_EVENT_ERROR")
        case True
        with step Some n show ?thesis using assms(1) by auto
      next
        case False
        with step Some n have "drain e (on_event e ev (x\<lparr>hs_h1 := p\<rparr>)) = Some y" by simp
        from IH [OF this] show ?thesis using assms(1,2) by blast
      qed
    qed
  qed
  with assms(4) show ?thesis by simp
qed

lemma drain_frame:
  assumes "drain_events en s = Some (bad, s')"
  shows "hs_store s' = hs_store s" "hs_plugins s' = hs_plugins s" "hs_auth s' = hs_auth s"
    "hs_done s' = hs_done s" "hs_ws_upgrade s' = hs_ws_upgrade s"
  using drain_keeps [OF _ _ assms, of "\<lambda>x. hs_store x = hs_store s \<and> hs_plugins x = hs_plugins s \<and>
      hs_auth x = hs_auth s \<and> hs_done x = hs_done s \<and> hs_ws_upgrade x = hs_ws_upgrade s"]
  by simp_all

lemma mark_done_fst [simp]: "fst (mark_done r) = fst r"
  by (cases r; cases "fst r") (simp_all add: mark_done_def)

lemma mark_done_Answered: "mark_done r = (Answered out, s, m) \<Longrightarrow> hs_done s"
  by (auto simp: mark_done_def split: prod.splits serve_rc.splits)

lemma good_feed_events:
  assumes "store_bounded s"
  shows "good_answer cap (fst (feed_events en (bad, s) m cap))"
proof -
  obtain full s1 where w: "wait_full_body s = (full, s1)" by fastforce
  have "store_bounded s1" using assms same_requestD [OF wait_full_body_same [OF w]]
    by (simp add: store_bounded_def)
  with assms show ?thesis by (simp add: feed_events_def w good_dispatch)
qed

text \<open>How a call of feed went.\<close>

lemma feed_cases:
  assumes "edge_http1_serve_feed en s data m cap = Some (rc, s', m')"
  obtains (quiet) "rc \<in> {Hard_Error, Not_Answered}" "s' = s" "m' = m"
    | (large) m1 where "mark_done (answer_on s (respond m1 cap 413 ''Payload Too Large'' ''text/plain''
          (''request too large'' @ [lf]) 18)) = (rc, s', m')" "\<not> hs_done s"
    | (events) bad s1 m1 where "drain_events en (s\<lparr>hs_acc := hs_acc s @ data,
          hs_h1 := en_feed_input en (hs_h1 s) data\<rparr>) = Some (bad, s1)"
        "feed_events en (bad, s1) m1 cap = (rc, s', m')" "\<not> hs_done s"
  using assms unfolding edge_http1_serve_feed_def Let_def by (auto split: if_splits)

lemma marked_good:
  assumes "mark_done (answer_on s r) = (rc, s', m')" "good_answer cap (fst r)"
  shows "good_answer cap rc"
proof -
  have "rc = fst (mark_done (answer_on s r))" using assms(1) by simp
  with assms(2) show ?thesis by simp
qed

lemma checked_text:
  "(case a of None \<Rightarrow> None | Some x \<Rightarrow> let t = f x in if cap \<le> length t then None else Some t) = Some out \<Longrightarrow>
   length out < cap"
  by (auto simp: Let_def split: option.splits if_splits)

lemma upgrade_length: "edge_ws_build_101 key cap = Some out \<Longrightarrow> length out < cap"
  unfolding edge_ws_build_101_def by (rule checked_text)

lemma feed_events_done:
  assumes "feed_events en (bad, s) m cap = (Answered out, s', m')"
  shows "hs_done s'"
  using assms by (auto simp: feed_events_def split: if_splits prod.splits dest: mark_done_Answered)

section \<open>A small parser\<close>

text \<open>The witnesses run the server with a parser that reads the request line of the bytes fed
  and answers every header from a fixed list.\<close>

type_synonym demo_parser = "http1_event list \<times> (string \<times> string) list"

definition demo_word :: "string \<Rightarrow> string" where
  "demo_word s = takeWhile (\<lambda>c. c \<noteq> CHR '' '') s"

definition demo_events :: "string \<Rightarrow> http1_event list" where
  "demo_events s =
     [HTTP1_EVENT_REQUEST_LINE (demo_word s) (demo_word (drop (length (demo_word s) + 1) s)),
      HTTP1_EVENT_HEADERS_COMPLETE]"

fun demo_next :: "demo_parser \<Rightarrow> (http1_event \<times> demo_parser) option" where
  "demo_next ([], hs) = None"
| "demo_next (e # es, hs) = Some (e, (es, hs))"

definition demo_env :: "demo_parser http1_env" where
  "demo_env =
     \<lparr>en_create = Some ([], []), en_reset = (\<lambda>p. ([], snd p)),
      en_feed_input = (\<lambda>(es, hs) s. (es @ demo_events s, hs)), en_next_event = demo_next,
      en_get_header = (\<lambda>p name n. map_option (c_copy n) (map_of (snd p) name)),
      en_is_websocket_upgrade = (\<lambda>p. False), en_time = 1000,
      en_fs = \<lparr>fs_stat = (\<lambda>p. None), fs_readable = (\<lambda>p. False)\<rparr>,
      en_exec = (\<lambda>req opts n. (-1, undefined, [])), en_mem = True, en_mem_req = (\<lambda>r. True),
      en_mem_sub = (\<lambda>i. True)\<rparr>"

lemma demo_drains: "parser_drains demo_env (\<lambda>p. length (fst p))"
  unfolding parser_drains_def
proof (intro allI impI)
  fix p e p' assume "en_next_event demo_env p = Some (e, p')"
  then show "length (fst p') < length (fst p)" by (cases p rule: demo_next.cases) (auto simp: demo_env_def)
qed

definition demo_serve :: "(demo_parser, unit) http1_serve" where
  "demo_serve = the (edge_http1_serve_create demo_env True)"

definition demo_get :: string where
  "demo_get = ''GET / HTTP/1.1'' @ crlf @ crlf"

lemma demo_env_simps [simp]:
  "en_next_event demo_env = demo_next" "en_feed_input demo_env (es, hs) s = (es @ demo_events s, hs)"
  by (simp_all add: demo_env_def)

definition demo_ready :: "(demo_parser, unit) http1_serve \<Rightarrow> string \<Rightarrow> (demo_parser, unit) http1_serve" where
  "demo_ready s data =
     (let meth = demo_word data; path = demo_word (drop (length meth + 1) data)
      in on_headers_complete demo_env
           (s\<lparr>hs_acc := hs_acc s @ data, hs_method := c_copy method_size meth, hs_path := c_copy path_size path,
              hs_h1 := ([], snd (hs_h1 s))\<rparr>))"

lemma on_headers_h1 [simp]: "hs_h1 (on_headers_complete en s) = hs_h1 s"
  using on_event_h1 [of en HTTP1_EVENT_HEADERS_COMPLETE s] by simp

lemma demo_feed:
  assumes "fst (hs_h1 s) = []" "\<not> hs_done s" "data \<noteq> []" "length (hs_acc s) + length data \<le> EDGE_HTTP_ACC_MAX"
  shows "edge_http1_serve_feed demo_env s data None cap = Some (feed_events demo_env (False, demo_ready s data) None cap)"
proof -
  obtain hs where h: "hs_h1 s = ([], hs)" using assms(1) by (cases "hs_h1 s") simp
  have "drain_events demo_env (s\<lparr>hs_acc := hs_acc s @ data, hs_h1 := (demo_events data, hs)\<rparr>) =
    Some (False, demo_ready s data)"
    by (simp add: drain_events.simps demo_events_def demo_ready_def h Let_def)
  with assms h show ?thesis by (simp add: edge_http1_serve_feed_def Let_def)
qed
lemma demo_serve_simps [simp]:
  "hs_h1 demo_serve = ([], [])" "\<not> hs_done demo_serve" "hs_acc demo_serve = []" "hs_store demo_serve = None"
  by (simp_all add: demo_serve_def edge_http1_serve_create_def demo_env_def)

lemma demo_get_facts:
  "fst (hs_h1 demo_serve) = []" "\<not> hs_done demo_serve" "demo_get \<noteq> []"
  "length (hs_acc demo_serve) + length demo_get \<le> EDGE_HTTP_ACC_MAX" "store_bounded demo_serve"
  by (simp_all add: demo_get_def crlf_def EDGE_HTTP_ACC_MAX_def EDGE_STATE_VALUE_MAX_def store_bounded_def)

lemma demo_answer:
  "fst (feed_events demo_env (False, demo_ready demo_serve demo_get) None 4096) =
   Answered (header_block 200 ''OK'' ''text/plain'' [] 3 @ ''ok'' @ [lf])"
  by code_simp

lemma demo_feed_get:
  "\<exists>s' m'. edge_http1_serve_feed demo_env demo_serve demo_get None 4096 =
    Some (Answered (header_block 200 ''OK'' ''text/plain'' [] 3 @ ''ok'' @ [lf]), s', m')"
  using demo_answer by (simp add: demo_feed [OF demo_get_facts(1-4)] prod_eq_iff)

text \<open>C17: Every answer of the server is well framed. Whatever bytes arrive, on every route and
  error path, an answer fits the output buffer and is a status line and headers followed by
  a body of exactly the announced length, or the 101 of a WebSocket upgrade.\<close>

theorem feed_framed:
  assumes "edge_http1_serve_feed en s data m cap = Some (Answered out, s', m')"
    and "store_bounded s"
  shows "length out < cap \<and>
    ((\<exists>status body. framed status body out) \<or> (\<exists>key. edge_ws_build_101 key cap = Some out))"
proof -
  from assms(1) have "good_answer cap (Answered out)"
  proof (cases rule: feed_cases)
    case quiet
    then show ?thesis by simp
  next
    case (large m1)
    show ?thesis by (rule marked_good [OF large(1)]) simp
  next
    case (events bad s1 m1)
    have "store_bounded s1" using drain_frame(1) [OF events(1)] assms(2) by (simp add: store_bounded_def)
    from good_feed_events [OF this] events(2) show ?thesis by (metis fst_conv)
  qed
  then consider status where "response_of cap status out" | key where "edge_ws_build_101 key cap = Some out"
    unfolding good_answer_def by auto
  then show ?thesis
  proof cases
    case 1
    then show ?thesis unfolding response_of_def by blast
  next
    case 2
    then show ?thesis using upgrade_length by blast
  qed
qed

theorem feed_framed_witness:
  "\<exists>out s' m'. edge_http1_serve_feed demo_env demo_serve demo_get None 4096 = Some (Answered out, s', m') \<and>
    length out < 4096"
  using demo_feed_get feed_framed [OF _ demo_get_facts(5)] by blast

text \<open>C18: Feeding bytes returns whenever the parser has finitely many events to hand out, and a
  connection answers once: after an answer it is done and refuses every further byte.\<close>

theorem feed_total:
  assumes "parser_drains en queued"
  shows "\<exists>rc s' m'. edge_http1_serve_feed en s data m cap = Some (rc, s', m') \<and>
    ((\<exists>out. rc = Answered out) \<longrightarrow> hs_done s' \<and>
       (\<forall>data' m2 cap'. edge_http1_serve_feed en s' data' m2 cap' = Some (Hard_Error, s', m2)))"
proof -
  have "\<exists>r. edge_http1_serve_feed en s data m cap = Some r"
    using drain_total [OF assms]
    by (auto simp: edge_http1_serve_feed_def Let_def simp del: split_paired_Ex)
  then obtain rc s' m' where f: "edge_http1_serve_feed en s data m cap = Some (rc, s', m')"
    by (metis prod_cases3)
  have "hs_done s'" if "rc = Answered out" for out
    using f
  proof (cases rule: feed_cases)
    case quiet
    with that show ?thesis by simp
  next
    case (large m1)
    with that show ?thesis by (auto dest: mark_done_Answered)
  next
    case (events bad s1 m1)
    with that show ?thesis by (auto dest: feed_events_done)
  qed
  with f show ?thesis by (auto simp: edge_http1_serve_feed_def)
qed

theorem feed_total_witness:
  "\<exists>rc s' m'. edge_http1_serve_feed demo_env demo_serve demo_get None 4096 = Some (rc, s', m') \<and>
    hs_done s' \<and> edge_http1_serve_feed demo_env s' demo_get None 4096 = Some (Hard_Error, s', None)"
  using demo_feed_get feed_total [OF demo_drains, of demo_serve demo_get None 4096] by fastforce

end
