(* ===== verification/Http1_Access.thy ===== *)
theory Http1_Access
  imports Http1_Framing
begin

text \<open>
  Access control of the HTTP/1 server: which requests are refused, whose requests change the
  store, reach a plugin or open a stream, and where the principal of a connection comes from.
\<close>

lemma starts_withE: "starts_with p s \<Longrightarrow> (\<And>t. s = p @ t \<Longrightarrow> P) \<Longrightarrow> P"
  by (auto simp: starts_with_iff)

lemmas path_defs = path_is_lab_login_def path_is_auth_me_def path_is_v1_def edge_ws_path_is_stream_def

text \<open>The routes do not overlap.\<close>

lemma state_path_only:
  assumes "starts_with ''/api/v1/state/'' p"
  shows "\<not> path_is_lab_login p" "\<not> path_is_auth_me p" "\<not> path_is_v1 p" "\<not> edge_ws_path_is_stream (Some p)"
  using assms by (auto simp: path_defs elim!: starts_withE)

lemma stream_path_only:
  assumes "edge_ws_path_is_stream (Some p)"
  shows "\<not> path_is_lab_login p" "\<not> path_is_auth_me p" "\<not> path_is_v1 p" "\<not> starts_with ''/api/v1/state/'' p"
  using assms by (auto simp: path_defs elim!: starts_withE)

lemma v1_path_only:
  assumes "path_is_v1 p"
  shows "\<not> path_is_lab_login p" "\<not> path_is_auth_me p"
  using assms by (auto simp: path_defs elim!: starts_withE)

lemma packages_path_only:
  assumes "path_is_packages p = Some suffix"
  shows "\<not> path_is_lab_login p" "\<not> path_is_auth_me p" "\<not> path_is_v1 p" "\<not> edge_ws_path_is_stream (Some p)"
    "\<not> starts_with ''/api/v1/state/'' p" "\<not> path_is_health p"
  using assms
  by (auto simp: path_defs path_is_packages_def path_is_health_def split: if_splits elim!: starts_withE)

lemma state_path_starts: "path_is_state p a b c = Some sp \<Longrightarrow> starts_with ''/api/v1/state/'' p"
  by (auto simp: path_is_state_def split: if_splits)

lemma no_login: "\<not> path_is_lab_login (hs_path s) \<Longrightarrow> dispatch_lab_login en s m cap = (Not_Answered, s, m)"
  by (simp add: dispatch_lab_login_def)

lemma no_me: "\<not> path_is_auth_me (hs_path s) \<Longrightarrow> dispatch_auth_me s m cap = (Not_Answered, s, m)"
  by (simp add: dispatch_auth_me_def)

lemma no_plugins: "\<not> path_is_v1 (hs_path s) \<Longrightarrow> dispatch_plugins en s m cap = (Not_Answered, s, m)"
  by (auto simp: dispatch_plugins_def split: option.split prod.split)

lemmas other_routes = no_login no_me no_plugins

lemma or_else_pass [simp]: "or_else (Not_Answered, s, m) f = f s m"
  by (simp add: or_else_def)

lemma or_else_answer: "fst r \<noteq> Not_Answered \<Longrightarrow> or_else r f = r"
  by (cases r) (simp add: or_else_def)

section \<open>Unauthenticated requests\<close>

text \<open>The routes that need a principal.\<close>

definition protected :: "('p, 'u) http1_serve \<Rightarrow> bool" where
  "protected s \<longleftrightarrow>
     edge_ws_path_is_stream (Some (hs_path s)) \<or>
     (\<exists>sp. path_is_state (hs_path s) state_ns_size EDGE_STATE_KEY_MAX EDGE_STATE_KEY_MAX = Some sp \<and>
        edge_auth_classify (Some (hs_method s)) (Some (hs_path s)) (sp_is_list sp) \<noteq> EDGE_RES_NONE) \<or>
     (path_is_v1 (hs_path s) \<and>
        (\<exists>ph env pl. hs_plugins s = Some (ph, env) \<and> edge_plugin_host_match ph (Some (hs_path s)) = Some pl)) \<or>
     (path_is_packages (hs_path s) \<noteq> None \<and> hs_method s = ''GET'')"

lemma gate_refuses:
  assumes "auth_enforced s" "\<not> pr_authenticated (hs_principal s)" "res \<noteq> EDGE_RES_NONE"
  shows "require_rbac s res m cap = deny_unauthorized m cap"
  using assms by (simp add: require_rbac_def)

lemma deny_not_silent [simp]: "fst (deny_unauthorized m cap) \<noteq> Not_Answered"
  "fst (deny_forbidden m cap) \<noteq> Not_Answered"
  by (simp_all add: deny_unauthorized_def deny_forbidden_def)

lemma refused_answer:
  "dispatch en s m cap = answer_on s (deny_unauthorized m cap)"
  if "auth_enforced s" "\<not> pr_authenticated (hs_principal s)" "protected s"
proof -
  note gate = gate_refuses [OF that(1,2)]
  let ?d = "deny_unauthorized m cap"
  have a: "or_else (fst ?d, s, snd ?d) f = answer_on s ?d" for f
    by (simp add: or_else_answer answer_on_def)
  from that(3) consider (stream) "edge_ws_path_is_stream (Some (hs_path s))"
    | (state) sp where "path_is_state (hs_path s) state_ns_size EDGE_STATE_KEY_MAX EDGE_STATE_KEY_MAX = Some sp"
        "edge_auth_classify (Some (hs_method s)) (Some (hs_path s)) (sp_is_list sp) \<noteq> EDGE_RES_NONE"
    | (v1) ph env pl where "path_is_v1 (hs_path s)" "hs_plugins s = Some (ph, env)"
        "edge_plugin_host_match ph (Some (hs_path s)) = Some pl"
    | (packages) suffix where "path_is_packages (hs_path s) = Some suffix" "hs_method s = ''GET''"
    unfolding protected_def by blast
  then show ?thesis
  proof cases
    case stream
    note p = stream_path_only [OF stream]
    have "dispatch_stream en s m cap = (fst ?d, s, snd ?d)"
      by (simp add: dispatch_stream_def stream gate split_beta)
    then show ?thesis by (simp add: dispatch_def other_routes p stream a)
  next
    case state
    have st: "starts_with ''/api/v1/state/'' (hs_path s)" using state_path_starts [OF state(1)] .
    note p = state_path_only [OF st]
    have "dispatch_state en s m cap = (fst ?d, s, snd ?d)"
      by (simp add: dispatch_state_def state gate split_beta)
    then show ?thesis by (simp add: dispatch_def other_routes p st a)
  next
    case v1
    note p = v1_path_only [OF v1(1)]
    have "dispatch_plugins en s m cap = (fst ?d, s, snd ?d)"
      using that(1) by (simp add: dispatch_plugins_def v1 gate split_beta)
    then show ?thesis by (simp add: dispatch_def other_routes p a)
  next
    case packages
    note p = packages_path_only [OF packages(1)]
    have "dispatch_get en s m cap = (fst ?d, s, snd ?d)"
      by (simp add: dispatch_get_def dispatch_packages_def packages p gate split_beta)
    then show ?thesis by (simp add: dispatch_def other_routes p answer_on_def)
  qed
qed


definition demo_lab :: "string \<Rightarrow> string \<Rightarrow> (demo_parser, unit) http1_serve" where
  "demo_lab meth path =
     demo_serve\<lparr>hs_auth := Some (edge_auth_ctx_init\<lparr>ac_mode := EDGE_AUTH_MODE_LAB_PASSWORD, ac_hmac_key := [1]\<rparr>),
                hs_method := meth, hs_path := path\<rparr>"


section \<open>Effects\<close>

text \<open>The principal of the connection is allowed to use a resource.\<close>

definition allowed :: "('p, 'u) http1_serve \<Rightarrow> edge_auth_resource \<Rightarrow> bool" where
  "allowed s res \<longleftrightarrow> edge_auth_rbac_check (Some (hs_principal s)) res = EDGE_AUTH_ALLOW"

lemma gate_allows:
  assumes "require_rbac s res m cap = (Not_Answered, m1)" "auth_enforced s" "res \<noteq> EDGE_RES_NONE"
  shows "allowed s res"
proof -
  have "deny_unauthorized m cap \<noteq> (Not_Answered, m1)" "deny_forbidden m cap \<noteq> (Not_Answered, m1)"
    by (metis deny_not_silent(1) fst_conv) (metis deny_not_silent(2) fst_conv)
  with assms show ?thesis by (auto simp: require_rbac_def allowed_def split: if_splits)
qed

definition same_objects :: "('p, 'u) http1_serve \<Rightarrow> ('p, 'u) http1_serve \<Rightarrow> bool" where
  "same_objects s s' \<longleftrightarrow> hs_store s' = hs_store s \<and> hs_plugins s' = hs_plugins s \<and>
     hs_ws_upgrade s' = hs_ws_upgrade s \<and> hs_auth s' = hs_auth s \<and>
     hs_service_api_key s' = hs_service_api_key s"

lemma same_objects_refl [simp]: "same_objects s s"
  by (simp add: same_objects_def)

lemma mark_body_off_key [simp]: "hs_service_api_key (mark_body_off s) = hs_service_api_key s"
  by (simp add: mark_body_off_def split: option.split)

lemma same_request_objects: "same_request s s0 \<Longrightarrow> same_objects s s0"
  by (auto simp: same_request_def same_objects_def)

lemma get_body_same: "get_body s = (b, s0) \<Longrightarrow> same_request s s0"
  by (auto simp: get_body_def marked_def same_request_def Let_def split: if_splits)

lemma same_request_trans: "same_request s s1 \<Longrightarrow> same_request s1 s2 \<Longrightarrow> same_objects s s2 \<and> hs_principal s2 = hs_principal s"
  by (auto simp: same_request_def same_objects_def)

text \<open>A login keeps the principal or replaces it by one issued for the right password.\<close>

definition issued_by_login :: "'p http1_env \<Rightarrow> edge_auth_ctx option \<Rightarrow> edge_principal \<Rightarrow> bool" where
  "issued_by_login en auth pr \<longleftrightarrow>
     (\<exists>a password cookie. auth = Some a \<and> ac_mode a = EDGE_AUTH_MODE_LAB_PASSWORD \<and>
        edge_auth_password_ok a (bytes_of password) \<and>
        edge_auth_session_issue (en_time en) a (Some ''lab'') EDGE_ROLE_EMPLOYEE EDGE_AUTH_COOKIE_MAX =
          Some (cookie, pr))"

lemma login_frame:
  assumes "dispatch_lab_login en s m cap = (rc, s', m')"
  shows "same_objects s s' \<and> (hs_principal s' = hs_principal s \<or> issued_by_login en (hs_auth s) (hs_principal s'))"
proof -
  obtain full s1 where w: "wait_full_body s = (full, s1)" by fastforce
  obtain body s2 where b: "get_body s1 = (body, s2)" by fastforce
  note 1 = same_request_objects [OF wait_full_body_same [OF w]] same_requestD(5) [OF wait_full_body_same [OF w]]
  note 2 = same_request_trans [OF wait_full_body_same [OF w] get_body_same [OF b]]
  have 3: "same_objects s (s2\<lparr>hs_principal := q\<rparr>)" for q using 2 by (simp add: same_objects_def)
  have a: "answer_on x r = (rc, s', m') \<longleftrightarrow> s' = x \<and> r = (rc, m')" for x r by (cases r) (auto simp: answer_on_def)
  show ?thesis
    using assms 1 2 3
    by (auto simp: dispatch_lab_login_def Let_def w b a issued_by_login_def split: if_splits option.splits prod.splits)
qed

lemma call_plugin_frame:
  assumes "call_plugin en s ph env pl m cap = (rc, s', m')"
  shows "hs_principal s' = hs_principal s \<and> hs_ws_upgrade s' = hs_ws_upgrade s \<and> hs_auth s' = hs_auth s \<and>
    hs_service_api_key s' = hs_service_api_key s"
proof -
  obtain body s1 where b: "get_body s = (body, s1)" by fastforce
  note g = get_body_same [OF b]
  have "hs_principal s1 = hs_principal s" "hs_ws_upgrade s1 = hs_ws_upgrade s" "hs_auth s1 = hs_auth s"
    "hs_service_api_key s1 = hs_service_api_key s"
    using same_requestD [OF g] same_request_objects [OF g] by (simp_all add: same_objects_def)
  moreover have "s' = s \<or> (\<exists>ph x. s' = return_store ph (s1\<lparr>hs_plugins := x\<rparr>))"
    using assms unfolding call_plugin_def Let_def b answer_on_def
    by (simp only: prod.case prod.inject split: prod.splits if_split_asm) blast+
  ultimately show ?thesis by (auto simp: return_store_def split: if_split_asm)
qed

lemma stream_frame:
  assumes "dispatch_stream en s m cap = (rc, s', m')"
  shows "s' = s \<or> s' = s\<lparr>hs_ws_upgrade := True\<rparr> \<and> (auth_enforced s \<longrightarrow> allowed s EDGE_RES_WS_STREAM)"
proof -
  obtain gate m1 where g: "require_rbac s EDGE_RES_WS_STREAM m cap = (gate, m1)" by fastforce
  have "gate = Not_Answered \<Longrightarrow> auth_enforced s \<Longrightarrow> allowed s EDGE_RES_WS_STREAM"
    using gate_allows g by blast
  moreover have "s' = s \<or> gate = Not_Answered \<and> s' = s\<lparr>hs_ws_upgrade := True\<rparr>"
    using assms unfolding dispatch_stream_def Let_def g prod.case answer_on_def
    by (simp only: prod.inject split: if_split_asm option.split_asm) (elim conjE disjE, simp_all)
  ultimately show ?thesis by blast
qed

lemma get_frame: "dispatch_get en s m cap = (rc, s', m') \<Longrightarrow> s' = s"
  unfolding dispatch_get_def dispatch_health_def dispatch_packages_def dispatch_spa_def Let_def split_beta
  by (auto simp: answer_on_def split: if_splits option.splits)

lemma state_frame:
  assumes "dispatch_state en s m cap = (rc, s', m')"
  shows "hs_principal s' = hs_principal s \<and> hs_plugins s' = hs_plugins s \<and> hs_ws_upgrade s' = hs_ws_upgrade s \<and>
    hs_auth s' = hs_auth s \<and> hs_service_api_key s' = hs_service_api_key s"
proof (cases "path_is_state (hs_path s) state_ns_size EDGE_STATE_KEY_MAX EDGE_STATE_KEY_MAX")
  case None
  with assms show ?thesis by (simp add: dispatch_state_def)
next
  case (Some sp)
  show ?thesis
    using assms unfolding dispatch_state_def Some option.case Let_def split_beta
      state_get_list_def state_get_value_def state_put_def state_delete_def notify_state_changed_def
    by (auto simp: answer_on_def split: if_splits option.splits)
qed

lemma state_changes:
  assumes "dispatch_state en s m cap = (rc, s', m')" "hs_store s' \<noteq> hs_store s" "auth_enforced s"
  shows "allowed s EDGE_RES_STATE_PUT \<or> allowed s EDGE_RES_STATE_DELETE"
proof (cases "path_is_state (hs_path s) state_ns_size EDGE_STATE_KEY_MAX EDGE_STATE_KEY_MAX")
  case None
  with assms show ?thesis by (simp add: dispatch_state_def)
next
  case (Some sp)
  let ?res = "edge_auth_classify (Some (hs_method s)) (Some (hs_path s)) (sp_is_list sp)"
  obtain gate m1 where g: "require_rbac s ?res m cap = (gate, m1)" by fastforce
  have st: "starts_with ''/api/v1/state/'' (hs_path s)" using state_path_starts [OF Some] .
  then have ns: "\<not> starts_with ''/api/v1/stream'' (hs_path s)" by (auto elim!: starts_withE)
  have gate: "gate = Not_Answered" and meth: "hs_method s = ''PUT'' \<or> hs_method s = ''DELETE''"
    using assms(1,2) unfolding dispatch_state_def Some option.case g Let_def prod.case
      state_get_list_def state_get_value_def
    by (auto simp: answer_on_def split: if_splits option.splits prod.splits)
  then have "?res = EDGE_RES_STATE_PUT \<or> ?res = EDGE_RES_STATE_DELETE"
    using st ns by (auto simp: edge_auth_classify_def)
  with gate_allows [OF g [unfolded gate] assms(3)] show ?thesis by auto
qed

lemma plugins_frame:
  assumes "dispatch_plugins en s m cap = (rc, s', m')"
  shows "s' = s \<or> hs_ws_upgrade s' = hs_ws_upgrade s \<and> hs_auth s' = hs_auth s \<and>
    hs_service_api_key s' = hs_service_api_key s \<and>
    (auth_enforced s \<longrightarrow> hs_principal s' = hs_principal s \<and> allowed s EDGE_RES_OPENAI)"
proof (cases "hs_plugins s")
  case None
  with assms show ?thesis by (simp add: dispatch_plugins_def)
next
  case (Some x)
  obtain ph env where x: "x = (ph, env)" by fastforce
  obtain gate m1 where g: "require_rbac s EDGE_RES_OPENAI m cap = (gate, m1)" by fastforce
  have 1: "gate = Not_Answered \<Longrightarrow> auth_enforced s \<Longrightarrow> allowed s EDGE_RES_OPENAI"
    using gate_allows g by blast
  have "s' = s \<or> (\<exists>pl. \<not> auth_enforced s \<and>
        call_plugin en (s\<lparr>hs_principal := lab_employee\<rparr>) ph env pl m cap = (rc, s', m')) \<or>
      (\<exists>pl. gate = Not_Answered \<and> call_plugin en s ph env pl m1 cap = (rc, s', m'))"
    using assms unfolding dispatch_plugins_def Some x option.case prod.case Let_def g answer_on_def
    by (auto simp only: prod.inject split: if_split_asm option.split_asm)
  then show ?thesis
    using 1 call_plugin_frame by (elim disjE exE conjE) (fastforce dest: call_plugin_frame)+
qed

text \<open>What a dispatch can have done, when access control is enforced.\<close>

definition lawful :: "'p http1_env \<Rightarrow> ('p, 'u) http1_serve \<Rightarrow> ('p, 'u) http1_serve \<Rightarrow> bool" where
  "lawful en s s' \<longleftrightarrow>
     hs_auth s' = hs_auth s \<and> hs_service_api_key s' = hs_service_api_key s \<and>
     (hs_principal s' = hs_principal s \<or> issued_by_login en (hs_auth s) (hs_principal s')) \<and>
     (hs_store s' \<noteq> hs_store s \<longrightarrow>
        allowed s' EDGE_RES_STATE_PUT \<or> allowed s' EDGE_RES_STATE_DELETE \<or> allowed s' EDGE_RES_OPENAI) \<and>
     (hs_plugins s' \<noteq> hs_plugins s \<longrightarrow> allowed s' EDGE_RES_OPENAI) \<and>
     (hs_ws_upgrade s' \<noteq> hs_ws_upgrade s \<longrightarrow> allowed s' EDGE_RES_WS_STREAM)"

lemma lawful_refl [simp]: "lawful en s s"
  by (simp add: lawful_def)

lemma lawful_cong:
  assumes "lawful en s0 s'" "same_objects s s0" "hs_principal s0 = hs_principal s"
  shows "lawful en s s'"
  using assms by (simp add: lawful_def same_objects_def)

lemma allowed_cong: "hs_principal s' = hs_principal s \<Longrightarrow> allowed s' res = allowed s res"
  by (simp add: allowed_def)

lemma dispatch_lawful:
  assumes "dispatch en s m cap = (rc, s', m')" "auth_enforced s"
  shows "lawful en s s'"
proof -
  have c: "lawful en s s'" if "same_request s s0" "lawful en s0 s'" for s0
    using lawful_cong [OF that(2) same_request_objects [OF that(1)] same_requestD(5) [OF that(1)]] .
  have e: "auth_enforced s0" if "same_request s s0" for s0 using same_requestD(9) [OF that] assms(2) by simp
  from assms(1) show ?thesis
  proof (cases rule: route_cases)
    case login
    from login_frame [OF login(1)] show ?thesis by (simp add: lawful_def same_objects_def)
  next
    case (me s0)
    from me_passes [OF me(2)] have "s' = s0" by simp
    with c [OF me(1)] show ?thesis by simp
  next
    case (plugins s0)
    have "lawful en s0 s'"
      using plugins_frame [OF plugins(2)] e [OF plugins(1)] allowed_cong [of s' s0]
      by (auto simp: lawful_def)
    then show ?thesis using c plugins(1) by blast
  next
    case (stream s0)
    have "lawful en s0 s'"
      using stream_frame [OF stream(3)] e [OF stream(1)] by (auto simp: lawful_def allowed_def)
    then show ?thesis using c stream(1) by blast
  next
    case (state s0)
    have "lawful en s0 s'"
      using state_frame [OF state(3)] state_changes [OF state(3)] e [OF state(1)] allowed_cong [of s' s0]
      by (auto simp: lawful_def)
    then show ?thesis using c state(1) by blast
  next
    case (get s0 m0)
    from get_frame [OF get(2)] have "s' = s0" .
    with c [OF get(1)] show ?thesis by simp
  qed
qed

lemma mark_done_frame:
  assumes "mark_done r = (rc, s', m')"
  obtains s0 where "r = (rc, s0, m')" "s' = s0 \<or> s' = s0\<lparr>hs_done := True\<rparr>"
  using assms by (auto simp: mark_done_def split: prod.splits serve_rc.splits)

lemma lawful_done: "lawful en s s0 \<Longrightarrow> s' = s0 \<or> s' = s0\<lparr>hs_done := True\<rparr> \<Longrightarrow> lawful en s s'"
  by (auto simp: lawful_def allowed_def)

lemma feed_events_lawful:
  assumes "feed_events en (bad, s) m cap = (rc, s', m')" "auth_enforced s"
  shows "lawful en s s'"
proof -
  have d: "lawful en s s'" if "mark_done (dispatch en s1 m cap) = (rc, s', m')" "same_request s s1" for s1
  proof -
    from that(1) obtain s0 where 0: "dispatch en s1 m cap = (rc, s0, m')" "s' = s0 \<or> s' = s0\<lparr>hs_done := True\<rparr>"
      by (rule mark_done_frame)
    have "auth_enforced s1" using same_requestD(9) [OF that(2)] assms(2) by simp
    from dispatch_lawful [OF 0(1) this] have "lawful en s1 s'" using lawful_done 0(2) by blast
    then show ?thesis
      by (rule lawful_cong) (use same_request_objects same_requestD(5) that(2) in blast)+
  qed
  have q: "lawful en s s'" if "same_request s s'"
    using lawful_cong [OF lawful_refl same_request_objects [OF that] same_requestD(5) [OF that]] .
  have b: "lawful en s s'" if "mark_done (answer_on s r) = (rc, s', m')" for r
    using that by (rule mark_done_frame) (auto simp: answer_on_def intro!: lawful_done [OF lawful_refl])
  obtain full s1 where w: "wait_full_body s = (full, s1)" by fastforce
  show ?thesis
    using assms(1) d [of s] d [OF _ wait_full_body_same [OF w]] q b wait_full_body_same [OF w]
    unfolding feed_events_def Let_def w prod.case
    by (auto split: if_split_asm)
qed

text \<open>What a call of feed can have done: a lawful dispatch on a connection that still has all
  its objects.\<close>

lemma feed_effects:
  assumes "edge_http1_serve_feed en s data m cap = Some (rc, s', m')" and "auth_enforced s"
  obtains s1 where "lawful en s1 s'" "hs_store s1 = hs_store s" "hs_plugins s1 = hs_plugins s"
    "hs_auth s1 = hs_auth s" "hs_ws_upgrade s1 = hs_ws_upgrade s" "hs_service_api_key s1 = hs_service_api_key s"
  using assms(1)
proof (cases rule: feed_cases)
  case quiet
  then show ?thesis using that [of s] by simp
next
  case (large m1)
  from large(1) obtain s0 where "s0 = s" "s' = s0 \<or> s' = s0\<lparr>hs_done := True\<rparr>"
    by (rule mark_done_frame) (auto simp: answer_on_def)
  then show ?thesis using that [of s] lawful_done [OF lawful_refl, of s'] by blast
next
  case (events bad s1 m1)
  note d = drain_frame [OF events(1)]
  have k: "hs_service_api_key s1 = hs_service_api_key s"
    using drain_keeps [OF _ _ events(1), of "\<lambda>x. hs_service_api_key x = hs_service_api_key s"] by simp
  have "auth_enforced s1" using assms(2) d(3) by (simp add: auth_enforced_def)
  from feed_events_lawful [OF events(2) this] have l: "lawful en s1 s'" .
  show ?thesis by (rule that [OF l]) (use d k in simp_all)
qed

text \<open>C15: No effect without permission. While access control is enforced, a call of feed changes the
  store only if the principal the connection then has may put, delete or use the plugin
  routes, runs a plugin only if it may use those, and takes over a stream only if it may
  open one; the secrets it was configured with stay the same.\<close>

theorem feed_access_control:
  assumes "edge_http1_serve_feed en s data m cap = Some (rc, s', m')" and "auth_enforced s"
  shows "(hs_store s' \<noteq> hs_store s \<longrightarrow>
       allowed s' EDGE_RES_STATE_PUT \<or> allowed s' EDGE_RES_STATE_DELETE \<or> allowed s' EDGE_RES_OPENAI) \<and>
    (hs_plugins s' \<noteq> hs_plugins s \<longrightarrow> allowed s' EDGE_RES_OPENAI) \<and>
    (hs_ws_upgrade s' \<noteq> hs_ws_upgrade s \<longrightarrow> allowed s' EDGE_RES_WS_STREAM) \<and>
    hs_auth s' = hs_auth s \<and> hs_service_api_key s' = hs_service_api_key s"
  by (rule feed_effects [OF assms]) (simp add: lawful_def)

lemma demo_lab_facts:
  "fst (hs_h1 (demo_lab [] [])) = []" "\<not> hs_done (demo_lab [] [])" "auth_enforced (demo_lab [] [])"
  "length (hs_acc (demo_lab [] [])) + length demo_get \<le> EDGE_HTTP_ACC_MAX"
  using demo_get_facts
  by (simp_all add: demo_lab_def auth_enforced_def edge_auth_mode_enforced_def)

theorem feed_access_control_witness:
  "\<exists>rc s' m'. edge_http1_serve_feed demo_env (demo_lab [] []) demo_get None 4096 = Some (rc, s', m') \<and>
    hs_auth s' = hs_auth (demo_lab [] [])"
proof -
  obtain rc s' m' where "edge_http1_serve_feed demo_env (demo_lab [] []) demo_get None 4096 = Some (rc, s', m')"
    using demo_feed [OF demo_lab_facts(1,2) demo_get_facts(3) demo_lab_facts(4)] by (metis prod_cases3)
  with feed_access_control [OF this demo_lab_facts(3)] show ?thesis by blast
qed

section \<open>Principals\<close>

text \<open>What vouches for a principal: a session cookie or proxy headers that verify under the
  configured keys, the service key (which gives one fixed role), or a login with the right
  password.\<close>

definition credentials :: "edge_auth_ctx option \<Rightarrow> string option \<Rightarrow> edge_principal \<Rightarrow> bool" where
  "credentials auth key pr \<longleftrightarrow>
     (\<exists>a t cookie. auth = Some a \<and> ac_mode a = EDGE_AUTH_MODE_LAB_PASSWORD \<and>
        edge_auth_session_verify t a cookie = Some pr) \<or>
     (\<exists>a t user roles ts sig. auth = Some a \<and> ac_mode a = EDGE_AUTH_MODE_PROXY_HEADERS \<and>
        edge_auth_proxy_verify t a (Some user) roles (Some ts) (Some sig) = Some pr) \<or>
     (\<exists>k. key = Some k \<and> k \<noteq> [] \<and> pr_sub pr = ''service'' \<and> pr_roles pr = EDGE_ROLE_SERVICE_OPENAI) \<or>
     (\<exists>a t password cookie. auth = Some a \<and> ac_mode a = EDGE_AUTH_MODE_LAB_PASSWORD \<and>
        edge_auth_password_ok a (bytes_of password) \<and>
        edge_auth_session_issue t a (Some ''lab'') EDGE_ROLE_EMPLOYEE EDGE_AUTH_COOKIE_MAX = Some (cookie, pr))"

lemma issued_credentials: "issued_by_login en auth pr \<Longrightarrow> credentials auth key pr"
  unfolding issued_by_login_def credentials_def by blast

lemma clear_not_authenticated [simp]: "\<not> pr_authenticated edge_principal_clear"
  by (simp add: edge_principal_clear_def)

lemma ladder_credentials:
  assumes "pr_authenticated (ladder_principal en h1 auth)"
  shows "credentials auth key (ladder_principal en h1 auth)"
proof (cases auth)
  case None
  with assms show ?thesis by (simp add: ladder_principal_def)
next
  case (Some a)
  let ?cookie = "if ac_mode a = EDGE_AUTH_MODE_LAB_PASSWORD
    then Option.bind (en_get_header en h1 ''Cookie'' 768) (\<lambda>hdr. edge_auth_cookie_extract (Some hdr) EDGE_AUTH_COOKIE_MAX)
    else None"
  show ?thesis
  proof (cases ?cookie)
    case None
    with assms Some obtain user ts sig roles where
      "ac_mode a = EDGE_AUTH_MODE_PROXY_HEADERS"
      "edge_auth_proxy_verify (en_time en) a (Some user) roles (Some ts) (Some sig) =
        Some (ladder_principal en h1 auth)"
      by (auto simp: ladder_principal_def Let_def split: option.splits if_splits)
    with Some show ?thesis unfolding credentials_def by blast
  next
    case (Some c)
    then have "ac_mode a = EDGE_AUTH_MODE_LAB_PASSWORD" by (auto split: if_splits)
    moreover have "edge_auth_session_verify (en_time en) a c = Some (ladder_principal en h1 auth)"
      using assms Some \<open>auth = Some a\<close> by (simp add: ladder_principal_def Let_def split: option.splits)
    ultimately show ?thesis using \<open>auth = Some a\<close> unfolding credentials_def by blast
  qed
qed

lemma request_credentials:
  assumes "pr_authenticated (request_principal en h1 auth key)"
  shows "credentials auth key (request_principal en h1 auth key)"
proof (cases "\<not> pr_authenticated (ladder_principal en h1 auth) \<and> bearer_ok en h1 key")
  case True
  then obtain k where "key = Some k" "k \<noteq> []" by (auto simp: bearer_ok_def split: option.splits)
  with True show ?thesis by (auto simp: request_principal_def Let_def credentials_def)
next
  case False
  with assms have "request_principal en h1 auth key = ladder_principal en h1 auth"
    by (auto simp: request_principal_def Let_def)
  with assms ladder_credentials show ?thesis by simp
qed

definition principal_backed :: "('p, 'u) http1_serve \<Rightarrow> bool" where
  "principal_backed s \<longleftrightarrow>
     (auth_enforced s \<longrightarrow> pr_authenticated (hs_principal s) \<longrightarrow>
        credentials (hs_auth s) (hs_service_api_key s) (hs_principal s))"

lemma backed_step:
  assumes "principal_backed s" "hs_auth s' = hs_auth s" "hs_service_api_key s' = hs_service_api_key s"
    "hs_principal s' = hs_principal s \<or>
     (pr_authenticated (hs_principal s') \<longrightarrow> credentials (hs_auth s) (hs_service_api_key s) (hs_principal s'))"
  shows "principal_backed s'"
  using assms by (auto simp: principal_backed_def auth_enforced_def)

lemma on_event_backed: "principal_backed s \<Longrightarrow> principal_backed (on_event en ev s)"
proof (erule backed_step)
  show "hs_principal (on_event en ev s) = hs_principal s \<or>
     (pr_authenticated (hs_principal (on_event en ev s)) \<longrightarrow>
      credentials (hs_auth s) (hs_service_api_key s) (hs_principal (on_event en ev s)))"
  proof (cases "ev = HTTP1_EVENT_HEADERS_COMPLETE")
    case True
    then have "hs_principal (on_event en ev s) =
      request_principal en (hs_h1 s) (hs_auth s) (hs_service_api_key s)"
      by (simp add: on_headers_complete_def Let_def split_beta mark_body_off_def split: option.split)
    then show ?thesis using request_credentials by metis
  next
    case False
    then show ?thesis by (cases ev) simp_all
  qed
qed simp_all

lemma dispatch_auth:
  assumes "dispatch en s m cap = (rc, s', m')"
  shows "hs_auth s' = hs_auth s"
  using assms
proof (cases rule: route_cases)
  case login
  from login_frame [OF login(1)] show ?thesis by (simp add: same_objects_def)
next
  case (me s0)
  from me_passes [OF me(2)] same_requestD(4) [OF me(1)] show ?thesis by simp
next
  case (plugins s0)
  from plugins_frame [OF plugins(2)] same_requestD(4) [OF plugins(1)] show ?thesis by auto
next
  case (stream s0)
  from stream_frame [OF stream(3)] same_requestD(4) [OF stream(1)] show ?thesis by auto
next
  case (state s0)
  from state_frame [OF state(3)] same_requestD(4) [OF state(1)] show ?thesis by simp
next
  case (get s0 m0)
  from get_frame [OF get(2)] same_requestD(4) [OF get(1)] show ?thesis by simp
qed

lemma feed_events_auth:
  assumes "feed_events en (bad, s) m cap = (rc, s', m')"
  shows "hs_auth s' = hs_auth s"
proof -
  have d: "hs_auth s' = hs_auth x" if "mark_done (dispatch en x m cap) = (rc, s', m')" for x
    using that by (rule mark_done_frame) (auto dest: dispatch_auth)
  have b: "hs_auth s' = hs_auth s" if "mark_done (answer_on s r) = (rc, s', m')" for r
    using that by (rule mark_done_frame) (auto simp: answer_on_def)
  obtain full s1 where w: "wait_full_body s = (full, s1)" by fastforce
  show ?thesis
    using assms d [of s] d [of s1] b same_requestD(4) [OF wait_full_body_same [OF w]]
    unfolding feed_events_def Let_def w prod.case by (auto split: if_split_asm)
qed

text \<open>The principal of a connection is always vouched for. Feeding bytes keeps the invariant
  that, while access control is enforced, an authenticated principal comes from a verified
  session cookie, verified proxy headers, the service key or a password login.\<close>

theorem feed_principal_backed:
  assumes "principal_backed s"
    and "edge_http1_serve_feed en s data m cap = Some (rc, s', m')"
  shows "principal_backed s'"
  using assms(2)
proof (cases rule: feed_cases)
  case quiet
  with assms(1) show ?thesis by simp
next
  case (large m1)
  from large(1) obtain s0 where "s0 = s" "s' = s0 \<or> s' = s0\<lparr>hs_done := True\<rparr>"
    by (rule mark_done_frame) (auto simp: answer_on_def)
  with assms(1) show ?thesis by (auto intro: backed_step)
next
  case (events bad s1 m1)
  have 1: "principal_backed s1"
    by (rule drain_keeps [OF _ _ events(1)])
      (use assms(1) on_event_backed in \<open>auto intro: backed_step\<close>)
  show ?thesis
  proof (cases "auth_enforced s1")
    case True
    have l: "lawful en s1 s'" by (rule feed_events_lawful [OF events(2) True])
    show ?thesis
      by (rule backed_step [OF 1]) (use l issued_credentials in \<open>auto simp: lawful_def\<close>)
  next
    case False
    have a: "hs_auth s' = hs_auth s1" using events(2) by (rule feed_events_auth)
    show ?thesis using False by (auto simp: principal_backed_def auth_enforced_def a)
  qed
qed

theorem feed_principal_backed_witness:
  "\<exists>rc s' m'. edge_http1_serve_feed demo_env (demo_lab [] []) demo_get None 4096 = Some (rc, s', m') \<and>
    principal_backed s'"
proof -
  obtain rc s' m' where f: "edge_http1_serve_feed demo_env (demo_lab [] []) demo_get None 4096 = Some (rc, s', m')"
    using demo_feed [OF demo_lab_facts(1,2) demo_get_facts(3) demo_lab_facts(4)] by (metis prod_cases3)
  have "principal_backed (demo_lab [] [])"
    by (simp add: principal_backed_def demo_lab_def demo_serve_def edge_http1_serve_create_def demo_env_def)
  from feed_principal_backed [OF this f] f show ?thesis by blast
qed

end
