(* ===== verification/Http1_State.thy ===== *)
theory Http1_State
  imports Http1_Access
begin

text \<open>
  The state API over HTTP. A reference says, on the abstract store, what each method answers,
  changes and announces; the handler with its paths, bodies, statuses and buffers implements
  it. A value put by one connection is what the next one gets.
\<close>

section \<open>The reference\<close>

definition err_body :: "edge_state_err \<Rightarrow> string" where
  "err_body er = snd (snd (err_to_http er errbody_size))"

record api_answer =
  aa_status :: int
  aa_body :: string
  aa_store :: store_spec
  aa_note :: "(string \<times> string option) option"

definition api_error :: "store_spec \<Rightarrow> edge_state_err \<Rightarrow> api_answer" where
  "api_error v er = \<lparr>aa_status = err_status er, aa_body = err_body er, aa_store = v, aa_note = None\<rparr>"

definition api_changed :: "store_spec \<Rightarrow> string \<Rightarrow> string option \<Rightarrow> api_answer" where
  "api_changed v op val = \<lparr>aa_status = 204, aa_body = [], aa_store = v, aa_note = Some (op, val)\<rparr>"

definition state_api ::
  "nat \<Rightarrow> nat \<Rightarrow> store_spec \<Rightarrow> string \<Rightarrow> string \<Rightarrow> string \<Rightarrow> string \<Rightarrow> api_answer" where
  "state_api mk mv v meth ns k body =
     (if meth = ''GET'' then
        (case spec_get v ns k of
           (er, None) \<Rightarrow> api_error v er
         | (er, Some val) \<Rightarrow> \<lparr>aa_status = 200, aa_body = val, aa_store = v, aa_note = None\<rparr>)
      else if meth = ''PUT'' then
        (case spec_put mk mv v ns k body of
           (er, v') \<Rightarrow> if er = EDGE_STATE_OK then api_changed v' ''put'' (Some body) else api_error v' er)
      else if meth = ''DELETE'' then
        (case spec_delete v ns k of
           (er, v') \<Rightarrow> if er = EDGE_STATE_OK then api_changed v' ''delete'' None else api_error v' er)
      else \<lparr>aa_status = 405, aa_body = error_json ''METHOD'', aa_store = v, aa_note = None\<rparr>)"

text \<open>The answer with this status and body is written, unless the buffer may be too small.\<close>

definition answers :: "nat \<Rightarrow> int \<Rightarrow> string \<Rightarrow> serve_rc \<Rightarrow> bool" where
  "answers cap status body rc \<longleftrightarrow>
     rc = Hard_Error \<and> cap < 256 + length body \<or>
     (\<exists>out. rc = Answered out \<and> framed status body out \<and> length out < cap)"

definition hub_after :: "'p http1_env \<Rightarrow> ('p, 'u) http1_serve \<Rightarrow> state_path \<Rightarrow> (string \<times> string option) option \<Rightarrow>
   edge_ws_hub option" where
  "hub_after en s sp note =
     (case note of
        None \<Rightarrow> hs_hub s
      | Some (op, val) \<Rightarrow> hs_hub (notify_state_changed (en_mem_sub en) s (sp_ns sp) (sp_key sp) op val))"

section \<open>The handler implements it\<close>

lemma dec_nat_small: "n < 10 ^ 20 \<Longrightarrow> length (dec_nat n) \<le> 20"
  by (rule dec_nat_length) simp_all

lemma header_length:
  assumes "0 \<le> status" "status < 1000" "length reason \<le> 30" "n < 10 ^ 20"
  shows "length (header_block status reason json_type [] n) < 160"
proof -
  have "length (dec_int status) \<le> 3"
    using assms(1,2) dec_nat_length [of "nat status" 3] by (simp add: dec_int_def)
  with dec_nat_small [OF assms(4)] assms(3) show ?thesis
    by (simp add: header_block_def crlf_def json_type_def)
qed

lemma respond_json_answers:
  assumes "0 \<le> status" "status < 1000" "length reason \<le> 30" "length body < 10 ^ 20" "n = length body"
  shows "answers cap status body (fst (respond_json m cap status reason body n))"
proof (cases "fst (respond_json m cap status reason body n)")
  case Hard_Error
  have "cap < 256 + length body"
  proof (rule ccontr)
    assume "\<not> cap < 256 + length body"
    with header_length [OF assms(1-4)] have "64 \<le> cap"
      "length (header_block status reason json_type [] n) + n < cap" using assms(5) by simp_all
    with Hard_Error show False
      by (simp add: respond_json_def respond_def finish_def build_response_fits)
  qed
  with Hard_Error show ?thesis by (simp add: answers_def)
next
  case Not_Answered
  then show ?thesis using respond_json_not_silent by metis
next
  case (Answered out)
  then have "fst (respond m cap status reason json_type body n) = Answered out" by (simp add: respond_json_def)
  from respond_framed [OF this] assms(5) Answered show ?thesis by (simp add: answers_def)
qed

lemma err_facts:
  "0 \<le> err_status er" "err_status er < 1000" "err_status er \<noteq> 204" "length (err_body er) < 10 ^ 20"
proof -
  show "0 \<le> err_status er" "err_status er < 1000" "err_status er \<noteq> 204"
    by (cases er; simp add: err_status_def)+
  have "length (c_copy errbody_size t) < 10 ^ 20" for t
    using length_c_copy [of errbody_size t] by (simp add: errbody_size_def)
  then show "length (err_body er) < 10 ^ 20"
    by (cases er) (simp_all only: err_body_def err_to_http.simps snd_conv)
qed

lemma err_reason: "length (fst (snd (err_to_http er n))) \<le> 30"
  by (cases er) simp_all

lemma respond_err_answers: "answers cap (err_status er) (err_body er) (fst (respond_err m cap er))"
proof -
  obtain st re b where e: "err_to_http er errbody_size = (st, re, b)" by (metis prod_cases3)
  then have s: "st = err_status er" "b = err_body er" by (simp_all add: err_status_def err_body_def)
  have "length re \<le> 30" using err_reason [of er errbody_size] e by simp
  with err_facts show ?thesis by (simp add: respond_err_def e s respond_json_answers)
qed

lemma state_key_nonempty:
  assumes "path_is_state p a b c = Some sp" "\<not> sp_is_list sp"
  shows "sp_key sp \<noteq> []"
proof -
  have "length x \<le> Suc 0" if "tl x = []" for x :: string using that by (cases x) auto
  with assms show ?thesis by (auto simp: path_is_state_def Let_def split: if_splits option.splits)
qed

text \<open>The request can be served: the principal may use the resource and the body has arrived.\<close>

definition ready :: "('p, 'u) http1_serve \<Rightarrow> state_path \<Rightarrow> bool" where
  "ready s sp \<longleftrightarrow>
     path_is_state (hs_path s) state_ns_size EDGE_STATE_KEY_MAX EDGE_STATE_KEY_MAX = Some sp \<and>
     \<not> sp_is_list sp \<and>
     (\<not> auth_enforced s \<or> hs_method s \<notin> {''GET'', ''PUT'', ''DELETE''} \<or>
      allowed s (edge_auth_classify (Some (hs_method s)) (Some (hs_path s)) False)) \<and>
     hs_have_body_off s \<and>
     nat (hs_content_length s) \<le> length (drop (hs_body_off s) (hs_acc s))"

lemma ready_gate:
  assumes "ready s sp"
  shows "require_rbac s (edge_auth_classify (Some (hs_method s)) (Some (hs_path s)) (sp_is_list sp)) m cap =
    (Not_Answered, m)"
proof -
  have st: "starts_with ''/api/v1/state/'' (hs_path s)"
    using assms state_path_starts unfolding ready_def by blast
  then have ns: "\<not> starts_with ''/api/v1/stream'' (hs_path s)" "\<not> starts_with ''/packages'' (hs_path s)"
    "\<not> starts_with ''/v1/'' (hs_path s)" "hs_path s \<noteq> ''/v1''" by (auto elim!: starts_withE)
  have "edge_auth_classify (Some (hs_method s)) (Some (hs_path s)) False = EDGE_RES_NONE"
    if "hs_method s \<notin> {''GET'', ''PUT'', ''DELETE''}"
    using that ns by (simp add: edge_auth_classify_def)
  moreover have "pr_authenticated (hs_principal s)" if "allowed s res" for res
    using that by (auto simp: allowed_def edge_auth_rbac_check_def split: if_splits)
  ultimately show ?thesis using assms by (auto simp: require_rbac_def ready_def allowed_def)
qed

lemma get_value_answers:
  assumes "values_bounded st" "spec_get (store_view st) (sp_ns sp) (sp_key sp) = (er, val)"
  shows "answers cap (case val of None \<Rightarrow> err_status er | Some v \<Rightarrow> 200)
      (case val of None \<Rightarrow> err_body er | Some v \<Rightarrow> v) (fst (state_get_value s st sp m cap)) \<and>
    fst (snd (state_get_value s st sp m cap)) = s"
proof (cases val)
  case None
  with assms have "er \<noteq> EDGE_STATE_OK" by (auto simp: spec_get_def split: option.splits if_splits)
  with None assms show ?thesis
    by (simp add: state_get_value_def bounded_get [OF assms(1), simplified] respond_err_answers)
next
  case (Some v)
  with assms have er: "er = EDGE_STATE_OK" by (auto simp: spec_get_def split: option.splits if_splits)
  have "length v \<le> EDGE_STATE_VALUE_MAX"
    using assms Some view_bounded [OF assms(1)] by (auto simp: spec_get_def split: option.splits if_splits)
  then have "length v < 10 ^ 20" by (simp add: EDGE_STATE_VALUE_MAX_def)
  with Some assms er show ?thesis
    by (simp add: state_get_value_def bounded_get [OF assms(1), simplified] respond_json_answers)
qed

text \<open>What the reference demands of a handler's result.\<close>

definition implements ::
  "'p http1_env \<Rightarrow> ('p, 'u) http1_serve \<Rightarrow> state_store \<Rightarrow> state_path \<Rightarrow> nat \<Rightarrow> api_answer \<Rightarrow> ('p, 'u) served \<Rightarrow> bool" where
  "implements en s st sp cap a r \<longleftrightarrow>
     (case r of (rc, s', m') \<Rightarrow>
        answers cap (aa_status a) (aa_body a) rc \<and>
        (\<exists>st'. hs_store s' = Some st' \<and> values_bounded st' \<and> st_max_keys st' = st_max_keys st \<and>
           st_max_value st' = st_max_value st \<and> store_view st' = aa_store a) \<and>
        hs_hub s' = hub_after en s sp (aa_note a))"

lemma no_content_answers: "answers cap 204 [] (fst (no_content m cap))"
  unfolding no_content_def by (rule respond_json_answers) simp_all

lemma put_implements:
  assumes "values_bounded st" "hs_store s = Some st" "ready s sp"
  shows "implements en s st sp cap
    (state_api (st_max_keys st) (st_max_value st) (store_view st) ''PUT'' (sp_ns sp) (sp_key sp) (cut_body s))
    (state_put en s st sp m cap)"
proof -
  obtain er st' where p: "edge_state_put st (Some (sp_ns sp)) (Some (sp_key sp)) (Some (cut_body s)) = (er, st')"
    by fastforce
  from assms(1) have "store_wf st" by (simp add: values_bounded_def)
  note r = put_refines [OF this p]
  have b: "values_bounded st'" using r assms(1) by (simp add: values_bounded_def)
  have "\<not> sp_is_list sp" "sp_key sp \<noteq> []" "hs_have_body_off s"
    "\<not> (hs_content_length s \<ge> 0 \<and> length (drop (hs_body_off s) (hs_acc s)) < nat (hs_content_length s))"
    using assms(3) state_key_nonempty unfolding ready_def by auto
  then have "state_put en s st sp m cap =
    (if er = EDGE_STATE_OK
     then answer_on (notify_state_changed (en_mem_sub en) (s\<lparr>hs_store := Some st'\<rparr>) (sp_ns sp) (sp_key sp)
            ''put'' (Some (cut_body s))) (no_content m cap)
     else answer_on (s\<lparr>hs_store := Some st'\<rparr>) (respond_err m cap er))"
    by (auto simp: state_put_def p)
  with r b show ?thesis
    by (simp add: implements_def state_api_def split_beta api_changed_def api_error_def hub_after_def
        notify_state_changed_def respond_err_answers no_content_answers)
qed

lemma delete_implements:
  assumes "values_bounded st" "hs_store s = Some st" "ready s sp"
  shows "implements en s st sp cap
    (state_api (st_max_keys st) (st_max_value st) (store_view st) ''DELETE'' (sp_ns sp) (sp_key sp) body)
    (state_delete en s st sp m cap)"
proof -
  obtain er st' where p: "edge_state_delete st (Some (sp_ns sp)) (Some (sp_key sp)) = (er, st')"
    by fastforce
  from assms(1) have "store_wf st" by (simp add: values_bounded_def)
  note r = delete_refines [OF this p]
  have b: "values_bounded st'" using r assms(1) by (simp add: values_bounded_def)
  have "\<not> sp_is_list sp" "sp_key sp \<noteq> []"
    using assms(3) state_key_nonempty unfolding ready_def by auto
  then have "state_delete en s st sp m cap =
    (if er = EDGE_STATE_OK
     then answer_on (notify_state_changed (en_mem_sub en) (s\<lparr>hs_store := Some st'\<rparr>) (sp_ns sp) (sp_key sp)
            ''delete'' None) (no_content m cap)
     else answer_on (s\<lparr>hs_store := Some st'\<rparr>) (respond_err m cap er))"
    by (simp add: state_delete_def p)
  with r b show ?thesis
    by (simp add: implements_def state_api_def split_beta api_changed_def api_error_def hub_after_def
        notify_state_changed_def respond_err_answers no_content_answers)
qed

lemma get_implements:
  assumes "values_bounded st" "hs_store s = Some st"
  shows "implements en s st sp cap
    (state_api (st_max_keys st) (st_max_value st) (store_view st) ''GET'' (sp_ns sp) (sp_key sp) body)
    (state_get_value s st sp m cap)"
proof -
  obtain er val where g: "spec_get (store_view st) (sp_ns sp) (sp_key sp) = (er, val)" by fastforce
  from get_value_answers [OF assms(1) g, of cap s m] assms show ?thesis
    by (cases val) (simp_all add: implements_def state_api_def g split_beta api_error_def hub_after_def)
qed

lemma method_implements:
  assumes "values_bounded st" "hs_store s = Some st" "meth \<notin> {''GET'', ''PUT'', ''DELETE''}"
  shows "implements en s st sp cap
    (state_api (st_max_keys st) (st_max_value st) (store_view st) meth (sp_ns sp) (sp_key sp) body)
    (answer_on s (method_not_allowed m cap))"
proof -
  have "answers cap 405 (error_json ''METHOD'') (fst (method_not_allowed m cap))"
    unfolding method_not_allowed_def by (rule respond_json_answers) simp_all
  with assms show ?thesis by (simp add: implements_def state_api_def hub_after_def split_beta)
qed

lemma state_implements:
  assumes "values_bounded st" "hs_store s = Some st" "ready s sp"
  shows "implements en s st sp cap
    (state_api (st_max_keys st) (st_max_value st) (store_view st) (hs_method s) (sp_ns sp) (sp_key sp) (cut_body s))
    (dispatch_state en s m cap)"
proof -
  have p: "path_is_state (hs_path s) state_ns_size EDGE_STATE_KEY_MAX EDGE_STATE_KEY_MAX = Some sp"
    and l: "\<not> sp_is_list sp" using assms(3) by (simp_all add: ready_def)
  have d: "dispatch_state en s m cap =
    (if hs_method s = ''GET'' then state_get_value s st sp m cap
     else if hs_method s = ''PUT'' then state_put en s st sp m cap
     else if hs_method s = ''DELETE'' then state_delete en s st sp m cap
     else answer_on s (method_not_allowed m cap))"
    unfolding dispatch_state_def p option.case Let_def ready_gate [OF assms(3)] prod.case assms(2)
    using l by simp
  show ?thesis
    unfolding d
    using get_implements [OF assms(1,2)] put_implements [OF assms] delete_implements [OF assms]
      method_implements [OF assms(1,2)]
    by simp
qed

lemma answers_not_silent: "answers cap status body rc \<Longrightarrow> rc \<noteq> Not_Answered"
  by (auto simp: answers_def)

lemma ready_dispatch:
  assumes "values_bounded st" "hs_store s = Some st" "ready s sp"
  shows "dispatch en s m cap = dispatch_state en s m cap"
proof -
  have st: "starts_with ''/api/v1/state/'' (hs_path s)"
    using assms(3) state_path_starts unfolding ready_def by blast
  note p = state_path_only [OF st]
  have "fst (dispatch_state en s m cap) \<noteq> Not_Answered"
    using state_implements [OF assms, of en cap m] answers_not_silent by (auto simp: implements_def)
  then show ?thesis by (simp add: dispatch_def other_routes p st or_else_answer)
qed


definition demo_put :: "string \<Rightarrow> state_store option \<Rightarrow> (demo_parser, unit) http1_serve" where
  "demo_put meth st =
     demo_serve\<lparr>hs_store := st, hs_method := meth, hs_path := ''/api/v1/state/net.core/a'', hs_acc := ''1'',
                hs_body_off := 0, hs_have_body_off := True, hs_content_length := 1\<rparr>"

definition demo_sp :: state_path where
  "demo_sp = \<lparr>sp_ns = ''net.core'', sp_key = ''a'', sp_prefix = [], sp_is_list = False\<rparr>"

lemma demo_put_ready: "ready (demo_put meth st) demo_sp"
proof -
  have "path_is_state ''/api/v1/state/net.core/a'' state_ns_size EDGE_STATE_KEY_MAX EDGE_STATE_KEY_MAX = Some demo_sp"
    by code_simp
  moreover have "hs_auth demo_serve = None"
    by (simp add: demo_serve_def edge_http1_serve_create_def demo_env_def)
  ultimately show ?thesis by (simp add: ready_def demo_put_def demo_sp_def auth_enforced_def)
qed

lemma demo_put_facts [simp]:
  "hs_store (demo_put meth st) = st" "hs_method (demo_put meth st) = meth" "cut_body (demo_put meth st) = ''1''"
  by (simp_all add: demo_put_def cut_body_def)

lemma tiny_bounded: "values_bounded tiny_store"
  by (simp add: values_bounded_def tiny_sizes EDGE_STATE_VALUE_MAX_def)

lemma demo_put_api:
  "state_api (st_max_keys tiny_store) (st_max_value tiny_store) (store_view tiny_store) ''PUT'' ''net.core'' ''a'' ''1'' =
   api_changed ((store_view tiny_store)(''net.core'' \<mapsto> (True, [''a'' \<mapsto> ''1'']))) ''put'' (Some ''1'')"
  by (simp add: state_api_def spec_put_def tiny_sizes tiny_core edge_state_key_valid_def edge_state_json_ok_def
      state_limits key_char_ok_def is_lower_def is_digit_def is_space_def json_start_ok_def)

lemma demo_sp_simps [simp]: "sp_ns demo_sp = ''net.core''" "sp_key demo_sp = ''a''"
  by (simp_all add: demo_sp_def)



lemma demo_put_answer:
  "\<exists>out s' m'. dispatch demo_env (demo_put ''PUT'' (Some tiny_store)) None 4096 = (Answered out, s', m') \<and>
    response_of 4096 204 out"
proof -
  let ?s = "demo_put ''PUT'' (Some tiny_store)"
  obtain rc s' m' where d: "dispatch demo_env ?s None 4096 = (rc, s', m')" by (metis prod_cases3)
  note r = demo_put_ready [of "''PUT''" "Some tiny_store"]
  note f = demo_put_facts(1) [of "''PUT''" "Some tiny_store"]
  have e: "dispatch_state demo_env ?s None 4096 = (rc, s', m')"
    using ready_dispatch [OF tiny_bounded f r, where en = demo_env and cap = 4096 and m = None] d by simp
  from state_implements [OF tiny_bounded f r, where en = demo_env and cap = 4096 and m = None]
  have "answers 4096 204 [] rc" unfolding e by (simp add: implements_def demo_put_api api_changed_def)
  with d show ?thesis by (auto simp: answers_def response_of_def)
qed

lemma length_1_bound: "256 + length (cut_body (demo_put ''PUT'' (Some tiny_store))) \<le> 4096"
  by simp


end
