(* ===== verification/Config_Yaml.thy ===== *)
theory Config_Yaml
  imports Core_Config
begin

text \<open>
  \<open>src/host/config_yaml.c\<close>: the configuration from a YAML file. The YAML library is outside the
  repository and a parameter: it is fed the text, drained of its events, and asked for the
  scalar at a path. Every known path is applied in the order of a table, so a later alias of
  a setting overrides an earlier one. An error is the message written for the caller (before
  it is cut to the caller's buffer); the configuration is written as far as it got.
\<close>

section \<open>Scalars\<close>

definition parse_bool :: "string \<Rightarrow> bool option" where
  "parse_bool s =
     (if s = ''1'' \<or> s = ''true'' \<or> s = ''True'' \<or> s = ''yes'' \<or> s = ''on'' then Some True
      else if s = ''0'' \<or> s = ''false'' \<or> s = ''False'' \<or> s = ''no'' \<or> s = ''off'' then Some False
      else None)"

text \<open>\<open>strtol\<close> over the whole string; \<open>long\<close> has 64 bits.\<close>

definition parse_u16 :: "string \<Rightarrow> u16 option" where
  "parse_u16 s =
     (case c_strtoll s of
        None \<Rightarrow> None
      | Some (v, rest) \<Rightarrow>
          if rest \<noteq> [] \<or> v < 0 \<or> v > 65535 then None else Some (word_of_int v))"

text \<open>\<open>strtoull\<close>: a minus sign is accepted and the value is negated modulo \<open>2 ^ 64\<close>; a value out
  of range gives the largest one.\<close>

definition ullong_max :: nat where "ullong_max = 2 ^ 64 - 1"

definition c_strtoull :: "string \<Rightarrow> (nat \<times> string) option" where
  "c_strtoull s =
     (let s1 = dropWhile is_space s;
          neg = starts_with ''-'' s1;
          s2 = (if starts_with ''-'' s1 \<or> starts_with ''+'' s1 then tl s1 else s1)
      in (case s2 of
            [] \<Rightarrow> None
          | c # cs \<Rightarrow>
              if is_digit c
              then (case read_digits 0 s2 of
                      (v, rest) \<Rightarrow>
                        Some (if v > ullong_max then ullong_max
                              else if neg then (2 ^ 64 - v) mod 2 ^ 64 else v, rest))
              else None))"

definition parse_size :: "string \<Rightarrow> nat option" where
  "parse_size s =
     (case c_strtoull s of
        None \<Rightarrow> None
      | Some (v, rest) \<Rightarrow> if rest \<noteq> [] then None else Some v)"

definition copy_str :: "nat \<Rightarrow> string \<Rightarrow> string option" where
  "copy_str dst_sz src = (if dst_sz = 0 \<or> length src + 1 > dst_sz then None else Some src)"

section \<open>Settings\<close>

type_synonym cfg_result = "string + edge_config"

text \<open>The macro \<open>FAIL\<close> and the five ways a setting is read.\<close>

definition cfg_fail :: "string \<Rightarrow> string \<Rightarrow> cfg_result" where
  "cfg_fail key msg = Inl (key @ '': '' @ msg)"

definition set_str :: "string \<Rightarrow> nat \<Rightarrow> string \<Rightarrow> (string \<Rightarrow> edge_config) \<Rightarrow> cfg_result" where
  "set_str key sz v f = (case copy_str sz v of None \<Rightarrow> cfg_fail key ''too long'' | Some x \<Rightarrow> Inr (f x))"

definition set_bool :: "string \<Rightarrow> string \<Rightarrow> (bool \<Rightarrow> edge_config) \<Rightarrow> cfg_result" where
  "set_bool key v f = (case parse_bool v of None \<Rightarrow> cfg_fail key ''invalid bool'' | Some x \<Rightarrow> Inr (f x))"

definition set_port :: "string \<Rightarrow> string \<Rightarrow> (u16 \<Rightarrow> edge_config) \<Rightarrow> cfg_result" where
  "set_port key v f =
     (case parse_u16 v of
        None \<Rightarrow> cfg_fail key ''invalid port''
      | Some x \<Rightarrow> if x = 0 then cfg_fail key ''invalid port'' else Inr (f x))"

definition set_size :: "string \<Rightarrow> string \<Rightarrow> (nat \<Rightarrow> edge_config) \<Rightarrow> cfg_result" where
  "set_size key v f =
     (case parse_size v of
        None \<Rightarrow> cfg_fail key ''invalid size''
      | Some x \<Rightarrow> if x = 0 then cfg_fail key ''invalid size'' else Inr (f x))"

definition set_u32 :: "string \<Rightarrow> string \<Rightarrow> bool \<Rightarrow> string \<Rightarrow> (u32 \<Rightarrow> edge_config) \<Rightarrow> cfg_result" where
  "set_u32 key v zero_ok msg f =
     (case parse_size v of
        None \<Rightarrow> cfg_fail key msg
      | Some x \<Rightarrow> if (x = 0 \<and> \<not> zero_ok) \<or> x > 0xffffffff then cfg_fail key msg else Inr (f (of_nat x)))"

text \<open>Listener, document roots and HTTP limits.\<close>
definition apply_listen_http :: "string \<Rightarrow> string \<Rightarrow> edge_config \<Rightarrow> cfg_result option" where
  "apply_listen_http key v c =
     (if key = ''listen.host''
      then Some (set_str key 256 v (\<lambda>x. c\<lparr>listen_host := x\<rparr>))
      else if key = ''listen.port''
      then Some (set_port key v (\<lambda>x. c\<lparr>listen_port := x\<rparr>))
      else if key = ''spa.root'' \<or> key = ''spa_root''
      then Some (set_str key 512 v (\<lambda>x. c\<lparr>spa_root := x\<rparr>))
      else if key = ''packages.root'' \<or> key = ''packages_root'' \<or> key = ''spa.packages''
      then Some (set_str key 512 v (\<lambda>x. c\<lparr>packages_root := x\<rparr>))
      else if key = ''spa.max_file_bytes'' \<or> key = ''static.max_file_bytes''
      then Some (set_size key v (\<lambda>x. c\<lparr>static_max_file_bytes := x\<rparr>))
      else if key = ''http.max_body_bytes''
      then Some (set_size key v (\<lambda>x. c\<lparr>http_max_body_bytes := x\<rparr>))
      else if key = ''http.max_pending_outbound''
      then Some (set_size key v (\<lambda>x. c\<lparr>http_max_pending_outbound := x\<rparr>))
      else if key = ''http.max_upstream_body_bytes''
      then Some (set_size key v (\<lambda>x. c\<lparr>http_max_upstream_body_bytes := x\<rparr>))
      else None)"

text \<open>State namespaces.\<close>
definition apply_state :: "string \<Rightarrow> string \<Rightarrow> edge_config \<Rightarrow> cfg_result option" where
  "apply_state key v c =
     (if key = ''state.namespaces.net_core.enabled'' \<or>
         key = ''state.net_core.enabled'' \<or>
         key = ''state.enable_net_core''
      then Some (set_bool key v (\<lambda>x. c\<lparr>state_net_core_enabled := x\<rparr>))
      else if key = ''state.namespaces.map_dynamic.enabled'' \<or>
              key = ''state.map_dynamic.enabled'' \<or>
              key = ''state.enable_map_dynamic''
      then Some (set_bool key v (\<lambda>x. c\<lparr>state_map_dynamic_enabled := x\<rparr>))
      else if key = ''state.namespaces.net_pon.enabled'' \<or> key = ''state.net_pon.enabled''
      then Some (set_bool key v (\<lambda>x. c\<lparr>state_net_pon_enabled := x\<rparr>))
      else if key = ''state.namespaces.net_home.enabled'' \<or> key = ''state.net_home.enabled''
      then Some (set_bool key v (\<lambda>x. c\<lparr>state_net_home_enabled := x\<rparr>))
      else if key = ''state.namespaces.electric.enabled'' \<or> key = ''state.electric.enabled''
      then Some (set_bool key v (\<lambda>x. c\<lparr>state_electric_enabled := x\<rparr>))
      else if key = ''state.namespaces.inventory.enabled'' \<or> key = ''state.inventory.enabled''
      then Some (set_bool key v (\<lambda>x. c\<lparr>state_inventory_enabled := x\<rparr>))
      else None)"

text \<open>Access control and name resolution.\<close>
definition apply_auth :: "string \<Rightarrow> string \<Rightarrow> edge_config \<Rightarrow> cfg_result option" where
  "apply_auth key v c =
     (if key = ''auth.mode''
      then Some (set_str key 32 v (\<lambda>x. c\<lparr>auth_mode := x\<rparr>))
      else if key = ''auth.lab_password_env''
      then Some (set_str key 64 v (\<lambda>x. c\<lparr>auth_lab_password_env := x\<rparr>))
      else if key = ''auth.session_hmac_key_env''
      then Some (set_str key 64 v (\<lambda>x. c\<lparr>auth_session_hmac_key_env := x\<rparr>))
      else if key = ''auth.session_ttl_s''
      then Some (set_u32 key v False ''invalid ttl'' (\<lambda>x. c\<lparr>auth_session_ttl_s := x\<rparr>))
      else if key = ''auth.proxy_hmac_key_env''
      then Some (set_str key 64 v (\<lambda>x. c\<lparr>auth_proxy_hmac_key_env := x\<rparr>))
      else if key = ''auth.proxy_max_skew_s''
      then Some (set_u32 key v False ''invalid skew'' (\<lambda>x. c\<lparr>auth_proxy_max_skew_s := x\<rparr>))
      else if key = ''dns.allow_blocking''
      then Some (set_bool key v (\<lambda>x. c\<lparr>dns_allow_blocking := x\<rparr>))
      else None)"

text \<open>The OpenAI proxy.\<close>
definition apply_openai :: "string \<Rightarrow> string \<Rightarrow> edge_config \<Rightarrow> cfg_result option" where
  "apply_openai key v c =
     (if key = ''plugins.openai_proxy.enabled'' \<or> key = ''openai_proxy.enabled''
      then Some (set_bool key v (\<lambda>x. c\<lparr>openai_enabled := x\<rparr>))
      else if key = ''plugins.openai_proxy.upstream'' \<or> key = ''openai_proxy.upstream''
      then Some (set_str key 512 v (\<lambda>x. c\<lparr>openai_upstream := x\<rparr>))
      else if key = ''plugins.openai_proxy.upstream_addr'' \<or> key = ''openai_proxy.upstream_addr''
      then Some (set_str key 64 v (\<lambda>x. c\<lparr>openai_upstream_addr := x\<rparr>))
      else if key = ''plugins.openai_proxy.upstream_host'' \<or> key = ''openai_proxy.upstream_host''
      then Some (set_str key 256 v (\<lambda>x. c\<lparr>openai_upstream_host := x\<rparr>))
      else if key = ''plugins.openai_proxy.api_key_env''
      then Some (set_str key 64 v (\<lambda>x. c\<lparr>openai_api_key_env := x\<rparr>))
      else if key = ''plugins.openai_proxy.service_api_key_env''
      then Some (set_str key 64 v (\<lambda>x. c\<lparr>openai_service_key_env := x\<rparr>))
      else if key = ''plugins.openai_proxy.timeout_ms''
      then Some (set_u32 key v False ''invalid'' (\<lambda>x. c\<lparr>openai_timeout_ms := x\<rparr>))
      else if key = ''plugins.openai_proxy.rate_limit_rpm''
      then Some (set_u32 key v True ''invalid'' (\<lambda>x. c\<lparr>openai_rate_limit_rpm := x\<rparr>))
      else if key = ''plugins.openai_proxy.max_concurrent_per_principal''
      then Some (set_u32 key v False ''invalid'' (\<lambda>x. c\<lparr>openai_max_concurrent := x\<rparr>))
      else None)"

text \<open>The other plugins, TLS, the sidecar and database notifications.\<close>
definition apply_others :: "string \<Rightarrow> string \<Rightarrow> edge_config \<Rightarrow> cfg_result option" where
  "apply_others key v c =
     (if key = ''plugins.slack.enabled'' \<or> key = ''slack.enabled''
      then Some (set_bool key v (\<lambda>x. c\<lparr>slack_enabled := x\<rparr>))
      else if key = ''plugins.teams.enabled'' \<or> key = ''teams.enabled''
      then Some (set_bool key v (\<lambda>x. c\<lparr>teams_enabled := x\<rparr>))
      else if key = ''tls.cert'' \<or> key = ''tls.cert_file''
      then Some (set_str key 512 v (\<lambda>x. c\<lparr>tls_cert := x\<rparr>))
      else if key = ''tls.key'' \<or> key = ''tls.key_file''
      then Some (set_str key 512 v (\<lambda>x. c\<lparr>tls_key := x\<rparr>))
      else if key = ''tls.client_ca'' \<or> key = ''tls.client_ca_file''
      then Some (set_str key 512 v (\<lambda>x. c\<lparr>tls_client_ca := x\<rparr>))
      else if key = ''plugins.pqproxy.enabled'' \<or> key = ''pqproxy.enabled''
      then Some (set_bool key v (\<lambda>x. c\<lparr>pqproxy_enabled := x\<rparr>))
      else if key = ''plugins.pqproxy.metrics_url'' \<or> key = ''pqproxy.metrics_url''
      then Some (set_str key 256 v (\<lambda>x. c\<lparr>pqproxy_metrics_url := x\<rparr>))
      else if key = ''plugins.pqproxy.scrape_interval_ms''
      then Some (set_u32 key v False ''invalid'' (\<lambda>x. c\<lparr>pqproxy_scrape_interval_ms := x\<rparr>))
      else if key = ''postgres.notify_enabled'' \<or> key = ''postgres.enabled''
      then Some (set_bool key v (\<lambda>x. c\<lparr>postgres_notify_enabled := x\<rparr>))
      else if key = ''postgres.listen_channels'' \<or> key = ''postgres.listen_channel''
      then Some (set_str key 64 v (\<lambda>x. c\<lparr>postgres_listen_channel := x\<rparr>))
      else None)"

definition apply_scalar :: "edge_config \<Rightarrow> string \<Rightarrow> string \<Rightarrow> cfg_result" where
  "apply_scalar c key v =
     (case apply_listen_http key v c of Some r \<Rightarrow> r
      | None \<Rightarrow> (case apply_state key v c of Some r \<Rightarrow> r
      | None \<Rightarrow> (case apply_auth key v c of Some r \<Rightarrow> r
      | None \<Rightarrow> (case apply_openai key v c of Some r \<Rightarrow> r
      | None \<Rightarrow> (case apply_others key v c of Some r \<Rightarrow> r
      | None \<Rightarrow> Inr c)))))"

definition g_paths :: "string list" where
  "g_paths =
     [''listen.host'', ''listen.port'',
      ''spa.root'', ''spa_root'',
      ''packages.root'', ''packages_root'',
      ''spa.packages'', ''spa.max_file_bytes'',
      ''static.max_file_bytes'', ''http.max_body_bytes'',
      ''http.max_pending_outbound'', ''http.max_upstream_body_bytes'',
      ''state.namespaces.net_core.enabled'', ''state.namespaces.map_dynamic.enabled'',
      ''state.namespaces.net_pon.enabled'', ''state.namespaces.net_home.enabled'',
      ''state.namespaces.electric.enabled'', ''state.namespaces.inventory.enabled'',
      ''state.net_core.enabled'', ''state.map_dynamic.enabled'',
      ''state.net_pon.enabled'', ''state.net_home.enabled'',
      ''state.electric.enabled'', ''state.inventory.enabled'',
      ''state.enable_net_core'', ''state.enable_map_dynamic'',
      ''auth.mode'', ''auth.lab_password_env'',
      ''auth.session_hmac_key_env'', ''auth.session_ttl_s'',
      ''auth.proxy_hmac_key_env'', ''auth.proxy_max_skew_s'',
      ''dns.allow_blocking'', ''plugins.openai_proxy.enabled'',
      ''openai_proxy.enabled'', ''plugins.openai_proxy.upstream'',
      ''openai_proxy.upstream'', ''plugins.openai_proxy.upstream_addr'',
      ''openai_proxy.upstream_addr'', ''plugins.openai_proxy.upstream_host'',
      ''openai_proxy.upstream_host'', ''plugins.openai_proxy.api_key_env'',
      ''plugins.openai_proxy.service_api_key_env'', ''plugins.openai_proxy.timeout_ms'',
      ''plugins.openai_proxy.rate_limit_rpm'', ''plugins.openai_proxy.max_concurrent_per_principal'',
      ''plugins.slack.enabled'', ''slack.enabled'',
      ''plugins.teams.enabled'', ''teams.enabled'',
      ''tls.cert'', ''tls.cert_file'',
      ''tls.key'', ''tls.key_file'',
      ''tls.client_ca'', ''tls.client_ca_file'',
      ''plugins.pqproxy.enabled'', ''pqproxy.enabled'',
      ''plugins.pqproxy.metrics_url'', ''pqproxy.metrics_url'',
      ''plugins.pqproxy.scrape_interval_ms'', ''postgres.notify_enabled'',
      ''postgres.enabled'', ''postgres.listen_channels'',
      ''postgres.listen_channel'']"

section \<open>Loading\<close>

datatype yaml_event = YAML_EVENT_ERROR string | YAML_EVENT_OTHER

record 'y yaml_lib =
  yl_create :: "'y option"
  yl_feed_input :: "'y \<Rightarrow> string \<Rightarrow> nat \<times> 'y"
  yl_next_event :: "'y \<Rightarrow> (yaml_event \<times> 'y) option"
  yl_lookup_scalar :: "'y \<Rightarrow> string \<Rightarrow> string option"

text \<open>An empty scalar counts as absent.\<close>

definition yaml_scalar :: "(string \<Rightarrow> string option) \<Rightarrow> string \<Rightarrow> string option" where
  "yaml_scalar look path = (case look path of Some (c # cs) \<Rightarrow> Some (c # cs) | _ \<Rightarrow> None)"

fun apply_paths :: "(string \<Rightarrow> string option) \<Rightarrow> string list \<Rightarrow> edge_config \<Rightarrow> string option \<times> edge_config" where
  "apply_paths look [] c = (None, c)"
| "apply_paths look (p # ps) c =
     (case yaml_scalar look p of
        None \<Rightarrow> apply_paths look ps c
      | Some v \<Rightarrow> (case apply_scalar c p v of Inl msg \<Rightarrow> (Some msg, c) | Inr c' \<Rightarrow> apply_paths look ps c'))"

text \<open>The loop over the parser's events; it may not end. \<open>Inl\<close> is the message of a parse error.\<close>

partial_function (option) drain_yaml :: "'y yaml_lib \<Rightarrow> 'y \<Rightarrow> (string + 'y) option" where
  "drain_yaml lib y =
     (case yl_next_event lib y of
        None \<Rightarrow> Some (Inr y)
      | Some (YAML_EVENT_ERROR msg, y') \<Rightarrow> Some (Inl (if msg = [] then ''error'' else msg))
      | Some (YAML_EVENT_OTHER, y') \<Rightarrow> drain_yaml lib y')"

definition load_from_ctx :: "'y yaml_lib \<Rightarrow> 'y \<Rightarrow> edge_config \<Rightarrow> (string option \<times> edge_config) option" where
  "load_from_ctx lib y c =
     map_option (\<lambda>r. case r of
        Inl msg \<Rightarrow> (Some (''yaml parse: '' @ msg), c)
      | Inr y' \<Rightarrow> apply_paths (yl_lookup_scalar lib y') g_paths c) (drain_yaml lib y)"

definition edge_config_load_yaml_buf ::
  "'y yaml_lib \<Rightarrow> string \<Rightarrow> (string option \<times> edge_config) option" where
  "edge_config_load_yaml_buf lib yaml =
     (if yaml = [] then Some (None, edge_config_defaults)
      else case yl_create lib of
        None \<Rightarrow> Some (Some ''yaml_create failed'', edge_config_defaults)
      | Some y \<Rightarrow>
          (case yl_feed_input lib y yaml of
             (n, y') \<Rightarrow>
               if n = 0 then Some (Some ''yaml_feed_input consumed 0'', edge_config_defaults)
               else load_from_ctx lib y' edge_config_defaults))"

text \<open>\<open>file\<close>: the contents \<open>fopen\<close> and \<open>fread\<close> give for a path; \<open>mem\<close>: the buffer can grow. The
  caller's configuration \<open>c0\<close> stays as it was when nothing could be read.\<close>

definition edge_config_load_yaml_path ::
  "'y yaml_lib \<Rightarrow> (string \<Rightarrow> string option) \<Rightarrow> bool \<Rightarrow> string \<Rightarrow> edge_config \<Rightarrow>
   (string option \<times> edge_config) option" where
  "edge_config_load_yaml_path lib file mem path c0 =
     (case file path of
        None \<Rightarrow> Some (Some (''cannot open '' @ path), c0)
      | Some [] \<Rightarrow> Some (None, edge_config_defaults)
      | Some (c # cs) \<Rightarrow>
          if \<not> mem then Some (Some ''oom reading config'', c0)
          else edge_config_load_yaml_buf lib (c # cs))"

end
