(* ===== verification/Config_Load.thy ===== *)
theory Config_Load
  imports Config_Yaml
begin

text \<open>
  What loading a configuration does: every configuration that can be written down is loaded
  exactly; a configuration that loads fails validation for its mode of authentication only;
  an error names the setting. The rendering of a configuration is the list of its canonical
  settings.
\<close>

lemma apply_scalar_simps:
  "apply_scalar c ''listen.host'' v = set_str ''listen.host'' 256 v (\<lambda>x. c\<lparr>listen_host := x\<rparr>)"
  "apply_scalar c ''listen.port'' v = set_port ''listen.port'' v (\<lambda>x. c\<lparr>listen_port := x\<rparr>)"
  "apply_scalar c ''spa.root'' v = set_str ''spa.root'' 512 v (\<lambda>x. c\<lparr>spa_root := x\<rparr>)"
  "apply_scalar c ''spa_root'' v = set_str ''spa_root'' 512 v (\<lambda>x. c\<lparr>spa_root := x\<rparr>)"
  "apply_scalar c ''packages.root'' v = set_str ''packages.root'' 512 v (\<lambda>x. c\<lparr>packages_root := x\<rparr>)"
  "apply_scalar c ''packages_root'' v = set_str ''packages_root'' 512 v (\<lambda>x. c\<lparr>packages_root := x\<rparr>)"
  "apply_scalar c ''spa.packages'' v = set_str ''spa.packages'' 512 v (\<lambda>x. c\<lparr>packages_root := x\<rparr>)"
  "apply_scalar c ''spa.max_file_bytes'' v = set_size ''spa.max_file_bytes'' v (\<lambda>x. c\<lparr>static_max_file_bytes := x\<rparr>)"
  "apply_scalar c ''static.max_file_bytes'' v = set_size ''static.max_file_bytes'' v (\<lambda>x. c\<lparr>static_max_file_bytes := x\<rparr>)"
  "apply_scalar c ''http.max_body_bytes'' v = set_size ''http.max_body_bytes'' v (\<lambda>x. c\<lparr>http_max_body_bytes := x\<rparr>)"
  "apply_scalar c ''http.max_pending_outbound'' v = set_size ''http.max_pending_outbound'' v (\<lambda>x. c\<lparr>http_max_pending_outbound := x\<rparr>)"
  "apply_scalar c ''http.max_upstream_body_bytes'' v = set_size ''http.max_upstream_body_bytes'' v (\<lambda>x. c\<lparr>http_max_upstream_body_bytes := x\<rparr>)"
  "apply_scalar c ''state.namespaces.net_core.enabled'' v = set_bool ''state.namespaces.net_core.enabled'' v (\<lambda>x. c\<lparr>state_net_core_enabled := x\<rparr>)"
  "apply_scalar c ''state.net_core.enabled'' v = set_bool ''state.net_core.enabled'' v (\<lambda>x. c\<lparr>state_net_core_enabled := x\<rparr>)"
  "apply_scalar c ''state.enable_net_core'' v = set_bool ''state.enable_net_core'' v (\<lambda>x. c\<lparr>state_net_core_enabled := x\<rparr>)"
  "apply_scalar c ''state.namespaces.map_dynamic.enabled'' v = set_bool ''state.namespaces.map_dynamic.enabled'' v (\<lambda>x. c\<lparr>state_map_dynamic_enabled := x\<rparr>)"
  "apply_scalar c ''state.map_dynamic.enabled'' v = set_bool ''state.map_dynamic.enabled'' v (\<lambda>x. c\<lparr>state_map_dynamic_enabled := x\<rparr>)"
  "apply_scalar c ''state.enable_map_dynamic'' v = set_bool ''state.enable_map_dynamic'' v (\<lambda>x. c\<lparr>state_map_dynamic_enabled := x\<rparr>)"
  "apply_scalar c ''state.namespaces.net_pon.enabled'' v = set_bool ''state.namespaces.net_pon.enabled'' v (\<lambda>x. c\<lparr>state_net_pon_enabled := x\<rparr>)"
  "apply_scalar c ''state.net_pon.enabled'' v = set_bool ''state.net_pon.enabled'' v (\<lambda>x. c\<lparr>state_net_pon_enabled := x\<rparr>)"
  "apply_scalar c ''state.namespaces.net_home.enabled'' v = set_bool ''state.namespaces.net_home.enabled'' v (\<lambda>x. c\<lparr>state_net_home_enabled := x\<rparr>)"
  "apply_scalar c ''state.net_home.enabled'' v = set_bool ''state.net_home.enabled'' v (\<lambda>x. c\<lparr>state_net_home_enabled := x\<rparr>)"
  "apply_scalar c ''state.namespaces.electric.enabled'' v = set_bool ''state.namespaces.electric.enabled'' v (\<lambda>x. c\<lparr>state_electric_enabled := x\<rparr>)"
  "apply_scalar c ''state.electric.enabled'' v = set_bool ''state.electric.enabled'' v (\<lambda>x. c\<lparr>state_electric_enabled := x\<rparr>)"
  "apply_scalar c ''state.namespaces.inventory.enabled'' v = set_bool ''state.namespaces.inventory.enabled'' v (\<lambda>x. c\<lparr>state_inventory_enabled := x\<rparr>)"
  "apply_scalar c ''state.inventory.enabled'' v = set_bool ''state.inventory.enabled'' v (\<lambda>x. c\<lparr>state_inventory_enabled := x\<rparr>)"
  "apply_scalar c ''auth.mode'' v = set_str ''auth.mode'' 32 v (\<lambda>x. c\<lparr>auth_mode := x\<rparr>)"
  "apply_scalar c ''auth.lab_password_env'' v = set_str ''auth.lab_password_env'' 64 v (\<lambda>x. c\<lparr>auth_lab_password_env := x\<rparr>)"
  "apply_scalar c ''auth.session_hmac_key_env'' v = set_str ''auth.session_hmac_key_env'' 64 v (\<lambda>x. c\<lparr>auth_session_hmac_key_env := x\<rparr>)"
  "apply_scalar c ''auth.session_ttl_s'' v = set_u32 ''auth.session_ttl_s'' v False ''invalid ttl'' (\<lambda>x. c\<lparr>auth_session_ttl_s := x\<rparr>)"
  "apply_scalar c ''auth.proxy_hmac_key_env'' v = set_str ''auth.proxy_hmac_key_env'' 64 v (\<lambda>x. c\<lparr>auth_proxy_hmac_key_env := x\<rparr>)"
  "apply_scalar c ''auth.proxy_max_skew_s'' v = set_u32 ''auth.proxy_max_skew_s'' v False ''invalid skew'' (\<lambda>x. c\<lparr>auth_proxy_max_skew_s := x\<rparr>)"
  "apply_scalar c ''dns.allow_blocking'' v = set_bool ''dns.allow_blocking'' v (\<lambda>x. c\<lparr>dns_allow_blocking := x\<rparr>)"
  "apply_scalar c ''plugins.openai_proxy.enabled'' v = set_bool ''plugins.openai_proxy.enabled'' v (\<lambda>x. c\<lparr>openai_enabled := x\<rparr>)"
  "apply_scalar c ''openai_proxy.enabled'' v = set_bool ''openai_proxy.enabled'' v (\<lambda>x. c\<lparr>openai_enabled := x\<rparr>)"
  "apply_scalar c ''plugins.openai_proxy.upstream'' v = set_str ''plugins.openai_proxy.upstream'' 512 v (\<lambda>x. c\<lparr>openai_upstream := x\<rparr>)"
  "apply_scalar c ''openai_proxy.upstream'' v = set_str ''openai_proxy.upstream'' 512 v (\<lambda>x. c\<lparr>openai_upstream := x\<rparr>)"
  "apply_scalar c ''plugins.openai_proxy.upstream_addr'' v = set_str ''plugins.openai_proxy.upstream_addr'' 64 v (\<lambda>x. c\<lparr>openai_upstream_addr := x\<rparr>)"
  "apply_scalar c ''openai_proxy.upstream_addr'' v = set_str ''openai_proxy.upstream_addr'' 64 v (\<lambda>x. c\<lparr>openai_upstream_addr := x\<rparr>)"
  "apply_scalar c ''plugins.openai_proxy.upstream_host'' v = set_str ''plugins.openai_proxy.upstream_host'' 256 v (\<lambda>x. c\<lparr>openai_upstream_host := x\<rparr>)"
  "apply_scalar c ''openai_proxy.upstream_host'' v = set_str ''openai_proxy.upstream_host'' 256 v (\<lambda>x. c\<lparr>openai_upstream_host := x\<rparr>)"
  "apply_scalar c ''plugins.openai_proxy.api_key_env'' v = set_str ''plugins.openai_proxy.api_key_env'' 64 v (\<lambda>x. c\<lparr>openai_api_key_env := x\<rparr>)"
  "apply_scalar c ''plugins.openai_proxy.service_api_key_env'' v = set_str ''plugins.openai_proxy.service_api_key_env'' 64 v (\<lambda>x. c\<lparr>openai_service_key_env := x\<rparr>)"
  "apply_scalar c ''plugins.openai_proxy.timeout_ms'' v = set_u32 ''plugins.openai_proxy.timeout_ms'' v False ''invalid'' (\<lambda>x. c\<lparr>openai_timeout_ms := x\<rparr>)"
  "apply_scalar c ''plugins.openai_proxy.rate_limit_rpm'' v = set_u32 ''plugins.openai_proxy.rate_limit_rpm'' v True ''invalid'' (\<lambda>x. c\<lparr>openai_rate_limit_rpm := x\<rparr>)"
  "apply_scalar c ''plugins.openai_proxy.max_concurrent_per_principal'' v = set_u32 ''plugins.openai_proxy.max_concurrent_per_principal'' v False ''invalid'' (\<lambda>x. c\<lparr>openai_max_concurrent := x\<rparr>)"
  "apply_scalar c ''plugins.slack.enabled'' v = set_bool ''plugins.slack.enabled'' v (\<lambda>x. c\<lparr>slack_enabled := x\<rparr>)"
  "apply_scalar c ''slack.enabled'' v = set_bool ''slack.enabled'' v (\<lambda>x. c\<lparr>slack_enabled := x\<rparr>)"
  "apply_scalar c ''plugins.teams.enabled'' v = set_bool ''plugins.teams.enabled'' v (\<lambda>x. c\<lparr>teams_enabled := x\<rparr>)"
  "apply_scalar c ''teams.enabled'' v = set_bool ''teams.enabled'' v (\<lambda>x. c\<lparr>teams_enabled := x\<rparr>)"
  "apply_scalar c ''tls.cert'' v = set_str ''tls.cert'' 512 v (\<lambda>x. c\<lparr>tls_cert := x\<rparr>)"
  "apply_scalar c ''tls.cert_file'' v = set_str ''tls.cert_file'' 512 v (\<lambda>x. c\<lparr>tls_cert := x\<rparr>)"
  "apply_scalar c ''tls.key'' v = set_str ''tls.key'' 512 v (\<lambda>x. c\<lparr>tls_key := x\<rparr>)"
  "apply_scalar c ''tls.key_file'' v = set_str ''tls.key_file'' 512 v (\<lambda>x. c\<lparr>tls_key := x\<rparr>)"
  "apply_scalar c ''tls.client_ca'' v = set_str ''tls.client_ca'' 512 v (\<lambda>x. c\<lparr>tls_client_ca := x\<rparr>)"
  "apply_scalar c ''tls.client_ca_file'' v = set_str ''tls.client_ca_file'' 512 v (\<lambda>x. c\<lparr>tls_client_ca := x\<rparr>)"
  "apply_scalar c ''plugins.pqproxy.enabled'' v = set_bool ''plugins.pqproxy.enabled'' v (\<lambda>x. c\<lparr>pqproxy_enabled := x\<rparr>)"
  "apply_scalar c ''pqproxy.enabled'' v = set_bool ''pqproxy.enabled'' v (\<lambda>x. c\<lparr>pqproxy_enabled := x\<rparr>)"
  "apply_scalar c ''plugins.pqproxy.metrics_url'' v = set_str ''plugins.pqproxy.metrics_url'' 256 v (\<lambda>x. c\<lparr>pqproxy_metrics_url := x\<rparr>)"
  "apply_scalar c ''pqproxy.metrics_url'' v = set_str ''pqproxy.metrics_url'' 256 v (\<lambda>x. c\<lparr>pqproxy_metrics_url := x\<rparr>)"
  "apply_scalar c ''plugins.pqproxy.scrape_interval_ms'' v = set_u32 ''plugins.pqproxy.scrape_interval_ms'' v False ''invalid'' (\<lambda>x. c\<lparr>pqproxy_scrape_interval_ms := x\<rparr>)"
  "apply_scalar c ''postgres.notify_enabled'' v = set_bool ''postgres.notify_enabled'' v (\<lambda>x. c\<lparr>postgres_notify_enabled := x\<rparr>)"
  "apply_scalar c ''postgres.enabled'' v = set_bool ''postgres.enabled'' v (\<lambda>x. c\<lparr>postgres_notify_enabled := x\<rparr>)"
  "apply_scalar c ''postgres.listen_channels'' v = set_str ''postgres.listen_channels'' 64 v (\<lambda>x. c\<lparr>postgres_listen_channel := x\<rparr>)"
  "apply_scalar c ''postgres.listen_channel'' v = set_str ''postgres.listen_channel'' 64 v (\<lambda>x. c\<lparr>postgres_listen_channel := x\<rparr>)"
  by (simp_all add: apply_scalar_def apply_listen_http_def apply_state_def apply_auth_def apply_openai_def
      apply_others_def)

section \<open>Numbers\<close>

lemma strtoull_dec: "n < 2 ^ 64 \<Longrightarrow> c_strtoull (dec_nat n) = Some (n, [])"
proof -
  assume n: "n < 2 ^ 64"
  obtain d ds where d: "dec_nat n = d # ds" "is_digit d" using dec_nat_hd [of n] by auto
  have c: "\<not> is_space d" "d \<noteq> CHR ''-''" "d \<noteq> CHR ''+''" using d(2) by (auto simp: is_digit_def is_space_def)
  have r: "read_digits 0 (d # ds) = (n, [])" using read_digits_dec_nat [of 0 n "[]"] d by simp
  show ?thesis using n c d(2) r by (simp add: c_strtoull_def d(1) ullong_max_def Let_def)
qed

lemma parse_size_dec [simp]: "n < 2 ^ 64 \<Longrightarrow> parse_size (dec_nat n) = Some n"
  by (simp add: parse_size_def strtoull_dec)

lemma parse_u16_dec [simp]: "parse_u16 (dec_nat (unat (p :: u16))) = Some p"
proof -
  have u: "0 \<le> uint p" "uint p < 65536" using unsigned_less [of p, where ?'a = int] by simp_all
  have "c_strtoll (dec_int (uint p) @ []) = Some (uint p, [])"
    by (rule strtoll_dec_int) (rule order_trans [OF _ u(1)], use u in \<open>simp_all add: llong_min_def llong_max_def\<close>)
  then show ?thesis using u by (simp add: parse_u16_def dec_int_def nat_uint_eq)
qed

text \<open>A minus sign is not refused: the value wraps around.\<close>

lemma strtoull_negative:
  assumes "0 < n" "n \<le> ullong_max"
  shows "c_strtoull (CHR ''-'' # dec_nat n) = Some (2 ^ 64 - n, [])"
proof -
  obtain d ds where d: "dec_nat n = d # ds" "is_digit d" using dec_nat_hd [of n] by auto
  have r: "read_digits 0 (d # ds) = (n, [])" using read_digits_dec_nat [of 0 n "[]"] d by simp
  have "\<not> is_space (CHR ''-'')" by (simp add: is_space_def)
  then show ?thesis using assms d(2) r by (simp add: c_strtoull_def d(1) Let_def not_less)
qed

section \<open>Rendering\<close>

definition bool_text :: "bool \<Rightarrow> string" where
  "bool_text b = (if b then ''true'' else ''false'')"

lemma parse_bool_text [simp]: "parse_bool (bool_text b) = Some b"
  by (simp add: bool_text_def parse_bool_def)

text \<open>The settings of a configuration, by their first name in the table.\<close>

definition cfg_settings :: "edge_config \<Rightarrow> (string \<times> string) list" where
  "cfg_settings c =
     [(''listen.host'', listen_host c),
      (''listen.port'', dec_nat (unat (listen_port c))),
      (''spa.root'', spa_root c),
      (''packages.root'', packages_root c),
      (''spa.max_file_bytes'', dec_nat (static_max_file_bytes c)),
      (''http.max_body_bytes'', dec_nat (http_max_body_bytes c)),
      (''http.max_pending_outbound'', dec_nat (http_max_pending_outbound c)),
      (''http.max_upstream_body_bytes'', dec_nat (http_max_upstream_body_bytes c)),
      (''state.namespaces.net_core.enabled'', bool_text (state_net_core_enabled c)),
      (''state.namespaces.map_dynamic.enabled'', bool_text (state_map_dynamic_enabled c)),
      (''state.namespaces.net_pon.enabled'', bool_text (state_net_pon_enabled c)),
      (''state.namespaces.net_home.enabled'', bool_text (state_net_home_enabled c)),
      (''state.namespaces.electric.enabled'', bool_text (state_electric_enabled c)),
      (''state.namespaces.inventory.enabled'', bool_text (state_inventory_enabled c)),
      (''auth.mode'', auth_mode c),
      (''auth.lab_password_env'', auth_lab_password_env c),
      (''auth.session_hmac_key_env'', auth_session_hmac_key_env c),
      (''auth.session_ttl_s'', dec_nat (unat (auth_session_ttl_s c))),
      (''auth.proxy_hmac_key_env'', auth_proxy_hmac_key_env c),
      (''auth.proxy_max_skew_s'', dec_nat (unat (auth_proxy_max_skew_s c))),
      (''dns.allow_blocking'', bool_text (dns_allow_blocking c)),
      (''plugins.openai_proxy.enabled'', bool_text (openai_enabled c)),
      (''plugins.openai_proxy.upstream'', openai_upstream c),
      (''plugins.openai_proxy.upstream_addr'', openai_upstream_addr c),
      (''plugins.openai_proxy.upstream_host'', openai_upstream_host c),
      (''plugins.openai_proxy.api_key_env'', openai_api_key_env c),
      (''plugins.openai_proxy.service_api_key_env'', openai_service_key_env c),
      (''plugins.openai_proxy.timeout_ms'', dec_nat (unat (openai_timeout_ms c))),
      (''plugins.openai_proxy.rate_limit_rpm'', dec_nat (unat (openai_rate_limit_rpm c))),
      (''plugins.openai_proxy.max_concurrent_per_principal'', dec_nat (unat (openai_max_concurrent c))),
      (''plugins.slack.enabled'', bool_text (slack_enabled c)),
      (''plugins.teams.enabled'', bool_text (teams_enabled c)),
      (''tls.cert'', tls_cert c),
      (''tls.key'', tls_key c),
      (''tls.client_ca'', tls_client_ca c),
      (''plugins.pqproxy.enabled'', bool_text (pqproxy_enabled c)),
      (''plugins.pqproxy.metrics_url'', pqproxy_metrics_url c),
      (''plugins.pqproxy.scrape_interval_ms'', dec_nat (unat (pqproxy_scrape_interval_ms c))),
      (''postgres.notify_enabled'', bool_text (postgres_notify_enabled c)),
      (''postgres.listen_channels'', postgres_listen_channel c)]"

text \<open>A configuration that fits a file: strings fit their arrays and, where the default is not
  empty, are not; numbers are in range.\<close>

definition config_printable :: "edge_config \<Rightarrow> bool" where
  "config_printable c \<longleftrightarrow>
     length (listen_host c) < 256 \<and> length (spa_root c) < 512 \<and> length (packages_root c) < 512 \<and>
     length (auth_mode c) < 32 \<and> length (auth_lab_password_env c) < 64 \<and>
     length (auth_session_hmac_key_env c) < 64 \<and> length (auth_proxy_hmac_key_env c) < 64 \<and>
     length (openai_upstream c) < 512 \<and> length (openai_upstream_addr c) < 64 \<and>
     length (openai_upstream_host c) < 256 \<and> length (openai_api_key_env c) < 64 \<and>
     length (openai_service_key_env c) < 64 \<and> length (tls_cert c) < 512 \<and>
     length (tls_key c) < 512 \<and> length (tls_client_ca c) < 512 \<and>
     length (pqproxy_metrics_url c) < 256 \<and> length (postgres_listen_channel c) < 64 \<and>
     listen_host c \<noteq> [] \<and> spa_root c \<noteq> [] \<and> packages_root c \<noteq> [] \<and> auth_mode c \<noteq> [] \<and>
     auth_lab_password_env c \<noteq> [] \<and> auth_session_hmac_key_env c \<noteq> [] \<and>
     auth_proxy_hmac_key_env c \<noteq> [] \<and> openai_upstream c \<noteq> [] \<and> openai_api_key_env c \<noteq> [] \<and>
     openai_service_key_env c \<noteq> [] \<and> pqproxy_metrics_url c \<noteq> [] \<and>
     postgres_listen_channel c \<noteq> [] \<and> listen_port c \<noteq> 0 \<and> 0 < static_max_file_bytes c \<and>
     static_max_file_bytes c < 2 ^ 64 \<and> 0 < http_max_body_bytes c \<and>
     http_max_body_bytes c < 2 ^ 64 \<and> 0 < http_max_pending_outbound c \<and>
     http_max_pending_outbound c < 2 ^ 64 \<and> 0 < http_max_upstream_body_bytes c \<and>
     http_max_upstream_body_bytes c < 2 ^ 64 \<and> auth_session_ttl_s c \<noteq> 0 \<and>
     auth_proxy_max_skew_s c \<noteq> 0 \<and> openai_timeout_ms c \<noteq> 0 \<and> openai_max_concurrent c \<noteq> 0 \<and>
     pqproxy_scrape_interval_ms c \<noteq> 0 \<and> generation c = 0"

definition cfg_look :: "edge_config \<Rightarrow> string \<Rightarrow> string option" where
  "cfg_look c = map_of (cfg_settings c)"

lemma bool_text_nonempty [simp]: "bool_text b \<noteq> []"
  by (simp add: bool_text_def)

lemma u32_range [simp]: "unat (x :: u32) \<le> 4294967295"
  using unsigned_less [of x, where ?'a = nat] by simp

lemma set_u32_dec:
  "x \<noteq> 0 \<or> z \<Longrightarrow> set_u32 key (dec_nat (unat x)) z msg f = Inr (f x)"
proof -
  assume a: "x \<noteq> 0 \<or> z"
  have "unat x < 2 ^ 64" by (rule le_less_trans [OF u32_range]) simp
  moreover have "\<not> 4294967295 < unat x" using u32_range [of x] by (simp only: not_less)
  ultimately show ?thesis using a by (auto simp: set_u32_def unat_eq_0)
qed

lemma set_size_dec: "0 < n \<Longrightarrow> n < 2 ^ 64 \<Longrightarrow> set_size key (dec_nat n) f = Inr (f n)"
  by (simp add: set_size_def)

lemma set_port_dec: "p \<noteq> 0 \<Longrightarrow> set_port key (dec_nat (unat p)) f = Inr (f p)"
  by (simp add: set_port_def)

lemma set_bool_text: "set_bool key (bool_text b) f = Inr (f b)"
  by (simp add: set_bool_def)

lemma set_str_fits: "length v < sz \<Longrightarrow> set_str key sz v f = Inr (f v)"
  by (simp add: set_str_def copy_str_def)

lemmas set_text = set_u32_dec set_size_dec set_port_dec set_bool_text set_str_fits

lemma scalar_nonempty: "look p = Some v \<Longrightarrow> v \<noteq> [] \<Longrightarrow> yaml_scalar look p = Some v"
  by (cases v) (simp_all add: yaml_scalar_def)

lemma step_some:
  "look p = Some v \<Longrightarrow> v \<noteq> [] \<Longrightarrow> apply_scalar s p v = Inr s' \<Longrightarrow>
   apply_paths look (p # ps) s = apply_paths look ps s'"
  by (simp add: scalar_nonempty)

lemma step_none: "look p = None \<Longrightarrow> apply_paths look (p # ps) s = apply_paths look ps s"
  by (simp add: yaml_scalar_def)

text \<open>Where the default is empty, an empty setting changes nothing.\<close>

lemma step_opt:
  "look p = Some v \<Longrightarrow> apply_scalar s p v = Inr (f v) \<Longrightarrow> (v = [] \<Longrightarrow> f v = s) \<Longrightarrow>
   apply_paths look (p # ps) s = apply_paths look ps (f v)"
  by (cases "v = []") (simp_all add: scalar_nonempty, simp add: yaml_scalar_def)

definition cfg_keys :: "string list" where
  "cfg_keys =
     [''listen.host'', ''listen.port'',
      ''spa.root'', ''packages.root'',
      ''spa.max_file_bytes'', ''http.max_body_bytes'',
      ''http.max_pending_outbound'', ''http.max_upstream_body_bytes'',
      ''state.namespaces.net_core.enabled'', ''state.namespaces.map_dynamic.enabled'',
      ''state.namespaces.net_pon.enabled'', ''state.namespaces.net_home.enabled'',
      ''state.namespaces.electric.enabled'', ''state.namespaces.inventory.enabled'',
      ''auth.mode'', ''auth.lab_password_env'',
      ''auth.session_hmac_key_env'', ''auth.session_ttl_s'',
      ''auth.proxy_hmac_key_env'', ''auth.proxy_max_skew_s'',
      ''dns.allow_blocking'', ''plugins.openai_proxy.enabled'',
      ''plugins.openai_proxy.upstream'', ''plugins.openai_proxy.upstream_addr'',
      ''plugins.openai_proxy.upstream_host'', ''plugins.openai_proxy.api_key_env'',
      ''plugins.openai_proxy.service_api_key_env'', ''plugins.openai_proxy.timeout_ms'',
      ''plugins.openai_proxy.rate_limit_rpm'', ''plugins.openai_proxy.max_concurrent_per_principal'',
      ''plugins.slack.enabled'', ''plugins.teams.enabled'',
      ''tls.cert'', ''tls.key'',
      ''tls.client_ca'', ''plugins.pqproxy.enabled'',
      ''plugins.pqproxy.metrics_url'', ''plugins.pqproxy.scrape_interval_ms'',
      ''postgres.notify_enabled'', ''postgres.listen_channels'']"

lemma settings_keys: "map fst (cfg_settings c) = cfg_keys"
  by (simp add: cfg_settings_def cfg_keys_def)

lemma keys_distinct: "distinct cfg_keys"
  by code_simp

lemma look_nth:
  assumes "i < 40" "cfg_settings c ! i = (p, v)"
  shows "cfg_look c p = Some v"
proof -
  have "length (cfg_settings c) = 40" by (simp add: cfg_settings_def)
  with assms have "(p, v) \<in> set (cfg_settings c)" by (metis nth_mem)
  with keys_distinct show ?thesis by (simp add: cfg_look_def settings_keys)
qed

lemma look_None: "p \<notin> set cfg_keys \<Longrightarrow> cfg_look c p = None"
  unfolding cfg_look_def map_of_eq_None_iff settings_keys [of c, symmetric] set_map .

lemma look_value_0: "cfg_look c ''listen.host'' = Some (listen_host c)"
  by (rule look_nth [of 0]) (simp_all add: cfg_settings_def)

lemma look_value_1: "cfg_look c ''listen.port'' = Some (dec_nat (unat (listen_port c)))"
  by (rule look_nth [of 1]) (simp_all add: cfg_settings_def)

lemma look_value_2: "cfg_look c ''spa.root'' = Some (spa_root c)"
  by (rule look_nth [of 2]) (simp_all add: cfg_settings_def)

lemma look_value_3: "cfg_look c ''packages.root'' = Some (packages_root c)"
  by (rule look_nth [of 3]) (simp_all add: cfg_settings_def)

lemma look_value_4: "cfg_look c ''spa.max_file_bytes'' = Some (dec_nat (static_max_file_bytes c))"
  by (rule look_nth [of 4]) (simp_all add: cfg_settings_def)

lemma look_value_5: "cfg_look c ''http.max_body_bytes'' = Some (dec_nat (http_max_body_bytes c))"
  by (rule look_nth [of 5]) (simp_all add: cfg_settings_def)

lemma look_value_6: "cfg_look c ''http.max_pending_outbound'' = Some (dec_nat (http_max_pending_outbound c))"
  by (rule look_nth [of 6]) (simp_all add: cfg_settings_def)

lemma look_value_7: "cfg_look c ''http.max_upstream_body_bytes'' = Some (dec_nat (http_max_upstream_body_bytes c))"
  by (rule look_nth [of 7]) (simp_all add: cfg_settings_def)

lemma look_value_8: "cfg_look c ''state.namespaces.net_core.enabled'' = Some (bool_text (state_net_core_enabled c))"
  by (rule look_nth [of 8]) (simp_all add: cfg_settings_def)

lemma look_value_9: "cfg_look c ''state.namespaces.map_dynamic.enabled'' = Some (bool_text (state_map_dynamic_enabled c))"
  by (rule look_nth [of 9]) (simp_all add: cfg_settings_def)

lemma look_value_10: "cfg_look c ''state.namespaces.net_pon.enabled'' = Some (bool_text (state_net_pon_enabled c))"
  by (rule look_nth [of 10]) (simp_all add: cfg_settings_def)

lemma look_value_11: "cfg_look c ''state.namespaces.net_home.enabled'' = Some (bool_text (state_net_home_enabled c))"
  by (rule look_nth [of 11]) (simp_all add: cfg_settings_def)

lemma look_value_12: "cfg_look c ''state.namespaces.electric.enabled'' = Some (bool_text (state_electric_enabled c))"
  by (rule look_nth [of 12]) (simp_all add: cfg_settings_def)

lemma look_value_13: "cfg_look c ''state.namespaces.inventory.enabled'' = Some (bool_text (state_inventory_enabled c))"
  by (rule look_nth [of 13]) (simp_all add: cfg_settings_def)

lemma look_value_14: "cfg_look c ''auth.mode'' = Some (auth_mode c)"
  by (rule look_nth [of 14]) (simp_all add: cfg_settings_def)

lemma look_value_15: "cfg_look c ''auth.lab_password_env'' = Some (auth_lab_password_env c)"
  by (rule look_nth [of 15]) (simp_all add: cfg_settings_def)

lemma look_value_16: "cfg_look c ''auth.session_hmac_key_env'' = Some (auth_session_hmac_key_env c)"
  by (rule look_nth [of 16]) (simp_all add: cfg_settings_def)

lemma look_value_17: "cfg_look c ''auth.session_ttl_s'' = Some (dec_nat (unat (auth_session_ttl_s c)))"
  by (rule look_nth [of 17]) (simp_all add: cfg_settings_def)

lemma look_value_18: "cfg_look c ''auth.proxy_hmac_key_env'' = Some (auth_proxy_hmac_key_env c)"
  by (rule look_nth [of 18]) (simp_all add: cfg_settings_def)

lemma look_value_19: "cfg_look c ''auth.proxy_max_skew_s'' = Some (dec_nat (unat (auth_proxy_max_skew_s c)))"
  by (rule look_nth [of 19]) (simp_all add: cfg_settings_def)

lemma look_value_20: "cfg_look c ''dns.allow_blocking'' = Some (bool_text (dns_allow_blocking c))"
  by (rule look_nth [of 20]) (simp_all add: cfg_settings_def)

lemma look_value_21: "cfg_look c ''plugins.openai_proxy.enabled'' = Some (bool_text (openai_enabled c))"
  by (rule look_nth [of 21]) (simp_all add: cfg_settings_def)

lemma look_value_22: "cfg_look c ''plugins.openai_proxy.upstream'' = Some (openai_upstream c)"
  by (rule look_nth [of 22]) (simp_all add: cfg_settings_def)

lemma look_value_23: "cfg_look c ''plugins.openai_proxy.upstream_addr'' = Some (openai_upstream_addr c)"
  by (rule look_nth [of 23]) (simp_all add: cfg_settings_def)

lemma look_value_24: "cfg_look c ''plugins.openai_proxy.upstream_host'' = Some (openai_upstream_host c)"
  by (rule look_nth [of 24]) (simp_all add: cfg_settings_def)

lemma look_value_25: "cfg_look c ''plugins.openai_proxy.api_key_env'' = Some (openai_api_key_env c)"
  by (rule look_nth [of 25]) (simp_all add: cfg_settings_def)

lemma look_value_26: "cfg_look c ''plugins.openai_proxy.service_api_key_env'' = Some (openai_service_key_env c)"
  by (rule look_nth [of 26]) (simp_all add: cfg_settings_def)

lemma look_value_27: "cfg_look c ''plugins.openai_proxy.timeout_ms'' = Some (dec_nat (unat (openai_timeout_ms c)))"
  by (rule look_nth [of 27]) (simp_all add: cfg_settings_def)

lemma look_value_28: "cfg_look c ''plugins.openai_proxy.rate_limit_rpm'' = Some (dec_nat (unat (openai_rate_limit_rpm c)))"
  by (rule look_nth [of 28]) (simp_all add: cfg_settings_def)

lemma look_value_29: "cfg_look c ''plugins.openai_proxy.max_concurrent_per_principal'' = Some (dec_nat (unat (openai_max_concurrent c)))"
  by (rule look_nth [of 29]) (simp_all add: cfg_settings_def)

lemma look_value_30: "cfg_look c ''plugins.slack.enabled'' = Some (bool_text (slack_enabled c))"
  by (rule look_nth [of 30]) (simp_all add: cfg_settings_def)

lemma look_value_31: "cfg_look c ''plugins.teams.enabled'' = Some (bool_text (teams_enabled c))"
  by (rule look_nth [of 31]) (simp_all add: cfg_settings_def)

lemma look_value_32: "cfg_look c ''tls.cert'' = Some (tls_cert c)"
  by (rule look_nth [of 32]) (simp_all add: cfg_settings_def)

lemma look_value_33: "cfg_look c ''tls.key'' = Some (tls_key c)"
  by (rule look_nth [of 33]) (simp_all add: cfg_settings_def)

lemma look_value_34: "cfg_look c ''tls.client_ca'' = Some (tls_client_ca c)"
  by (rule look_nth [of 34]) (simp_all add: cfg_settings_def)

lemma look_value_35: "cfg_look c ''plugins.pqproxy.enabled'' = Some (bool_text (pqproxy_enabled c))"
  by (rule look_nth [of 35]) (simp_all add: cfg_settings_def)

lemma look_value_36: "cfg_look c ''plugins.pqproxy.metrics_url'' = Some (pqproxy_metrics_url c)"
  by (rule look_nth [of 36]) (simp_all add: cfg_settings_def)

lemma look_value_37: "cfg_look c ''plugins.pqproxy.scrape_interval_ms'' = Some (dec_nat (unat (pqproxy_scrape_interval_ms c)))"
  by (rule look_nth [of 37]) (simp_all add: cfg_settings_def)

lemma look_value_38: "cfg_look c ''postgres.notify_enabled'' = Some (bool_text (postgres_notify_enabled c))"
  by (rule look_nth [of 38]) (simp_all add: cfg_settings_def)

lemma look_value_39: "cfg_look c ''postgres.listen_channels'' = Some (postgres_listen_channel c)"
  by (rule look_nth [of 39]) (simp_all add: cfg_settings_def)

lemmas look_values =
  look_value_0 look_value_1 look_value_2 look_value_3 look_value_4 look_value_5 
  look_value_6 look_value_7 look_value_8 look_value_9 look_value_10 look_value_11 
  look_value_12 look_value_13 look_value_14 look_value_15 look_value_16 look_value_17 
  look_value_18 look_value_19 look_value_20 look_value_21 look_value_22 look_value_23 
  look_value_24 look_value_25 look_value_26 look_value_27 look_value_28 look_value_29 
  look_value_30 look_value_31 look_value_32 look_value_33 look_value_34 look_value_35 
  look_value_36 look_value_37 look_value_38 look_value_39 

lemma look_other:
  "cfg_look c ''spa_root'' = None"
  "cfg_look c ''packages_root'' = None"
  "cfg_look c ''spa.packages'' = None"
  "cfg_look c ''static.max_file_bytes'' = None"
  "cfg_look c ''state.net_core.enabled'' = None"
  "cfg_look c ''state.map_dynamic.enabled'' = None"
  "cfg_look c ''state.net_pon.enabled'' = None"
  "cfg_look c ''state.net_home.enabled'' = None"
  "cfg_look c ''state.electric.enabled'' = None"
  "cfg_look c ''state.inventory.enabled'' = None"
  "cfg_look c ''state.enable_net_core'' = None"
  "cfg_look c ''state.enable_map_dynamic'' = None"
  "cfg_look c ''openai_proxy.enabled'' = None"
  "cfg_look c ''openai_proxy.upstream'' = None"
  "cfg_look c ''openai_proxy.upstream_addr'' = None"
  "cfg_look c ''openai_proxy.upstream_host'' = None"
  "cfg_look c ''slack.enabled'' = None"
  "cfg_look c ''teams.enabled'' = None"
  "cfg_look c ''tls.cert_file'' = None"
  "cfg_look c ''tls.key_file'' = None"
  "cfg_look c ''tls.client_ca_file'' = None"
  "cfg_look c ''pqproxy.enabled'' = None"
  "cfg_look c ''pqproxy.metrics_url'' = None"
  "cfg_look c ''postgres.enabled'' = None"
  "cfg_look c ''postgres.listen_channel'' = None"
  by (rule look_None, code_simp)+

text \<open>One step per setting.\<close>

lemma printable_steps:
  assumes "config_printable c"
  shows
  "apply_paths (cfg_look c) (''listen.host'' # ps) s = apply_paths (cfg_look c) ps (s\<lparr>listen_host := listen_host c\<rparr>)"
  "apply_paths (cfg_look c) (''listen.port'' # ps) s = apply_paths (cfg_look c) ps (s\<lparr>listen_port := listen_port c\<rparr>)"
  "apply_paths (cfg_look c) (''spa.root'' # ps) s = apply_paths (cfg_look c) ps (s\<lparr>spa_root := spa_root c\<rparr>)"
  "apply_paths (cfg_look c) (''packages.root'' # ps) s = apply_paths (cfg_look c) ps (s\<lparr>packages_root := packages_root c\<rparr>)"
  "apply_paths (cfg_look c) (''spa.max_file_bytes'' # ps) s = apply_paths (cfg_look c) ps (s\<lparr>static_max_file_bytes := static_max_file_bytes c\<rparr>)"
  "apply_paths (cfg_look c) (''http.max_body_bytes'' # ps) s = apply_paths (cfg_look c) ps (s\<lparr>http_max_body_bytes := http_max_body_bytes c\<rparr>)"
  "apply_paths (cfg_look c) (''http.max_pending_outbound'' # ps) s = apply_paths (cfg_look c) ps (s\<lparr>http_max_pending_outbound := http_max_pending_outbound c\<rparr>)"
  "apply_paths (cfg_look c) (''http.max_upstream_body_bytes'' # ps) s = apply_paths (cfg_look c) ps (s\<lparr>http_max_upstream_body_bytes := http_max_upstream_body_bytes c\<rparr>)"
  "apply_paths (cfg_look c) (''state.namespaces.net_core.enabled'' # ps) s = apply_paths (cfg_look c) ps (s\<lparr>state_net_core_enabled := state_net_core_enabled c\<rparr>)"
  "apply_paths (cfg_look c) (''state.namespaces.map_dynamic.enabled'' # ps) s = apply_paths (cfg_look c) ps (s\<lparr>state_map_dynamic_enabled := state_map_dynamic_enabled c\<rparr>)"
  "apply_paths (cfg_look c) (''state.namespaces.net_pon.enabled'' # ps) s = apply_paths (cfg_look c) ps (s\<lparr>state_net_pon_enabled := state_net_pon_enabled c\<rparr>)"
  "apply_paths (cfg_look c) (''state.namespaces.net_home.enabled'' # ps) s = apply_paths (cfg_look c) ps (s\<lparr>state_net_home_enabled := state_net_home_enabled c\<rparr>)"
  "apply_paths (cfg_look c) (''state.namespaces.electric.enabled'' # ps) s = apply_paths (cfg_look c) ps (s\<lparr>state_electric_enabled := state_electric_enabled c\<rparr>)"
  "apply_paths (cfg_look c) (''state.namespaces.inventory.enabled'' # ps) s = apply_paths (cfg_look c) ps (s\<lparr>state_inventory_enabled := state_inventory_enabled c\<rparr>)"
  "apply_paths (cfg_look c) (''auth.mode'' # ps) s = apply_paths (cfg_look c) ps (s\<lparr>auth_mode := auth_mode c\<rparr>)"
  "apply_paths (cfg_look c) (''auth.lab_password_env'' # ps) s = apply_paths (cfg_look c) ps (s\<lparr>auth_lab_password_env := auth_lab_password_env c\<rparr>)"
  "apply_paths (cfg_look c) (''auth.session_hmac_key_env'' # ps) s = apply_paths (cfg_look c) ps (s\<lparr>auth_session_hmac_key_env := auth_session_hmac_key_env c\<rparr>)"
  "apply_paths (cfg_look c) (''auth.session_ttl_s'' # ps) s = apply_paths (cfg_look c) ps (s\<lparr>auth_session_ttl_s := auth_session_ttl_s c\<rparr>)"
  "apply_paths (cfg_look c) (''auth.proxy_hmac_key_env'' # ps) s = apply_paths (cfg_look c) ps (s\<lparr>auth_proxy_hmac_key_env := auth_proxy_hmac_key_env c\<rparr>)"
  "apply_paths (cfg_look c) (''auth.proxy_max_skew_s'' # ps) s = apply_paths (cfg_look c) ps (s\<lparr>auth_proxy_max_skew_s := auth_proxy_max_skew_s c\<rparr>)"
  "apply_paths (cfg_look c) (''dns.allow_blocking'' # ps) s = apply_paths (cfg_look c) ps (s\<lparr>dns_allow_blocking := dns_allow_blocking c\<rparr>)"
  "apply_paths (cfg_look c) (''plugins.openai_proxy.enabled'' # ps) s = apply_paths (cfg_look c) ps (s\<lparr>openai_enabled := openai_enabled c\<rparr>)"
  "apply_paths (cfg_look c) (''plugins.openai_proxy.upstream'' # ps) s = apply_paths (cfg_look c) ps (s\<lparr>openai_upstream := openai_upstream c\<rparr>)"
  "apply_paths (cfg_look c) (''plugins.openai_proxy.api_key_env'' # ps) s = apply_paths (cfg_look c) ps (s\<lparr>openai_api_key_env := openai_api_key_env c\<rparr>)"
  "apply_paths (cfg_look c) (''plugins.openai_proxy.service_api_key_env'' # ps) s = apply_paths (cfg_look c) ps (s\<lparr>openai_service_key_env := openai_service_key_env c\<rparr>)"
  "apply_paths (cfg_look c) (''plugins.openai_proxy.timeout_ms'' # ps) s = apply_paths (cfg_look c) ps (s\<lparr>openai_timeout_ms := openai_timeout_ms c\<rparr>)"
  "apply_paths (cfg_look c) (''plugins.openai_proxy.rate_limit_rpm'' # ps) s = apply_paths (cfg_look c) ps (s\<lparr>openai_rate_limit_rpm := openai_rate_limit_rpm c\<rparr>)"
  "apply_paths (cfg_look c) (''plugins.openai_proxy.max_concurrent_per_principal'' # ps) s = apply_paths (cfg_look c) ps (s\<lparr>openai_max_concurrent := openai_max_concurrent c\<rparr>)"
  "apply_paths (cfg_look c) (''plugins.slack.enabled'' # ps) s = apply_paths (cfg_look c) ps (s\<lparr>slack_enabled := slack_enabled c\<rparr>)"
  "apply_paths (cfg_look c) (''plugins.teams.enabled'' # ps) s = apply_paths (cfg_look c) ps (s\<lparr>teams_enabled := teams_enabled c\<rparr>)"
  "apply_paths (cfg_look c) (''plugins.pqproxy.enabled'' # ps) s = apply_paths (cfg_look c) ps (s\<lparr>pqproxy_enabled := pqproxy_enabled c\<rparr>)"
  "apply_paths (cfg_look c) (''plugins.pqproxy.metrics_url'' # ps) s = apply_paths (cfg_look c) ps (s\<lparr>pqproxy_metrics_url := pqproxy_metrics_url c\<rparr>)"
  "apply_paths (cfg_look c) (''plugins.pqproxy.scrape_interval_ms'' # ps) s = apply_paths (cfg_look c) ps (s\<lparr>pqproxy_scrape_interval_ms := pqproxy_scrape_interval_ms c\<rparr>)"
  "apply_paths (cfg_look c) (''postgres.notify_enabled'' # ps) s = apply_paths (cfg_look c) ps (s\<lparr>postgres_notify_enabled := postgres_notify_enabled c\<rparr>)"
  "apply_paths (cfg_look c) (''postgres.listen_channels'' # ps) s = apply_paths (cfg_look c) ps (s\<lparr>postgres_listen_channel := postgres_listen_channel c\<rparr>)"
  using assms unfolding config_printable_def
  by (simp_all add: step_some look_values apply_scalar_simps set_text dec_nat_nonempty del: apply_paths.simps)

lemma printable_opt_openai_upstream_addr:
  assumes "config_printable c" "openai_upstream_addr s = []"
  shows "apply_paths (cfg_look c) (''plugins.openai_proxy.upstream_addr'' # ps) s = apply_paths (cfg_look c) ps (s\<lparr>openai_upstream_addr := openai_upstream_addr c\<rparr>)"
  by (rule step_opt [where look = "cfg_look c" and f = "\<lambda>x. s\<lparr>openai_upstream_addr := x\<rparr>", OF look_values(24) [of c]])
    (use assms in \<open>simp_all add: apply_scalar_simps set_str_fits config_printable_def\<close>)

lemma printable_opt_openai_upstream_host:
  assumes "config_printable c" "openai_upstream_host s = []"
  shows "apply_paths (cfg_look c) (''plugins.openai_proxy.upstream_host'' # ps) s = apply_paths (cfg_look c) ps (s\<lparr>openai_upstream_host := openai_upstream_host c\<rparr>)"
  by (rule step_opt [where look = "cfg_look c" and f = "\<lambda>x. s\<lparr>openai_upstream_host := x\<rparr>", OF look_values(25) [of c]])
    (use assms in \<open>simp_all add: apply_scalar_simps set_str_fits config_printable_def\<close>)

lemma printable_opt_tls_cert:
  assumes "config_printable c" "tls_cert s = []"
  shows "apply_paths (cfg_look c) (''tls.cert'' # ps) s = apply_paths (cfg_look c) ps (s\<lparr>tls_cert := tls_cert c\<rparr>)"
  by (rule step_opt [where look = "cfg_look c" and f = "\<lambda>x. s\<lparr>tls_cert := x\<rparr>", OF look_values(33) [of c]])
    (use assms in \<open>simp_all add: apply_scalar_simps set_str_fits config_printable_def\<close>)

lemma printable_opt_tls_key:
  assumes "config_printable c" "tls_key s = []"
  shows "apply_paths (cfg_look c) (''tls.key'' # ps) s = apply_paths (cfg_look c) ps (s\<lparr>tls_key := tls_key c\<rparr>)"
  by (rule step_opt [where look = "cfg_look c" and f = "\<lambda>x. s\<lparr>tls_key := x\<rparr>", OF look_values(34) [of c]])
    (use assms in \<open>simp_all add: apply_scalar_simps set_str_fits config_printable_def\<close>)

lemma printable_opt_tls_client_ca:
  assumes "config_printable c" "tls_client_ca s = []"
  shows "apply_paths (cfg_look c) (''tls.client_ca'' # ps) s = apply_paths (cfg_look c) ps (s\<lparr>tls_client_ca := tls_client_ca c\<rparr>)"
  by (rule step_opt [where look = "cfg_look c" and f = "\<lambda>x. s\<lparr>tls_client_ca := x\<rparr>", OF look_values(35) [of c]])
    (use assms in \<open>simp_all add: apply_scalar_simps set_str_fits config_printable_def\<close>)

lemmas printable_opts =
  printable_opt_openai_upstream_addr printable_opt_openai_upstream_host printable_opt_tls_cert printable_opt_tls_key printable_opt_tls_client_ca

lemma printable_skips:
  "apply_paths (cfg_look c) (''spa_root'' # ps) s = apply_paths (cfg_look c) ps s"
  "apply_paths (cfg_look c) (''packages_root'' # ps) s = apply_paths (cfg_look c) ps s"
  "apply_paths (cfg_look c) (''spa.packages'' # ps) s = apply_paths (cfg_look c) ps s"
  "apply_paths (cfg_look c) (''static.max_file_bytes'' # ps) s = apply_paths (cfg_look c) ps s"
  "apply_paths (cfg_look c) (''state.net_core.enabled'' # ps) s = apply_paths (cfg_look c) ps s"
  "apply_paths (cfg_look c) (''state.map_dynamic.enabled'' # ps) s = apply_paths (cfg_look c) ps s"
  "apply_paths (cfg_look c) (''state.net_pon.enabled'' # ps) s = apply_paths (cfg_look c) ps s"
  "apply_paths (cfg_look c) (''state.net_home.enabled'' # ps) s = apply_paths (cfg_look c) ps s"
  "apply_paths (cfg_look c) (''state.electric.enabled'' # ps) s = apply_paths (cfg_look c) ps s"
  "apply_paths (cfg_look c) (''state.inventory.enabled'' # ps) s = apply_paths (cfg_look c) ps s"
  "apply_paths (cfg_look c) (''state.enable_net_core'' # ps) s = apply_paths (cfg_look c) ps s"
  "apply_paths (cfg_look c) (''state.enable_map_dynamic'' # ps) s = apply_paths (cfg_look c) ps s"
  "apply_paths (cfg_look c) (''openai_proxy.enabled'' # ps) s = apply_paths (cfg_look c) ps s"
  "apply_paths (cfg_look c) (''openai_proxy.upstream'' # ps) s = apply_paths (cfg_look c) ps s"
  "apply_paths (cfg_look c) (''openai_proxy.upstream_addr'' # ps) s = apply_paths (cfg_look c) ps s"
  "apply_paths (cfg_look c) (''openai_proxy.upstream_host'' # ps) s = apply_paths (cfg_look c) ps s"
  "apply_paths (cfg_look c) (''slack.enabled'' # ps) s = apply_paths (cfg_look c) ps s"
  "apply_paths (cfg_look c) (''teams.enabled'' # ps) s = apply_paths (cfg_look c) ps s"
  "apply_paths (cfg_look c) (''tls.cert_file'' # ps) s = apply_paths (cfg_look c) ps s"
  "apply_paths (cfg_look c) (''tls.key_file'' # ps) s = apply_paths (cfg_look c) ps s"
  "apply_paths (cfg_look c) (''tls.client_ca_file'' # ps) s = apply_paths (cfg_look c) ps s"
  "apply_paths (cfg_look c) (''pqproxy.enabled'' # ps) s = apply_paths (cfg_look c) ps s"
  "apply_paths (cfg_look c) (''pqproxy.metrics_url'' # ps) s = apply_paths (cfg_look c) ps s"
  "apply_paths (cfg_look c) (''postgres.enabled'' # ps) s = apply_paths (cfg_look c) ps s"
  "apply_paths (cfg_look c) (''postgres.listen_channel'' # ps) s = apply_paths (cfg_look c) ps s"
  by (simp_all only: step_none look_other)

lemma printable_loads:
  assumes "config_printable c"
  shows "apply_paths (cfg_look c) g_paths edge_config_defaults = (None, c)"
proof -
  have "generation c = 0" using assms by (simp add: config_printable_def)
  then show ?thesis
    unfolding g_paths_def
    by (simp add: printable_steps [OF assms] printable_opts [OF assms] printable_skips edge_config_defaults_def
        del: apply_paths.simps(2))
qed

section \<open>Loading\<close>

text \<open>The library parses a text without error and answers lookups by a function.\<close>

definition yaml_gives :: "'y yaml_lib \<Rightarrow> string \<Rightarrow> (string \<Rightarrow> string option) \<Rightarrow> bool" where
  "yaml_gives lib text look \<longleftrightarrow>
     (\<exists>y n y1 y2. yl_create lib = Some y \<and> yl_feed_input lib y text = (n, y1) \<and> 0 < n \<and>
        drain_yaml lib y1 = Some (Inr y2) \<and> yl_lookup_scalar lib y2 = look)"

lemma load_parsed:
  assumes "yaml_gives lib text look" "text \<noteq> []"
  shows "edge_config_load_yaml_buf lib text = Some (apply_paths look g_paths edge_config_defaults)"
  using assms by (auto simp: yaml_gives_def edge_config_load_yaml_buf_def load_from_ctx_def)

text \<open>C20: Every configuration that fits a file is loaded exactly: when the YAML text holds its
  settings under their canonical names, loading succeeds and gives back each of the forty
  values, whatever the defaults are.\<close>

theorem config_load_roundtrip:
  assumes "config_printable c" and "yaml_gives lib text (cfg_look c)" and "text \<noteq> []"
  shows "edge_config_load_yaml_buf lib text = Some (None, c)"
  using load_parsed [OF assms(2,3)] printable_loads [OF assms(1)] by simp

text \<open>A library that ignores its text and answers from a table.\<close>

definition table_yaml :: "(string \<Rightarrow> string option) \<Rightarrow> unit yaml_lib" where
  "table_yaml look =
     \<lparr>yl_create = Some (), yl_feed_input = (\<lambda>y t. (length t, y)), yl_next_event = (\<lambda>y. None),
      yl_lookup_scalar = (\<lambda>y. look)\<rparr>"

lemma table_gives: "text \<noteq> [] \<Longrightarrow> yaml_gives (table_yaml look) text look"
  by (simp add: yaml_gives_def table_yaml_def drain_yaml.simps)

definition sample_config :: edge_config where
  "sample_config = edge_config_defaults\<lparr>listen_port := 9443, tls_cert := ''c.pem'', state_net_pon_enabled := True\<rparr>"

theorem config_load_roundtrip_witness:
  "edge_config_load_yaml_buf (table_yaml (cfg_look sample_config)) ''x'' = Some (None, sample_config)"
proof -
  have "config_printable sample_config"
    by (simp add: config_printable_def sample_config_def edge_config_defaults_def)
  from config_load_roundtrip [OF this table_gives] show ?thesis by simp
qed

section \<open>What is loaded\<close>

text \<open>The strings of a configuration fit their arrays.\<close>

definition config_fits :: "edge_config \<Rightarrow> bool" where
  "config_fits c \<longleftrightarrow>
     length (listen_host c) < 256 \<and> length (spa_root c) < 512 \<and> length (packages_root c) < 512 \<and>
     length (auth_mode c) < 32 \<and> length (auth_lab_password_env c) < 64 \<and>
     length (auth_session_hmac_key_env c) < 64 \<and> length (auth_proxy_hmac_key_env c) < 64 \<and>
     length (openai_upstream c) < 512 \<and> length (openai_upstream_addr c) < 64 \<and>
     length (openai_upstream_host c) < 256 \<and> length (openai_api_key_env c) < 64 \<and>
     length (openai_service_key_env c) < 64 \<and> length (tls_cert c) < 512 \<and>
     length (tls_key c) < 512 \<and> length (tls_client_ca c) < 512 \<and>
     length (pqproxy_metrics_url c) < 256 \<and> length (postgres_listen_channel c) < 64"

definition loaded_ok :: "edge_config \<Rightarrow> bool" where
  "loaded_ok c \<longleftrightarrow> config_fits c \<and> listen_host c \<noteq> [] \<and> listen_port c \<noteq> 0 \<and> 0 < http_max_body_bytes c \<and>
     0 < http_max_pending_outbound c \<and> 0 < http_max_upstream_body_bytes c \<and>
     auth_session_ttl_s c \<noteq> 0 \<and> auth_proxy_max_skew_s c \<noteq> 0"

lemma set_strE:
  assumes "set_str key sz v f = Inr c'"
  obtains "c' = f v" "length v < sz"
  using assms by (auto simp: set_str_def copy_str_def cfg_fail_def split: if_splits)

lemma set_boolE:
  assumes "set_bool key v f = Inr c'"
  obtains x where "c' = f x"
  using assms by (auto simp: set_bool_def cfg_fail_def split: option.splits)

lemma set_portE:
  assumes "set_port key v f = Inr c'"
  obtains x where "c' = f x" "x \<noteq> 0"
  using assms by (auto simp: set_port_def cfg_fail_def split: option.splits if_splits)

lemma set_sizeE:
  assumes "set_size key v f = Inr c'"
  obtains x where "c' = f x" "0 < x"
  using assms by (auto simp: set_size_def cfg_fail_def split: option.splits if_splits)

lemma set_u32E:
  assumes "set_u32 key v z msg f = Inr c'"
  obtains x :: u32 where "c' = f x" "x \<noteq> 0 \<or> z"
proof -
  from assms obtain n where n: "c' = f (of_nat n)" "n \<noteq> 0 \<or> z" "n \<le> 0xffffffff"
    by (auto simp: set_u32_def cfg_fail_def split: option.splits if_splits)
  have "(of_nat n :: u32) \<noteq> 0 \<or> z"
  proof (cases "n = 0")
    case True
    with n(2) show ?thesis by simp
  next
    case False
    have "unat (of_nat n :: u32) = n" using n(3) by (simp add: unat_of_nat take_bit_nat_def)
    with False have "(of_nat n :: u32) \<noteq> 0" by (metis unat_0)
    then show ?thesis by simp
  qed
  with n(1) that show ?thesis by blast
qed

lemma loaded_ok_updates:
  "loaded_ok c \<Longrightarrow> vs \<noteq> [] \<Longrightarrow> length vs < 256 \<Longrightarrow> loaded_ok (c\<lparr>listen_host := vs\<rparr>)"
  "loaded_ok c \<Longrightarrow> vp \<noteq> 0 \<Longrightarrow> loaded_ok (c\<lparr>listen_port := vp\<rparr>)"
  "loaded_ok c \<Longrightarrow> length vs < 512 \<Longrightarrow> loaded_ok (c\<lparr>spa_root := vs\<rparr>)"
  "loaded_ok c \<Longrightarrow> length vs < 512 \<Longrightarrow> loaded_ok (c\<lparr>packages_root := vs\<rparr>)"
  "loaded_ok c \<Longrightarrow> 0 < vn \<Longrightarrow> loaded_ok (c\<lparr>static_max_file_bytes := vn\<rparr>)"
  "loaded_ok c \<Longrightarrow> 0 < vn \<Longrightarrow> loaded_ok (c\<lparr>http_max_body_bytes := vn\<rparr>)"
  "loaded_ok c \<Longrightarrow> 0 < vn \<Longrightarrow> loaded_ok (c\<lparr>http_max_pending_outbound := vn\<rparr>)"
  "loaded_ok c \<Longrightarrow> 0 < vn \<Longrightarrow> loaded_ok (c\<lparr>http_max_upstream_body_bytes := vn\<rparr>)"
  "loaded_ok c \<Longrightarrow> loaded_ok (c\<lparr>state_net_core_enabled := vb\<rparr>)"
  "loaded_ok c \<Longrightarrow> loaded_ok (c\<lparr>state_map_dynamic_enabled := vb\<rparr>)"
  "loaded_ok c \<Longrightarrow> loaded_ok (c\<lparr>state_net_pon_enabled := vb\<rparr>)"
  "loaded_ok c \<Longrightarrow> loaded_ok (c\<lparr>state_net_home_enabled := vb\<rparr>)"
  "loaded_ok c \<Longrightarrow> loaded_ok (c\<lparr>state_electric_enabled := vb\<rparr>)"
  "loaded_ok c \<Longrightarrow> loaded_ok (c\<lparr>state_inventory_enabled := vb\<rparr>)"
  "loaded_ok c \<Longrightarrow> length vs < 32 \<Longrightarrow> loaded_ok (c\<lparr>auth_mode := vs\<rparr>)"
  "loaded_ok c \<Longrightarrow> length vs < 64 \<Longrightarrow> loaded_ok (c\<lparr>auth_lab_password_env := vs\<rparr>)"
  "loaded_ok c \<Longrightarrow> length vs < 64 \<Longrightarrow> loaded_ok (c\<lparr>auth_session_hmac_key_env := vs\<rparr>)"
  "loaded_ok c \<Longrightarrow> vw \<noteq> 0 \<Longrightarrow> loaded_ok (c\<lparr>auth_session_ttl_s := vw\<rparr>)"
  "loaded_ok c \<Longrightarrow> length vs < 64 \<Longrightarrow> loaded_ok (c\<lparr>auth_proxy_hmac_key_env := vs\<rparr>)"
  "loaded_ok c \<Longrightarrow> vw \<noteq> 0 \<Longrightarrow> loaded_ok (c\<lparr>auth_proxy_max_skew_s := vw\<rparr>)"
  "loaded_ok c \<Longrightarrow> loaded_ok (c\<lparr>dns_allow_blocking := vb\<rparr>)"
  "loaded_ok c \<Longrightarrow> loaded_ok (c\<lparr>openai_enabled := vb\<rparr>)"
  "loaded_ok c \<Longrightarrow> length vs < 512 \<Longrightarrow> loaded_ok (c\<lparr>openai_upstream := vs\<rparr>)"
  "loaded_ok c \<Longrightarrow> length vs < 64 \<Longrightarrow> loaded_ok (c\<lparr>openai_upstream_addr := vs\<rparr>)"
  "loaded_ok c \<Longrightarrow> length vs < 256 \<Longrightarrow> loaded_ok (c\<lparr>openai_upstream_host := vs\<rparr>)"
  "loaded_ok c \<Longrightarrow> length vs < 64 \<Longrightarrow> loaded_ok (c\<lparr>openai_api_key_env := vs\<rparr>)"
  "loaded_ok c \<Longrightarrow> length vs < 64 \<Longrightarrow> loaded_ok (c\<lparr>openai_service_key_env := vs\<rparr>)"
  "loaded_ok c \<Longrightarrow> vw \<noteq> 0 \<Longrightarrow> loaded_ok (c\<lparr>openai_timeout_ms := vw\<rparr>)"
  "loaded_ok c \<Longrightarrow> loaded_ok (c\<lparr>openai_rate_limit_rpm := vw\<rparr>)"
  "loaded_ok c \<Longrightarrow> vw \<noteq> 0 \<Longrightarrow> loaded_ok (c\<lparr>openai_max_concurrent := vw\<rparr>)"
  "loaded_ok c \<Longrightarrow> loaded_ok (c\<lparr>slack_enabled := vb\<rparr>)"
  "loaded_ok c \<Longrightarrow> loaded_ok (c\<lparr>teams_enabled := vb\<rparr>)"
  "loaded_ok c \<Longrightarrow> length vs < 512 \<Longrightarrow> loaded_ok (c\<lparr>tls_cert := vs\<rparr>)"
  "loaded_ok c \<Longrightarrow> length vs < 512 \<Longrightarrow> loaded_ok (c\<lparr>tls_key := vs\<rparr>)"
  "loaded_ok c \<Longrightarrow> length vs < 512 \<Longrightarrow> loaded_ok (c\<lparr>tls_client_ca := vs\<rparr>)"
  "loaded_ok c \<Longrightarrow> loaded_ok (c\<lparr>pqproxy_enabled := vb\<rparr>)"
  "loaded_ok c \<Longrightarrow> length vs < 256 \<Longrightarrow> loaded_ok (c\<lparr>pqproxy_metrics_url := vs\<rparr>)"
  "loaded_ok c \<Longrightarrow> vw \<noteq> 0 \<Longrightarrow> loaded_ok (c\<lparr>pqproxy_scrape_interval_ms := vw\<rparr>)"
  "loaded_ok c \<Longrightarrow> loaded_ok (c\<lparr>postgres_notify_enabled := vb\<rparr>)"
  "loaded_ok c \<Longrightarrow> length vs < 64 \<Longrightarrow> loaded_ok (c\<lparr>postgres_listen_channel := vs\<rparr>)"
  by (simp_all add: loaded_ok_def config_fits_def)

lemma if_someE: "(if b then Some x else y) = Some r \<Longrightarrow> (x = r \<Longrightarrow> P) \<Longrightarrow> (y = Some r \<Longrightarrow> P) \<Longrightarrow> P"
  by (simp split: if_splits)

lemmas set_elims = set_strE set_boolE set_portE set_sizeE set_u32E

lemma apply_listen_http_ok:
  "apply_listen_http key v c = Some (Inr c') \<Longrightarrow> v \<noteq> [] \<Longrightarrow> loaded_ok c \<Longrightarrow> loaded_ok c'"
  unfolding apply_listen_http_def
  by (elim if_someE; (elim set_elims)?; simp add: loaded_ok_updates)

lemma apply_state_ok: "apply_state key v c = Some (Inr c') \<Longrightarrow> loaded_ok c \<Longrightarrow> loaded_ok c'"
  unfolding apply_state_def
  by (elim if_someE; (elim set_elims)?; simp add: loaded_ok_updates)

lemma apply_auth_ok: "apply_auth key v c = Some (Inr c') \<Longrightarrow> loaded_ok c \<Longrightarrow> loaded_ok c'"
  unfolding apply_auth_def
  by (elim if_someE; (elim set_elims)?; simp add: loaded_ok_updates)

lemma apply_openai_ok: "apply_openai key v c = Some (Inr c') \<Longrightarrow> loaded_ok c \<Longrightarrow> loaded_ok c'"
  unfolding apply_openai_def
  by (elim if_someE; (elim set_elims)?; simp add: loaded_ok_updates)

lemma apply_others_ok: "apply_others key v c = Some (Inr c') \<Longrightarrow> loaded_ok c \<Longrightarrow> loaded_ok c'"
  unfolding apply_others_def
  by (elim if_someE; (elim set_elims)?; simp add: loaded_ok_updates)

lemma apply_scalar_ok:
  assumes "apply_scalar c key v = Inr c'" "v \<noteq> []" "loaded_ok c"
  shows "loaded_ok c'"
  using assms
  by (auto simp: apply_scalar_def split: option.splits
      dest: apply_listen_http_ok apply_state_ok apply_auth_ok apply_openai_ok apply_others_ok)

lemma scalar_value: "yaml_scalar look p = Some v \<Longrightarrow> v \<noteq> []"
  by (auto simp: yaml_scalar_def split: option.splits list.splits)

lemma apply_paths_ok:
  "apply_paths look ps c = (err, c') \<Longrightarrow> loaded_ok c \<Longrightarrow> loaded_ok c'"
proof (induction ps arbitrary: c)
  case Nil
  then show ?case by simp
next
  case (Cons p ps)
  then show ?case
    by (auto split: option.splits sum.splits dest: apply_scalar_ok scalar_value)
qed

lemma defaults_ok: "loaded_ok edge_config_defaults"
  by (simp add: loaded_ok_def config_fits_def edge_config_defaults_def)

lemma ok_validates:
  "loaded_ok c \<Longrightarrow> edge_config_validate (Some c) \<in>
     {None, Some ''auth.mode invalid (open|lab_password|proxy_headers)''}"
  by (simp add: loaded_ok_def edge_config_validate_def)

text \<open>C19: Whatever the file holds, and whether loading it succeeds or stops at an error, the
  configuration written for the caller is well formed: every string fits its array with its
  terminator, and of all the checks of validation only the one of the authentication mode
  can still fail.\<close>

theorem config_load_wf:
  assumes "edge_config_load_yaml_buf lib text = Some (err, c)"
  shows "config_fits c \<and>
    edge_config_validate (Some c) \<in> {None, Some ''auth.mode invalid (open|lab_password|proxy_headers)''}"
proof -
  have d: "loaded_ok (snd r)" if "load_from_ctx lib y edge_config_defaults = Some r" for y r
  proof -
    from that obtain z where "r = (case z of Inl msg \<Rightarrow> (Some (''yaml parse: '' @ msg), edge_config_defaults)
        | Inr y' \<Rightarrow> apply_paths (yl_lookup_scalar lib y') g_paths edge_config_defaults)"
      unfolding load_from_ctx_def by (auto simp del: append.simps)
    then show ?thesis
      by (cases z) (simp_all add: defaults_ok, metis apply_paths_ok defaults_ok prod.collapse)
  qed
  have "loaded_ok (snd (err, c))"
    using assms d unfolding edge_config_load_yaml_buf_def
    by (auto simp: defaults_ok split: if_split_asm option.split_asm prod.split_asm)
  then have "loaded_ok c" by simp
  then show ?thesis using ok_validates by (simp add: loaded_ok_def)
qed

theorem config_load_wf_witness:
  "config_fits (snd (apply_paths [''auth.mode'' \<mapsto> ''none'', ''tls.cert'' \<mapsto> ''c.pem''] g_paths edge_config_defaults))"
proof -
  let ?look = "[''auth.mode'' \<mapsto> ''none'', ''tls.cert'' \<mapsto> ''c.pem'']"
  obtain err c where r: "apply_paths ?look g_paths edge_config_defaults = (err, c)" by fastforce
  have "edge_config_load_yaml_buf (table_yaml ?look) ''x'' = Some (err, c)"
    using load_parsed [OF table_gives, of "''x''" ?look] r by simp
  from config_load_wf [OF this] r show ?thesis by simp
qed

text \<open>A size with a minus sign is not refused. Loading the value -n for http.max_body_bytes
  succeeds and sets the limit to 2^64 - n, which validation accepts.\<close>

theorem config_negative_size:
  assumes "yaml_gives lib text [''http.max_body_bytes'' \<mapsto> CHR ''-'' # dec_nat n]" and "text \<noteq> []"
    and "0 < n" and "n \<le> ullong_max"
  shows "\<exists>c. edge_config_load_yaml_buf lib text = Some (None, c) \<and> http_max_body_bytes c = 2 ^ 64 - n \<and>
    edge_config_validate (Some c) = None"
proof -
  let ?look = "[''http.max_body_bytes'' \<mapsto> CHR ''-'' # dec_nat n]"
  let ?c = "edge_config_defaults\<lparr>http_max_body_bytes := 2 ^ 64 - n\<rparr>"
  have n: "n < 2 ^ 64" using assms(4) by (simp add: ullong_max_def)
  have "set_size ''http.max_body_bytes'' (CHR ''-'' # dec_nat n) (\<lambda>x. edge_config_defaults\<lparr>http_max_body_bytes := x\<rparr>) =
      Inr ?c"
    using n by (simp add: set_size_def parse_size_def strtoull_negative [OF assms(3,4)])
  then have "apply_paths ?look g_paths edge_config_defaults = (None, ?c)"
    unfolding g_paths_def by (simp add: yaml_scalar_def apply_scalar_simps)
  moreover have "edge_config_validate (Some ?c) = None"
    using n by (simp add: edge_config_validate_def edge_config_defaults_def)
  ultimately show ?thesis using load_parsed [OF assms(1,2)] by simp
qed

theorem config_negative_size_witness:
  "\<exists>c. edge_config_load_yaml_buf (table_yaml [''http.max_body_bytes'' \<mapsto> CHR ''-'' # dec_nat 1]) ''x'' =
     Some (None, c) \<and> http_max_body_bytes c = 18446744073709551615"
  using config_negative_size [OF table_gives, of "''x''" 1] by (auto simp: ullong_max_def)

end
