(* ===== verification/Tls_Io.thy ===== *)
theory Tls_Io
  imports C_Strings
begin

text \<open>
  \<open>src/host/tls_server.c\<close>: the TLS contexts of the listener and of the outbound client, the
  wrappers of the OpenSSL calls, and the loops that drive a handshake, a write and a read on a
  non-blocking socket. OpenSSL and \<open>poll\<close> are parameters: a connection is an abstract state
  \<open>'s\<close>, and each call answers and gives the next state. The loops may not end, so they are
  partial functions and \<open>None\<close> stands for a loop that does not return.
\<close>

section \<open>Contexts\<close>

definition edge_tls_config_enabled :: "string option \<Rightarrow> string option \<Rightarrow> bool" where
  "edge_tls_config_enabled cert_file key_file \<longleftrightarrow>
     (case (cert_file, key_file) of (Some c, Some k) \<Rightarrow> c \<noteq> [] \<and> k \<noteq> [] | _ \<Rightarrow> False)"

datatype ssl_verify = SSL_VERIFY_NONE | SSL_VERIFY_PEER | SSL_VERIFY_PEER_REQUIRED

text \<open>What a context is set up with; \<open>SSL_VERIFY_PEER_REQUIRED\<close> is \<open>SSL_VERIFY_PEER\<close> with
  \<open>SSL_VERIFY_FAIL_IF_NO_PEER_CERT\<close>. A fresh server context does not verify its peer.\<close>

record ssl_ctx =
  sc_server :: bool
  sc_cert :: "string option"
  sc_key :: "string option"
  sc_ca :: "string option"
  sc_verify :: ssl_verify

record edge_tls_config =
  tc_cert_file :: "string option"
  tc_key_file :: "string option"
  tc_client_ca_file :: "string option"

record ssl_files =
  sf_ctx_new :: bool
  sf_cert_ok :: "string \<Rightarrow> bool"
  sf_key_ok :: "string \<Rightarrow> bool"
  sf_pair_ok :: "string \<Rightarrow> string \<Rightarrow> bool"
  sf_ca_ok :: "string \<Rightarrow> bool"

definition given :: "string option \<Rightarrow> string option" where
  "given f = (case f of Some (c # cs) \<Rightarrow> Some (c # cs) | _ \<Rightarrow> None)"

definition edge_tls_ctx_create :: "ssl_files \<Rightarrow> edge_tls_config option \<Rightarrow> ssl_ctx option" where
  "edge_tls_ctx_create sf cfg =
     (case cfg of
        None \<Rightarrow> None
      | Some c \<Rightarrow>
          if \<not> edge_tls_config_enabled (tc_cert_file c) (tc_key_file c) then None
          else
            let cert = the (tc_cert_file c);
                key = the (tc_key_file c);
                ctx = \<lparr>sc_server = True, sc_cert = Some cert, sc_key = Some key, sc_ca = None,
                       sc_verify = SSL_VERIFY_NONE\<rparr>
            in if \<not> sf_ctx_new sf then None
               else if \<not> sf_cert_ok sf cert then None
               else if \<not> sf_key_ok sf key then None
               else if \<not> sf_pair_ok sf cert key then None
               else case given (tc_client_ca_file c) of
                 None \<Rightarrow> Some ctx
               | Some ca \<Rightarrow>
                   if \<not> sf_ca_ok sf ca then None
                   else Some (ctx\<lparr>sc_ca := Some ca, sc_verify := SSL_VERIFY_PEER_REQUIRED\<rparr>))"

definition edge_tls_client_ctx_create :: "ssl_files \<Rightarrow> string option \<Rightarrow> ssl_ctx option" where
  "edge_tls_client_ctx_create sf ca_file =
     (let ctx = \<lparr>sc_server = False, sc_cert = None, sc_key = None, sc_ca = None,
                 sc_verify = SSL_VERIFY_NONE\<rparr>
      in if \<not> sf_ctx_new sf then None
         else case given ca_file of
           None \<Rightarrow> Some ctx
         | Some ca \<Rightarrow>
             if \<not> sf_ca_ok sf ca then None
             else Some (ctx\<lparr>sc_ca := Some ca, sc_verify := SSL_VERIFY_PEER\<rparr>))"

section \<open>Connections\<close>

datatype ssl_error =
  SSL_ERROR_WANT_READ | SSL_ERROR_WANT_WRITE | SSL_ERROR_ZERO_RETURN | SSL_ERROR_OTHER

text \<open>What an OpenSSL call returns: a positive result with the bytes read (or the number of
  bytes written), or a result that is not positive with the code of \<open>SSL_get_error\<close>. The
  sizes passed are \<open>int\<close>s. \<open>ss_new_fd\<close> is \<open>SSL_new\<close> and \<open>SSL_set_fd\<close> on the descriptor, with the
  role (\<open>True\<close> for a server) and the server name to send; \<open>ss_poll\<close> is \<open>poll\<close> on it.\<close>

datatype 'b ssl_result = SSL_OK 'b | SSL_FAIL int ssl_error

record 's ssl_ops =
  ss_new_fd :: "ssl_ctx \<Rightarrow> bool \<Rightarrow> string option \<Rightarrow> 's \<Rightarrow> 's option"
  ss_handshake :: "'s \<Rightarrow> unit ssl_result \<times> 's"
  ss_read :: "'s \<Rightarrow> int \<Rightarrow> string ssl_result \<times> 's"
  ss_write :: "'s \<Rightarrow> string \<Rightarrow> int \<Rightarrow> nat ssl_result \<times> 's"
  ss_poll :: "'s \<Rightarrow> bool \<Rightarrow> int \<Rightarrow> int \<times> 's"

definition edge_tls_conn_new_fd :: "'s ssl_ops \<Rightarrow> ssl_ctx option \<Rightarrow> 's option \<Rightarrow> 's option" where
  "edge_tls_conn_new_fd ops ctx fd =
     (case (ctx, fd) of (Some c, Some s) \<Rightarrow> ss_new_fd ops c True None s | _ \<Rightarrow> None)"

definition edge_tls_client_conn_new_fd ::
  "'s ssl_ops \<Rightarrow> ssl_ctx option \<Rightarrow> 's option \<Rightarrow> string option \<Rightarrow> 's option" where
  "edge_tls_client_conn_new_fd ops ctx fd sni_host =
     (case (ctx, fd) of
        (Some c, Some s) \<Rightarrow> ss_new_fd ops c False (given sni_host) s
      | _ \<Rightarrow> None)"

text \<open>A cast from \<open>size_t\<close> to \<open>int\<close>.\<close>

definition int_cast :: "nat \<Rightarrow> int" where
  "int_cast n = sint (of_nat n :: u32)"

definition edge_tls_handshake :: "'s ssl_ops \<Rightarrow> 's \<Rightarrow> int \<times> bool \<times> 's" where
  "edge_tls_handshake ops s =
     (case ss_handshake ops s of
        (SSL_OK u, s') \<Rightarrow> (1, False, s')
      | (SSL_FAIL rc SSL_ERROR_WANT_READ, s') \<Rightarrow> (0, False, s')
      | (SSL_FAIL rc SSL_ERROR_WANT_WRITE, s') \<Rightarrow> (0, True, s')
      | (SSL_FAIL rc er, s') \<Rightarrow> (-1, False, s'))"

datatype tls_io = Tls_Bytes string | Tls_Want bool | Tls_Error | Tls_Eof

definition edge_tls_read :: "'s ssl_ops \<Rightarrow> 's \<Rightarrow> nat \<Rightarrow> tls_io \<times> 's" where
  "edge_tls_read ops s len =
     (if len = 0 then (Tls_Error, s)
      else case ss_read ops s (int_cast len) of
        (SSL_OK bs, s') \<Rightarrow> (Tls_Bytes bs, s')
      | (SSL_FAIL rc SSL_ERROR_WANT_READ, s') \<Rightarrow> (Tls_Want False, s')
      | (SSL_FAIL rc SSL_ERROR_WANT_WRITE, s') \<Rightarrow> (Tls_Want True, s')
      | (SSL_FAIL rc SSL_ERROR_ZERO_RETURN, s') \<Rightarrow> (Tls_Eof, s')
      | (SSL_FAIL rc SSL_ERROR_OTHER, s') \<Rightarrow> (if rc = 0 then Tls_Eof else Tls_Error, s'))"

datatype tls_sent = Sent nat | Sent_Want bool | Sent_Error

text \<open>Writing nothing answers 0 like a call that has to wait.\<close>

definition edge_tls_write :: "'s ssl_ops \<Rightarrow> 's \<Rightarrow> string \<Rightarrow> tls_sent \<times> 's" where
  "edge_tls_write ops s buf =
     (if buf = [] then (Sent_Want False, s)
      else case ss_write ops s buf (int_cast (length buf)) of
        (SSL_OK n, s') \<Rightarrow> (Sent n, s')
      | (SSL_FAIL rc SSL_ERROR_WANT_READ, s') \<Rightarrow> (Sent_Want False, s')
      | (SSL_FAIL rc SSL_ERROR_WANT_WRITE, s') \<Rightarrow> (Sent_Want True, s')
      | (SSL_FAIL rc er, s') \<Rightarrow> (Sent_Error, s'))"

section \<open>Loops on a non-blocking socket\<close>

definition poll_fd :: "'s ssl_ops \<Rightarrow> 's \<Rightarrow> bool \<Rightarrow> int \<Rightarrow> bool \<times> 's" where
  "poll_fd ops s want_write timeout_ms =
     (let (pr, s') = ss_poll ops s want_write timeout_ms in (0 < pr, s'))"

partial_function (option) edge_tls_handshake_poll :: "'s ssl_ops \<Rightarrow> 's \<Rightarrow> int \<Rightarrow> (bool \<times> 's) option" where
  "edge_tls_handshake_poll ops s timeout_ms =
     (let (hr, want_w, s1) = edge_tls_handshake ops s
      in if hr = 1 then Some (True, s1)
         else if hr < 0 then Some (False, s1)
         else
           let (ready, s2) = poll_fd ops s1 want_w timeout_ms
           in if \<not> ready then Some (False, s2)
              else edge_tls_handshake_poll ops s2 timeout_ms)"

partial_function (option) edge_tls_write_all_poll ::
  "'s ssl_ops \<Rightarrow> 's \<Rightarrow> string \<Rightarrow> int \<Rightarrow> (bool \<times> 's) option" where
  "edge_tls_write_all_poll ops s buf timeout_ms =
     (if buf = [] then Some (True, s)
      else
        let (r, s1) = edge_tls_write ops s buf
        in case r of
             Sent n \<Rightarrow> edge_tls_write_all_poll ops s1 (drop n buf) timeout_ms
           | Sent_Error \<Rightarrow> Some (False, s1)
           | Sent_Want want_w \<Rightarrow>
               (let (ready, s2) = poll_fd ops s1 want_w timeout_ms
                in if \<not> ready then Some (False, s2)
                   else edge_tls_write_all_poll ops s2 buf timeout_ms))"

text \<open>\<open>acc\<close> is what the buffer holds so far (\<open>off\<close> bytes), \<open>None\<close> an error.\<close>

partial_function (option) tls_read_loop ::
  "'s ssl_ops \<Rightarrow> 's \<Rightarrow> nat \<Rightarrow> int \<Rightarrow> string \<Rightarrow> (string option \<times> 's) option" where
  "tls_read_loop ops s cap timeout_ms acc =
     (if \<not> length acc < cap then Some (Some acc, s)
      else
        let (r, s1) = edge_tls_read ops s (cap - length acc)
        in case r of
             Tls_Bytes bs \<Rightarrow> tls_read_loop ops s1 cap timeout_ms (acc @ bs)
           | Tls_Eof \<Rightarrow> Some (Some acc, s1)
           | Tls_Error \<Rightarrow> Some (None, s1)
           | Tls_Want want_w \<Rightarrow>
               if acc \<noteq> [] \<and> \<not> want_w
               then
                 let (ready, s2) = poll_fd ops s1 False 50
                 in if \<not> ready then Some (Some acc, s2)
                    else tls_read_loop ops s2 cap timeout_ms acc
               else
                 let (ready, s2) = poll_fd ops s1 want_w timeout_ms
                 in if \<not> ready then Some (if acc \<noteq> [] then Some acc else None, s2)
                    else tls_read_loop ops s2 cap timeout_ms acc)"

definition edge_tls_read_all_poll ::
  "'s ssl_ops \<Rightarrow> 's \<Rightarrow> nat \<Rightarrow> int \<Rightarrow> (string option \<times> 's) option" where
  "edge_tls_read_all_poll ops s cap timeout_ms = tls_read_loop ops s cap timeout_ms []"

end
