(* ===== verification/Outbound_Http.thy ===== *)
theory Outbound_Http
  imports Tls_Io Plugin_Host
begin

text \<open>
  \<open>src/host/outbound_http.c\<close>: one blocking HTTP/1.1 exchange with an upstream server, over TCP
  or TLS. The network is a parameter: name resolution, connecting, the two calls on a plain
  socket (each may be interrupted by a signal) and the OpenSSL operations of \<open>Tls_Io\<close>.
\<close>

section \<open>URLs\<close>

record parsed_url =
  pu_https :: bool
  pu_host :: string
  pu_path :: string
  pu_port :: u16

definition host_size :: nat where "host_size = 256"
definition url_path_size :: nat where "url_path_size = 1024"

text \<open>\<open>strrchr\<close>: the text before the last occurrence and the suffix after it.\<close>

fun split_last :: "char \<Rightarrow> string \<Rightarrow> (string \<times> string) option" where
  "split_last c [] = None"
| "split_last c (x # xs) =
     (case split_last c xs of
        Some (a, b) \<Rightarrow> Some (x # a, b)
      | None \<Rightarrow> if x = c then Some ([], xs) else None)"

text \<open>The user information up to the first \<open>@\<close> is dropped.\<close>

definition strip_userinfo :: "string \<Rightarrow> string" where
  "strip_userinfo host = (case c_strchr (CHR ''@'') host of None \<Rightarrow> host | Some t \<Rightarrow> tl t)"

text \<open>The port after the last colon; the text after the number is ignored, and a number out of
  range leaves the colon in the host.\<close>

definition host_port :: "string \<Rightarrow> u16 \<Rightarrow> string \<times> u16" where
  "host_port host port =
     (case split_last (CHR '':'') host of
        None \<Rightarrow> (host, port)
      | Some (h, p) \<Rightarrow>
          if CHR '']'' \<in> set host then (host, port)
          else
            let n = (case c_strtoll p of None \<Rightarrow> 0 | Some (v, rest) \<Rightarrow> v)
            in if 0 < n \<and> n \<le> 65535 then (h, word_of_int n) else (host, port))"

definition parse_url :: "string option \<Rightarrow> parsed_url option" where
  "parse_url url =
     (case url of
        None \<Rightarrow> None
      | Some s \<Rightarrow>
          (case (if starts_with ''https://'' s then Some (True, 443, drop 8 s)
                 else if starts_with ''http://'' s then Some (False, 80, drop 7 s)
                 else None) of
             None \<Rightarrow> None
           | Some (https, port, p) \<Rightarrow>
               let path = c_copy url_path_size (case c_strchr (CHR ''/'') p of None \<Rightarrow> ''/'' | Some sl \<Rightarrow> sl);
                   host = takeWhile (\<lambda>c. c \<noteq> CHR ''/'') p
               in if host = [] \<or> length host \<ge> host_size then None
                  else
                    let (h, port') = host_port (strip_userinfo host) port
                    in if h = [] then None
                       else Some \<lparr>pu_https = https, pu_host = h, pu_path = path, pu_port = port'\<rparr>))"

section \<open>The request\<close>

text \<open>One \<open>snprintf\<close> at the end of a buffer of \<open>cap\<close> bytes; \<open>None\<close> when the text and its NUL do
  not fit.\<close>

definition emit :: "nat \<Rightarrow> string \<Rightarrow> string \<Rightarrow> string option" where
  "emit cap t acc = (if length t \<ge> cap - length acc then None else Some (acc @ t))"

definition http_eol :: string where
  "http_eol = [CHR 0x0D, CHR 0x0A]"

fun emit_headers :: "nat \<Rightarrow> header list \<Rightarrow> string \<Rightarrow> string option" where
  "emit_headers cap [] acc = Some acc"
| "emit_headers cap ((None, v) # hs) acc = emit_headers cap hs acc"
| "emit_headers cap ((Some n, v) # hs) acc =
     (case emit cap (n @ '': '' @ opt_str v @ http_eol) acc of
        None \<Rightarrow> None
      | Some acc' \<Rightarrow> emit_headers cap hs acc')"

definition build_request ::
  "edge_http_client_req \<Rightarrow> parsed_url \<Rightarrow> string \<Rightarrow> nat \<Rightarrow> string option" where
  "build_request req u host_hdr cap =
     (let meth = (case cr_method req of None \<Rightarrow> ''GET'' | Some m \<Rightarrow> m);
          host = (if host_hdr \<noteq> [] then host_hdr else pu_host u);
          blen = length (cr_body req)
      in Option.bind (emit cap (meth @ '' '' @ pu_path u @ '' HTTP/1.1'' @ http_eol @ ''Host: '' @ host @ http_eol) [])
         (\<lambda>a. Option.bind (emit cap (''Connection: close'' @ http_eol) a)
         (\<lambda>b. Option.bind (emit_headers cap (cr_hdrs req) b)
         (\<lambda>c. Option.bind (emit cap (''Content-Length: '' @ dec_nat blen @ http_eol @ http_eol) c)
         (\<lambda>d. if 0 < blen \<and> length d + blen \<ge> cap then None else Some (d @ cr_body req))))))"

section \<open>The response\<close>

text \<open>The text after the first blank line.\<close>

fun after_blank_line :: "string \<Rightarrow> string option" where
  "after_blank_line [] = None"
| "after_blank_line (c # cs) =
     (if starts_with (http_eol @ http_eol) (c # cs) then Some (drop 4 (c # cs)) else after_blank_line cs)"

text \<open>\<open>strchr\<close> and \<open>strtol\<close> read the bytes received as a C string, which has no end of its own:
  \<open>beyond\<close> is what the rest of the buffer holds, memory never written to.\<close>

definition parse_status_and_body :: "string \<Rightarrow> string \<Rightarrow> (int \<times> string) option" where
  "parse_status_and_body raw beyond =
     (if length raw < 12 then None
      else if \<not> starts_with ''HTTP/1.'' raw then None
      else case c_strchr (CHR '' '') (cstr (raw @ beyond)) of
        None \<Rightarrow> None
      | Some p \<Rightarrow>
          (case c_strtoll (tl p) of
             None \<Rightarrow> None
           | Some (st, rest) \<Rightarrow>
               if st < 100 \<or> st > 599 then None
               else map_option (Pair st) (after_blank_line raw)))"

section \<open>The network\<close>

datatype io_read = Read_Bytes string | Read_Eintr | Read_Fail
datatype io_write = Wrote nat | Write_Eintr | Write_Fail

text \<open>\<open>'a\<close> is an address and \<open>'s\<close> a connection. \<open>nt_connect\<close> is \<open>socket\<close> and \<open>connect\<close>; the flags
  are the two allocations; \<open>nt_beyond\<close> is the content of fresh memory.\<close>

record ('a, 's) net =
  nt_inet_pton :: "string \<Rightarrow> u16 \<Rightarrow> 'a option"
  nt_getaddrinfo :: "string \<Rightarrow> string \<Rightarrow> 'a list option"
  nt_connect :: "'a \<Rightarrow> 's option"
  nt_read :: "'s \<Rightarrow> nat \<Rightarrow> io_read \<times> 's"
  nt_write :: "'s \<Rightarrow> string \<Rightarrow> io_write \<times> 's"
  nt_set_nonblock :: "'s \<Rightarrow> bool"
  nt_ssl_files :: ssl_files
  nt_ssl :: "'s ssl_ops"
  nt_mem_req :: bool
  nt_mem_raw :: bool
  nt_beyond :: string

fun first_connect :: "('a \<Rightarrow> 's option) \<Rightarrow> 'a list \<Rightarrow> 's option" where
  "first_connect conn [] = None"
| "first_connect conn (a # as) = (case conn a of Some s \<Rightarrow> Some s | None \<Rightarrow> first_connect conn as)"

definition tcp_connect_host ::
  "('a, 's) net \<Rightarrow> string \<Rightarrow> u16 \<Rightarrow> string option \<Rightarrow> bool \<Rightarrow> 's option" where
  "tcp_connect_host net host port addr_override allow_dns =
     (case given addr_override of
        Some addr \<Rightarrow> Option.bind (nt_inet_pton net addr port) (nt_connect net)
      | None \<Rightarrow>
          if \<not> allow_dns then None
          else case nt_getaddrinfo net host (dec_nat (unat port)) of
            None \<Rightarrow> None
          | Some addrs \<Rightarrow> first_connect (nt_connect net) addrs)"

partial_function (option) io_write_all_fd :: "('a, 's) net \<Rightarrow> 's \<Rightarrow> string \<Rightarrow> (bool \<times> 's) option" where
  "io_write_all_fd net s buf =
     (if buf = [] then Some (True, s)
      else case nt_write net s buf of
        (Write_Eintr, s') \<Rightarrow> io_write_all_fd net s' buf
      | (Write_Fail, s') \<Rightarrow> Some (False, s')
      | (Wrote n, s') \<Rightarrow> io_write_all_fd net s' (drop n buf))"

partial_function (option) io_read_loop ::
  "('a, 's) net \<Rightarrow> 's \<Rightarrow> nat \<Rightarrow> string \<Rightarrow> (string option \<times> 's) option" where
  "io_read_loop net s cap acc =
     (if \<not> length acc < cap then Some (Some acc, s)
      else case nt_read net s (cap - length acc) of
        (Read_Eintr, s') \<Rightarrow> io_read_loop net s' cap acc
      | (Read_Fail, s') \<Rightarrow> Some (None, s')
      | (Read_Bytes bs, s') \<Rightarrow>
          if bs = [] then Some (Some acc, s') else io_read_loop net s' cap (acc @ bs))"

definition io_read_all_fd :: "('a, 's) net \<Rightarrow> 's \<Rightarrow> nat \<Rightarrow> (string option \<times> 's) option" where
  "io_read_all_fd net s cap = io_read_loop net s cap []"

section \<open>One exchange\<close>

definition EIO :: int where "EIO = 5"
definition ENOMEM :: int where "ENOMEM = 12"
definition EINVAL :: int where "EINVAL = 22"
definition EPROTO :: int where "EPROTO = 71"
definition EMSGSIZE :: int where "EMSGSIZE = 90"
definition ETIMEDOUT :: int where "ETIMEDOUT = 110"
definition ECONNREFUSED :: int where "ECONNREFUSED = 111"

lemmas errno_defs = EIO_def ENOMEM_def EINVAL_def EPROTO_def EMSGSIZE_def ETIMEDOUT_def ECONNREFUSED_def

definition no_result :: edge_http_client_result where
  "no_result = \<lparr>ur_outbound_id = 0, ur_user_tag = 0, ur_transport_err = 0, ur_status = 0,
                ur_hdrs = [], ur_body = []\<rparr>"

text \<open>The size of the buffer for the response.\<close>

definition raw_size :: "outbound_opts \<Rightarrow> nat" where
  "raw_size o1 =
     max 16384 ((if oo_max_response_body o1 \<noteq> 0 then oo_max_response_body o1 else 4 * 1024 * 1024) + 8192)"

text \<open>A call that failed has no body. Up to the connection it returns 0, after it -1.\<close>

definition transport_failed :: "int \<Rightarrow> int \<Rightarrow> int \<times> edge_http_client_result \<times> string" where
  "transport_failed rc er = (rc, no_result\<lparr>ur_transport_err := er\<rparr>, [])"

text \<open>Sending the request and reading the answer: \<open>Inl\<close> is the error, the outer \<open>None\<close> a loop
  that does not end.\<close>

definition plain_exchange :: "('a, 's) net \<Rightarrow> 's \<Rightarrow> string \<Rightarrow> nat \<Rightarrow> (int + string) option" where
  "plain_exchange net s reqbuf raw_cap =
     (case io_write_all_fd net s reqbuf of
        None \<Rightarrow> None
      | Some (ok, s1) \<Rightarrow>
          if \<not> ok then Some (Inl EIO)
          else case io_read_all_fd net s1 raw_cap of
            None \<Rightarrow> None
          | Some (None, s2) \<Rightarrow> Some (Inl EIO)
          | Some (Some raw, s2) \<Rightarrow> Some (Inr raw))"

definition tls_exchange ::
  "('a, 's) net \<Rightarrow> 's \<Rightarrow> string \<Rightarrow> string \<Rightarrow> int \<Rightarrow> nat \<Rightarrow> (int + string) option" where
  "tls_exchange net s host_hdr reqbuf timeout_ms raw_cap =
     (if \<not> nt_set_nonblock net s then Some (Inl EIO)
      else case edge_tls_client_ctx_create (nt_ssl_files net) None of
        None \<Rightarrow> Some (Inl EIO)
      | Some ctx \<Rightarrow>
          (case edge_tls_client_conn_new_fd (nt_ssl net) (Some ctx) (Some s) (Some host_hdr) of
             None \<Rightarrow> Some (Inl EIO)
           | Some ssl \<Rightarrow>
               (case edge_tls_handshake_poll (nt_ssl net) ssl timeout_ms of
                  None \<Rightarrow> None
                | Some (ok, s1) \<Rightarrow>
                    if \<not> ok then Some (Inl ECONNREFUSED)
                    else case edge_tls_write_all_poll (nt_ssl net) s1 reqbuf timeout_ms of
                      None \<Rightarrow> None
                    | Some (ok2, s2) \<Rightarrow>
                        if \<not> ok2 then Some (Inl EIO)
                        else case edge_tls_read_all_poll (nt_ssl net) s2 raw_cap timeout_ms of
                          None \<Rightarrow> None
                        | Some (None, s3) \<Rightarrow> Some (Inl EIO)
                        | Some (Some raw, s3) \<Rightarrow> Some (Inr raw))))"

definition host_header :: "edge_http_client_req \<Rightarrow> parsed_url \<Rightarrow> string" where
  "host_header req u = (case given (cr_host req) of Some h \<Rightarrow> h | None \<Rightarrow> pu_host u)"

definition edge_outbound_http_execute ::
  "('a, 's) net \<Rightarrow> edge_http_client_req \<Rightarrow> outbound_opts option \<Rightarrow> nat \<Rightarrow>
   (int \<times> edge_http_client_result \<times> string) option" where
  "edge_outbound_http_execute net req opts body_cap =
     (let o1 = (case opts of None \<Rightarrow> edge_outbound_opts_defaults | Some x \<Rightarrow> x);
          timeout_ms = (if cr_timeout_ms req > 0 then sint (cr_timeout_ms req)
                        else if oo_default_timeout_ms o1 \<noteq> 0 then sint (oo_default_timeout_ms o1)
                        else 60000)
      in if body_cap < 64 then Some (transport_failed 0 ENOMEM)
         else case parse_url (cr_url req) of
           None \<Rightarrow> Some (transport_failed 0 EINVAL)
         | Some u \<Rightarrow>
             let host_hdr = host_header req u
             in if \<not> nt_mem_req net then Some (transport_failed 0 ENOMEM)
                else case build_request req u host_hdr (4096 + length (cr_body req) + 256) of
                  None \<Rightarrow> Some (transport_failed 0 EMSGSIZE)
                | Some reqbuf \<Rightarrow>
                    (case tcp_connect_host net (pu_host u) (pu_port u) (cr_addr_override req)
                            (oo_allow_blocking_dns o1) of
                       None \<Rightarrow> Some (transport_failed 0 ECONNREFUSED)
                     | Some s \<Rightarrow>
                         let raw_cap = raw_size o1
                         in if \<not> nt_mem_raw net then Some (transport_failed 0 ENOMEM)
                            else case (if pu_https u then tls_exchange net s host_hdr reqbuf timeout_ms raw_cap
                                       else plain_exchange net s reqbuf raw_cap) of
                              None \<Rightarrow> None
                            | Some (Inl er) \<Rightarrow> Some (transport_failed (-1) er)
                            | Some (Inr raw) \<Rightarrow>
                                (case parse_status_and_body raw (nt_beyond net) of
                                   None \<Rightarrow> Some (transport_failed (-1) EPROTO)
                                 | Some (status, b) \<Rightarrow>
                                     let body = take body_cap b
                                     in Some (0, no_result\<lparr>ur_status := status, ur_body := body\<rparr>, body))))"

end
