(* ===== verification/Outbound_Spec.thy ===== *)
theory Outbound_Spec
  imports Outbound_Http
begin

text \<open>
  What \<open>Outbound_Http\<close> promises: the request text is complete or the call fails, a URL is taken
  apart as it was put together, a response comes back whatever way its bytes arrive, and which
  errors there are.
\<close>

section \<open>The request text\<close>

fun header_lines :: "header list \<Rightarrow> string" where
  "header_lines [] = []"
| "header_lines ((None, v) # hs) = header_lines hs"
| "header_lines ((Some n, v) # hs) = n @ '': '' @ opt_str v @ http_eol @ header_lines hs"

definition request_text :: "edge_http_client_req \<Rightarrow> parsed_url \<Rightarrow> string \<Rightarrow> string" where
  "request_text req u host_hdr =
     (case cr_method req of None \<Rightarrow> ''GET'' | Some m \<Rightarrow> m) @ '' '' @ pu_path u @ '' HTTP/1.1'' @ http_eol @
     ''Host: '' @ (if host_hdr \<noteq> [] then host_hdr else pu_host u) @ http_eol @
     ''Connection: close'' @ http_eol @ header_lines (cr_hdrs req) @
     ''Content-Length: '' @ dec_nat (length (cr_body req)) @ http_eol @ http_eol @ cr_body req"

lemma emit_fits: "emit cap t acc = (if length acc + length t < cap then Some (acc @ t) else None)"
  if "length acc \<le> cap"
  using that by (auto simp: emit_def)

lemma emit_headers_spec:
  assumes "length acc < cap"
  shows "emit_headers cap hs acc =
    (if length acc + length (header_lines hs) < cap then Some (acc @ header_lines hs) else None)"
  using assms
proof (induction cap hs acc rule: emit_headers.induct)
  case (3 cap n v hs acc)
  let ?t = "n @ '': '' @ opt_str v @ http_eol"
  show ?case
  proof (cases "length acc + length ?t < cap")
    case True
    then have "emit cap ?t acc = Some (acc @ ?t)" "length (acc @ ?t) < cap"
      using "3.prems" emit_fits [of acc cap ?t] by simp_all
    then show ?thesis using "3.IH" [of "acc @ ?t"] by (simp add: ac_simps)
  next
    case False
    then have "emit cap ?t acc = None"
      using "3.prems" emit_fits [of acc cap ?t] by simp
    then show ?thesis using False by simp
  qed
qed simp_all

lemma bind_emit:
  assumes "length acc \<le> cap"
  shows "Option.bind (emit cap t acc) f = (if length acc + length t < cap then f (acc @ t) else None)"
  using emit_fits [OF assms] by simp

text \<open>The request that goes out is all of its text or nothing: it is built exactly when it
  fits its buffer with room for the terminator, and then has the request line, the host, the
  caller's headers, the length of the body and the body.\<close>

theorem request_complete:
  "build_request req u host_hdr cap =
     (if length (request_text req u host_hdr) < cap then Some (request_text req u host_hdr) else None)"
proof -
  let ?l1 = "(case cr_method req of None \<Rightarrow> ''GET'' | Some m \<Rightarrow> m) @ '' '' @ pu_path u @ '' HTTP/1.1'' @ http_eol @
     ''Host: '' @ (if host_hdr \<noteq> [] then host_hdr else pu_host u) @ http_eol"
  let ?l2 = "''Connection: close'' @ http_eol"
  let ?l3 = "header_lines (cr_hdrs req)"
  let ?l4 = "''Content-Length: '' @ dec_nat (length (cr_body req)) @ http_eol @ http_eol"
  have whole: "request_text req u host_hdr = ((?l1 @ ?l2) @ ?l3) @ ?l4 @ cr_body req"
    by (simp add: request_text_def)
  have l4: "0 < length ?l4" by simp
  show ?thesis
  proof (cases "length (?l1 @ ?l2) < cap")
    case True
    then have 1: "length ?l1 < cap" by simp
    have "build_request req u host_hdr cap =
        Option.bind (emit_headers cap (cr_hdrs req) (?l1 @ ?l2))
          (\<lambda>c. Option.bind (emit cap ?l4 c)
             (\<lambda>d. if 0 < length (cr_body req) \<and> length d + length (cr_body req) \<ge> cap then None
                  else Some (d @ cr_body req)))"
      using 1 True unfolding build_request_def Let_def
      by (simp add: bind_emit del: append_assoc)
    then show ?thesis
      using True by (auto simp: emit_headers_spec bind_emit whole not_less)
  next
    case False
    then show ?thesis
      unfolding build_request_def Let_def whole by (simp add: bind_emit)
  qed
qed

section \<open>URLs\<close>

definition url_text :: "bool \<Rightarrow> string \<Rightarrow> nat option \<Rightarrow> string \<Rightarrow> string" where
  "url_text https host port path =
     (if https then ''https://'' else ''http://'') @ host @
     (case port of None \<Rightarrow> [] | Some p \<Rightarrow> CHR '':'' # dec_nat p) @ path"

lemma split_last_None_iff: "split_last c s = None \<longleftrightarrow> c \<notin> set s"
  by (induction s) (auto split: option.splits)

lemma split_last_append: "c \<notin> set b \<Longrightarrow> split_last c (a @ c # b) = Some (a, b)"
proof (induction a)
  case Nil
  then have "split_last c b = None" by (simp add: split_last_None_iff)
  then show ?case by simp
qed simp

lemma takeWhile_host:
  assumes "CHR ''/'' \<notin> set h" "path = [] \<or> hd path = CHR ''/''"
  shows "takeWhile (\<lambda>c. c \<noteq> CHR ''/'') (h @ path) = h"
proof -
  have "takeWhile (\<lambda>c. c \<noteq> CHR ''/'') path = []"
    using assms(2) by (cases path) auto
  then show ?thesis using assms(1) by (subst takeWhile_append2) auto
qed

lemma strtoll_dec_nat: "int n \<le> llong_max \<Longrightarrow> c_strtoll (dec_nat n) = Some (int n, [])"
  using strtoll_dec_int [of "int n" "[]"] by (simp add: dec_int_def llong_min_def)

lemma dec_nat_no: "\<not> is_digit c \<Longrightarrow> c \<notin> set (dec_nat n)"
  using dec_nat_digits by blast

text \<open>C24: A URL is taken apart the way it was put together: the scheme, the host, the port (or
  the scheme's own) and the path from its first slash, for every host without delimiters and
  every path that fits.\<close>

theorem url_roundtrip:
  assumes "host \<noteq> []" and "\<forall>c\<in>set host. c \<notin> set ''/@:]''"
    and "hd path = CHR ''/''" and "path \<noteq> []" and "length path < 1024" and "length host < 250"
    and "port = None \<or> (\<exists>p. port = Some p \<and> 0 < p \<and> p < 65536)"
  shows "parse_url (Some (url_text https host port path)) =
    Some \<lparr>pu_https = https, pu_host = host, pu_path = path,
          pu_port = (case port of None \<Rightarrow> if https then 443 else 80 | Some p \<Rightarrow> of_nat p)\<rparr>"
proof -
  let ?port = "case port of None \<Rightarrow> [] | Some p \<Rightarrow> CHR '':'' # dec_nat p"
  let ?h = "host @ ?port"
  have delims: "CHR ''/'' \<notin> set host" "CHR ''@'' \<notin> set host" "CHR '':'' \<notin> set host" "CHR '']'' \<notin> set host"
    using assms(2) by auto
  have nod: "CHR ''/'' \<notin> set ?port" "CHR ''@'' \<notin> set ?port" "CHR '']'' \<notin> set ?port"
    using dec_nat_no [of "CHR ''/''"] dec_nat_no [of "CHR ''@''"] dec_nat_no [of "CHR '']''"]
    by (auto simp: is_digit_def split: option.splits)
  have len: "length ?port \<le> 6"
  proof (cases port)
    case (Some p)
    then have "p < 10 ^ 5" using assms(7) by auto
    then show ?thesis using dec_nat_length [of p 5] Some by simp
  qed simp
  have path: "\<exists>t. path = CHR ''/'' # t" using assms(3,4) by (cases path) auto
  have slash: "c_strchr (CHR ''/'') (?h @ path) = Some path"
    using path delims(1) nod(1) by (subst c_strchr_append) auto
  have host: "takeWhile (\<lambda>c. c \<noteq> CHR ''/'') (?h @ path) = ?h"
    using delims(1) nod(1) assms(3) by (intro takeWhile_host) auto
  have at: "strip_userinfo ?h = ?h"
    using delims(2) nod(2) c_strchr_None_iff [of "CHR ''@''" ?h] by (simp add: strip_userinfo_def)
  have hp: "host_port ?h d = (host, case port of None \<Rightarrow> d | Some p \<Rightarrow> of_nat p)" for d
  proof (cases port)
    case None
    then show ?thesis using delims(3) split_last_None_iff [of "CHR '':''" host] by (simp add: host_port_def)
  next
    case (Some p)
    have "CHR '':'' \<notin> set (dec_nat p)" using dec_nat_no [of "CHR '':''"] by (simp add: is_digit_def)
    then have "split_last (CHR '':'') ?h = Some (host, dec_nat p)"
      using Some by (simp add: split_last_append)
    moreover have "c_strtoll (dec_nat p) = Some (int p, [])"
      using assms(7) Some by (intro strtoll_dec_nat) (auto simp: llong_max_def)
    ultimately show ?thesis
      using Some assms(7) delims(4) nod(3) unfolding host_port_def by (simp add: Let_def)
  qed
  have fits: "c_copy url_path_size path = path"
    using assms(5) by (simp add: c_copy_fits url_path_size_def)
  have split: "(if starts_with ''https://'' (url_text https host port path)
        then Some (True, 443, drop 8 (url_text https host port path))
        else if starts_with ''http://'' (url_text https host port path)
        then Some (False, 80, drop 7 (url_text https host port path)) else None) =
      Some (https, if https then 443 else 80, ?h @ path)"
    by (simp add: url_text_def)
  show ?thesis
    unfolding parse_url_def option.case split prod.case Let_def slash host at hp fits
    using assms(1,6) len by (simp add: host_size_def)
qed

theorem url_roundtrip_witness:
  "parse_url (Some (url_text True ''api.openai.com'' (Some 8443) ''/v1/models'')) =
     Some \<lparr>pu_https = True, pu_host = ''api.openai.com'', pu_path = ''/v1/models'', pu_port = 8443\<rparr>"
  using url_roundtrip [of "''api.openai.com''" "''/v1/models''" "Some 8443" True] by simp

section \<open>The response text\<close>

definition response_text :: "nat \<Rightarrow> string \<Rightarrow> string list \<Rightarrow> string \<Rightarrow> string" where
  "response_text status reason hdrs body =
     ''HTTP/1.1 '' @ dec_nat status @ '' '' @ reason @ http_eol @ concat (map (\<lambda>l. l @ http_eol) hdrs) @ http_eol @ body"

definition no_cr :: "string \<Rightarrow> bool" where
  "no_cr l \<longleftrightarrow> CHR 0x0D \<notin> set l"

lemma blank_skip: "no_cr l \<Longrightarrow> after_blank_line (l @ t) = after_blank_line t"
  by (induction l) (auto simp: no_cr_def http_eol_def)

lemma blank_here: "after_blank_line (http_eol @ http_eol @ body) = Some body"
  by (simp add: http_eol_def)

lemma blank_not_here: "no_cr [c] \<Longrightarrow> after_blank_line (http_eol @ c # t) = after_blank_line (c # t)"
  by (simp add: http_eol_def no_cr_def)

lemma after_lines:
  assumes "\<forall>l\<in>set hdrs. l \<noteq> [] \<and> no_cr l"
  shows "after_blank_line (http_eol @ concat (map (\<lambda>l. l @ http_eol) hdrs) @ http_eol @ body) = Some body"
  using assms
proof (induction hdrs)
  case Nil
  then show ?case by (simp add: blank_here)
next
  case (Cons l hdrs)
  let ?t = "http_eol @ concat (map (\<lambda>l. l @ http_eol) hdrs) @ http_eol @ body"
  obtain c cs where l: "l = c # cs" using Cons.prems by (cases l) auto
  then have c: "no_cr [c]" using Cons.prems by (auto simp: no_cr_def)
  have "after_blank_line (http_eol @ c # cs @ ?t) = after_blank_line (c # cs @ ?t)"
    by (rule blank_not_here [OF c])
  also have "\<dots> = after_blank_line (l @ ?t)" using l by simp
  also have "\<dots> = after_blank_line ?t" using Cons.prems by (intro blank_skip) simp
  also have "\<dots> = Some body" using Cons by simp
  finally show ?case using l by simp
qed

lemma cstr_append: "nul \<notin> set a \<Longrightarrow> cstr (a @ b) = a @ cstr b"
  unfolding cstr_def by (subst takeWhile_append2) auto

lemma response_parses:
  assumes "100 \<le> status" "status \<le> 599" "no_cr reason" "\<forall>l\<in>set hdrs. l \<noteq> [] \<and> no_cr l"
  shows "parse_status_and_body (response_text status reason hdrs body) beyond = Some (int status, body)"
proof -
  let ?raw = "response_text status reason hdrs body"
  let ?tail = "reason @ http_eol @ concat (map (\<lambda>l. l @ http_eol) hdrs) @ http_eol @ body"
  have raw: "?raw = ''HTTP/1.1 '' @ dec_nat status @ '' '' @ ?tail"
    by (simp add: response_text_def)
  have len: "\<not> length ?raw < 12"
    using dec_nat_nonempty [of status] by (cases "dec_nat status") (simp_all add: raw http_eol_def)
  have digits: "nul \<notin> set (dec_nat status)"
    by (rule dec_nat_no) (simp add: nul_def is_digit_def)
  have "cstr (?raw @ beyond) = ''HTTP/1.1 '' @ dec_nat status @ '' '' @ cstr (?tail @ beyond)"
    using digits cstr_append [of "''HTTP/1.1 '' @ dec_nat status @ '' ''" "?tail @ beyond"]
    by (simp add: raw nul_def)
  then have sp: "c_strchr (CHR '' '') (cstr (?raw @ beyond)) =
      Some (CHR '' '' # dec_nat status @ CHR '' '' # cstr (?tail @ beyond))"
    by simp
  have num: "c_strtoll (dec_nat status @ CHR '' '' # r) = Some (int status, CHR '' '' # r)" for r
    using strtoll_dec_int [of "int status" "CHR '' '' # r"] assms(2)
    by (simp add: dec_int_def llong_min_def llong_max_def is_digit_def)
  have nocr: "no_cr (''HTTP/1.1 '' @ dec_nat status @ '' '' @ reason)"
    using assms(3) dec_nat_no [of "CHR 0x0D" status] by (simp add: no_cr_def is_digit_def)
  have abl: "after_blank_line ?raw = Some body"
    using blank_skip [OF nocr] after_lines [OF assms(4)] by (simp add: raw)
  show ?thesis
    unfolding parse_status_and_body_def sp option.case list.sel num prod.case abl
    using len assms(1,2) by (simp add: raw)
qed

section \<open>The exchange\<close>

text \<open>A socket that takes all of a text, and one that gives all of a text to a reader with room
  for \<open>n\<close> bytes: in any number of calls, some of them interrupted.\<close>

inductive accepts :: "('a, 's) net \<Rightarrow> 's \<Rightarrow> string \<Rightarrow> 's \<Rightarrow> bool" for net where
  all_sent: "accepts net s [] s"
| interrupted: "\<lbrakk>buf \<noteq> []; nt_write net s buf = (Write_Eintr, s1); accepts net s1 buf s2\<rbrakk> \<Longrightarrow> accepts net s buf s2"
| wrote: "\<lbrakk>buf \<noteq> []; nt_write net s buf = (Wrote n, s1); accepts net s1 (drop n buf) s2\<rbrakk> \<Longrightarrow> accepts net s buf s2"

inductive gives :: "('a, 's) net \<Rightarrow> 's \<Rightarrow> nat \<Rightarrow> string \<Rightarrow> 's \<Rightarrow> bool" for net where
  full: "gives net s 0 [] s"
| closed: "\<lbrakk>0 < n; nt_read net s n = (Read_Bytes [], s1)\<rbrakk> \<Longrightarrow> gives net s n [] s1"
| interrupted: "\<lbrakk>0 < n; nt_read net s n = (Read_Eintr, s1); gives net s1 n d s2\<rbrakk> \<Longrightarrow> gives net s n d s2"
| piece: "\<lbrakk>nt_read net s n = (Read_Bytes bs, s1); bs \<noteq> []; length bs \<le> n; gives net s1 (n - length bs) d s2\<rbrakk> \<Longrightarrow>
     gives net s n (bs @ d) s2"

lemma accepts_writes: "accepts net s buf s' \<Longrightarrow> io_write_all_fd net s buf = Some (True, s')"
proof (induction rule: accepts.induct)
  case (all_sent s)
  show ?case by (subst io_write_all_fd.simps) simp
next
  case (interrupted buf s s1 s2)
  then show ?case by (subst io_write_all_fd.simps) simp
next
  case (wrote buf s n s1 s2)
  then show ?case by (subst io_write_all_fd.simps) simp
qed

lemma gives_reads:
  "gives net s n d s' \<Longrightarrow> length acc + n = cap \<Longrightarrow> io_read_loop net s cap acc = Some (Some (acc @ d), s')"
proof (induction arbitrary: acc rule: gives.induct)
  case (full s)
  then show ?case by (subst io_read_loop.simps) simp
next
  case (closed n s s1)
  then have "cap - length acc = n" by simp
  with closed show ?case by (subst io_read_loop.simps) simp
next
  case (interrupted n s s1 d s2)
  then have "cap - length acc = n" by simp
  with interrupted show ?case by (subst io_read_loop.simps) simp
next
  case (piece s n bs s1 d s2)
  then have n: "cap - length acc = n" "0 < n" by (auto simp: Suc_le_eq intro: order.strict_trans2)
  have "io_read_loop net s1 cap (acc @ bs) = Some (Some ((acc @ bs) @ d), s2)"
    using piece by (intro piece.IH) simp
  with piece n show ?case by (subst io_read_loop.simps) simp
qed


text \<open>A network whose only server answers a prepared list of pieces.\<close>

definition no_tls :: "string list ssl_ops" where
  "no_tls = \<lparr>ss_new_fd = (\<lambda>c srv h s. None), ss_handshake = (\<lambda>s. (SSL_FAIL (-1) SSL_ERROR_OTHER, s)),
             ss_read = (\<lambda>s n. (SSL_FAIL (-1) SSL_ERROR_OTHER, s)),
             ss_write = (\<lambda>s b n. (SSL_FAIL (-1) SSL_ERROR_OTHER, s)), ss_poll = (\<lambda>s w t. (0, s))\<rparr>"

fun next_piece :: "string list \<Rightarrow> nat \<Rightarrow> io_read \<times> string list" where
  "next_piece [] n = (Read_Bytes [], [])"
| "next_piece (p # ps) n =
     (if length p \<le> n then (Read_Bytes p, ps) else (Read_Bytes (take n p), drop n p # ps))"

definition sample_net :: "string list \<Rightarrow> (string, string list) net" where
  "sample_net pieces =
     \<lparr>nt_inet_pton = (\<lambda>a p. Some a), nt_getaddrinfo = (\<lambda>h p. None), nt_connect = (\<lambda>a. Some pieces),
      nt_read = next_piece, nt_write = (\<lambda>s b. (Wrote (length b), s)), nt_set_nonblock = (\<lambda>s. True),
      nt_ssl_files = \<lparr>sf_ctx_new = True, sf_cert_ok = (\<lambda>c. True), sf_key_ok = (\<lambda>k. True),
                      sf_pair_ok = (\<lambda>c k. True), sf_ca_ok = (\<lambda>c. True)\<rparr>,
      nt_ssl = no_tls, nt_mem_req = True, nt_mem_raw = True, nt_beyond = []\<rparr>"

lemma sample_accepts: "accepts (sample_net ps) s buf s"
proof (cases "buf = []")
  case True
  then show ?thesis by (simp add: accepts.all_sent)
next
  case False
  then show ?thesis
    by (rule accepts.wrote [of _ _ _ "length buf" s]) (simp_all add: sample_net_def accepts.all_sent)
qed

lemma sample_gives_one: "piece \<noteq> [] \<Longrightarrow> length piece < n \<Longrightarrow> gives (sample_net ps) [piece] n piece []"
  using gives.piece [of "sample_net ps" "[piece]" n piece "[]" "[]" "[]"]
    gives.closed [of "n - length piece" "sample_net ps" "[]" "[]"]
  by (simp add: sample_net_def)

definition sample_req :: edge_http_client_req where
  "sample_req = \<lparr>cr_method = Some ''GET'', cr_url = Some ''http://u/v1'', cr_host = None,
                 cr_addr_override = Some ''10.0.0.1'', cr_hdrs = [], cr_body = [],
                 cr_timeout_ms = 0, cr_user_tag = 0\<rparr>"


section \<open>Errors\<close>

lemma plain_errors: "plain_exchange net s q n = Some (Inl er) \<Longrightarrow> er = EIO"
  by (auto simp: plain_exchange_def split: option.splits prod.splits if_splits)

lemma tls_errors: "tls_exchange net s h q t n = Some (Inl er) \<Longrightarrow> er \<in> {EIO, ECONNREFUSED}"
  by (auto simp: tls_exchange_def split: option.splits prod.splits if_splits)

lemma parsed_status: "parse_status_and_body raw beyond = Some (st, b) \<Longrightarrow> 100 \<le> st \<and> st \<le> 599"
  by (auto simp: parse_status_and_body_def split: option.splits prod.splits if_splits)

definition exchange_result :: "nat \<Rightarrow> int \<times> edge_http_client_result \<times> string \<Rightarrow> bool" where
  "exchange_result cap r \<longleftrightarrow>
     (\<exists>rc er. r = transport_failed rc er \<and>
        er \<in> {EIO, ENOMEM, EINVAL, EPROTO, EMSGSIZE, ECONNREFUSED}) \<or>
     (\<exists>st b. 100 \<le> st \<and> st \<le> 599 \<and> length b \<le> cap \<and>
        r = (0, no_result\<lparr>ur_status := st, ur_body := b\<rparr>, b))"

lemma failed_result:
  "er \<in> {EIO, ENOMEM, EINVAL, EPROTO, EMSGSIZE, ECONNREFUSED} \<Longrightarrow> exchange_result cap (transport_failed rc er)"
  by (auto simp: exchange_result_def)

lemma parsed_result:
  "100 \<le> st \<Longrightarrow> st \<le> 599 \<Longrightarrow>
   exchange_result cap (0, no_result\<lparr>ur_status := st, ur_body := take cap b\<rparr>, take cap b)"
  unfolding exchange_result_def by (rule disjI2, intro exI [of _ st] exI [of _ "take cap b"]) simp

lemma execute_result:
  assumes "edge_outbound_http_execute net req opts cap = Some r"
  shows "exchange_result cap r"
  using assms unfolding edge_outbound_http_execute_def Let_def
  by (auto split: if_split_asm option.split_asm prod.split_asm sum.split_asm
      dest!: plain_errors tls_errors parsed_status intro: failed_result parsed_result)

text \<open>C25: Every exchange that ends has one of two outcomes: an error among the six the client
  knows, with no body, or a status from 100 to 599 with a body that fits the caller's buffer.
  A time-out is never reported as one: no exchange ends with the error ETIMEDOUT.\<close>

theorem outbound_outcomes:
  assumes "edge_outbound_http_execute net req opts cap = Some (rc, res, body)"
  shows "ur_transport_err res \<noteq> ETIMEDOUT \<and> ur_body res = body \<and> length body \<le> cap \<and>
    (if ur_transport_err res = 0 then rc = 0 \<and> 100 \<le> ur_status res \<and> ur_status res \<le> 599
     else ur_transport_err res \<in> {EIO, ENOMEM, EINVAL, EPROTO, EMSGSIZE, ECONNREFUSED} \<and> body = [])"
  using execute_result [OF assms]
  by (auto simp: exchange_result_def transport_failed_def no_result_def errno_defs)

theorem outbound_outcomes_witness:
  "edge_outbound_http_execute (sample_net []) (sample_req\<lparr>cr_url := None\<rparr>) None 64 =
     Some (transport_failed 0 EINVAL) \<and> snd (snd (transport_failed 0 EINVAL)) = []"
proof -
  have r: "edge_outbound_http_execute (sample_net []) (sample_req\<lparr>cr_url := None\<rparr>) None 64 =
      Some (transport_failed 0 EINVAL)"
    by (simp add: edge_outbound_http_execute_def parse_url_def)
  then have "edge_outbound_http_execute (sample_net []) (sample_req\<lparr>cr_url := None\<rparr>) None 64 =
      Some (0, no_result\<lparr>ur_transport_err := EINVAL\<rparr>, [])"
    by (simp add: transport_failed_def)
  from outbound_outcomes [OF this] r show ?thesis
    by (simp add: transport_failed_def no_result_def errno_defs)
qed

section \<open>A pause over TLS\<close>


text \<open>A server that sends one piece and then nothing for a while.\<close>

definition pause_ssl :: "string \<Rightarrow> string list ssl_ops" where
  "pause_ssl piece =
     no_tls\<lparr>ss_new_fd := (\<lambda>c srv h s. Some [piece]), ss_handshake := (\<lambda>s. (SSL_OK (), s)),
            ss_read := (\<lambda>s n. case s of [] \<Rightarrow> (SSL_FAIL (-1) SSL_ERROR_WANT_READ, []) | p # ps \<Rightarrow> (SSL_OK p, ps)),
            ss_write := (\<lambda>s b n. (SSL_OK (length b), s))\<rparr>"

lemma pause_writes: "edge_tls_write_all_poll (pause_ssl p) s q t = Some (True, s)"
proof (cases "q = []")
  case True
  then show ?thesis by (subst edge_tls_write_all_poll.simps) simp
next
  case False
  have "edge_tls_write_all_poll (pause_ssl p) s [] t = Some (True, s)"
    by (subst edge_tls_write_all_poll.simps) simp
  with False show ?thesis
    by (subst edge_tls_write_all_poll.simps) (simp add: edge_tls_write_def pause_ssl_def no_tls_def)
qed

lemma pause_handshake: "edge_tls_handshake_poll (pause_ssl p) s t = Some (True, s)"
  by (subst edge_tls_handshake_poll.simps) (simp add: edge_tls_handshake_def pause_ssl_def no_tls_def)


end
