(* ===== verification/Openai_Proxy.thy ===== *)
theory Openai_Proxy
  imports Outbound_Http
begin

text \<open>
  \<open>src/plugins/openai_proxy.c\<close>: the plugin behind the route \<open>/v1\<close>. A request that passes its
  checks starts one outbound call and waits (PENDING); the completion answers the client with
  the upstream's status and body. \<open>src/plugins/slack_plugin.c\<close> and \<open>teams_plugin.c\<close> are stubs
  of session plugins. The data of the three plugins is one sum type, since they live in one
  host. The clock is a parameter of the handler that reads it.
\<close>

definition EDGE_OPENAI_URL_MAX :: nat where "EDGE_OPENAI_URL_MAX = 512"
definition EDGE_OPENAI_HOST_MAX :: nat where "EDGE_OPENAI_HOST_MAX = 256"
definition EDGE_OPENAI_ADDR_MAX :: nat where "EDGE_OPENAI_ADDR_MAX = 64"
definition EDGE_OPENAI_ENV_MAX :: nat where "EDGE_OPENAI_ENV_MAX = 64"
definition EDGE_OPENAI_KEY_MAX :: nat where "EDGE_OPENAI_KEY_MAX = 256"

record openai_config =
  oc_enabled :: bool
  oc_upstream :: string
  oc_upstream_addr :: string
  oc_upstream_host :: string
  oc_api_key_env :: string
  oc_service_api_key_env :: string
  oc_timeout_ms :: u32
  oc_rate_limit_rpm :: u32
  oc_max_concurrent :: u32
  oc_path_prefix :: string

record openai_data =
  od_cfg :: openai_config
  od_api_key :: string
  od_hit_n :: int
  od_window_start :: int
  od_in_flight :: int

record slack_config =
  sk_enabled :: bool
  sk_bot_token_env :: string
  sk_app_token_env :: string

record teams_config =
  tm_enabled :: bool
  tm_access_token_env :: string
  tm_tenant_id :: string

datatype plugin_data =
  No_Data | Openai_Data openai_data | Slack_Data slack_config | Teams_Data teams_config

section \<open>Checks of the proxy\<close>

definition edge_openai_proxy_config_defaults :: openai_config where
  "edge_openai_proxy_config_defaults =
     \<lparr>oc_enabled = False, oc_upstream = ''https://api.openai.com'', oc_upstream_addr = [],
      oc_upstream_host = [], oc_api_key_env = ''OPENAI_API_KEY'',
      oc_service_api_key_env = ''EDGEHOST_OPENAI_SERVICE_KEY'', oc_timeout_ms = 60000,
      oc_rate_limit_rpm = 60, oc_max_concurrent = 4, oc_path_prefix = ''/v1''\<rparr>"

definition route_allowed :: "string \<Rightarrow> string \<Rightarrow> bool" where
  "route_allowed meth path \<longleftrightarrow>
     meth = ''POST'' \<and>
       (path = ''/v1/chat/completions'' \<or> starts_with ''/v1/chat/completions?'' path \<or>
        path = ''/v1/responses'' \<or> starts_with ''/v1/responses?'' path) \<or>
     meth = ''GET'' \<and> (path = ''/v1/models'' \<or> starts_with ''/v1/models?'' path)"

definition json_blank :: "char \<Rightarrow> bool" where
  "json_blank c \<longleftrightarrow> c = CHR '' '' \<or> c = CHR 0x0A \<or> c = CHR 0x0D \<or> c = CHR 0x09"

definition model_key :: string where
  "model_key = quoted ''model''"

definition body_looks_ok :: "string \<Rightarrow> string \<Rightarrow> bool" where
  "body_looks_ok body meth \<longleftrightarrow>
     meth = ''GET'' \<or>
     2 \<le> length body \<and>
     (case dropWhile json_blank body of [] \<Rightarrow> False | c # cs \<Rightarrow> c = CHR 0x7B) \<and>
     (if length body < 96 then c_strstr model_key (cstr body) \<noteq> None
      else list_ex (\<lambda>i. take 7 (drop i body) = model_key) [0 ..< length body - 7])"

text \<open>One counter for all principals, reset when its minute is over.\<close>

definition rate_limit_ok :: "int \<Rightarrow> openai_data \<Rightarrow> bool \<times> openai_data" where
  "rate_limit_ok now d =
     (if oc_rate_limit_rpm (od_cfg d) = 0 then (True, d)
      else
        let d1 = (if od_window_start d = 0 \<or> now - od_window_start d \<ge> 60
                  then d\<lparr>od_window_start := now, od_hit_n := 0\<rparr> else d)
        in if (of_int (od_hit_n d1) :: u32) \<ge> oc_rate_limit_rpm (od_cfg d1) then (False, d1)
           else (True, d1\<lparr>od_hit_n := od_hit_n d1 + 1\<rparr>))"

definition principal_allowed :: "edge_principal option \<Rightarrow> bool" where
  "principal_allowed p =
     (case p of
        None \<Rightarrow> False
      | Some q \<Rightarrow>
          pr_authenticated q \<and>
          (edge_auth_role_has (pr_roles q) EDGE_ROLE_EMPLOYEE \<or>
           edge_auth_role_has (pr_roles q) EDGE_ROLE_EMPLOYEE_ADMIN \<or>
           edge_auth_role_has (pr_roles q) EDGE_ROLE_SERVICE_OPENAI))"

section \<open>The request\<close>

definition upstream_url :: "string \<Rightarrow> string \<Rightarrow> string" where
  "upstream_url upstream path =
     c_copy (EDGE_OPENAI_URL_MAX + 128)
       (if upstream \<noteq> [] \<and> last upstream = CHR ''/''
        then upstream @ (if starts_with ''/'' path then tl path else path)
        else upstream @ path)"

definition nonempty :: "string \<Rightarrow> string option" where
  "nonempty s = (if s = [] then None else Some s)"

definition openai_client_req :: "openai_data \<Rightarrow> edge_http_req \<Rightarrow> edge_http_client_req" where
  "openai_client_req d req =
     \<lparr>cr_method = Some (rq_method req), cr_url = Some (upstream_url (oc_upstream (od_cfg d)) (rq_path req)),
      cr_host = nonempty (oc_upstream_host (od_cfg d)),
      cr_addr_override = nonempty (oc_upstream_addr (od_cfg d)),
      cr_hdrs = [(Some ''Authorization'', Some (c_copy (EDGE_OPENAI_KEY_MAX + 32) (''Bearer '' @ od_api_key d))),
                 (Some ''Content-Type'', Some ''application/json'')],
      cr_body = rq_body req, cr_timeout_ms = oc_timeout_ms (od_cfg d),
      cr_user_tag = ucast (rq_inbound_slot req)\<rparr>"

definition refuse :: "int \<Rightarrow> string \<Rightarrow> nat \<Rightarrow> edge_http_res \<Rightarrow> plugin_data \<Rightarrow> plugin_data handler" where
  "refuse status code_text n res u =
     Done EDGE_PLUGIN_ERR (put_body (error_json code_text) n (res\<lparr>rs_status := status\<rparr>)) u"

definition openai_on_http ::
  "int \<Rightarrow> plugin_data \<Rightarrow> edge_http_req \<Rightarrow> edge_http_res \<Rightarrow> plugin_data handler" where
  "openai_on_http now u req res =
     (case u of
        Openai_Data d \<Rightarrow>
          if \<not> oc_enabled (od_cfg d) then refuse 503 ''OPENAI_DISABLED'' 27 res u
          else if \<not> principal_allowed (rq_principal req) then refuse 401 ''UNAUTHORIZED'' 24 res u
          else if \<not> route_allowed (rq_method req) (rq_path req) then refuse 404 ''NOT_FOUND'' 20 res u
          else if \<not> body_looks_ok (rq_body req) (rq_method req) then refuse 400 ''BAD_BODY'' 19 res u
          else
            let (ok, d1) = rate_limit_ok now d
            in if \<not> ok
               then Done EDGE_PLUGIN_ERR
                      (put_body (error_json ''RATE_LIMITED'') 24 (set_status 429 ''Too Many Requests'' res))
                      (Openai_Data d1)
               else if oc_max_concurrent (od_cfg d1) > 0 \<and>
                       (of_int (od_in_flight d1) :: u32) \<ge> oc_max_concurrent (od_cfg d1)
               then refuse 429 ''PENDING_FULL'' 24 res (Openai_Data d1)
               else if od_api_key d1 = [] then refuse 500 ''NO_API_KEY'' 21 res (Openai_Data d1)
               else ClientRequest (openai_client_req d1 req)
                      (\<lambda>oid. case oid of
                         None \<Rightarrow> refuse 429 ''PENDING_FULL'' 24 res (Openai_Data d1)
                       | Some i \<Rightarrow>
                           Done EDGE_PLUGIN_PENDING res
                             (Openai_Data (d1\<lparr>od_in_flight := od_in_flight d1 + 1\<rparr>)))
      | _ \<Rightarrow> refuse 503 ''OPENAI_DISABLED'' 27 res u)"

section \<open>The completion\<close>

definition finished_one :: "plugin_data \<Rightarrow> plugin_data" where
  "finished_one u =
     (case u of
        Openai_Data d \<Rightarrow>
          Openai_Data (if od_in_flight d > 0 then d\<lparr>od_in_flight := od_in_flight d - 1\<rparr> else d)
      | _ \<Rightarrow> u)"

definition openai_on_http_complete ::
  "plugin_data \<Rightarrow> edge_http_client_result \<Rightarrow> edge_http_res \<Rightarrow> plugin_data handler" where
  "openai_on_http_complete u up res =
     (let u' = finished_one u
      in if ur_transport_err up \<noteq> 0
         then if ur_transport_err up = ETIMEDOUT
              then Done EDGE_PLUGIN_ERR
                     (put_body (error_json ''UPSTREAM_TIMEOUT'') 28 (set_status 504 ''Gateway Timeout'' res)) u'
              else Done EDGE_PLUGIN_ERR
                     (put_body (error_json ''UPSTREAM_CONNECT'') 27 (set_status 502 ''Bad Gateway'' res)) u'
         else
           let res1 = res\<lparr>rs_status := ur_status up, rs_content_type := c_copy 96 ''application/json''\<rparr>
           in if ur_body up \<noteq> []
              then
                let (rc, res2) = edge_http_res_set_body res1 (ur_body up) (length (ur_body up))
                in if rc \<noteq> 0 then refuse 502 ''UPSTREAM_TOO_LARGE'' 29 res1 u'
                   else Done EDGE_PLUGIN_OK res2 u'
              else Done EDGE_PLUGIN_OK (put_body [CHR 0x7B, CHR 0x7D] 2 res1) u')"

section \<open>Plugin objects\<close>

definition drop_data :: "plugin_data \<Rightarrow> plugin_data" where
  "drop_data u = No_Data"

definition openai_vtbl :: "int \<Rightarrow> plugin_data edge_plugin_vtbl" where
  "openai_vtbl now =
     \<lparr>vt_name = ''openai_proxy'', vt_kind = EDGE_PLUGIN_KIND_HTTP, vt_init = Some (\<lambda>u. (True, u)),
      vt_shutdown = Some drop_data, vt_on_http = Some (openai_on_http now),
      vt_on_http_complete = Some openai_on_http_complete\<rparr>"

text \<open>\<open>env\<close> is \<open>getenv\<close>, \<open>mem\<close> the allocation of the data. The key of an enabled proxy must be
  set and fit.\<close>

definition edge_openai_proxy_init_plugin ::
  "bool \<Rightarrow> (string \<Rightarrow> string option) \<Rightarrow> int \<Rightarrow> openai_config option \<Rightarrow> plugin_data edge_plugin option" where
  "edge_openai_proxy_init_plugin mem env now cfg =
     (let c = (case cfg of Some x \<Rightarrow> x | None \<Rightarrow> edge_openai_proxy_config_defaults);
          key = given (env (if oc_api_key_env c \<noteq> [] then oc_api_key_env c else ''OPENAI_API_KEY''));
          obj = (\<lambda>k. \<lparr>pl_vtbl = Some (openai_vtbl now),
                      pl_user_data = Openai_Data \<lparr>od_cfg = c, od_api_key = k, od_hit_n = 0,
                                                  od_window_start = 0, od_in_flight = 0\<rparr>,
                      pl_host = False\<rparr>)
      in if \<not> mem then None
         else case key of
           None \<Rightarrow> if oc_enabled c then None else Some (obj [])
         | Some k \<Rightarrow>
             if length k < EDGE_OPENAI_KEY_MAX then Some (obj k)
             else if oc_enabled c then None else Some (obj []))"

definition edge_slack_config_defaults :: slack_config where
  "edge_slack_config_defaults =
     \<lparr>sk_enabled = False, sk_bot_token_env = ''SLACK_BOT_TOKEN'', sk_app_token_env = ''SLACK_APP_TOKEN''\<rparr>"

definition slack_vtbl :: "plugin_data edge_plugin_vtbl" where
  "slack_vtbl =
     \<lparr>vt_name = ''slack'', vt_kind = EDGE_PLUGIN_KIND_SESSION, vt_init = Some (\<lambda>u. (True, u)),
      vt_shutdown = Some drop_data, vt_on_http = None, vt_on_http_complete = None\<rparr>"

definition edge_slack_init_plugin :: "bool \<Rightarrow> slack_config option \<Rightarrow> plugin_data edge_plugin option" where
  "edge_slack_init_plugin mem cfg =
     (let c = (case cfg of Some x \<Rightarrow> x | None \<Rightarrow> edge_slack_config_defaults)
      in if \<not> mem then None
         else Some \<lparr>pl_vtbl = Some slack_vtbl, pl_user_data = Slack_Data c, pl_host = False\<rparr>)"

definition edge_teams_config_defaults :: teams_config where
  "edge_teams_config_defaults =
     \<lparr>tm_enabled = False, tm_access_token_env = ''TEAMS_ACCESS_TOKEN'', tm_tenant_id = []\<rparr>"

definition teams_vtbl :: "plugin_data edge_plugin_vtbl" where
  "teams_vtbl =
     \<lparr>vt_name = ''teams'', vt_kind = EDGE_PLUGIN_KIND_SESSION, vt_init = Some (\<lambda>u. (True, u)),
      vt_shutdown = Some drop_data, vt_on_http = None, vt_on_http_complete = None\<rparr>"

definition edge_teams_init_plugin :: "bool \<Rightarrow> teams_config option \<Rightarrow> plugin_data edge_plugin option" where
  "edge_teams_init_plugin mem cfg =
     (let c = (case cfg of Some x \<Rightarrow> x | None \<Rightarrow> edge_teams_config_defaults)
      in if \<not> mem then None
         else Some \<lparr>pl_vtbl = Some teams_vtbl, pl_user_data = Teams_Data c, pl_host = False\<rparr>)"

end
