(* ===== verification/Openai_Spec.thy ===== *)
theory Openai_Spec
  imports Openai_Proxy Plugin_Host_Spec
begin

text \<open>
  What the proxy of \<open>Openai_Proxy\<close> promises: which requests leave for the upstream, how many a
  minute, and that an answered request comes back to the client that sent it, leaving the host
  as it was.
\<close>

section \<open>The gate\<close>

definition may_leave :: "int \<Rightarrow> openai_data \<Rightarrow> edge_http_req \<Rightarrow> bool" where
  "may_leave now d req \<longleftrightarrow>
     oc_enabled (od_cfg d) \<and> principal_allowed (rq_principal req) \<and>
     route_allowed (rq_method req) (rq_path req) \<and> body_looks_ok (rq_body req) (rq_method req) \<and>
     fst (rate_limit_ok now d) \<and>
     \<not> (oc_max_concurrent (od_cfg d) > 0 \<and> (of_int (od_in_flight d) :: u32) \<ge> oc_max_concurrent (od_cfg d)) \<and>
     od_api_key d \<noteq> []"

lemma rate_limit_frame:
  "od_cfg (snd (rate_limit_ok now d)) = od_cfg d" "od_api_key (snd (rate_limit_ok now d)) = od_api_key d"
  "od_in_flight (snd (rate_limit_ok now d)) = od_in_flight d"
  by (auto simp: rate_limit_ok_def Let_def)

lemma client_req_frame: "openai_client_req (snd (rate_limit_ok now d)) req = openai_client_req d req"
  by (simp add: openai_client_req_def rate_limit_frame)

definition sends :: "openai_data \<Rightarrow> edge_http_req \<Rightarrow> edge_http_res \<Rightarrow> openai_data \<Rightarrow> plugin_data handler" where
  "sends d req res d1 =
     ClientRequest (openai_client_req d req)
       (\<lambda>oid. case oid of
          None \<Rightarrow> refuse 429 ''PENDING_FULL'' 24 res (Openai_Data d1)
        | Some i \<Rightarrow> Done EDGE_PLUGIN_PENDING res (Openai_Data (d1\<lparr>od_in_flight := od_in_flight d1 + 1\<rparr>)))"

lemma on_http_sends:
  "may_leave now d req \<Longrightarrow>
   openai_on_http now (Openai_Data d) req res = sends d req res (snd (rate_limit_ok now d))"
  using rate_limit_frame [of now d] client_req_frame [of now d req]
  by (cases "rate_limit_ok now d") (auto simp: may_leave_def openai_on_http_def sends_def)

lemma put_body_status [simp]: "rs_status (put_body t n res) = rs_status res"
  by (auto simp: put_body_def edge_http_res_set_body_def split: option.splits)

definition answers :: "plugin_data handler \<Rightarrow> bool" where
  "answers h \<longleftrightarrow>
     (\<exists>res u. h = Done EDGE_PLUGIN_ERR res u \<and> rs_status res \<in> {400, 401, 404, 429, 500, 503})"

lemma answers_if: "(c \<Longrightarrow> answers x) \<Longrightarrow> (\<not> c \<Longrightarrow> answers y) \<Longrightarrow> answers (if c then x else y)"
  by simp

lemma answers_refuse: "status \<in> {400, 401, 404, 429, 500, 503} \<Longrightarrow> answers (refuse status t n res u)"
  by (simp add: refuse_def answers_def)

lemma answers_limited: "answers (Done EDGE_PLUGIN_ERR (put_body t n (set_status 429 r res)) u)"
  by (simp add: answers_def set_status_def)

lemma on_http_answers: "\<not> may_leave now d req \<Longrightarrow> answers (openai_on_http now (Openai_Data d) req res)"
proof -
  obtain ok d1 where r: "rate_limit_ok now d = (ok, d1)" by fastforce
  have f: "od_cfg d1 = od_cfg d" "od_api_key d1 = od_api_key d" "od_in_flight d1 = od_in_flight d"
    using rate_limit_frame [of now d] r by simp_all
  assume n: "\<not> may_leave now d req"
  show "answers (openai_on_http now (Openai_Data d) req res)"
    unfolding openai_on_http_def plugin_data.case r prod.case Let_def f
    by (intro answers_if; (rule answers_refuse answers_limited)?)
      (use n in \<open>simp_all add: may_leave_def r\<close>)
qed


section \<open>The quota\<close>

text \<open>The calls of the limiter at a list of times: how many it lets through.\<close>

fun let_through :: "int list \<Rightarrow> openai_data \<Rightarrow> nat" where
  "let_through [] d = 0"
| "let_through (t # ts) d =
     (let (ok, d') = rate_limit_ok t d in (if ok then 1 else 0) + let_through ts d')"

definition quota :: "openai_data \<Rightarrow> nat" where
  "quota d = unat (oc_rate_limit_rpm (od_cfg d))"

definition hits_ok :: "openai_data \<Rightarrow> bool" where
  "hits_ok d \<longleftrightarrow> 0 \<le> od_hit_n d \<and> od_hit_n d \<le> int (quota d)"

lemma quota_less: "quota d < 2 ^ 32"
  using unsigned_less [of "oc_rate_limit_rpm (od_cfg d)", where ?'a = nat] by (simp add: quota_def)

lemma hit_word:
  assumes "hits_ok d"
  shows "(of_int (od_hit_n d) :: u32) \<ge> oc_rate_limit_rpm (od_cfg d) \<longleftrightarrow> od_hit_n d = int (quota d)"
proof -
  have "uint (of_int (od_hit_n d) :: u32) = od_hit_n d"
    using assms quota_less [of d] by (intro word_of_int_inverse [OF refl]) (auto simp: hits_ok_def uint_word_of_int)
  then show ?thesis using assms by (auto simp: word_le_def hits_ok_def quota_def)
qed

text \<open>Within the window nothing is reset, and the rest of the quota is the bound.\<close>

lemma same_window:
  assumes "hits_ok d" "0 < quota d" "od_window_start d \<noteq> 0" "\<forall>t\<in>set ts. t - od_window_start d < 60"
  shows "let_through ts d \<le> quota d - nat (od_hit_n d)"
  using assms
proof (induction ts arbitrary: d)
  case Nil
  then show ?case by simp
next
  case (Cons t ts)
  have r: "oc_rate_limit_rpm (od_cfg d) \<noteq> 0" using Cons.prems(2) by (auto simp: quota_def)
  show ?case
  proof (cases "od_hit_n d = int (quota d)")
    case True
    then have "rate_limit_ok t d = (False, d)"
      using Cons.prems r hit_word [of d] by (simp add: rate_limit_ok_def Let_def)
    with Cons.IH [of d] Cons.prems show ?thesis by simp
  next
    case False
    let ?d = "d\<lparr>od_hit_n := od_hit_n d + 1\<rparr>"
    have "rate_limit_ok t d = (True, ?d)"
      using Cons.prems r hit_word [of d] False by (simp add: rate_limit_ok_def Let_def)
    moreover have "let_through ts ?d \<le> quota ?d - nat (od_hit_n ?d)"
      using Cons.prems False by (intro Cons.IH) (auto simp: hits_ok_def quota_def)
    moreover have "quota ?d = quota d" by (simp add: quota_def)
    ultimately show ?thesis using Cons.prems(1) False by (auto simp: hits_ok_def)
  qed
qed

lemma limiter_reset:
  assumes "0 < quota d" "od_window_start d = 0 \<or> t - od_window_start d \<ge> 60"
  shows "rate_limit_ok t d = (True, d\<lparr>od_window_start := t, od_hit_n := 1\<rparr>)"
proof -
  let ?d = "d\<lparr>od_window_start := t, od_hit_n := 0\<rparr>"
  have r: "oc_rate_limit_rpm (od_cfg d) \<noteq> 0" using assms(1) by (auto simp: quota_def)
  moreover have "\<not> (of_int (od_hit_n ?d) :: u32) \<ge> oc_rate_limit_rpm (od_cfg ?d)"
    using hit_word [of ?d] r by (simp add: hits_ok_def quota_def uint_0_iff)
  ultimately show ?thesis using assms(2) unfolding rate_limit_ok_def by (simp add: Let_def)
qed

lemma limiter_same:
  assumes "hits_ok d" "0 < quota d" "od_window_start d \<noteq> 0" "t - od_window_start d < 60"
  shows "rate_limit_ok t d =
    (if od_hit_n d = int (quota d) then (False, d) else (True, d\<lparr>od_hit_n := od_hit_n d + 1\<rparr>))"
proof -
  have "oc_rate_limit_rpm (od_cfg d) \<noteq> 0" using assms(2) by (auto simp: quota_def)
  then show ?thesis using assms hit_word [of d] by (simp add: rate_limit_ok_def Let_def)
qed

lemma two_windows:
  assumes "hits_ok d" "0 < quota d" "\<forall>t\<in>set ts. t \<noteq> 0" "\<forall>t\<in>set ts. \<forall>t'\<in>set ts. t' - t < 60"
  shows "let_through ts d \<le> quota d - nat (od_hit_n d) + quota d"
  using assms
proof (induction ts arbitrary: d)
  case Nil
  then show ?case by simp
next
  case (Cons t ts)
  show ?case
  proof (cases "od_window_start d = 0 \<or> t - od_window_start d \<ge> 60")
    case True
    let ?d = "d\<lparr>od_window_start := t, od_hit_n := 1\<rparr>"
    have q: "quota ?d = quota d" by (simp add: quota_def)
    have "let_through ts ?d \<le> quota ?d - nat (od_hit_n ?d)"
      using Cons.prems q by (intro same_window) (auto simp: hits_ok_def)
    then show ?thesis
      using limiter_reset [OF Cons.prems(2) True] q Cons.prems(2) by simp
  next
    case False
    then have r: "rate_limit_ok t d =
        (if od_hit_n d = int (quota d) then (False, d) else (True, d\<lparr>od_hit_n := od_hit_n d + 1\<rparr>))"
      using Cons.prems by (intro limiter_same) auto
    show ?thesis
    proof (cases "od_hit_n d = int (quota d)")
      case True
      with r Cons.IH [of d] Cons.prems show ?thesis by simp
    next
      case False
      let ?d = "d\<lparr>od_hit_n := od_hit_n d + 1\<rparr>"
      have q: "quota ?d = quota d" by (simp add: quota_def)
      have "let_through ts ?d \<le> quota ?d - nat (od_hit_n ?d) + quota ?d"
        using Cons.prems False q by (intro Cons.IH) (auto simp: hits_ok_def)
      then show ?thesis using r False q Cons.prems(1) by (auto simp: hits_ok_def)
    qed
  qed
qed

text \<open>C29: The limiter counts one window for all callers, so that in any minute it lets through at
  most twice the quota: the rest of the current window and a whole one after its reset.\<close>

theorem quota_bound:
  assumes "hits_ok d" and "0 < quota d" and "\<forall>t\<in>set ts. t \<noteq> 0"
    and "\<forall>t\<in>set ts. \<forall>t'\<in>set ts. t' - t < 60"
  shows "let_through ts d \<le> 2 * quota d"
  using two_windows [OF assms] by simp

text \<open>Twice the quota is reached: a quota of one a minute lets two calls through in a second.\<close>

definition one_a_minute :: openai_data where
  "one_a_minute =
     \<lparr>od_cfg = edge_openai_proxy_config_defaults\<lparr>oc_rate_limit_rpm := 1\<rparr>, od_api_key = ''k'',
      od_hit_n = 0, od_window_start = 1, od_in_flight = 0\<rparr>"

theorem quota_bound_witness:
  "let_through [60, 61] one_a_minute = 2 \<and> let_through [60, 61] one_a_minute \<le> 2 * quota one_a_minute"
proof
  show "let_through [60, 61] one_a_minute = 2"
    by (simp add: one_a_minute_def rate_limit_ok_def Let_def edge_openai_proxy_config_defaults_def)
  show "let_through [60, 61] one_a_minute \<le> 2 * quota one_a_minute"
    by (rule quota_bound) (simp_all add: hits_ok_def quota_def one_a_minute_def edge_openai_proxy_config_defaults_def)
qed

section \<open>One relayed request\<close>

text \<open>The request the host keeps of a client request: every string is cut to its array.\<close>

definition cut_req :: "edge_http_client_req \<Rightarrow> edge_http_client_req" where
  "cut_req creq =
     \<lparr>cr_method = Some (c_copy 16 (opt_str (cr_method creq))), cr_url = Some (c_copy 512 (opt_str (cr_url creq))),
      cr_host = nonempty (c_copy 256 (opt_str (cr_host creq))),
      cr_addr_override = nonempty (c_copy 64 (opt_str (cr_addr_override creq))),
      cr_hdrs = map (\<lambda>(n, v). (Some (c_copy 64 (opt_str n)), Some (c_copy 384 (opt_str v)))) (take 8 (cr_hdrs creq)),
      cr_body = cr_body creq, cr_timeout_ms = cr_timeout_ms creq, cr_user_tag = cr_user_tag creq\<rparr>"

lemma stored_request:
  assumes "store_last_req mem h creq = (0, h1)"
  shows "edge_plugin_host_last_client_req h1 = Some (cut_req creq)"
proof -
  obtain m u where mu: "cr_method creq = Some m" "cr_url creq = Some u"
    using assms by (cases "cr_method creq"; cases "cr_url creq") (simp_all add: store_last_req_def)
  with assms have f: "ph_last_method h1 = c_copy 16 m" "ph_last_url h1 = c_copy 512 u"
    "ph_last_host h1 = c_copy 256 (opt_str (cr_host creq))"
    "ph_last_addr h1 = c_copy 64 (opt_str (cr_addr_override creq))" "ph_last_body h1 = cr_body creq"
    "ph_last_hdrs h1 = map (\<lambda>(n, v). (c_copy 64 (opt_str n), c_copy 384 (opt_str v))) (take 8 (cr_hdrs creq))"
    "ph_lr_host h1 = (ph_last_host h1 \<noteq> [])" "ph_lr_addr h1 = (ph_last_addr h1 \<noteq> [])"
    "ph_lr_timeout_ms h1 = cr_timeout_ms creq" "ph_lr_user_tag h1 = cr_user_tag creq"
    by (auto simp: store_last_req_def Let_def split: if_split_asm)
  show ?thesis
    unfolding edge_plugin_host_last_client_req_def cut_req_def f nonempty_def
    using store_last_frame(7) [OF assms] by (simp add: mu opt_str_def split_beta)
qed

lemma last_request_frame:
  "edge_plugin_host_last_client_req (h\<lparr>ph_next_outbound_id := n\<rparr>) = edge_plugin_host_last_client_req h"
  "edge_plugin_host_last_client_req (h\<lparr>ph_pending := t, ph_client_req_started := b, ph_last_outbound_id := oid\<rparr>) =
   edge_plugin_host_last_client_req h"
  "edge_plugin_host_last_client_req (h\<lparr>ph_active_in_on_http := a, ph_active_plugin := p\<rparr>) =
   edge_plugin_host_last_client_req h"
  by (simp_all add: edge_plugin_host_last_client_req_def)

lemma client_request_kept:
  assumes "api_http_client_request mem h creq = (Some oid, h')"
  shows "edge_plugin_host_last_client_req h' = Some (cut_req creq) \<and> ph_last_outbound_id h' = oid \<and>
    ph_client_req_started h'"
proof -
  obtain rc h1 where s: "store_last_req mem h creq = (rc, h1)" by fastforce
  have rc: "rc = 0"
    using assms s by (auto simp: api_http_client_request_def simp del: not_None_eq split: if_split_asm)
  have k: "edge_plugin_host_last_client_req h1 = Some (cut_req creq)"
    using s rc by (simp add: stored_request)
  show ?thesis
    using assms s rc k
    by (auto simp: api_http_client_request_def Let_def last_request_frame simp del: not_None_eq
        split: if_split_asm prod.split_asm)
qed

text \<open>A dispatch that ends in PENDING: the request passed the gate, and the host waits for the
  answer to the call the proxy made.\<close>

lemma openai_pending:
  assumes wf: "pending_wf (ph_pending h)"
    and p: "pl_vtbl (env r) = Some (openai_vtbl now)" "pl_user_data (env r) = Openai_Data d"
    and di: "edge_plugin_host_dispatch_http mem h env r req res = (EDGE_PLUGIN_PENDING, res1, h1, env1)"
  obtains oid i where "may_leave now d req" "res1 = res" "pl_vtbl (env1 r) = Some (openai_vtbl now)"
    "pl_user_data (env1 r) =
       Openai_Data ((snd (rate_limit_ok now d))\<lparr>od_in_flight := od_in_flight d + 1\<rparr>)"
    "edge_plugin_host_last_client_req h1 = Some (cut_req (openai_client_req d req))"
    "ph_last_outbound_id h1 = oid" "oid \<noteq> 0" "pending_wf (ph_pending h1)"
    "edge_pending_find_outbound (ph_pending h1) oid = Some i"
    "pe_plugin (pt_slots (ph_pending h1) ! i) = Some r"
    "pending_map (ph_pending h) = (pending_map (ph_pending h1))(pe_inbound_slot (pt_slots (ph_pending h1) ! i) := None)"
    "\<not> ph_active_in_on_http h1"
proof -
  let ?hA = "h\<lparr>ph_active_plugin := Some r, ph_active_inbound_slot := rq_inbound_slot req,
        ph_active_in_on_http := True, ph_client_req_started := False\<rparr>"
  have free: "edge_pending_find_inbound (ph_pending h) (rq_inbound_slot req) = None"
    using di p by (auto simp: edge_plugin_host_dispatch_http_def openai_vtbl_def plugin_status split: if_split_asm)
  have leave: "may_leave now d req"
  proof (rule ccontr)
    assume "\<not> may_leave now d req"
    then obtain res' u where "openai_on_http now (Openai_Data d) req res = Done EDGE_PLUGIN_ERR res' u"
      using on_http_answers unfolding answers_def by blast
    then show False
      using di p free by (simp add: edge_plugin_host_dispatch_http_def openai_vtbl_def plugin_status)
  qed
  let ?d1 = "snd (rate_limit_ok now d)"
  obtain oid hB where api: "api_http_client_request (mem (openai_client_req d req)) ?hA (openai_client_req d req) = (oid, hB)"
    by fastforce
  have oid: "oid \<noteq> None"
  proof
    assume "oid = None"
    then show False
      using di p free api leave
      by (simp add: edge_plugin_host_dispatch_http_def openai_vtbl_def plugin_status on_http_sends sends_def refuse_def)
  qed
  then obtain i where i: "oid = Some i" by blast
  note k = client_request_kept [OF api [unfolded i]]
  have out: "res1 = res" "h1 = hB\<lparr>ph_active_in_on_http := False, ph_active_plugin := None\<rparr>"
    "env1 = env(r := (env r)\<lparr>pl_user_data := Openai_Data (?d1\<lparr>od_in_flight := od_in_flight ?d1 + 1\<rparr>)\<rparr>)"
    using di p free api leave i k
    by (auto simp: edge_plugin_host_dispatch_http_def openai_vtbl_def plugin_status on_http_sends sends_def)
  have "reaches ?hA ?hA" using wf by (simp add: reaches_def)
  from client_request_reaches [OF this api] k obtain e where e: "waits_for ?hA hB e" and wfB: "pending_wf (ph_pending hB)"
    by (auto simp: reaches_def)
  have hit: "pending_map (ph_pending h1) (rq_inbound_slot req) = Some e" "pe_outbound_id e = i" "i \<noteq> 0"
    "pe_plugin e = Some r" "pe_inbound_slot e = rq_inbound_slot req"
    using e k out(2) by (auto simp: waits_for_def)
  have wf1: "pending_wf (ph_pending h1)" using wfB out(2) by simp
  from hit(1) have "pending_ids (ph_pending h1) i = Some e"
    using hit(2) by (auto simp: pending_map_Some_iff [OF wf1] pending_ids_Some_iff [OF wf1])
  then obtain j where j: "edge_pending_find_outbound (ph_pending h1) i = Some j"
    using find_outbound_None [OF wf1, of i] by (cases "edge_pending_find_outbound (ph_pending h1) i") auto
  then have slot: "pt_slots (ph_pending h1) ! j = e"
    using find_outbound_Some [OF wf1 j] \<open>pending_ids (ph_pending h1) i = Some e\<close> by simp
  have "pending_map (ph_pending h) = (pending_map (ph_pending h1))(rq_inbound_slot req := None)"
    using e out(2) by (auto simp: waits_for_def fun_eq_iff)
  with that [of i j] show ?thesis
    using leave out p k j slot hit wf1 rate_limit_frame(3) [of now d] by (simp add: last_request_frame)
qed

lemma openai_completed:
  assumes up: "ur_transport_err up = 0" "ur_body up = body" "body \<noteq> []" "rs_cap res = Some cap"
    and u: "u = Openai_Data d" "0 < od_in_flight d"
  shows "openai_on_http_complete u up res =
    (if length body \<le> cap
     then Done EDGE_PLUGIN_OK
       (res\<lparr>rs_status := ur_status up, rs_content_type := ''application/json'', rs_body := body\<rparr>)
       (Openai_Data (d\<lparr>od_in_flight := od_in_flight d - 1\<rparr>))
     else refuse 502 ''UPSTREAM_TOO_LARGE'' 29
       (res\<lparr>rs_status := ur_status up, rs_content_type := ''application/json''\<rparr>)
       (Openai_Data (d\<lparr>od_in_flight := od_in_flight d - 1\<rparr>)))"
  using assms
  by (simp add: openai_on_http_complete_def finished_one_def edge_http_res_set_body_def c_copy_def Let_def)

text \<open>C28: A relayed request. When the proxy's handler is left waiting and the upstream answers
  with a status and a body, the client gets that status and that body as JSON, or a 502 when
  the body does not fit. The upstream was asked what the proxy asked for, the request is no
  longer pending, no other request is touched, and the count of open calls is what it was.\<close>

theorem openai_relay:
  assumes "pending_wf (ph_pending h)"
    and "pl_vtbl (env r) = Some (openai_vtbl now)" and "pl_user_data (env r) = Openai_Data d"
    and "0 \<le> od_in_flight d" and "rs_cap res = Some cap" and "body \<noteq> []"
    and "edge_plugin_host_dispatch_http mem h env r req res = (EDGE_PLUGIN_PENDING, res1, h1, env1)"
    and "\<And>opts n. exec (cut_req (openai_client_req d req)) opts n =
      (0, no_result\<lparr>ur_status := status, ur_body := body\<rparr>, body)"
    and "edge_plugin_host_finish_pending_sync exec True mem h1 env1 dns max_body res1 = (st, res2, h2, env2)"
  shows "may_leave now d req \<and> pending_map (ph_pending h2) = pending_map (ph_pending h) \<and>
    (\<exists>d'. pl_user_data (env2 r) = Openai_Data d' \<and> od_in_flight d' = od_in_flight d) \<and>
    (if length body \<le> cap
     then st = EDGE_PLUGIN_OK \<and> res2 = res\<lparr>rs_status := status, rs_content_type := ''application/json'', rs_body := body\<rparr>
     else st = EDGE_PLUGIN_ERR \<and> rs_status res2 = 502)"
proof -
  obtain oid i where w: "may_leave now d req" "res1 = res" "pl_vtbl (env1 r) = Some (openai_vtbl now)"
    "pl_user_data (env1 r) = Openai_Data ((snd (rate_limit_ok now d))\<lparr>od_in_flight := od_in_flight d + 1\<rparr>)"
    "edge_plugin_host_last_client_req h1 = Some (cut_req (openai_client_req d req))"
    "ph_last_outbound_id h1 = oid" "oid \<noteq> 0" "pending_wf (ph_pending h1)"
    "edge_pending_find_outbound (ph_pending h1) oid = Some i"
    "pe_plugin (pt_slots (ph_pending h1) ! i) = Some r"
    "pending_map (ph_pending h) = (pending_map (ph_pending h1))(pe_inbound_slot (pt_slots (ph_pending h1) ! i) := None)"
    "\<not> ph_active_in_on_http h1"
    using openai_pending [OF assms(1-3,7)] .
  let ?d = "(snd (rate_limit_ok now d))\<lparr>od_in_flight := od_in_flight d + 1\<rparr>"
  let ?up = "no_result\<lparr>ur_status := status, ur_outbound_id := oid,
    ur_user_tag := cr_user_tag (cut_req (openai_client_req d req)), ur_body := body\<rparr>"
  have up: "ur_transport_err ?up = 0" "ur_body ?up = body" "ur_status ?up = status" "ur_outbound_id ?up = oid"
    by (simp_all add: no_result_def)
  have fin: "edge_plugin_host_complete_outbound mem h1 env1 ?up res = (st, res2, h2, env2)"
    using assms(8,9) w by (simp add: edge_plugin_host_finish_pending_sync_def Let_def no_result_def)
  have rel: "pending_map (edge_pending_release (ph_pending h1) (Some i)) = pending_map (ph_pending h)"
    using released_entry(2) [OF w(8,9)] w(11) by simp
  have run: "openai_on_http_complete (Openai_Data ?d) ?up res =
    (if length body \<le> cap
     then Done EDGE_PLUGIN_OK
       (res\<lparr>rs_status := status, rs_content_type := ''application/json'', rs_body := body\<rparr>)
       (Openai_Data (?d\<lparr>od_in_flight := od_in_flight ?d - 1\<rparr>))
     else refuse 502 ''UPSTREAM_TOO_LARGE'' 29
       (res\<lparr>rs_status := status, rs_content_type := ''application/json''\<rparr>)
       (Openai_Data (?d\<lparr>od_in_flight := od_in_flight ?d - 1\<rparr>)))"
    using openai_completed [OF up(1,2) assms(6,5) refl, of ?d] assms(4) up(3) by simp
  show ?thesis
  proof (cases "length body \<le> cap")
    case True
    then have "(st, res2, h2, env2) = (EDGE_PLUGIN_OK,
        res\<lparr>rs_status := status, rs_content_type := ''application/json'', rs_body := body\<rparr>,
        h1\<lparr>ph_pending := edge_pending_release (ph_pending h1) (Some i)\<rparr>,
        env1(r := (env1 r)\<lparr>pl_user_data := Openai_Data (?d\<lparr>od_in_flight := od_in_flight ?d - 1\<rparr>)\<rparr>))"
      using fin w(3,4,7,9,10) run up(4)
      by (simp add: edge_plugin_host_complete_outbound_def openai_vtbl_def plugin_status Let_def)
    with True w(1) rel show ?thesis by simp
  next
    case False
    then have "st = EDGE_PLUGIN_ERR \<and> rs_status res2 = 502 \<and>
        h2 = h1\<lparr>ph_pending := edge_pending_release (ph_pending h1) (Some i)\<rparr> \<and>
        env2 = env1(r := (env1 r)\<lparr>pl_user_data := Openai_Data (?d\<lparr>od_in_flight := od_in_flight ?d - 1\<rparr>)\<rparr>)"
      using fin w(3,4,7,9,10) run up(4)
      by (auto simp: edge_plugin_host_complete_outbound_def openai_vtbl_def plugin_status refuse_def Let_def)
    with False w(1) rel show ?thesis by simp
  qed
qed

text \<open>A host with the proxy, and an employee asking for the list of models.\<close>

definition proxy_data :: openai_data where
  "proxy_data =
     \<lparr>od_cfg = edge_openai_proxy_config_defaults\<lparr>oc_enabled := True, oc_upstream := ''http://u''\<rparr>,
      od_api_key = ''k'', od_hit_n = 0, od_window_start = 0, od_in_flight = 0\<rparr>"

definition proxy_env :: "plugin_data plugin_env" where
  "proxy_env = (\<lambda>_. \<lparr>pl_vtbl = Some (openai_vtbl 100), pl_user_data = Openai_Data proxy_data, pl_host = True\<rparr>)"

definition models_req :: edge_http_req where
  "models_req = \<lparr>rq_method = ''GET'', rq_path = ''/v1/models'', rq_query = None, rq_hdrs = [], rq_body = [],
     rq_principal = Some \<lparr>pr_authenticated = True, pr_sub = ''e'', pr_roles = EDGE_ROLE_EMPLOYEE, pr_exp = 0,
       pr_router_ids = []\<rparr>,
     rq_inbound_slot = 4\<rparr>"

lemma models_pending:
  "fst (edge_plugin_host_dispatch_http (\<lambda>_. True) demo_host proxy_env 0 models_req demo_res) = EDGE_PLUGIN_PENDING"
  by code_simp

theorem openai_relay_witness:
  "\<exists>res1 (h1 :: plugin_host) env1 res2 (h2 :: plugin_host) env2.
     edge_plugin_host_dispatch_http (\<lambda>_. True) demo_host proxy_env 0 models_req demo_res =
       (EDGE_PLUGIN_PENDING, res1, h1, env1) \<and>
     edge_plugin_host_finish_pending_sync (\<lambda>creq opts n. (0, no_result\<lparr>ur_status := 200, ur_body := ''[1]''\<rparr>, ''[1]''))
       True (\<lambda>_. True) h1 env1 False 0 res1 = (EDGE_PLUGIN_OK, res2, h2, env2) \<and>
     rs_status res2 = 200 \<and> rs_body res2 = ''[1]''"
proof -
  let ?exec = "\<lambda>(creq :: edge_http_client_req) (opts :: outbound_opts) (n :: nat).
      (0 :: int, no_result\<lparr>ur_status := 200, ur_body := ''[1]''\<rparr>, ''[1]'')"
  obtain res1 h1 env1 where d:
    "edge_plugin_host_dispatch_http (\<lambda>_. True) demo_host proxy_env 0 models_req demo_res =
       (EDGE_PLUGIN_PENDING, res1, h1, env1)"
    using models_pending by (metis prod.exhaust_sel)
  obtain st res2 h2 env2 where f:
    "edge_plugin_host_finish_pending_sync ?exec True (\<lambda>_. True) h1 env1 False 0 res1 = (st, res2, h2, env2)"
    by (metis prod.exhaust)
  have p: "pl_vtbl (proxy_env 0) = Some (openai_vtbl 100)" "pl_user_data (proxy_env 0) = Openai_Data proxy_data"
    "0 \<le> od_in_flight proxy_data" "rs_cap demo_res = Some 256"
    by (simp_all add: proxy_env_def proxy_data_def demo_res_def)
  have "st = EDGE_PLUGIN_OK \<and>
      res2 = demo_res\<lparr>rs_status := 200, rs_content_type := ''application/json'', rs_body := ''[1]''\<rparr>"
    using openai_relay [OF demo_host_wf p _ d _ f, of "''[1]''" 200] by simp
  with d f show ?thesis by auto
qed

end
