(* ===== verification/Plugin_Stubs.thy ===== *)
theory Plugin_Stubs
  imports Openai_Proxy
begin

text \<open>
  The parts of the plugin surface that are stubs: functions of the host API in
  \<open>src/host/plugin_host.c\<close> that do nothing yet, and the session callbacks of \<open>src/plugins/slack_plugin.c\<close> and \<open>src/plugins/teams_plugin.c\<close>. The
  two plugins take nothing in, give no events, and keep their data. The return value
  comes with the plugin's data afterwards, and with what was logged.
\<close>

text \<open>The host API. A broadcast reports success although nobody is told; a timer is refused. What
  \<open>api_log\<close> writes is the list, its text already formatted.\<close>

definition api_emit_ws :: "string \<Rightarrow> string \<Rightarrow> int" where
  "api_emit_ws topic json = 0"

definition api_log :: "string option \<Rightarrow> int \<times> string list" where
  "api_log msg = (case msg of None \<Rightarrow> (-1, []) | Some t \<Rightarrow> (0, [t @ [CHR 0x0A]]))"

definition api_schedule_timer :: "u64 \<Rightarrow> int" where
  "api_schedule_timer delay_ms = -1"

definition api_cancel_timer :: "u64 \<Rightarrow> int" where
  "api_cancel_timer timer_id = -1"

text \<open>The callbacks.\<close>

definition slack_init :: "bool \<Rightarrow> plugin_data \<Rightarrow> int \<times> plugin_data \<times> string list" where
  "slack_init can_log u =
     (0, u, case u of
              Slack_Data d \<Rightarrow>
                if sk_enabled d \<and> can_log then [''slack_plugin: enabled but stub (phase-2 Socket Mode)''] else []
            | _ \<Rightarrow> [])"

definition slack_feed :: "plugin_data \<Rightarrow> string \<Rightarrow> int \<times> plugin_data" where
  "slack_feed u data = (0, u)"

definition slack_next_event :: "plugin_data \<Rightarrow> int \<times> plugin_data" where
  "slack_next_event u = (0, u)"

definition slack_on_tick :: "plugin_data \<Rightarrow> u64 \<Rightarrow> int \<times> plugin_data" where
  "slack_on_tick u mono_ms = (0, u)"

definition slack_shutdown :: "plugin_data \<Rightarrow> plugin_data" where
  "slack_shutdown u = No_Data"

definition teams_init :: "bool \<Rightarrow> plugin_data \<Rightarrow> int \<times> plugin_data \<times> string list" where
  "teams_init can_log u =
     (0, u, case u of
              Teams_Data d \<Rightarrow>
                if tm_enabled d \<and> can_log then [''teams_plugin: enabled but stub (phase-2 Graph/Bot)''] else []
            | _ \<Rightarrow> [])"

definition teams_feed :: "plugin_data \<Rightarrow> string \<Rightarrow> int \<times> plugin_data" where
  "teams_feed u data = (0, u)"

definition teams_next_event :: "plugin_data \<Rightarrow> int \<times> plugin_data" where
  "teams_next_event u = (0, u)"

definition teams_on_tick :: "plugin_data \<Rightarrow> u64 \<Rightarrow> int \<times> plugin_data" where
  "teams_on_tick u mono_ms = (0, u)"

definition teams_shutdown :: "plugin_data \<Rightarrow> plugin_data" where
  "teams_shutdown u = No_Data"

text \<open>The handlers in the tables of the host are these functions, without their log.\<close>

lemma slack_table:
  "vt_init slack_vtbl = Some (\<lambda>u. case slack_init can_log u of (rc, u', log) \<Rightarrow> (rc = 0, u'))"
  "vt_shutdown slack_vtbl = Some slack_shutdown"
  by (auto simp: slack_vtbl_def slack_init_def slack_shutdown_def drop_data_def)

lemma teams_table:
  "vt_init teams_vtbl = Some (\<lambda>u. case teams_init can_log u of (rc, u', log) \<Rightarrow> (rc = 0, u'))"
  "vt_shutdown teams_vtbl = Some teams_shutdown"
  by (auto simp: teams_vtbl_def teams_init_def teams_shutdown_def drop_data_def)

end
