(* ===== verification/Pq_Sidecar.thy ===== *)
theory Pq_Sidecar
  imports Outbound_Http Notify_Apply Http1_Response
begin

text \<open>
  \<open>src/host/pq_sidecar.c\<close>: one scrape of the metrics page of a pqproxy process. The page is
  fetched with the outbound client, three numbers are read from it, and a JSON summary is
  stored under \<open>net.core\<close> / \<open>pqproxy/health\<close> and announced to the subscribers.
\<close>

record pq_config =
  pq_enabled :: bool
  pq_metrics_url :: string
  pq_scrape_interval_ms :: u32

definition edge_pq_sidecar_config_defaults :: pq_config where
  "edge_pq_sidecar_config_defaults =
     \<lparr>pq_enabled = False, pq_metrics_url = ''http://127.0.0.1:9108/metrics'', pq_scrape_interval_ms = 5000\<rparr>"

section \<open>Reading the metrics page\<close>

text \<open>\<open>strstr\<close> with the text before the occurrence and after it.\<close>

fun split_at :: "string \<Rightarrow> string \<Rightarrow> (string \<times> string) option" where
  "split_at p [] = (if p = [] then Some ([], []) else None)"
| "split_at p (x # xs) =
     (if starts_with p (x # xs) then Some ([], drop (length p) (x # xs))
      else map_option (\<lambda>(a, b). (x # a, b)) (split_at p xs))"

lemma split_at_SomeD: "split_at p s = Some (a, b) \<Longrightarrow> s = a @ p @ b"
proof (induction s arbitrary: a b)
  case Nil
  then show ?case by (simp split: if_splits)
next
  case (Cons x xs)
  show ?case
  proof (cases "starts_with p (x # xs)")
    case True
    with Cons.prems have "a = []" "b = drop (length p) (x # xs)" by auto
    with True show ?thesis by (metis append_Nil append_take_drop_id starts_with_take)
  next
    case False
    with Cons.prems obtain a' where "split_at p xs = Some (a', b)" "a = x # a'" by auto
    with Cons.IH [of a' b] show ?thesis by simp
  qed
qed

definition is_tab_or_blank :: "char \<Rightarrow> bool" where
  "is_tab_or_blank c \<longleftrightarrow> c = CHR '' '' \<or> c = CHR 0x09"

text \<open>The number after a metric's name and labels.\<close>

definition metric_value :: "string \<Rightarrow> int option" where
  "metric_value q =
     (case q of
        [] \<Rightarrow> None
      | c # cs \<Rightarrow>
          if is_tab_or_blank c \<or> c = CHR 0x7B
          then map_option fst
                 (c_strtoll (dropWhile is_tab_or_blank
                    (dropWhile (\<lambda>c. \<not> is_tab_or_blank c \<and> c \<noteq> lf) q)))
          else None)"

text \<open>The loop of \<open>find_prom_num\<close> from a place in the text; the flag tells that the place is the
  start of the text (\<open>p == text\<close>). A metric's name is not empty.\<close>

function prom_loop :: "string \<Rightarrow> bool \<Rightarrow> string \<Rightarrow> int" where
  "prom_loop metric start s =
     (if metric = [] then -1
      else case split_at metric s of
        None \<Rightarrow> -1
      | Some (before, rest) \<Rightarrow>
          let at_start = (start \<and> before = []);
              after_nl = (before \<noteq> [] \<and> last before = lf)
          in if \<not> at_start \<and> \<not> after_nl then prom_loop metric False rest
             else if starts_with ''# '' (metric @ rest) \<or> at_start \<and> starts_with ''#'' metric
             then prom_loop metric False rest
             else case metric_value rest of
               Some v \<Rightarrow> v
             | None \<Rightarrow> prom_loop metric False rest)"
  by pat_completeness auto

termination
  by (relation "measure (\<lambda>(metric, start, s). length s)") (auto dest!: split_at_SomeD)

definition find_prom_num :: "string \<Rightarrow> string \<Rightarrow> int" where
  "find_prom_num text metric = prom_loop metric True text"

definition at_least_0 :: "int \<Rightarrow> int" where
  "at_least_0 v = (if v \<ge> 0 then v else 0)"

definition pq_health_json :: "bool \<Rightarrow> int \<Rightarrow> int \<Rightarrow> int \<Rightarrow> int \<Rightarrow> string" where
  "pq_health_json up waiters live active now =
     CHR 0x7B # quoted ''up'' @ '':'' @ (if up then ''true'' else ''false'') @ '','' @
     quoted ''pool_busy'' @ '':'' @ dec_int waiters @ '','' @
     quoted ''live_backends'' @ '':'' @ dec_int live @ '','' @
     quoted ''active_frontends'' @ '':'' @ dec_int active @ '','' @
     quoted ''scraped_at'' @ '':'' @ dec_int now @ [CHR 0x7D]"

text \<open>The result: the return code and the text written to \<open>health_json\<close> when it was complete.\<close>

definition edge_pq_sidecar_parse_metrics :: "int \<Rightarrow> bool \<Rightarrow> string \<Rightarrow> nat \<Rightarrow> int \<times> string option" where
  "edge_pq_sidecar_parse_metrics now mem text health_cap =
     (if text = [] \<or> health_cap < 32 then (-1, None)
      else if \<not> mem then (-1, None)
      else
        let t = cstr text;
            live = find_prom_num t ''pqproxy_live_backends'';
            active = find_prom_num t ''pqproxy_active_frontends'';
            waiters = find_prom_num t ''pqproxy_pool_waiters'';
            up = (live \<ge> 0 \<or> active \<ge> 0 \<or> waiters \<ge> 0);
            json = pq_health_json up (at_least_0 waiters) (at_least_0 live) (at_least_0 active) now
        in if length json \<ge> health_cap then (-1, None)
           else (if up then 0 else -1, Some json))"

section \<open>One scrape\<close>

definition pq_request :: "pq_config \<Rightarrow> edge_http_client_req" where
  "pq_request cfg =
     \<lparr>cr_method = Some ''GET'', cr_url = Some (pq_metrics_url cfg), cr_host = None,
      cr_addr_override = None, cr_hdrs = [], cr_body = [], cr_timeout_ms = 0, cr_user_tag = 0\<rparr>"

definition pq_cap :: nat where "pq_cap = 256 * 1024"

definition pq_opts :: outbound_opts where
  "pq_opts = edge_outbound_opts_defaults\<lparr>oo_allow_blocking_dns := True, oo_max_response_body := pq_cap,
     oo_default_timeout_ms := 3000\<rparr>"

definition pq_down_json :: "int \<Rightarrow> string" where
  "pq_down_json now =
     CHR 0x7B # quoted ''up'' @ '':false,'' @ quoted ''pool_busy'' @ '':0,'' @
     quoted ''scraped_at'' @ '':'' @ dec_int now @ [CHR 0x7D]"

definition pq_parse_json :: "int \<Rightarrow> string" where
  "pq_parse_json now =
     CHR 0x7B # quoted ''up'' @ '':false,'' @ quoted ''error'' @ '':'' @ quoted ''parse'' @ '','' @
     quoted ''scraped_at'' @ '':'' @ dec_int now @ [CHR 0x7D]"

definition announce_health :: "(nat \<Rightarrow> bool) \<Rightarrow> edge_ws_hub option \<Rightarrow> string \<Rightarrow> edge_ws_hub option" where
  "announce_health mem_sub hub health =
     (case hub of
        None \<Rightarrow> None
      | Some h \<Rightarrow>
          (case edge_ws_hub_mint_request_id (Some h) None EDGE_WS_REQUEST_ID of
             (rid, h1) \<Rightarrow>
               map_option (\<lambda>h1. snd (edge_ws_hub_broadcast_state_changed mem_sub h1 (Some ''net.core'')
                 (Some ''pqproxy/health'') (Some ''put'') (Some health) rid)) h1))"

text \<open>\<open>mem\<close> are the two allocations (the body buffer, the copy of the text). After a failed fetch
  the subscribers are told whatever the store answered.\<close>

definition edge_pq_sidecar_scrape_once ::
  "outbound_exec \<Rightarrow> int \<Rightarrow> bool \<times> bool \<Rightarrow> (nat \<Rightarrow> bool) \<Rightarrow> pq_config \<Rightarrow> state_store option \<Rightarrow>
   edge_ws_hub option \<Rightarrow> int \<times> state_store option \<times> edge_ws_hub option" where
  "edge_pq_sidecar_scrape_once exec now mem mem_sub cfg st hub =
     (case st of
        None \<Rightarrow> (-1, None, hub)
      | Some store \<Rightarrow>
          if \<not> pq_enabled cfg \<or> pq_metrics_url cfg = [] then (-1, st, hub)
          else if \<not> fst mem then (-1, st, hub)
          else
            let (rc, res, body) = exec (pq_request cfg) pq_opts pq_cap
            in if rc \<noteq> 0 \<or> ur_transport_err res \<noteq> 0 \<or> ur_status res \<noteq> 200
               then
                 let health = c_copy 512 (pq_down_json now);
                     (er, store') = edge_state_put store (Some ''net.core'') (Some ''pqproxy/health'') (Some health)
                 in (-1, Some store', announce_health mem_sub hub health)
               else
                 let (prc, text) = edge_pq_sidecar_parse_metrics now (snd mem) body 512;
                     health = (if prc \<noteq> 0 then c_copy 512 (pq_parse_json now)
                               else case text of None \<Rightarrow> [] | Some t \<Rightarrow> t);
                     (er, store') = edge_state_put store (Some ''net.core'') (Some ''pqproxy/health'') (Some health)
                 in if er \<noteq> EDGE_STATE_OK then (-1, Some store', hub)
                    else (0, Some store', announce_health mem_sub hub health))"

end
