(* ===== verification/Iouring_Loop.thy ===== *)
theory Iouring_Loop
  imports Http1_Dispatch Tls_Io Pq_Sidecar
begin

text \<open>
  \<open>src/host/iouring_loop.c\<close>: the server. Connections live in an array of slots; the loop takes
  one completion at a time from the ring, finds the slot from its user data and runs the
  connection's state machine, which submits the next operation. The kernel's side of the ring
  is a list of operations in flight. The HTTP parser, the WebSocket library and OpenSSL are
  parameters, as are the allocations of one step. The objects shared by all connections (the
  store, the hub, the plugin host, the counters) are fields of the server, handed to a
  connection's request handler and taken back. A function of the source that returns \<open>int\<close>
  answers \<open>Some (rc, server)\<close>; \<open>None\<close> stands for a call that does not return.
\<close>

section \<open>The data\<close>

definition OP_ACCEPT :: int where "OP_ACCEPT = 1"
definition OP_RECV :: int where "OP_RECV = 2"
definition OP_SEND :: int where "OP_SEND = 3"
definition OP_POLL :: int where "OP_POLL = 4"

lemmas op_defs = OP_ACCEPT_def OP_RECV_def OP_SEND_def OP_POLL_def

datatype conn_state = CS_FREE | CS_TLS_HS | CS_RECV | CS_SEND | CS_WS_RECV | CS_WS_SEND

text \<open>\<open>cn_fd = None\<close> is the descriptor -1; \<open>cn_send_buf\<close> holds the \<open>send_len\<close> bytes in use of the
  heap buffer, \<open>None\<close> for the NULL pointer.\<close>

record ('p, 'u, 'w, 's) conn =
  cn_fd :: "int option"
  cn_state :: conn_state
  cn_slot :: int
  cn_recv_pending :: bool
  cn_send_pending :: bool
  cn_poll_pending :: bool
  cn_send_buf :: "string option"
  cn_send_cap :: nat
  cn_send_len :: nat
  cn_send_off :: nat
  cn_http :: "('p, 'u) http1_serve option"
  cn_ws :: "'w option"
  cn_keep_ws :: bool
  cn_ssl :: "'s option"

text \<open>A submission: what the kernel is asked to do, on which descriptor, and the user data.\<close>

datatype sqe_kind = Sq_Accept | Sq_Recv | Sq_Send string | Sq_Poll bool

record sqe =
  sq_kind :: sqe_kind
  sq_fd :: "int option"
  sq_ud :: u64

text \<open>\<open>sv_sq\<close> are the entries prepared since the last \<open>io_uring_submit\<close>, \<open>sv_inflight\<close> those the
  kernel has and has not completed.\<close>

record ('p, 'u, 'w, 's) server =
  sv_cfg :: edge_config
  sv_max_accepts :: int
  sv_entries :: nat
  sv_sq :: "sqe list"
  sv_inflight :: "sqe list"
  sv_conns :: "('p, 'u, 'w, 's) conn list"
  sv_accepts_done :: int
  sv_accept_pending :: bool
  sv_metrics :: edge_metrics
  sv_docroots :: http1_docroot
  sv_send_cap :: nat
  sv_store :: "state_store option"
  sv_same_store :: bool
  sv_hub :: "edge_ws_hub option"
  sv_auth :: "edge_auth_ctx option"
  sv_plugins :: "(plugin_host \<times> 'u plugin_env) option"
  sv_service_api_key :: "string option"
  sv_tls_ctx :: "ssl_ctx option"
  sv_pq_cfg :: pq_config
  sv_last_scrape_ms :: u64
  sv_tick :: u64

datatype ws_event = WS_EVENT_CLOSE | WS_EVENT_ERROR | WS_PROTOCOL_ERROR | WS_EVENT_PING string | WS_EVENT_OTHER

record ('p, 'w, 's) loop_env =
  le_http :: "'p http1_env"
  le_ws_create :: "'w option"
  le_ws_feed_input :: "'w \<Rightarrow> string \<Rightarrow> 'w"
  le_ws_next_event :: "'w \<Rightarrow> (ws_event \<times> 'w) option"
  le_ws_send_pong :: "'w \<Rightarrow> string \<Rightarrow> bool \<times> 'w"
  le_ws_send_text :: "'w \<Rightarrow> string \<Rightarrow> bool \<times> 'w"
  le_ws_get_output :: "'w \<Rightarrow> nat \<Rightarrow> string \<times> 'w"
  le_ssl :: "'s ssl_ops"
  le_socket :: "int \<Rightarrow> 's"
  le_set_nonblock :: "int \<Rightarrow> bool"
  le_mem_send_buf :: bool
  le_mem_http :: bool
  le_mem_pq :: "bool \<times> bool"
  le_fuel :: nat

type_synonym ('p, 'u, 'w, 's) loop_result = "(int \<times> ('p, 'u, 'w, 's) server) option"

definition conn_at :: "('p, 'u, 'w, 's) server \<Rightarrow> nat \<Rightarrow> ('p, 'u, 'w, 's) conn" where
  "conn_at srv i = sv_conns srv ! i"

definition upd_conn ::
  "nat \<Rightarrow> (('p, 'u, 'w, 's) conn \<Rightarrow> ('p, 'u, 'w, 's) conn) \<Rightarrow> ('p, 'u, 'w, 's) server \<Rightarrow>
   ('p, 'u, 'w, 's) server" where
  "upd_conn i f srv = srv\<lparr>sv_conns := (sv_conns srv)[i := f (conn_at srv i)]\<rparr>"

definition count :: "(edge_metrics \<Rightarrow> edge_metrics) \<Rightarrow> ('p, 'u, 'w, 's) server \<Rightarrow> ('p, 'u, 'w, 's) server" where
  "count f srv = srv\<lparr>sv_metrics := f (sv_metrics srv)\<rparr>"

definition free_conn :: "int \<Rightarrow> ('p, 'u, 'w, 's) conn" where
  "free_conn slot =
     \<lparr>cn_fd = None, cn_state = CS_FREE, cn_slot = slot, cn_recv_pending = False, cn_send_pending = False,
      cn_poll_pending = False, cn_send_buf = None, cn_send_cap = 0, cn_send_len = 0, cn_send_off = 0,
      cn_http = None, cn_ws = None, cn_keep_ws = False, cn_ssl = None\<rparr>"

section \<open>User data\<close>

definition pack_ud :: "int \<Rightarrow> int \<Rightarrow> u64" where
  "pack_ud op slot = push_bit 32 (ucast (of_int op :: u32)) OR ucast (of_int slot :: u32)"

definition unpack_ud :: "u64 \<Rightarrow> int \<times> int" where
  "unpack_ud ud =
     (sint (ucast (drop_bit 32 ud) :: u32), sint (ucast (ud AND 0xffffffff) :: u32))"

section \<open>Connections\<close>

text \<open>\<open>SSL_shutdown\<close> and the frees have no effect on the server's state.\<close>

definition close_conn :: "nat \<Rightarrow> ('p, 'u, 'w, 's) server \<Rightarrow> ('p, 'u, 'w, 's) server" where
  "close_conn i srv =
     (let c = conn_at srv i
      in if cn_state c = CS_FREE then srv
         else
           let srv1 = srv\<lparr>sv_hub := map_option (\<lambda>h. edge_ws_hub_unsubscribe h (cn_slot c)) (sv_hub srv)\<rparr>;
               srv2 = (if cn_fd c \<noteq> None
                       then count (\<lambda>m. if em_active_conns m > 0
                                       then m\<lparr>em_active_conns := em_active_conns m - 1\<rparr> else m) srv1
                       else srv1)
           in upd_conn i (\<lambda>c. free_conn (cn_slot c)) srv2)"

definition docroots_of :: "edge_config \<Rightarrow> http1_docroot" where
  "docroots_of cfg =
     \<lparr>dr_spa_root = (if spa_root cfg \<noteq> [] then Some (spa_root cfg) else None),
      dr_packages_root = (if packages_root cfg \<noteq> [] then Some (packages_root cfg) else None),
      dr_max_file_bytes = static_max_file_bytes cfg\<rparr>"

text \<open>The handler of a new connection, with everything it points to.\<close>

definition new_http ::
  "('p, 'w, 's) loop_env \<Rightarrow> ('p, 'u, 'w, 's) server \<Rightarrow> ('p, 'u) http1_serve option" where
  "new_http en srv =
     map_option (\<lambda>h.
       let h1 = edge_http1_serve_set_docroots h (Some (sv_docroots srv));
           h2 = edge_http1_serve_set_state h1 (sv_store srv);
           h3 = edge_http1_serve_set_ws_hub h2 (sv_hub srv);
           h4 = edge_http1_serve_set_auth h3 (sv_auth srv);
           h5 = edge_http1_serve_set_plugin_host h4 (sv_plugins srv);
           h6 = edge_http1_serve_set_outbound_policy h5 (dns_allow_blocking (sv_cfg srv))
                  (http_max_upstream_body_bytes (sv_cfg srv))
       in (edge_http1_serve_set_service_api_key h6 (sv_service_api_key srv))\<lparr>hs_same_store := sv_same_store srv\<rparr>)
      (edge_http1_serve_create (le_http en) (le_mem_http en))"

text \<open>A slot whose buffer or handler could not be allocated keeps the state \<open>CS_RECV\<close>.\<close>

definition alloc_conn ::
  "('p, 'w, 's) loop_env \<Rightarrow> ('p, 'u, 'w, 's) server \<Rightarrow> nat option \<times> ('p, 'u, 'w, 's) server" where
  "alloc_conn en srv =
     (case find_first (\<lambda>c. cn_state c = CS_FREE) (sv_conns srv) of
        None \<Rightarrow> (None, srv)
      | Some i \<Rightarrow>
          let c = (free_conn (int i))\<lparr>cn_state := CS_RECV, cn_send_cap := sv_send_cap srv\<rparr>
          in if \<not> le_mem_send_buf en then (None, upd_conn i (\<lambda>_. c) srv)
             else case new_http en srv of
               None \<Rightarrow> (None, upd_conn i (\<lambda>_. c) srv)
             | Some h \<Rightarrow> (Some i, upd_conn i (\<lambda>_. c\<lparr>cn_send_buf := Some [], cn_http := Some h\<rparr>) srv))"

section \<open>Submissions\<close>

text \<open>\<open>io_uring_get_sqe\<close> and the preparation of the entry; \<open>None\<close> when the queue is full.\<close>

definition ring_put ::
  "sqe_kind \<Rightarrow> int option \<Rightarrow> int \<Rightarrow> int \<Rightarrow> ('p, 'u, 'w, 's) server \<Rightarrow> ('p, 'u, 'w, 's) server option" where
  "ring_put kind fd op slot srv =
     (if length (sv_sq srv) \<ge> sv_entries srv then None
      else Some (srv\<lparr>sv_sq := sv_sq srv @ [\<lparr>sq_kind = kind, sq_fd = fd, sq_ud = pack_ud op slot\<rparr>]\<rparr>))"

definition submit_accept :: "int \<Rightarrow> ('p, 'u, 'w, 's) server \<Rightarrow> int \<times> ('p, 'u, 'w, 's) server" where
  "submit_accept listen_fd srv =
     (if sv_accept_pending srv then (0, srv)
      else if sv_max_accepts srv > 0 \<and> sv_accepts_done srv \<ge> sv_max_accepts srv then (0, srv)
      else case ring_put Sq_Accept (Some listen_fd) OP_ACCEPT 0 srv of
        None \<Rightarrow> (-1, srv)
      | Some srv1 \<Rightarrow> (0, srv1\<lparr>sv_accept_pending := True\<rparr>))"

definition submit_poll :: "nat \<Rightarrow> bool \<Rightarrow> ('p, 'u, 'w, 's) server \<Rightarrow> int \<times> ('p, 'u, 'w, 's) server" where
  "submit_poll i want_write srv =
     (let c = conn_at srv i
      in if cn_poll_pending c then (0, srv)
         else case ring_put (Sq_Poll want_write) (cn_fd c) OP_POLL (cn_slot c) srv of
           None \<Rightarrow> (-1, srv)
         | Some srv1 \<Rightarrow> (0, upd_conn i (\<lambda>c. c\<lparr>cn_poll_pending := True\<rparr>) srv1))"

definition submit_recv :: "nat \<Rightarrow> ('p, 'u, 'w, 's) server \<Rightarrow> int \<times> ('p, 'u, 'w, 's) server" where
  "submit_recv i srv =
     (let c = conn_at srv i
      in if cn_recv_pending c \<or> cn_poll_pending c \<or>
            cn_state c \<noteq> CS_RECV \<and> cn_state c \<noteq> CS_WS_RECV \<and> cn_state c \<noteq> CS_TLS_HS
         then (0, srv)
         else if cn_ssl c \<noteq> None then submit_poll i False srv
         else case ring_put Sq_Recv (cn_fd c) OP_RECV (cn_slot c) srv of
           None \<Rightarrow> (-1, srv)
         | Some srv1 \<Rightarrow> (0, upd_conn i (\<lambda>c. c\<lparr>cn_recv_pending := True\<rparr>) srv1))"

text \<open>The bytes still to send.\<close>

definition unsent :: "('p, 'u, 'w, 's) conn \<Rightarrow> string" where
  "unsent c = drop (cn_send_off c) (take (cn_send_len c) (case cn_send_buf c of None \<Rightarrow> [] | Some b \<Rightarrow> b))"

text \<open>The functions from here to \<open>handle_send_complete\<close> call \<open>tls_drive_write\<close>, which calls them
  back: it is their argument \<open>drive\<close>.\<close>

definition submit_send ::
  "(nat \<Rightarrow> ('p, 'u, 'w, 's) server \<Rightarrow> ('p, 'u, 'w, 's) loop_result) \<Rightarrow> nat \<Rightarrow>
   ('p, 'u, 'w, 's) server \<Rightarrow> ('p, 'u, 'w, 's) loop_result" where
  "submit_send drive i srv =
     (let c = conn_at srv i
      in if cn_send_pending c \<or> cn_poll_pending c \<or> cn_send_off c \<ge> cn_send_len c then Some (0, srv)
         else if cn_ssl c \<noteq> None then drive i srv
         else case ring_put (Sq_Send (unsent c)) (cn_fd c) OP_SEND (cn_slot c) srv of
           None \<Rightarrow> Some (-1, srv)
         | Some srv1 \<Rightarrow> Some (0, upd_conn i (\<lambda>c. c\<lparr>cn_send_pending := True\<rparr>) srv1))"

definition begin_send_buf ::
  "(nat \<Rightarrow> ('p, 'u, 'w, 's) server \<Rightarrow> ('p, 'u, 'w, 's) loop_result) \<Rightarrow> nat \<Rightarrow> string \<Rightarrow> conn_state \<Rightarrow>
   ('p, 'u, 'w, 's) server \<Rightarrow> ('p, 'u, 'w, 's) loop_result" where
  "begin_send_buf drive i bytes st srv =
     submit_send drive i
       (upd_conn i (\<lambda>c. c\<lparr>cn_send_buf := Some bytes, cn_send_len := length bytes, cn_send_off := 0,
                          cn_state := st\<rparr>) srv)"

text \<open>\<open>begin_send_buf(...) == 0 ? 1 : -1\<close>.\<close>

definition started :: "('p, 'u, 'w, 's) loop_result \<Rightarrow> ('p, 'u, 'w, 's) loop_result" where
  "started r = map_option (\<lambda>(rc, srv). (if rc = 0 then 1 else -1, srv)) r"

definition bad_request_text :: string where
  "bad_request_text =
     ''HTTP/1.1 400 Bad Request'' @ crlf @ ''Content-Type: text/plain'' @ crlf @ ''Content-Length: 12'' @ crlf @
     ''Connection: close'' @ crlf @ crlf @ ''bad request'' @ [lf]"

definition begin_bad_request_plain ::
  "(nat \<Rightarrow> ('p, 'u, 'w, 's) server \<Rightarrow> ('p, 'u, 'w, 's) loop_result) \<Rightarrow> nat \<Rightarrow>
   ('p, 'u, 'w, 's) server \<Rightarrow> ('p, 'u, 'w, 's) loop_result" where
  "begin_bad_request_plain drive i srv =
     (let c = conn_at srv i
      in if cn_send_buf c = None \<or> length bad_request_text \<ge> cn_send_cap c then Some (-1, srv)
         else begin_send_buf drive i bad_request_text CS_SEND
                (count (\<lambda>m. m\<lparr>em_requests := em_requests m + 1,
                              em_responses_4xx := em_responses_4xx m + 1\<rparr>) srv))"

section \<open>WebSocket connections\<close>

definition set_ws :: "nat \<Rightarrow> 'w \<Rightarrow> ('p, 'u, 'w, 's) server \<Rightarrow> ('p, 'u, 'w, 's) server" where
  "set_ws i w = upd_conn i (\<lambda>c. c\<lparr>cn_ws := Some w\<rparr>)"

definition ws_flush_output ::
  "('p, 'w, 's) loop_env \<Rightarrow> (nat \<Rightarrow> ('p, 'u, 'w, 's) server \<Rightarrow> ('p, 'u, 'w, 's) loop_result) \<Rightarrow> nat \<Rightarrow>
   ('p, 'u, 'w, 's) server \<Rightarrow> ('p, 'u, 'w, 's) loop_result" where
  "ws_flush_output en drive i srv =
     (let c = conn_at srv i
      in case cn_ws c of
           None \<Rightarrow> Some (0, srv)
         | Some w \<Rightarrow>
             if cn_send_pending c \<or> cn_state c = CS_WS_SEND then Some (0, srv)
             else
               let (out, w') = le_ws_get_output en w (cn_send_cap c);
                   srv1 = set_ws i w' srv
               in if out = [] then Some (0, srv1)
                  else if length out \<ge> cn_send_cap c then Some (-1, srv1)
                  else started (begin_send_buf drive i out CS_WS_SEND srv1))"

definition ws_try_send_pending ::
  "('p, 'w, 's) loop_env \<Rightarrow> (nat \<Rightarrow> ('p, 'u, 'w, 's) server \<Rightarrow> ('p, 'u, 'w, 's) loop_result) \<Rightarrow> nat \<Rightarrow>
   ('p, 'u, 'w, 's) server \<Rightarrow> ('p, 'u, 'w, 's) loop_result" where
  "ws_try_send_pending en drive i srv =
     (let c = conn_at srv i
      in if cn_ws c = None \<or> sv_hub srv = None then Some (0, srv)
         else if cn_state c = CS_WS_SEND \<or> cn_send_pending c then Some (0, srv)
         else case ws_flush_output en drive i srv of
           None \<Rightarrow> None
         | Some (rc, srv1) \<Rightarrow>
             if rc \<noteq> 0 then Some (rc, srv1)
             else case (sv_hub srv1, cn_ws (conn_at srv1 i)) of
               (Some hub, Some w) \<Rightarrow>
                 let ((rc2, text), hub') = edge_ws_hub_take_pending hub (cn_slot c) EDGE_WS_MSG_MAX;
                     srv2 = srv1\<lparr>sv_hub := Some hub'\<rparr>
                 in if rc2 \<noteq> 1 then Some (if rc2 < 0 then -1 else 0, srv2)
                    else
                      let (ok, w1) = le_ws_send_text en w (case text of None \<Rightarrow> [] | Some t \<Rightarrow> t);
                          srv3 = set_ws i w1 srv2
                      in if \<not> ok then Some (-1, srv3)
                         else
                           let (out, w2) = le_ws_get_output en w1 (cn_send_cap (conn_at srv3 i));
                               srv4 = set_ws i w2 srv3
                           in if out = [] \<or> length out \<ge> cn_send_cap (conn_at srv4 i) then Some (-1, srv4)
                              else started (begin_send_buf drive i out CS_WS_SEND srv4)
             | _ \<Rightarrow> Some (0, srv1))"

definition promote_to_ws ::
  "('p, 'w, 's) loop_env \<Rightarrow> (nat \<Rightarrow> ('p, 'u, 'w, 's) server \<Rightarrow> ('p, 'u, 'w, 's) loop_result) \<Rightarrow> nat \<Rightarrow>
   ('p, 'u, 'w, 's) server \<Rightarrow> ('p, 'u, 'w, 's) loop_result" where
  "promote_to_ws en drive i srv =
     (case le_ws_create en of
        None \<Rightarrow> Some (-1, upd_conn i (\<lambda>c. c\<lparr>cn_ws := None\<rparr>) srv)
      | Some w \<Rightarrow>
          (case sv_hub srv of
             None \<Rightarrow> Some (-1, upd_conn i (\<lambda>c. c\<lparr>cn_ws := None\<rparr>) srv)
           | Some hub \<Rightarrow>
               (case edge_ws_hub_subscribe hub (cn_slot (conn_at srv i)) of
                  (rc, hub') \<Rightarrow>
                    if rc \<noteq> 0 then Some (-1, upd_conn i (\<lambda>c. c\<lparr>cn_ws := None\<rparr>) (srv\<lparr>sv_hub := Some hub'\<rparr>))
                    else
                      let srv1 = upd_conn i (\<lambda>c. c\<lparr>cn_ws := Some w, cn_keep_ws := False,
                                   cn_state := CS_WS_RECV, cn_http := None\<rparr>) (srv\<lparr>sv_hub := Some hub'\<rparr>);
                          (rc2, srv2) = submit_recv i srv1
                      in if rc2 \<noteq> 0 then Some (-1, srv2)
                         else map_option (\<lambda>(_, srv3). (0, srv3)) (ws_try_send_pending en drive i srv2))))"

definition handle_send_complete ::
  "('p, 'w, 's) loop_env \<Rightarrow> (nat \<Rightarrow> ('p, 'u, 'w, 's) server \<Rightarrow> ('p, 'u, 'w, 's) loop_result) \<Rightarrow> nat \<Rightarrow>
   ('p, 'u, 'w, 's) server \<Rightarrow> ('p, 'u, 'w, 's) loop_result" where
  "handle_send_complete en drive i srv =
     (let c = conn_at srv i
      in if cn_state c = CS_SEND \<and> cn_keep_ws c
         then map_option (\<lambda>(rc, srv1). (if rc \<noteq> 0 then -1 else 0, srv1)) (promote_to_ws en drive i srv)
         else if cn_state c = CS_WS_SEND
         then
           (case ws_try_send_pending en drive i (upd_conn i (\<lambda>c. c\<lparr>cn_state := CS_WS_RECV\<rparr>) srv) of
              None \<Rightarrow> None
            | Some (rc, srv1) \<Rightarrow>
                if rc = 0 \<and> \<not> cn_recv_pending (conn_at srv1 i) \<and> \<not> cn_poll_pending (conn_at srv1 i)
                then (case submit_recv i srv1 of (rc2, srv2) \<Rightarrow> Some (if rc2 \<noteq> 0 then -1 else 0, srv2))
                else Some (0, srv1))
         else Some (0, close_conn i srv))"

text \<open>The TLS write; \<open>None\<close> also when more than \<open>fuel\<close> calls were needed.\<close>

primrec tls_drive_write ::
  "nat \<Rightarrow> ('p, 'w, 's) loop_env \<Rightarrow> nat \<Rightarrow> ('p, 'u, 'w, 's) server \<Rightarrow> ('p, 'u, 'w, 's) loop_result" where
  "tls_drive_write 0 en i srv = None"
| "tls_drive_write (Suc k) en i srv =
     (let c = conn_at srv i
      in case cn_ssl c of
           None \<Rightarrow> Some (0, srv)
         | Some ssl \<Rightarrow>
             if cn_send_off c \<ge> cn_send_len c then Some (0, srv)
             else
               let (r, ssl') = edge_tls_write (le_ssl en) ssl (unsent c);
                   srv1 = upd_conn i (\<lambda>c. c\<lparr>cn_ssl := Some ssl'\<rparr>) srv
               in case r of
                    Sent n \<Rightarrow>
                      let srv2 = upd_conn i (\<lambda>c. c\<lparr>cn_send_off := cn_send_off c + n\<rparr>)
                                   (count (\<lambda>m. m\<lparr>em_bytes_out := em_bytes_out m + of_nat n\<rparr>) srv1)
                      in if cn_send_off (conn_at srv2 i) \<ge> cn_send_len (conn_at srv2 i)
                         then handle_send_complete en (tls_drive_write k en) i srv2
                         else tls_drive_write k en i srv2
                  | Sent_Want want_w \<Rightarrow> Some (submit_poll i want_w srv1)
                  | Sent_Error \<Rightarrow> Some (-1, srv1))"

abbreviation drive_of ::
  "('p, 'w, 's) loop_env \<Rightarrow> nat \<Rightarrow> ('p, 'u, 'w, 's) server \<Rightarrow> ('p, 'u, 'w, 's) loop_result" where
  "drive_of en \<equiv> tls_drive_write (le_fuel en) en"

text \<open>The fan-out over the slots \<open>is\<close>.\<close>

fun ws_flush_slots ::
  "('p, 'w, 's) loop_env \<Rightarrow> nat list \<Rightarrow> ('p, 'u, 'w, 's) server \<Rightarrow> ('p, 'u, 'w, 's) server option" where
  "ws_flush_slots en [] srv = Some srv"
| "ws_flush_slots en (i # is) srv =
     (let c = conn_at srv i
      in if cn_state c = CS_WS_RECV \<and> cn_ws c \<noteq> None \<and>
            (case sv_hub srv of None \<Rightarrow> False | Some h \<Rightarrow> edge_ws_hub_is_subscribed h (cn_slot c))
         then (case ws_try_send_pending en (drive_of en) i srv of
                 None \<Rightarrow> None
               | Some (rc, srv1) \<Rightarrow> ws_flush_slots en is srv1)
         else ws_flush_slots en is srv)"

definition ws_flush_all_pending ::
  "('p, 'w, 's) loop_env \<Rightarrow> ('p, 'u, 'w, 's) server \<Rightarrow> ('p, 'u, 'w, 's) server option" where
  "ws_flush_all_pending en srv = ws_flush_slots en [0 ..< length (sv_conns srv)] srv"

end
