(* ===== verification/Iouring_Run.thy ===== *)
theory Iouring_Run
  imports Iouring_Loop
begin

text \<open>
  \<open>src/host/iouring_loop.c\<close>, the second half: accepting, the handlers of received bytes, and
  the loop of \<open>edge_iouring_run\<close> with its start. One turn of the loop takes what the wait for a
  completion answered; a run is a list of turns, each with its own environment.
\<close>

section \<open>Handlers\<close>

definition accept_one ::
  "('p, 'w, 's) loop_env \<Rightarrow> int \<Rightarrow> ('p, 'u, 'w, 's) server \<Rightarrow> int \<times> ('p, 'u, 'w, 's) server" where
  "accept_one en client_fd srv =
     (if client_fd < 0 then (-1, srv)
      else if \<not> le_set_nonblock en client_fd then (-1, srv)
      else case alloc_conn en srv of
        (None, srv1) \<Rightarrow> (-1, count (\<lambda>m. m\<lparr>em_rejects := em_rejects m + 1\<rparr>) srv1)
      | (Some i, srv1) \<Rightarrow>
          let srv2 = count (\<lambda>m. m\<lparr>em_accepts := em_accepts m + 1, em_active_conns := em_active_conns m + 1\<rparr>)
                       ((upd_conn i (\<lambda>c. c\<lparr>cn_fd := Some client_fd\<rparr>) srv1)
                          \<lparr>sv_accepts_done := sv_accepts_done srv1 + 1\<rparr>);
              or_close = (\<lambda>(rc, s). if rc \<noteq> 0 then (-1, close_conn i s) else (0, s))
          in case sv_tls_ctx srv2 of
               None \<Rightarrow> or_close (submit_recv i srv2)
             | Some ctx \<Rightarrow>
                 (case edge_tls_conn_new_fd (le_ssl en) (Some ctx) (Some (le_socket en client_fd)) of
                    None \<Rightarrow> (-1, close_conn i srv2)
                  | Some ssl \<Rightarrow>
                      let (hr, want_w, ssl') = edge_tls_handshake (le_ssl en) ssl;
                          srv3 = upd_conn i (\<lambda>c. c\<lparr>cn_ssl := Some ssl', cn_state := CS_TLS_HS\<rparr>) srv2
                      in if hr = 1
                         then or_close (submit_recv i (upd_conn i (\<lambda>c. c\<lparr>cn_state := CS_RECV\<rparr>) srv3))
                         else if hr = 0 then or_close (submit_poll i want_w srv3)
                         else (-1, close_conn i srv3)))"

text \<open>The shared objects of the server in the handler of a connection, and back.\<close>

definition lend_shared :: "('p, 'u, 'w, 's) server \<Rightarrow> ('p, 'u) http1_serve \<Rightarrow> ('p, 'u) http1_serve" where
  "lend_shared srv h = h\<lparr>hs_store := sv_store srv, hs_hub := sv_hub srv, hs_plugins := sv_plugins srv\<rparr>"

definition return_shared ::
  "nat \<Rightarrow> ('p, 'u) http1_serve \<Rightarrow> edge_metrics option \<Rightarrow> ('p, 'u, 'w, 's) server \<Rightarrow> ('p, 'u, 'w, 's) server" where
  "return_shared i h m srv =
     upd_conn i (\<lambda>c. c\<lparr>cn_http := Some h\<rparr>)
       (srv\<lparr>sv_store := hs_store h, sv_hub := hs_hub h, sv_plugins := hs_plugins h,
            sv_metrics := (case m of None \<Rightarrow> sv_metrics srv | Some m' \<Rightarrow> m')\<rparr>)"

definition handle_http_bytes ::
  "('p, 'w, 's) loop_env \<Rightarrow> nat \<Rightarrow> string \<Rightarrow> ('p, 'u, 'w, 's) server \<Rightarrow> ('p, 'u, 'w, 's) loop_result" where
  "handle_http_bytes en i data srv =
     (if data = []
      then map_option (\<lambda>(rc, srv1). (if rc \<noteq> 0 then -1 else 0, srv1)) (begin_bad_request_plain (drive_of en) i srv)
      else case cn_http (conn_at srv i) of
        None \<Rightarrow> Some (-1, srv)
      | Some h \<Rightarrow>
          (case edge_http1_serve_feed (le_http en) (lend_shared srv h) data (Some (sv_metrics srv))
                  (cn_send_cap (conn_at srv i)) of
             None \<Rightarrow> None
           | Some (rc, h', m) \<Rightarrow>
               let srv1 = return_shared i h' m srv
               in case rc of
                    Hard_Error \<Rightarrow> Some (-1, srv1)
                  | Not_Answered \<Rightarrow> Some (submit_recv i srv1)
                  | Answered out \<Rightarrow>
                      let keep = edge_http1_serve_took_ws_upgrade h';
                          srv2 = upd_conn i (\<lambda>c. c\<lparr>cn_keep_ws := keep\<rparr>) srv1
                      in case begin_send_buf (drive_of en) i out CS_SEND srv2 of
                           None \<Rightarrow> None
                         | Some (rc2, srv3) \<Rightarrow>
                             if rc2 \<noteq> 0 then Some (-1, srv3)
                             else if \<not> cn_keep_ws (conn_at srv3 i)
                             then map_option (Pair 0) (ws_flush_all_pending en srv3)
                             else Some (0, srv3)))"

text \<open>The loop over the WebSocket events; the flag is the return -1.\<close>

partial_function (option) ws_drain_events :: "('p, 'w, 's) loop_env \<Rightarrow> 'w \<Rightarrow> (bool \<times> 'w) option" where
  "ws_drain_events en w =
     (case le_ws_next_event en w of
        None \<Rightarrow> Some (False, w)
      | Some (ev, w1) \<Rightarrow>
          if ev = WS_EVENT_CLOSE \<or> ev = WS_EVENT_ERROR \<or> ev = WS_PROTOCOL_ERROR then Some (True, w1)
          else
            (case ev of
               WS_EVENT_PING data \<Rightarrow>
                 (case le_ws_send_pong en w1 data of
                    (ok, w2) \<Rightarrow> if \<not> ok then Some (True, w2) else ws_drain_events en w2)
             | _ \<Rightarrow> ws_drain_events en w1))"

definition handle_ws_recv ::
  "('p, 'w, 's) loop_env \<Rightarrow> nat \<Rightarrow> string \<Rightarrow> ('p, 'u, 'w, 's) server \<Rightarrow> ('p, 'u, 'w, 's) loop_result" where
  "handle_ws_recv en i data srv =
     (case cn_ws (conn_at srv i) of
        None \<Rightarrow> Some (-1, srv)
      | Some w \<Rightarrow>
          (case ws_drain_events en (le_ws_feed_input en w data) of
             None \<Rightarrow> None
           | Some (failed, w1) \<Rightarrow>
               let srv1 = set_ws i w1
                     (count (\<lambda>m. m\<lparr>em_bytes_in := em_bytes_in m + of_nat (length data)\<rparr>) srv)
               in if failed then Some (-1, srv1)
                  else if cn_state (conn_at srv1 i) = CS_WS_RECV \<and> \<not> cn_send_pending (conn_at srv1 i)
                  then map_option (\<lambda>(rc, srv2). (if rc < 0 then -1 else 0, srv2))
                         (ws_flush_output en (drive_of en) i srv1)
                  else Some (0, srv1)))"

definition recv_buf_size :: nat where "recv_buf_size = 4096"

definition handle_tls_poll ::
  "('p, 'w, 's) loop_env \<Rightarrow> nat \<Rightarrow> ('p, 'u, 'w, 's) server \<Rightarrow> ('p, 'u, 'w, 's) loop_result" where
  "handle_tls_poll en i srv =
     (let c = conn_at srv i
      in case cn_ssl c of
           None \<Rightarrow> Some (0, srv)
         | Some ssl \<Rightarrow>
             if cn_state c = CS_TLS_HS
             then
               let (n, want_w, ssl') = edge_tls_handshake (le_ssl en) ssl;
                   srv1 = upd_conn i (\<lambda>c. c\<lparr>cn_ssl := Some ssl'\<rparr>) srv
               in if n = 1 then Some (submit_recv i (upd_conn i (\<lambda>c. c\<lparr>cn_state := CS_RECV\<rparr>) srv1))
                  else if n = 0 then Some (submit_poll i want_w srv1)
                  else Some (-1, srv1)
             else if cn_state c = CS_RECV \<or> cn_state c = CS_WS_RECV
             then
               let (r, ssl') = edge_tls_read (le_ssl en) ssl recv_buf_size;
                   srv1 = upd_conn i (\<lambda>c. c\<lparr>cn_ssl := Some ssl'\<rparr>) srv
               in case r of
                    Tls_Bytes bs \<Rightarrow>
                      if cn_state c = CS_WS_RECV
                      then (case handle_ws_recv en i bs srv1 of
                              None \<Rightarrow> None
                            | Some (rc, srv2) \<Rightarrow>
                                if rc \<noteq> 0 then Some (-1, srv2)
                                else if cn_state (conn_at srv2 i) = CS_WS_RECV \<and>
                                        \<not> cn_recv_pending (conn_at srv2 i) \<and> \<not> cn_poll_pending (conn_at srv2 i)
                                then Some (submit_recv i srv2)
                                else Some (0, srv2))
                      else handle_http_bytes en i bs srv1
                  | Tls_Want want_w \<Rightarrow> Some (submit_poll i want_w srv1)
                  | Tls_Eof \<Rightarrow>
                      if cn_state c = CS_RECV then begin_bad_request_plain (drive_of en) i srv1
                      else Some (-1, srv1)
                  | Tls_Error \<Rightarrow> Some (-1, srv1)
             else if cn_state c = CS_SEND \<or> cn_state c = CS_WS_SEND then drive_of en i srv
             else Some (0, srv))"

section \<open>The loop\<close>

text \<open>\<open>stop\<close> is the flag a signal sets.\<close>

definition should_stop :: "bool \<Rightarrow> ('p, 'u, 'w, 's) server \<Rightarrow> bool" where
  "should_stop stop srv \<longleftrightarrow>
     stop \<or>
     sv_max_accepts srv > 0 \<and> sv_accepts_done srv \<ge> sv_max_accepts srv \<and>
     \<not> sv_accept_pending srv \<and> (\<forall>c\<in>set (sv_conns srv). cn_state c = CS_FREE)"

text \<open>The slot of a completion, if there is one with that number.\<close>

definition slot_of :: "('p, 'u, 'w, 's) server \<Rightarrow> int \<Rightarrow> nat option" where
  "slot_of srv slot = (if 0 \<le> slot \<and> nat slot < length (sv_conns srv) then Some (nat slot) else None)"

text \<open>A handler's failure closes its connection.\<close>

definition close_if_failed ::
  "nat \<Rightarrow> ('p, 'u, 'w, 's) loop_result \<Rightarrow> ('p, 'u, 'w, 's) server option" where
  "close_if_failed i r = map_option (\<lambda>(rc, srv). if rc \<noteq> 0 then close_conn i srv else srv) r"

text \<open>A completed receive; \<open>data\<close> are the \<open>res\<close> bytes the kernel wrote.\<close>

definition on_recv ::
  "('p, 'w, 's) loop_env \<Rightarrow> nat \<Rightarrow> int \<Rightarrow> string \<Rightarrow> ('p, 'u, 'w, 's) server \<Rightarrow>
   ('p, 'u, 'w, 's) server option" where
  "on_recv en i res data srv =
     (let c = conn_at srv i
      in if cn_state c = CS_FREE then Some srv
         else if cn_state c = CS_WS_RECV
         then
           let srv1 = upd_conn i (\<lambda>c. c\<lparr>cn_recv_pending := False\<rparr>) srv
           in if res \<le> 0 then Some (close_conn i srv1)
              else (case handle_ws_recv en i data srv1 of
                      None \<Rightarrow> None
                    | Some (rc, srv2) \<Rightarrow>
                        if rc \<noteq> 0 then Some (close_conn i srv2)
                        else if cn_state (conn_at srv2 i) = CS_WS_RECV \<and> \<not> cn_recv_pending (conn_at srv2 i)
                        then close_if_failed i (Some (submit_recv i srv2))
                        else Some srv2)
         else if cn_state c = CS_RECV
         then
           let srv1 = upd_conn i (\<lambda>c. c\<lparr>cn_recv_pending := False\<rparr>) srv
           in if res < 0 then Some (close_conn i srv1)
              else close_if_failed i (handle_http_bytes en i data srv1)
         else Some srv)"

definition on_send ::
  "('p, 'w, 's) loop_env \<Rightarrow> nat \<Rightarrow> int \<Rightarrow> ('p, 'u, 'w, 's) server \<Rightarrow> ('p, 'u, 'w, 's) server option" where
  "on_send en i res srv =
     (if cn_state (conn_at srv i) = CS_FREE then Some srv
      else
        let srv1 = upd_conn i (\<lambda>c. c\<lparr>cn_send_pending := False\<rparr>) srv
        in if res < 0 then Some (close_conn i srv1)
           else
             let srv2 = upd_conn i (\<lambda>c. c\<lparr>cn_send_off := cn_send_off c + nat res\<rparr>)
                   (count (\<lambda>m. m\<lparr>em_bytes_out := em_bytes_out m + of_int res\<rparr>) srv1);
                 c = conn_at srv2 i
             in close_if_failed i
                  (if cn_send_off c \<ge> cn_send_len c then handle_send_complete en (drive_of en) i srv2
                   else submit_send (drive_of en) i srv2))"

definition on_poll ::
  "('p, 'w, 's) loop_env \<Rightarrow> nat \<Rightarrow> int \<Rightarrow> ('p, 'u, 'w, 's) server \<Rightarrow> ('p, 'u, 'w, 's) server option" where
  "on_poll en i res srv =
     (if cn_state (conn_at srv i) = CS_FREE then Some srv
      else
        let srv1 = upd_conn i (\<lambda>c. c\<lparr>cn_poll_pending := False\<rparr>) srv
        in if res < 0 then Some (close_conn i srv1)
           else if cn_ssl (conn_at srv1 i) \<noteq> None then close_if_failed i (handle_tls_poll en i srv1)
           else Some srv1)"

definition on_accept ::
  "('p, 'w, 's) loop_env \<Rightarrow> int \<Rightarrow> int \<Rightarrow> ('p, 'u, 'w, 's) server \<Rightarrow> ('p, 'u, 'w, 's) server" where
  "on_accept en listen_fd res srv =
     (let srv1 = srv\<lparr>sv_accept_pending := False\<rparr>;
          srv2 = (if res \<ge> 0 then snd (accept_one en res srv1) else srv1)
      in snd (submit_accept listen_fd srv2))"

definition on_completion ::
  "('p, 'w, 's) loop_env \<Rightarrow> int \<Rightarrow> u64 \<Rightarrow> int \<Rightarrow> string \<Rightarrow> ('p, 'u, 'w, 's) server \<Rightarrow>
   ('p, 'u, 'w, 's) server option" where
  "on_completion en listen_fd ud res data srv =
     (let (op, slot) = unpack_ud ud
      in if op = OP_ACCEPT then Some (on_accept en listen_fd res srv)
         else case slot_of srv slot of
           None \<Rightarrow> Some srv
         | Some i \<Rightarrow>
             if op = OP_RECV then on_recv en i res data srv
             else if op = OP_SEND then on_send en i res srv
             else if op = OP_POLL then on_poll en i res srv
             else Some srv)"

definition io_uring_submit :: "('p, 'u, 'w, 's) server \<Rightarrow> ('p, 'u, 'w, 's) server" where
  "io_uring_submit srv = srv\<lparr>sv_inflight := sv_inflight srv @ sv_sq srv, sv_sq := []\<rparr>"

text \<open>The kernel is done with one operation that has this user data.\<close>

fun complete_op :: "u64 \<Rightarrow> sqe list \<Rightarrow> sqe list" where
  "complete_op ud [] = []"
| "complete_op ud (q # qs) = (if sq_ud q = ud then qs else q # complete_op ud qs)"

definition scrape_tick ::
  "('p, 'w, 's) loop_env \<Rightarrow> ('p, 'u, 'w, 's) server \<Rightarrow> ('p, 'u, 'w, 's) server option" where
  "scrape_tick en srv =
     (if \<not> pq_enabled (sv_pq_cfg srv) \<or> sv_store srv = None then Some srv
      else
        let tick = sv_tick srv + 200;
            srv1 = srv\<lparr>sv_tick := tick\<rparr>
        in if tick - sv_last_scrape_ms srv1 \<ge> ucast (pq_scrape_interval_ms (sv_pq_cfg srv1))
           then
             let (rc, st, hub) = edge_pq_sidecar_scrape_once (en_exec (le_http en)) (en_time (le_http en))
                   (le_mem_pq en) (en_mem_sub (le_http en)) (sv_pq_cfg srv1) (sv_store srv1) (sv_hub srv1)
             in ws_flush_all_pending en (srv1\<lparr>sv_last_scrape_ms := tick, sv_store := st, sv_hub := hub\<rparr>)
           else Some srv1)"

text \<open>What the wait answered: a time-out, an interruption, an error, or a completion.\<close>

datatype wait_result = Wait_Timeout | Wait_Eintr | Wait_Error | Wait_Cqe u64 int string

text \<open>One turn of the loop; the flags are the stop flag before the wait and after it. The result
  has the exit code when the loop ended.\<close>

definition loop_turn ::
  "('p, 'w, 's) loop_env \<Rightarrow> int \<Rightarrow> bool \<times> bool \<Rightarrow> wait_result \<Rightarrow> ('p, 'u, 'w, 's) server \<Rightarrow>
   (int option \<times> ('p, 'u, 'w, 's) server) option" where
  "loop_turn en listen_fd stop w srv =
     (if should_stop (fst stop) srv then Some (Some 0, srv)
      else case w of
        Wait_Timeout \<Rightarrow>
          if should_stop (snd stop) srv then Some (Some 0, srv)
          else (case ws_flush_all_pending en srv of
                  None \<Rightarrow> None
                | Some srv1 \<Rightarrow> map_option (\<lambda>srv2. (None, io_uring_submit srv2)) (scrape_tick en srv1))
      | Wait_Eintr \<Rightarrow> Some (None, srv)
      | Wait_Error \<Rightarrow> Some (Some 2, srv)
      | Wait_Cqe ud res data \<Rightarrow>
          map_option (\<lambda>srv1. (None, io_uring_submit srv1))
            (on_completion en listen_fd ud res data
               (srv\<lparr>sv_inflight := complete_op ud (sv_inflight srv)\<rparr>)))"

fun loop_run ::
  "int \<Rightarrow> (('p, 'w, 's) loop_env \<times> (bool \<times> bool) \<times> wait_result) list \<Rightarrow> ('p, 'u, 'w, 's) server \<Rightarrow>
   (int option \<times> ('p, 'u, 'w, 's) server) option" where
  "loop_run listen_fd [] srv = Some (None, srv)"
| "loop_run listen_fd ((en, stop, w) # ts) srv =
     (case loop_turn en listen_fd stop w srv of
        None \<Rightarrow> None
      | Some (Some ec, srv1) \<Rightarrow> Some (Some ec, srv1)
      | Some (None, srv1) \<Rightarrow> loop_run listen_fd ts srv1)"

section \<open>Start and end\<close>

definition send_cap_of :: "edge_config \<Rightarrow> nat" where
  "send_cap_of cfg =
     (let maxf = (if static_max_file_bytes cfg \<noteq> 0 then static_max_file_bytes cfg else 64 * 1024)
      in max (max ((maxf + 512) mod 2 ^ 64) 4096) (EDGE_WS_MSG_MAX + 32))"

record 'u iouring_opts =
  io_ring_entries :: int
  io_max_conns :: int
  io_backlog :: int
  io_max_accepts :: int
  io_metrics :: "edge_metrics option"
  io_state :: "state_store option"
  io_auth :: "edge_auth_ctx option"
  io_plugins :: "(plugin_host \<times> 'u plugin_env) option"
  io_service_api_key :: "string option"

definition edge_iouring_opts_defaults :: "'u iouring_opts" where
  "edge_iouring_opts_defaults =
     \<lparr>io_ring_entries = 256, io_max_conns = 64, io_backlog = 128, io_max_accepts = 0, io_metrics = None,
      io_state = None, io_auth = None, io_plugins = None, io_service_api_key = None\<rparr>"

text \<open>What the start of the server depends on outside the program: allocations, the listening
  socket (\<open>create_listen_socket\<close>, in \<open>Listen_Socket\<close>), the ring, and the TLS files.\<close>

record start_env =
  sn_time :: int
  sn_mem_store :: bool
  sn_mem_ns :: "string \<Rightarrow> bool"
  sn_mem_hub :: bool
  sn_mem_conns :: bool
  sn_ssl_files :: ssl_files
  sn_listen :: "edge_config \<Rightarrow> int \<Rightarrow> int option"
  sn_ring :: "int \<Rightarrow> bool"

definition or_null :: "string \<Rightarrow> string option" where
  "or_null s = (if s \<noteq> [] then Some s else None)"

definition pq_config_of :: "edge_config \<Rightarrow> pq_config" where
  "pq_config_of cfg =
     (let d = edge_pq_sidecar_config_defaults
      in d\<lparr>pq_enabled := pqproxy_enabled cfg,
           pq_metrics_url := (if pqproxy_metrics_url cfg \<noteq> [] then c_copy 256 (pqproxy_metrics_url cfg)
                              else pq_metrics_url d),
           pq_scrape_interval_ms := (if pqproxy_scrape_interval_ms cfg \<noteq> 0
                                     then pqproxy_scrape_interval_ms cfg else 5000)\<rparr>)"

text \<open>\<open>Some (listen_fd, srv)\<close> at the head of the loop, \<open>None\<close> for the exit code 1. A plugin host
  was given the caller's store.\<close>

definition edge_iouring_start ::
  "start_env \<Rightarrow> edge_config option \<Rightarrow> 'u iouring_opts option \<Rightarrow> (int \<times> ('p, 'u, 'w, 's) server) option" where
  "edge_iouring_start sn cfg0 opts0 =
     (case cfg0 of
        None \<Rightarrow> None
      | Some cfg \<Rightarrow>
          let opts = (case opts0 of Some x \<Rightarrow> x | None \<Rightarrow> edge_iouring_opts_defaults);
              n = (if io_max_conns opts > 0 then nat (io_max_conns opts) else 64);
              st0 = (case io_state opts of
                       Some s \<Rightarrow> Some s
                     | None \<Rightarrow> edge_state_create_with_config (sn_mem_store sn) (sn_mem_ns sn)
                                 (Some edge_state_default_config));
              st = map_option (\<lambda>s. edge_state_apply_config (sn_mem_ns sn) s (Some cfg)) st0;
              met = (case io_metrics opts of
                       Some m \<Rightarrow> if em_started_at m = 0 then edge_metrics_init (sn_time sn) else m
                     | None \<Rightarrow> edge_metrics_init (sn_time sn));
              use_tls = edge_tls_config_enabled (Some (tls_cert cfg)) (Some (tls_key cfg));
              tls = (if use_tls
                     then edge_tls_ctx_create (sn_ssl_files sn)
                            (Some \<lparr>tc_cert_file = Some (tls_cert cfg), tc_key_file = Some (tls_key cfg),
                                   tc_client_ca_file = or_null (tls_client_ca cfg)\<rparr>)
                     else None);
              hub = edge_ws_hub_create (sn_mem_hub sn) n;
              entries = (if io_ring_entries opts > 0 then io_ring_entries opts else 256);
              srv = \<lparr>sv_cfg = cfg, sv_max_accepts = io_max_accepts opts, sv_entries = nat entries,
                     sv_sq = [], sv_inflight = [], sv_conns = map (\<lambda>i. free_conn (int i)) [0 ..< n],
                     sv_accepts_done = 0, sv_accept_pending = False, sv_metrics = met,
                     sv_docroots = docroots_of cfg, sv_send_cap = send_cap_of cfg, sv_store = st,
                     sv_same_store = (io_state opts \<noteq> None), sv_hub = hub, sv_auth = io_auth opts,
                     sv_plugins = io_plugins opts, sv_service_api_key = io_service_api_key opts,
                     sv_tls_ctx = tls, sv_pq_cfg = pq_config_of cfg, sv_last_scrape_ms = 0, sv_tick = 0\<rparr>
          in if use_tls \<and> tls = None then None
             else if hub = None then None
             else if \<not> sn_mem_conns sn then None
             else case sn_listen sn cfg (io_backlog opts) of
               None \<Rightarrow> None
             | Some fd \<Rightarrow>
                 if \<not> sn_ring sn entries then None
                 else
                   let (rc, srv1) = submit_accept fd srv
                   in if rc \<noteq> 0 then None else Some (fd, io_uring_submit srv1))"

text \<open>The end of a run closes every connection.\<close>

definition close_all :: "('p, 'u, 'w, 's) server \<Rightarrow> ('p, 'u, 'w, 's) server" where
  "close_all srv = fold close_conn [0 ..< length (sv_conns srv)] srv"

definition edge_iouring_run ::
  "start_env \<Rightarrow> edge_config option \<Rightarrow> 'u iouring_opts option \<Rightarrow>
   (('p, 'w, 's) loop_env \<times> (bool \<times> bool) \<times> wait_result) list \<Rightarrow>
   (int option \<times> ('p, 'u, 'w, 's) server option) option" where
  "edge_iouring_run sn cfg opts turns =
     (case edge_iouring_start sn cfg opts of
        None \<Rightarrow> Some (Some 1, None)
      | Some (fd, srv) \<Rightarrow>
          map_option (\<lambda>(ec, srv1).
            (ec, Some (case ec of None \<Rightarrow> srv1 | Some c \<Rightarrow> close_all srv1))) (loop_run fd turns srv))"

end
