(* ===== verification/Iouring_Spec.thy ===== *)
theory Iouring_Spec
  imports Iouring_Run
begin

text \<open>
  What the loop of \<open>Iouring_Run\<close> keeps: a plain connection that is waiting for its request or
  sending its response always has the operation it waits for in the kernel, so that no request
  is forgotten. The invariant is proved function by function, for the slot the function works
  on and for all others.
\<close>

section \<open>Slots and the ring\<close>

lemma conn_at_upd [simp]:
  "conn_at (upd_conn i f srv) j =
     (if i = j \<and> j < length (sv_conns srv) then f (conn_at srv i) else conn_at srv j)"
  by (cases "i < length (sv_conns srv)")
    (auto simp: conn_at_def upd_conn_def nth_list_update list_update_beyond)

lemma upd_conn_fields [simp]:
  "length (sv_conns (upd_conn i f srv)) = length (sv_conns srv)" "sv_sq (upd_conn i f srv) = sv_sq srv"
  "sv_inflight (upd_conn i f srv) = sv_inflight srv" "sv_hub (upd_conn i f srv) = sv_hub srv"
  "sv_entries (upd_conn i f srv) = sv_entries srv"
  by (simp_all add: upd_conn_def)

lemma count_fields [simp]:
  "conn_at (count f srv) j = conn_at srv j" "sv_conns (count f srv) = sv_conns srv"
  "sv_sq (count f srv) = sv_sq srv" "sv_inflight (count f srv) = sv_inflight srv"
  "sv_hub (count f srv) = sv_hub srv"
  by (simp_all add: count_def conn_at_def)

lemma conn_at_fields [simp]:
  "conn_at (srv\<lparr>sv_hub := h\<rparr>) j = conn_at srv j" "conn_at (srv\<lparr>sv_sq := q\<rparr>) j = conn_at srv j"
  "conn_at (srv\<lparr>sv_inflight := q\<rparr>) j = conn_at srv j" "conn_at (srv\<lparr>sv_accept_pending := b\<rparr>) j = conn_at srv j"
  "conn_at (srv\<lparr>sv_accepts_done := n\<rparr>) j = conn_at srv j"
  by (simp_all add: conn_at_def)

definition ring_uds :: "('p, 'u, 'w, 's) server \<Rightarrow> u64 set" where
  "ring_uds srv = sq_ud ` set (sv_sq srv @ sv_inflight srv)"

lemma ring_uds_same [simp]:
  "ring_uds (upd_conn i f srv) = ring_uds srv" "ring_uds (count g srv) = ring_uds srv"
  "ring_uds (srv\<lparr>sv_hub := h\<rparr>) = ring_uds srv" "ring_uds (srv\<lparr>sv_accept_pending := b\<rparr>) = ring_uds srv"
  "ring_uds (srv\<lparr>sv_accepts_done := n\<rparr>) = ring_uds srv"
  by (simp_all add: ring_uds_def)

lemma ring_put_cases:
  assumes "ring_put kind fd op slot srv = Some srv1"
  shows "srv1 = srv\<lparr>sv_sq := sv_sq srv @ [\<lparr>sq_kind = kind, sq_fd = fd, sq_ud = pack_ud op slot\<rparr>]\<rparr>"
    "ring_uds srv1 = insert (pack_ud op slot) (ring_uds srv)" "conn_at srv1 j = conn_at srv j"
    "length (sv_conns srv1) = length (sv_conns srv)" "sv_hub srv1 = sv_hub srv"
  using assms by (auto simp: ring_put_def ring_uds_def split: if_splits)

section \<open>User data\<close>

lemma ucast_small:
  assumes "0 \<le> v" "v < 2 ^ 31"
  shows "uint (of_int v :: u32) = v" "sint (of_int v :: u32) = v"
proof -
  show u: "uint (of_int v :: u32) = v"
    using assms by (simp add: uint_word_of_int)
  show "sint (of_int v :: u32) = v"
    using assms by (simp add: signed_of_int signed_take_bit_int_eq_self)
qed

lemma unpack_pack:
  assumes "0 \<le> op" "op < 2 ^ 31" "0 \<le> slot" "slot < 2 ^ 31"
  shows "unpack_ud (pack_ud op slot) = (op, slot)"
proof -
  have hi: "(ucast (drop_bit 32 (pack_ud op slot)) :: u32) = of_int op"
  proof (rule bit_word_eqI)
    fix n
    assume "n < LENGTH(32)"
    moreover have "\<not> bit (of_int slot :: u32) (32 + n)" using bit_imp_le_length by fastforce
    ultimately show "bit (ucast (drop_bit 32 (pack_ud op slot)) :: u32) n = bit (of_int op :: u32) n"
      by (simp add: pack_ud_def bit_ucast_iff bit_drop_bit_eq bit_or_iff bit_push_bit_iff del: bit_of_int_iff)
  qed
  have mask: "(0xffffffff :: u64) = mask 32" by (simp add: mask_eq_exp_minus_1)
  have lo: "(ucast (pack_ud op slot AND 0xffffffff) :: u32) = of_int slot"
  proof (unfold mask, rule bit_word_eqI)
    fix n
    assume "n < LENGTH(32)"
    then show "bit (ucast (pack_ud op slot AND mask 32) :: u32) n = bit (of_int slot :: u32) n"
      by (simp add: pack_ud_def bit_ucast_iff bit_and_iff bit_mask_iff bit_or_iff bit_push_bit_iff
          del: bit_of_int_iff)
  qed
  show ?thesis using assms by (simp add: unpack_ud_def hi lo ucast_small)
qed

lemma pack_inject:
  assumes "0 \<le> op" "op < 2 ^ 31" "0 \<le> slot" "slot < 2 ^ 31"
    and "0 \<le> op'" "op' < 2 ^ 31" "0 \<le> slot'" "slot' < 2 ^ 31"
  shows "pack_ud op slot = pack_ud op' slot' \<longleftrightarrow> op = op' \<and> slot = slot'"
  by (metis prod.inject unpack_pack [OF assms(1-4)] unpack_pack [OF assms(5-8)])

section \<open>The invariant of a slot\<close>

text \<open>What always holds of a slot in use, and what holds of it between two turns: a plain
  connection has the operation it waits for in the ring. A slot without a descriptor is one
  that \<open>alloc_conn\<close> lost.\<close>

definition loose :: "nat \<Rightarrow> ('p, 'u, 'w, 's) conn \<Rightarrow> bool" where
  "loose i c \<longleftrightarrow>
     cn_state c = CS_FREE \<or>
     cn_slot c = int i \<and> (cn_ssl c = None \<longrightarrow> \<not> cn_poll_pending c) \<and>
     (cn_send_pending c \<longrightarrow> cn_ssl c = None) \<and>
     (cn_state c \<notin> {CS_SEND, CS_WS_SEND} \<longrightarrow> \<not> cn_send_pending c \<and> cn_send_off c \<ge> cn_send_len c)"

definition armed :: "nat \<Rightarrow> ('p, 'u, 'w, 's) conn \<Rightarrow> u64 set \<Rightarrow> bool" where
  "armed i c U \<longleftrightarrow>
     (cn_fd c \<noteq> None \<and> cn_ssl c = None \<longrightarrow>
        cn_state c \<noteq> CS_TLS_HS \<and>
        (cn_state c = CS_RECV \<longrightarrow> cn_recv_pending c \<and> pack_ud OP_RECV (int i) \<in> U) \<and>
        (cn_state c = CS_SEND \<longrightarrow> cn_send_pending c \<and> pack_ud OP_SEND (int i) \<in> U))"

text \<open>Connections for which \<open>armed\<close> asks nothing.\<close>

definition quiet :: "('p, 'u, 'w, 's) conn \<Rightarrow> bool" where
  "quiet c \<longleftrightarrow> cn_ssl c \<noteq> None \<or> cn_state c \<in> {CS_FREE, CS_WS_RECV, CS_WS_SEND}"

lemma quiet_armed: "quiet c \<Longrightarrow> armed i c U"
  by (auto simp: quiet_def armed_def)

lemma armed_mono: "armed i c U \<Longrightarrow> U \<subseteq> U' \<Longrightarrow> armed i c U'"
  by (auto simp: armed_def)

text \<open>A function that works on slot \<open>i\<close> leaves the others alone and only adds to the ring.\<close>

definition works_on :: "nat \<Rightarrow> ('p, 'u, 'w, 's) server \<Rightarrow> ('p, 'u, 'w, 's) server \<Rightarrow> bool" where
  "works_on i srv srv' \<longleftrightarrow>
     length (sv_conns srv') = length (sv_conns srv) \<and> ring_uds srv \<subseteq> ring_uds srv' \<and>
     (\<forall>j. j \<noteq> i \<longrightarrow> conn_at srv' j = conn_at srv j) \<and> loose i (conn_at srv' i)"

lemma works_onD:
  "works_on i srv srv' \<Longrightarrow> length (sv_conns srv') = length (sv_conns srv)"
  "works_on i srv srv' \<Longrightarrow> loose i (conn_at srv' i)"
  by (simp_all add: works_on_def)

lemma works_on_trans: "works_on i a b \<Longrightarrow> works_on i b c \<Longrightarrow> works_on i a c"
  by (auto simp: works_on_def)

lemma works_on_from:
  assumes "length (sv_conns srv0) = length (sv_conns srv)" "ring_uds srv \<subseteq> ring_uds srv0"
    "\<And>j. j \<noteq> i \<Longrightarrow> conn_at srv0 j = conn_at srv j" "works_on i srv0 srv'"
  shows "works_on i srv srv'"
  using assms by (auto simp: works_on_def)

lemma works_on_hub [simp]: "works_on i (srv\<lparr>sv_hub := h\<rparr>) srv' = works_on i srv srv'"
  by (simp add: works_on_def)

section \<open>Submissions\<close>

lemma sq_append_fields [simp]:
  "sv_conns (srv\<lparr>sv_sq := q\<rparr>) = sv_conns srv"
  "ring_uds (srv\<lparr>sv_sq := sv_sq srv @ [e]\<rparr>) = insert (sq_ud e) (ring_uds srv)"
  by (auto simp: ring_uds_def)

text \<open>What a submission does: nothing, or one entry and its flag.\<close>

lemma submit_poll_cases:
  assumes "submit_poll i ww srv = (rc, srv')"
  obtains "srv' = srv" "rc = 0 \<Longrightarrow> cn_poll_pending (conn_at srv i)"
  | e where "srv' = upd_conn i (\<lambda>c. c\<lparr>cn_poll_pending := True\<rparr>) (srv\<lparr>sv_sq := sv_sq srv @ [e]\<rparr>)" "rc = 0"
  using assms by (auto simp: submit_poll_def ring_put_def Let_def split: if_splits)

lemma submit_recv_cases:
  assumes "submit_recv i srv = (rc, srv')"
  obtains "srv' = srv"
  | "cn_ssl (conn_at srv i) \<noteq> None" "submit_poll i False srv = (rc, srv')"
  | e where "srv' = upd_conn i (\<lambda>c. c\<lparr>cn_recv_pending := True\<rparr>) (srv\<lparr>sv_sq := sv_sq srv @ [e]\<rparr>)"
      "sq_ud e = pack_ud OP_RECV (cn_slot (conn_at srv i))" "cn_ssl (conn_at srv i) = None"
  using assms by (fastforce simp: submit_recv_def ring_put_def Let_def split: if_splits)

lemma loose_poll: "loose i c \<Longrightarrow> cn_ssl c \<noteq> None \<Longrightarrow> loose i (c\<lparr>cn_poll_pending := b\<rparr>)"
  by (auto simp: loose_def)

lemma loose_recv: "loose i c \<Longrightarrow> loose i (c\<lparr>cn_recv_pending := b\<rparr>)"
  by (simp add: loose_def)

lemma works_on_entry:
  "i < length (sv_conns srv) \<Longrightarrow> loose i (f (conn_at srv i)) \<Longrightarrow>
   works_on i srv (upd_conn i f (srv\<lparr>sv_sq := sv_sq srv @ [e]\<rparr>))"
  by (auto simp: works_on_def)

lemma works_on_upd:
  "i < length (sv_conns srv) \<Longrightarrow> loose i (f (conn_at srv i)) \<Longrightarrow> works_on i srv (upd_conn i f srv)"
  by (auto simp: works_on_def)

lemma works_on_refl: "loose i (conn_at srv i) \<Longrightarrow> works_on i srv srv"
  by (simp add: works_on_def)

lemma submit_poll_works:
  assumes "submit_poll i ww srv = (rc, srv')" "i < length (sv_conns srv)" "loose i (conn_at srv i)"
    "cn_ssl (conn_at srv i) \<noteq> None"
  shows "works_on i srv srv'" "cn_ssl (conn_at srv' i) = cn_ssl (conn_at srv i)"
    "cn_state (conn_at srv' i) = cn_state (conn_at srv i)" "cn_fd (conn_at srv' i) = cn_fd (conn_at srv i)"
  using assms
  by (cases rule: submit_poll_cases; simp add: works_on_refl works_on_entry loose_poll)+

lemma submit_recv_works:
  assumes "submit_recv i srv = (rc, srv')" "i < length (sv_conns srv)" "loose i (conn_at srv i)"
  shows "works_on i srv srv'" "cn_ssl (conn_at srv' i) = cn_ssl (conn_at srv i)"
    "cn_state (conn_at srv' i) = cn_state (conn_at srv i)" "cn_fd (conn_at srv' i) = cn_fd (conn_at srv i)"
  using assms
  by (cases rule: submit_recv_cases; simp add: works_on_refl works_on_entry loose_recv submit_poll_works)+

text \<open>A receive that is submitted arms its connection.\<close>

lemma submit_recv_arms:
  assumes "submit_recv i srv = (0, srv')" "i < length (sv_conns srv)" "loose i (conn_at srv i)"
    "\<not> cn_recv_pending (conn_at srv i)" "cn_state (conn_at srv i) \<in> {CS_RECV, CS_WS_RECV}"
  shows "armed i (conn_at srv' i) (ring_uds srv')"
proof (cases "cn_ssl (conn_at srv i)")
  case None
  with assms have "cn_slot (conn_at srv i) = int i" "\<not> cn_poll_pending (conn_at srv i)"
    by (auto simp: loose_def)
  with None assms(1,2,4,5) show ?thesis
    by (auto simp: submit_recv_def ring_put_def armed_def Let_def split: if_splits)
next
  case (Some s)
  then show ?thesis
    using submit_recv_works [OF assms(1-3)] by (intro quiet_armed) (simp add: quiet_def)
qed

section \<open>Sending\<close>

text \<open>What the functions ask of the TLS write they are given.\<close>

definition drives :: "(nat \<Rightarrow> ('p, 'u, 'w, 's) server \<Rightarrow> ('p, 'u, 'w, 's) loop_result) \<Rightarrow> bool" where
  "drives drive \<longleftrightarrow>
     (\<forall>i srv rc srv'. drive i srv = Some (rc, srv') \<longrightarrow> i < length (sv_conns srv) \<longrightarrow>
        loose i (conn_at srv i) \<longrightarrow> cn_ssl (conn_at srv i) \<noteq> None \<longrightarrow>
        works_on i srv srv' \<and> quiet (conn_at srv' i))"

lemma drivesD:
  assumes "drives drive" "drive i srv = Some (rc, srv')" "i < length (sv_conns srv)"
    "loose i (conn_at srv i)" "cn_ssl (conn_at srv i) \<noteq> None"
  shows "works_on i srv srv'" "quiet (conn_at srv' i)"
  using assms unfolding drives_def by blast+

lemma submit_send_cases:
  assumes "submit_send drive i srv = Some (rc, srv')"
  obtains "srv' = srv" "rc = 0 \<Longrightarrow> cn_send_pending (conn_at srv i) \<or> cn_poll_pending (conn_at srv i) \<or>
      cn_send_off (conn_at srv i) \<ge> cn_send_len (conn_at srv i)"
  | "cn_ssl (conn_at srv i) \<noteq> None" "drive i srv = Some (rc, srv')"
  | e where "srv' = upd_conn i (\<lambda>c. c\<lparr>cn_send_pending := True\<rparr>) (srv\<lparr>sv_sq := sv_sq srv @ [e]\<rparr>)"
      "sq_ud e = pack_ud OP_SEND (cn_slot (conn_at srv i))" "cn_ssl (conn_at srv i) = None" "rc = 0"
  using assms by (fastforce simp: submit_send_def ring_put_def Let_def split: if_splits)

lemma submit_send_works:
  assumes s: "submit_send drive i srv = Some (rc, srv')" and i: "i < length (sv_conns srv)"
    and l: "loose i (conn_at srv i)" and d: "drives drive"
    and st: "cn_state (conn_at srv i) \<in> {CS_SEND, CS_WS_SEND}"
  shows "works_on i srv srv'"
    "cn_ssl (conn_at srv i) \<noteq> None \<Longrightarrow> quiet (conn_at srv' i)"
    "cn_ssl (conn_at srv i) = None \<Longrightarrow> cn_state (conn_at srv' i) = cn_state (conn_at srv i)"
    "rc = 0 \<Longrightarrow> \<not> cn_send_pending (conn_at srv i) \<Longrightarrow> cn_send_off (conn_at srv i) < cn_send_len (conn_at srv i) \<Longrightarrow>
     armed i (conn_at srv' i) (ring_uds srv')"
proof -
  have q: "quiet (conn_at srv i)" if "cn_ssl (conn_at srv i) \<noteq> None"
    using that by (simp add: quiet_def)
  have slot: "cn_slot (conn_at srv i) = int i" using l st by (auto simp: loose_def)
  show "works_on i srv srv'"
    using s
  proof (cases rule: submit_send_cases)
    case 1
    then show ?thesis using l by (simp add: works_on_refl)
  next
    case 2
    then show ?thesis using drivesD [OF d _ i l] by blast
  next
    case (3 e)
    have "loose i ((conn_at srv i)\<lparr>cn_send_pending := True\<rparr>)"
      using l st 3 by (auto simp: loose_def)
    then show ?thesis using 3 i by (simp add: works_on_entry)
  qed
  show "quiet (conn_at srv' i)" if "cn_ssl (conn_at srv i) \<noteq> None"
    using s by (cases rule: submit_send_cases) (use that q drivesD [OF d _ i l] in auto)
  show "cn_state (conn_at srv' i) = cn_state (conn_at srv i)" if "cn_ssl (conn_at srv i) = None"
    using s by (cases rule: submit_send_cases) (use that i in auto)
  show "armed i (conn_at srv' i) (ring_uds srv')"
    if "rc = 0" "\<not> cn_send_pending (conn_at srv i)" "cn_send_off (conn_at srv i) < cn_send_len (conn_at srv i)"
    using s
  proof (cases rule: submit_send_cases)
    case 1
    then have "cn_ssl (conn_at srv i) \<noteq> None" using that l st by (auto simp: loose_def)
    with 1 q show ?thesis by (simp add: quiet_armed)
  next
    case 2
    then show ?thesis using drivesD [OF d _ i l] by (simp add: quiet_armed)
  next
    case (3 e)
    then show ?thesis using i st slot by (auto simp: armed_def)
  qed
qed

lemma begin_send_works:
  assumes b: "begin_send_buf drive i bytes st srv = Some (rc, srv')" and i: "i < length (sv_conns srv)"
    and l: "loose i (conn_at srv i)" "cn_state (conn_at srv i) \<noteq> CS_FREE" "\<not> cn_send_pending (conn_at srv i)"
    and d: "drives drive" and st: "st \<in> {CS_SEND, CS_WS_SEND}"
  shows "works_on i srv srv'"
    "cn_ssl (conn_at srv i) \<noteq> None \<Longrightarrow> quiet (conn_at srv' i)"
    "cn_ssl (conn_at srv i) = None \<Longrightarrow> cn_state (conn_at srv' i) = st"
    "rc = 0 \<Longrightarrow> bytes \<noteq> [] \<Longrightarrow> armed i (conn_at srv' i) (ring_uds srv')"
proof -
  let ?f = "\<lambda>c. c\<lparr>cn_send_buf := Some bytes, cn_send_len := length bytes, cn_send_off := 0, cn_state := st\<rparr>"
  let ?srv = "upd_conn i ?f srv"
  have s: "submit_send drive i ?srv = Some (rc, srv')" using b by (simp add: begin_send_buf_def)
  have lf: "loose i (conn_at ?srv i)" using l st i by (auto simp: loose_def)
  have i': "i < length (sv_conns ?srv)" using i by simp
  have stf: "cn_state (conn_at ?srv i) \<in> {CS_SEND, CS_WS_SEND}" using st i by simp
  note w = submit_send_works [OF s i' lf d stf]
  have "works_on i srv ?srv" using i lf by (simp add: works_on_upd)
  then show "works_on i srv srv'" using w(1) by (rule works_on_trans)
  show "quiet (conn_at srv' i)" if "cn_ssl (conn_at srv i) \<noteq> None"
    using that i by (intro w(2)) simp
  show "cn_state (conn_at srv' i) = st" if "cn_ssl (conn_at srv i) = None"
    using that i w(3) by simp
  show "armed i (conn_at srv' i) (ring_uds srv')" if "rc = 0" "bytes \<noteq> []"
    using that i l by (intro w(4)) simp_all
qed

text \<open>A WebSocket send leaves a connection quiet.\<close>

lemma begin_ws_send:
  assumes "begin_send_buf drive i bytes CS_WS_SEND srv = Some (rc, srv')" "i < length (sv_conns srv)"
    "loose i (conn_at srv i)" "cn_state (conn_at srv i) = CS_WS_RECV" "drives drive"
  shows "works_on i srv srv' \<and> quiet (conn_at srv' i)"
proof -
  have "\<not> cn_send_pending (conn_at srv i)" using assms(3,4) by (auto simp: loose_def)
  note w = begin_send_works [OF assms(1-3) _ this assms(5)]
  show ?thesis using w(1-3) assms(4) by (cases "cn_ssl (conn_at srv i)") (auto simp: quiet_def)
qed

lemma startedE:
  assumes "started r = Some (rc, srv')"
  obtains rc0 where "r = Some (rc0, srv')" "rc = 1 \<or> rc = -1"
  using assms by (auto simp: started_def split: if_splits)

lemma loose_ws: "loose i (c\<lparr>cn_ws := w\<rparr>) = loose i c"
  by (simp add: loose_def)

lemma set_ws_simps [simp]:
  "i < length (sv_conns srv) \<Longrightarrow> conn_at (set_ws i w srv) i = (conn_at srv i)\<lparr>cn_ws := Some w\<rparr>"
  "length (sv_conns (set_ws i w srv)) = length (sv_conns srv)" "sv_hub (set_ws i w srv) = sv_hub srv"
  by (simp_all add: set_ws_def)

lemma set_ws_works: "i < length (sv_conns srv) \<Longrightarrow> loose i (conn_at srv i) \<Longrightarrow> works_on i srv (set_ws i w srv)"
  unfolding set_ws_def by (rule works_on_upd) (simp_all add: loose_ws)

definition ws_ready :: "nat \<Rightarrow> ('p, 'u, 'w, 's) server \<Rightarrow> bool" where
  "ws_ready i srv \<longleftrightarrow> i < length (sv_conns srv) \<and> loose i (conn_at srv i) \<and> cn_state (conn_at srv i) = CS_WS_RECV"

lemma ws_ready_quiet: "ws_ready i srv \<Longrightarrow> quiet (conn_at srv i)"
  by (simp add: ws_ready_def quiet_def)

lemma ws_ready_set [simp]: "ws_ready i srv \<Longrightarrow> ws_ready i (set_ws i w srv)"
  by (simp add: ws_ready_def loose_ws)

lemma ws_ready_hub [simp]: "ws_ready i (srv\<lparr>sv_hub := h\<rparr>) = ws_ready i srv"
  by (simp add: ws_ready_def)

lemma ws_ready_send:
  assumes "started (begin_send_buf drive i bytes CS_WS_SEND srv) = Some (rc, srv')" "ws_ready i srv" "drives drive"
  shows "works_on i srv srv' \<and> quiet (conn_at srv' i) \<and> rc \<noteq> 0"
  using assms(1)
proof (rule startedE)
  fix rc0
  assume "begin_send_buf drive i bytes CS_WS_SEND srv = Some (rc0, srv')" "rc = 1 \<or> rc = - 1"
  then show ?thesis using begin_ws_send [of drive i bytes srv rc0 srv'] assms(2,3) by (auto simp: ws_ready_def)
qed

lemma ws_flush_output_works:
  assumes f: "ws_flush_output en drive i srv = Some (rc, srv')" and r: "ws_ready i srv" and d: "drives drive"
  shows "works_on i srv srv' \<and> quiet (conn_at srv' i) \<and> (rc = 0 \<longrightarrow> ws_ready i srv' \<and> sv_hub srv' = sv_hub srv)"
proof (cases "cn_ws (conn_at srv i)")
  case None
  then show ?thesis using f r by (auto simp: ws_flush_output_def works_on_refl ws_ready_quiet ws_ready_def)
next
  case (Some w)
  have np: "\<not> cn_send_pending (conn_at srv i)" "cn_state (conn_at srv i) \<noteq> CS_WS_SEND"
    using r by (auto simp: ws_ready_def loose_def)
  obtain out w' where o: "le_ws_get_output en w (cn_send_cap (conn_at srv i)) = (out, w')" by fastforce
  let ?srv = "set_ws i w' srv"
  have w: "works_on i srv ?srv" "ws_ready i ?srv" using r by (auto simp: ws_ready_def set_ws_works loose_ws)
  have "srv' = ?srv \<or> started (begin_send_buf drive i out CS_WS_SEND ?srv) = Some (rc, srv')"
    using f Some np o by (auto simp: ws_flush_output_def Let_def split: if_splits)
  then have "works_on i ?srv srv' \<and> quiet (conn_at srv' i) \<and> (rc = 0 \<longrightarrow> ws_ready i srv' \<and> sv_hub srv' = sv_hub srv)"
    using w(2) ws_ready_send [OF _ w(2) d] ws_ready_quiet [OF w(2)]
    by (auto simp: works_on_refl ws_ready_def)
  then show ?thesis using works_on_trans [OF w(1)] by blast
qed

lemma ws_try_send_pending_works:
  assumes t: "ws_try_send_pending en drive i srv = Some (rc, srv')" and r: "ws_ready i srv" and d: "drives drive"
  shows "works_on i srv srv' \<and> quiet (conn_at srv' i)"
proof (cases "cn_ws (conn_at srv i) = None \<or> sv_hub srv = None \<or>
    cn_state (conn_at srv i) = CS_WS_SEND \<or> cn_send_pending (conn_at srv i)")
  case True
  then have "srv' = srv" using t unfolding ws_try_send_pending_def Let_def by (simp split: if_split_asm)
  then show ?thesis using r by (simp add: ws_ready_quiet works_on_refl ws_ready_def)
next
  case False
  then obtain rc1 srv1 where f: "ws_flush_output en drive i srv = Some (rc1, srv1)"
    using t by (cases "ws_flush_output en drive i srv") (auto simp: ws_try_send_pending_def Let_def)
  note w = ws_flush_output_works [OF f r d]
  show ?thesis
  proof (cases "rc1 \<noteq> 0 \<or> sv_hub srv1 = None \<or> cn_ws (conn_at srv1 i) = None")
    case True
    then have "srv' = srv1"
      using t False f by (auto simp: ws_try_send_pending_def Let_def split: if_splits option.splits)
    then show ?thesis using w by blast
  next
    case more: False
    then obtain hub ws where h: "sv_hub srv1 = Some hub" "cn_ws (conn_at srv1 i) = Some ws" by auto
    have r1: "ws_ready i srv1" using w more by blast
    obtain rc2 msg hub' where k:
      "edge_ws_hub_take_pending hub (cn_slot (conn_at srv i)) EDGE_WS_MSG_MAX = ((rc2, msg), hub')"
      by (metis prod.exhaust)
    let ?srv2 = "srv1\<lparr>sv_hub := Some hub'\<rparr>"
    obtain ok w1 where x: "le_ws_send_text en ws (case msg of None \<Rightarrow> [] | Some t \<Rightarrow> t) = (ok, w1)" by fastforce
    let ?srv3 = "set_ws i w1 ?srv2"
    obtain out w2 where o: "le_ws_get_output en w1 (cn_send_cap (conn_at ?srv3 i)) = (out, w2)" by fastforce
    let ?srv4 = "set_ws i w2 ?srv3"
    have r2: "ws_ready i ?srv2" "ws_ready i ?srv3" "ws_ready i ?srv4" using r1 by simp_all
    have w2: "works_on i srv1 ?srv2" "works_on i srv1 ?srv3"
      using r1 set_ws_works [of i ?srv2 w1] by (auto simp: ws_ready_def works_on_def ring_uds_def)
    have "works_on i ?srv3 ?srv4" using r2(2) by (intro set_ws_works) (auto simp: ws_ready_def)
    then have w4: "works_on i srv1 ?srv4" using works_on_trans [OF w2(2)] by blast
    have "srv' \<in> {?srv2, ?srv3, ?srv4} \<or> started (begin_send_buf drive i out CS_WS_SEND ?srv4) = Some (rc, srv')"
      using t False f more h k x o
      by (auto simp: ws_try_send_pending_def Let_def split: if_splits)
    then have "works_on i srv1 srv' \<and> quiet (conn_at srv' i)"
      using w2 w4 r2 ws_ready_quiet ws_ready_send [OF _ r2(3) d, of out rc srv'] works_on_trans [OF w4]
      by blast
    then show ?thesis using w works_on_trans by blast
  qed
qed

text \<open>A connection whose response is sent: nothing is pending and nothing left to send.\<close>

definition sent_all :: "nat \<Rightarrow> ('p, 'u, 'w, 's) server \<Rightarrow> bool" where
  "sent_all i srv \<longleftrightarrow>
     i < length (sv_conns srv) \<and> loose i (conn_at srv i) \<and> cn_state (conn_at srv i) \<noteq> CS_FREE \<and>
     \<not> cn_send_pending (conn_at srv i) \<and> cn_send_off (conn_at srv i) \<ge> cn_send_len (conn_at srv i)"

lemma close_conn_works:
  "i < length (sv_conns srv) \<Longrightarrow> works_on i srv (close_conn i srv) \<and> cn_state (conn_at (close_conn i srv) i) = CS_FREE"
  by (auto simp: close_conn_def Let_def works_on_def loose_def free_conn_def ring_uds_def)

lemma close_conn_quiet: "i < length (sv_conns srv) \<Longrightarrow> quiet (conn_at (close_conn i srv) i)"
  using close_conn_works [of i srv] by (simp add: quiet_def)

text \<open>A handler on slot \<open>i\<close> that succeeded leaves it armed; whatever happened, the rest is as
  it was. \<open>handles\<close> says so of a result.\<close>

definition handles :: "nat \<Rightarrow> ('p, 'u, 'w, 's) server \<Rightarrow> int \<times> ('p, 'u, 'w, 's) server \<Rightarrow> bool" where
  "handles i srv r \<longleftrightarrow>
     works_on i srv (snd r) \<and> (fst r = 0 \<longrightarrow> armed i (conn_at (snd r) i) (ring_uds (snd r)))"

lemma handles_quiet: "works_on i srv srv' \<Longrightarrow> quiet (conn_at srv' i) \<Longrightarrow> handles i srv (rc, srv')"
  by (simp add: handles_def quiet_armed)

lemma handles_fail: "works_on i srv srv' \<Longrightarrow> rc \<noteq> 0 \<Longrightarrow> handles i srv (rc, srv')"
  by (simp add: handles_def)

lemma handles_trans: "works_on i a b \<Longrightarrow> handles i b r \<Longrightarrow> handles i a r"
  using works_on_trans by (auto simp: handles_def)

text \<open>After a WebSocket send the connection stays quiet, whatever is submitted next.\<close>

lemma quiet_recv:
  assumes "submit_recv i srv = (rc, srv')" "i < length (sv_conns srv)" "loose i (conn_at srv i)"
    "quiet (conn_at srv i)"
  shows "works_on i srv srv' \<and> quiet (conn_at srv' i)"
  using submit_recv_works [OF assms(1-3)] assms(4) by (simp add: quiet_def)

lemma promote_works:
  assumes p: "promote_to_ws en drive i srv = Some (rc, srv')" and s: "sent_all i srv" and d: "drives drive"
  shows "works_on i srv srv' \<and> (rc = 0 \<or> cn_ssl (conn_at srv i) \<noteq> None \<longrightarrow> quiet (conn_at srv' i))"
proof -
  have i: "i < length (sv_conns srv)" and l: "loose i (conn_at srv i)" using s by (simp_all add: sent_all_def)
  have drop_ws: "works_on i srv (upd_conn i (\<lambda>c. c\<lparr>cn_ws := None\<rparr>) srv)"
    using i l by (simp add: works_on_upd loose_ws)
  show ?thesis
  proof (cases "le_ws_create en = None \<or> sv_hub srv = None")
    case True
    then have "rc = -1 \<and> srv' = upd_conn i (\<lambda>c. c\<lparr>cn_ws := None\<rparr>) srv"
      using p by (auto simp: promote_to_ws_def split: option.splits)
    with drop_ws i show ?thesis by (simp add: quiet_def)
  next
    case False
    then obtain w hub where w: "le_ws_create en = Some w" "sv_hub srv = Some hub" by auto
    obtain rc1 hub' where h: "edge_ws_hub_subscribe hub (cn_slot (conn_at srv i)) = (rc1, hub')" by fastforce
    show ?thesis
    proof (cases "rc1 = 0")
      case False
      then have "rc = -1 \<and> srv' = upd_conn i (\<lambda>c. c\<lparr>cn_ws := None\<rparr>) (srv\<lparr>sv_hub := Some hub'\<rparr>)"
        using p w h by (simp add: promote_to_ws_def)
      moreover have "works_on i srv (upd_conn i (\<lambda>c. c\<lparr>cn_ws := None\<rparr>) (srv\<lparr>sv_hub := Some hub'\<rparr>))"
        using i l by (auto simp: works_on_def loose_ws)
      ultimately show ?thesis using i by (simp add: quiet_def)
    next
      case True
      let ?f = "\<lambda>c. c\<lparr>cn_ws := Some w, cn_keep_ws := False, cn_state := CS_WS_RECV, cn_http := None\<rparr>"
      let ?srv = "upd_conn i ?f (srv\<lparr>sv_hub := Some hub'\<rparr>)"
      have lf: "loose i (?f (conn_at srv i))" using s by (auto simp: sent_all_def loose_def)
      have w1: "works_on i srv ?srv" using i lf by (auto simp: works_on_def)
      obtain rc2 srv2 where r: "submit_recv i ?srv = (rc2, srv2)" by fastforce
      have i': "i < length (sv_conns ?srv)" using i by simp
      have l': "loose i (conn_at ?srv i)" using lf i by simp
      note w2 = submit_recv_works [OF r i' l']
      have ready: "ws_ready i srv2"
        using w2(1,3) i by (auto simp: ws_ready_def works_on_def)
      have w3: "works_on i srv srv2" using works_on_trans [OF w1 w2(1)] .
      consider "rc = -1" "srv' = srv2" | rc3 where "ws_try_send_pending en drive i srv2 = Some (rc3, srv')"
        using p w h True r by (auto simp: promote_to_ws_def Let_def split: if_splits)
      then show ?thesis
      proof cases
        case 1
        with w3 ready show ?thesis by (simp add: ws_ready_quiet)
      next
        case 2
        from ws_try_send_pending_works [OF this ready d] show ?thesis using works_on_trans [OF w3] by blast
      qed
    qed
  qed
qed

lemma handle_send_complete_works:
  assumes h: "handle_send_complete en drive i srv = Some (rc, srv')" and s: "sent_all i srv" and d: "drives drive"
  shows "works_on i srv srv' \<and> (rc = 0 \<or> cn_ssl (conn_at srv i) \<noteq> None \<longrightarrow> quiet (conn_at srv' i))"
proof -
  have i: "i < length (sv_conns srv)" and l: "loose i (conn_at srv i)" using s by (simp_all add: sent_all_def)
  consider (up) "cn_state (conn_at srv i) = CS_SEND" "cn_keep_ws (conn_at srv i)"
    | (ws) "cn_state (conn_at srv i) = CS_WS_SEND"
    | (other) "\<not> (cn_state (conn_at srv i) = CS_SEND \<and> cn_keep_ws (conn_at srv i))"
        "cn_state (conn_at srv i) \<noteq> CS_WS_SEND" by blast
  then show ?thesis
  proof cases
    case up
    then obtain rc1 where p: "promote_to_ws en drive i srv = Some (rc1, srv')" "rc = 0 \<longrightarrow> rc1 = 0"
      using h by (auto simp: handle_send_complete_def Let_def split: if_splits)
    from promote_works [OF p(1) s d] p(2) show ?thesis by blast
  next
    case ws
    let ?srv = "upd_conn i (\<lambda>c. c\<lparr>cn_state := CS_WS_RECV\<rparr>) srv"
    have lf: "loose i ((conn_at srv i)\<lparr>cn_state := CS_WS_RECV\<rparr>)" using s by (auto simp: sent_all_def loose_def)
    then have r: "ws_ready i ?srv" and w0: "works_on i srv ?srv"
      using i by (simp_all add: ws_ready_def works_on_upd)
    obtain rc1 srv1 where t: "ws_try_send_pending en drive i ?srv = Some (rc1, srv1)"
      using h ws by (cases "ws_try_send_pending en drive i ?srv") (auto simp: handle_send_complete_def Let_def)
    note w1 = ws_try_send_pending_works [OF t r d]
    have i1: "i < length (sv_conns srv1)" "loose i (conn_at srv1 i)" using w1 i by (auto simp: works_on_def)
    have "srv' = srv1 \<or> (\<exists>rc2. submit_recv i srv1 = (rc2, srv'))"
      using h ws t by (auto simp: handle_send_complete_def Let_def split: if_splits prod.splits)
    then have "works_on i srv1 srv' \<and> quiet (conn_at srv' i)"
      using quiet_recv [OF _ i1] w1 i1 works_on_refl by blast
    with w0 w1 works_on_trans show ?thesis by blast
  next
    case other
    then have "srv' = close_conn i srv" using h by (auto simp: handle_send_complete_def Let_def)
    then show ?thesis using close_conn_works [OF i] close_conn_quiet [OF i] by simp
  qed
qed

lemma tls_drive_write_drives:
  fixes en :: "('p, 'w, 's) loop_env"
  shows "drives (tls_drive_write k en :: nat \<Rightarrow> ('p, 'u, 'w, 's) server \<Rightarrow> ('p, 'u, 'w, 's) loop_result)"
proof (induction k)
  case 0
  show ?case by (simp add: drives_def)
next
  case (Suc k)
  show ?case
    unfolding drives_def
  proof (intro allI impI)
    fix i rc and srv srv' :: "('p, 'u, 'w, 's) server"
    assume t: "tls_drive_write (Suc k) en i srv = Some (rc, srv')" and i: "i < length (sv_conns srv)"
      and l: "loose i (conn_at srv i)" and ssl: "cn_ssl (conn_at srv i) \<noteq> None"
    obtain s where s: "cn_ssl (conn_at srv i) = Some s" using ssl by blast
    obtain r s' where e: "edge_tls_write (le_ssl en) s (unsent (conn_at srv i)) = (r, s')" by fastforce
    let ?srv1 = "upd_conn i (\<lambda>c. c\<lparr>cn_ssl := Some s'\<rparr>) srv"
    have l1: "loose i ((conn_at srv i)\<lparr>cn_ssl := Some s'\<rparr>)" using l ssl by (auto simp: loose_def)
    then have w1: "works_on i srv ?srv1" using i by (simp add: works_on_upd)
    show "works_on i srv srv' \<and> quiet (conn_at srv' i)"
    proof (cases "cn_send_off (conn_at srv i) \<ge> cn_send_len (conn_at srv i)")
      case True
      then have "srv' = srv" using t s by simp
      then show ?thesis using l ssl by (simp add: works_on_refl quiet_def)
    next
      case False
      show ?thesis
      proof (cases r)
        case (Sent n)
        let ?srv2 = "upd_conn i (\<lambda>c. c\<lparr>cn_send_off := cn_send_off c + n\<rparr>)
            (count (\<lambda>m. m\<lparr>em_bytes_out := em_bytes_out m + of_nat n\<rparr>) ?srv1)"
        have l2: "loose i (conn_at ?srv2 i)" and i2: "i < length (sv_conns ?srv2)"
          and ssl2: "cn_ssl (conn_at ?srv2 i) \<noteq> None"
          using l1 i by (auto simp: loose_def)
        have w2: "works_on i srv ?srv2" using w1 l2 by (auto simp: works_on_def)
        show ?thesis
        proof (cases "cn_send_off (conn_at ?srv2 i) \<ge> cn_send_len (conn_at ?srv2 i)")
          case True
          then have h: "handle_send_complete en (tls_drive_write k en) i ?srv2 = Some (rc, srv')"
            using t s False e Sent by (simp add: Let_def)
          show ?thesis
          proof (cases "cn_state (conn_at ?srv2 i) = CS_FREE")
            case free: True
            then have c: "srv' = close_conn i ?srv2" using h by (auto simp: handle_send_complete_def Let_def)
            have "works_on i ?srv2 srv'" "quiet (conn_at srv' i)"
              unfolding c using close_conn_works [OF i2] close_conn_quiet [OF i2] by blast+
            with w2 show ?thesis using works_on_trans by blast
          next
            case False
            then have "sent_all i ?srv2" using True l2 i2 ssl2 by (auto simp: sent_all_def loose_def)
            from handle_send_complete_works [OF h this Suc.IH] ssl2
            have "works_on i ?srv2 srv'" "quiet (conn_at srv' i)" by blast+
            with w2 show ?thesis using works_on_trans by blast
          qed
        next
          case more: False
          then have "tls_drive_write k en i ?srv2 = Some (rc, srv')"
            using t s False e Sent by (simp add: Let_def)
          from drivesD [OF Suc.IH this i2 l2 ssl2] w2 works_on_trans show ?thesis by blast
        qed
      next
        case (Sent_Want ww)
        then have p: "submit_poll i ww ?srv1 = (rc, srv')" using t s False e by (simp add: Let_def)
        have "works_on i ?srv1 srv'" "cn_ssl (conn_at srv' i) = cn_ssl (conn_at ?srv1 i)"
          using submit_poll_works [OF p] i l1 by simp_all
        with w1 i works_on_trans show ?thesis by (auto simp: quiet_def)
      next
        case Sent_Error
        then have "srv' = ?srv1" using t s False e by (simp add: Let_def)
        with w1 i show ?thesis by (simp add: quiet_def)
      qed
    qed
  qed
qed

end
