(* ===== verification/Http1_Speaks.thy ===== *)
theory Http1_Speaks
  imports Http1_Framing
begin

text \<open>
  What the server loop relies on: an answer of \<open>edge_http1_serve_feed\<close> is never empty, whatever
  the store holds, so there is always something to send for it. The argument is that of
  \<open>Http1_Framing\<close> with a weaker property that needs no assumption on the store.
\<close>

definition speaks :: "serve_rc \<Rightarrow> bool" where
  "speaks rc \<longleftrightarrow> rc \<noteq> Answered []"

lemma speaks_trivial [simp]: "speaks Hard_Error" "speaks Not_Answered" "speaks (Answered out) = (out \<noteq> [])"
  by (simp_all add: speaks_def)

lemma built_nonempty:
  "build_response_ex cap status reason ctype extra body n \<noteq> Some []"
  "build_response cap status r c b n \<noteq> Some []"
  by (auto simp: build_response_def build_response_ex_def header_block_def Let_def split: option.splits prod.splits)

lemma speaks_finish [simp]:
  "speaks (fst (finish (build_response_ex cap status reason ctype extra body n) m st))"
  "speaks (fst (finish (build_response cap status r c b n) m st))"
  by (auto simp: finish_def built_nonempty split: option.split)

lemma speaks_responses [simp]:
  "speaks (fst (respond m cap status r c b n))" "speaks (fst (respond_json m cap status r b n))"
  "speaks (fst (deny_unauthorized m cap))" "speaks (fst (deny_forbidden m cap))"
  by (simp_all add: respond_json_def respond_def deny_unauthorized_def deny_forbidden_def)

lemma speaks_small [simp]:
  "speaks (fst (respond_err m cap er))" "speaks (fst (require_rbac s res m cap))"
  "speaks (fst (method_not_allowed m cap))" "speaks (fst (bad_key m cap))"
  "speaks (fst (no_content m cap))" "speaks (fst (not_found_text m cap))"
  by (simp_all add: respond_err_def require_rbac_def method_not_allowed_def bad_key_def no_content_def
      not_found_text_def split: prod.split)

lemma static_nonempty: "try_static fs mem root url mf cap \<noteq> Some []"
  by (auto simp: try_static_def Let_def built_nonempty split: option.splits prod.splits)

lemma upgrade_nonempty: "edge_ws_build_101 key cap \<noteq> Some []"
  by (auto simp: edge_ws_build_101_def Let_def split: option.splits)

lemma gate_speaks: "require_rbac s res m cap = (gate, m1) \<Longrightarrow> speaks gate"
  by (metis fst_conv speaks_small(2))

lemma speaks_session [simp]:
  "speaks (fst (dispatch_lab_login en s m cap))" "speaks (fst (dispatch_auth_me s m cap))"
  by (auto simp: dispatch_lab_login_def dispatch_auth_me_def Let_def split: option.splits prod.splits)

lemma speaks_stream [simp]: "speaks (fst (dispatch_stream en s m cap))"
  by (auto simp: dispatch_stream_def Let_def upgrade_nonempty split: option.splits prod.splits dest: gate_speaks)

lemma speaks_state_parts [simp]:
  "speaks (fst (state_get_list s st sp m cap))" "speaks (fst (state_get_value s st sp m cap))"
  "speaks (fst (state_put en s st sp m cap))" "speaks (fst (state_delete en s st sp m cap))"
  by (auto simp: state_get_list_def state_get_value_def state_put_def state_delete_def Let_def
      split: option.split prod.split)

lemma speaks_state [simp]: "speaks (fst (dispatch_state en s m cap))"
  by (auto simp: dispatch_state_def Let_def split: option.splits prod.splits dest: gate_speaks)

lemma speaks_call [simp]: "speaks (fst (call_plugin en s ph env pl m cap))"
  unfolding call_plugin_def Let_def split_beta
  by (simp del: split_paired_All split_paired_Ex)

lemma speaks_plugins [simp]: "speaks (fst (dispatch_plugins en s m cap))"
proof (cases "hs_plugins s")
  case None
  then show ?thesis by (simp add: dispatch_plugins_def)
next
  case (Some x)
  obtain ph env where x: "x = (ph, env)" by fastforce
  show ?thesis
    unfolding dispatch_plugins_def Some x option.case prod.case Let_def split_beta
    by (simp split: option.split)
qed

lemma speaks_get [simp]: "speaks (fst (dispatch_get en s m cap))"
proof -
  have "speaks (fst (dispatch_health en s m cap))"
    unfolding dispatch_health_def by (simp split: option.split)
  moreover have "speaks (fst (dispatch_packages en s suffix m cap))" for suffix
    unfolding dispatch_packages_def Let_def split_beta by (auto simp: static_nonempty split: option.split)
  moreover have "speaks (fst (dispatch_spa en s m cap))"
    unfolding dispatch_spa_def Let_def by (auto simp: static_nonempty split: option.split)
  ultimately show ?thesis unfolding dispatch_get_def by (simp split: option.split)
qed

lemma speaks_dispatch: "dispatch en s m cap = (rc, s', m') \<Longrightarrow> speaks rc"
proof (erule route_cases)
  show "dispatch_lab_login en s m cap = (rc, s', m') \<Longrightarrow> speaks rc" by (metis fst_conv speaks_session(1))
  show "dispatch_auth_me s0 m cap = (rc, s', m') \<Longrightarrow> speaks rc" for s0 by (metis fst_conv speaks_session(2))
  show "dispatch_plugins en s0 m cap = (rc, s', m') \<Longrightarrow> speaks rc" for s0 by (metis fst_conv speaks_plugins)
  show "dispatch_stream en s0 m cap = (rc, s', m') \<Longrightarrow> speaks rc" for s0 by (metis fst_conv speaks_stream)
  show "dispatch_state en s0 m cap = (rc, s', m') \<Longrightarrow> speaks rc" for s0 by (metis fst_conv speaks_state)
  show "dispatch_get en s0 m0 cap = (rc, s', m') \<Longrightarrow> speaks rc" for s0 m0 by (metis fst_conv speaks_get)
qed

lemma marked_speaks: "mark_done r = (rc, s', m') \<Longrightarrow> speaks (fst r) \<Longrightarrow> speaks rc"
  using mark_done_fst [of r] by simp

lemma speaks_feed_events:
  assumes "feed_events en (bad, s) m cap = (rc, s', m')"
  shows "speaks rc"
proof -
  obtain full s1 where w: "wait_full_body s = (full, s1)" by fastforce
  have "speaks (fst (dispatch en x y cap))" for x y by (metis prod_cases3 fst_conv speaks_dispatch)
  with assms show ?thesis
    by (auto simp: feed_events_def w split: if_splits elim!: marked_speaks)
qed

lemma feed_speaks:
  assumes "edge_http1_serve_feed en s data m cap = Some (rc, s', m')"
  shows "speaks rc"
  using assms
proof (cases rule: feed_cases)
  case quiet
  then show ?thesis by auto
next
  case (large m1)
  from large(1) show ?thesis by (rule marked_speaks) simp
next
  case (events bad s1 m1)
  then show ?thesis using speaks_feed_events by blast
qed

end
