(* ===== verification/Iouring_Armed.thy ===== *)
theory Iouring_Armed
  imports Iouring_Spec Http1_Speaks
begin

text \<open>
  The invariant of \<open>Iouring_Spec\<close> for the whole server: each handler keeps it for its own slot
  and for the others, each turn of the loop keeps it, and the start of the server establishes it.
\<close>

section \<open>The server between two turns\<close>

text \<open>\<open>fine_but i\<close>: every slot but \<open>i\<close> is armed; \<open>fine\<close>: all are. A slot number fits the 31 bits
  its field of the user data can hold.\<close>

definition slot_fine :: "('p, 'u, 'w, 's) server \<Rightarrow> nat \<Rightarrow> bool" where
  "slot_fine srv j \<longleftrightarrow> loose j (conn_at srv j) \<and> armed j (conn_at srv j) (ring_uds srv)"

definition fine_but :: "nat \<Rightarrow> ('p, 'u, 'w, 's) server \<Rightarrow> bool" where
  "fine_but i srv \<longleftrightarrow>
     length (sv_conns srv) < 2 ^ 31 \<and> (\<forall>j < length (sv_conns srv). j \<noteq> i \<longrightarrow> slot_fine srv j)"

definition fine :: "('p, 'u, 'w, 's) server \<Rightarrow> bool" where
  "fine srv \<longleftrightarrow> length (sv_conns srv) < 2 ^ 31 \<and> (\<forall>j < length (sv_conns srv). slot_fine srv j)"

lemma fine_split: "i < length (sv_conns srv) \<Longrightarrow> fine srv \<longleftrightarrow> fine_but i srv \<and> slot_fine srv i"
  by (auto simp: fine_def fine_but_def)

lemma fine_slot: "fine srv \<Longrightarrow> i < length (sv_conns srv) \<Longrightarrow> loose i (conn_at srv i)"
  by (simp add: fine_def slot_fine_def)

lemma fine_but_works: "fine_but i srv \<Longrightarrow> works_on i srv srv' \<Longrightarrow> fine_but i srv'"
  by (auto simp: fine_but_def works_on_def slot_fine_def intro: armed_mono)

text \<open>Everything a server keeps of the invariant depends on its connections and its ring only.\<close>

lemma fine_cong:
  assumes "sv_conns srv' = sv_conns srv" "ring_uds srv \<subseteq> ring_uds srv'"
  shows "fine_but i srv \<Longrightarrow> fine_but i srv'" "fine srv \<Longrightarrow> fine srv'"
  using assms by (auto simp: fine_but_def fine_def slot_fine_def conn_at_def intro: armed_mono)

text \<open>What a handler of slot \<open>i\<close> may leave behind: with return value 0 a good server; otherwise
  one that is good after the connection is closed.\<close>

definition serves :: "nat \<Rightarrow> int \<times> ('p, 'u, 'w, 's) server \<Rightarrow> bool" where
  "serves i r \<longleftrightarrow>
     i < length (sv_conns (snd r)) \<and> fine_but i (snd r) \<and> (fst r = 0 \<longrightarrow> slot_fine (snd r) i)"

text \<open>Before the handler: its own slot is in order, but maybe not armed.\<close>

definition serving :: "nat \<Rightarrow> ('p, 'u, 'w, 's) server \<Rightarrow> bool" where
  "serving i srv \<longleftrightarrow> i < length (sv_conns srv) \<and> fine_but i srv \<and> loose i (conn_at srv i)"

lemma serves_works:
  assumes "serving i srv" "works_on i srv srv'" "rc = 0 \<Longrightarrow> armed i (conn_at srv' i) (ring_uds srv')"
  shows "serves i (rc, srv')"
  using assms fine_but_works by (auto simp: serves_def serving_def slot_fine_def works_on_def)

lemma serving_works: "serving i srv \<Longrightarrow> works_on i srv srv' \<Longrightarrow> serving i srv'"
  using fine_but_works by (auto simp: serving_def works_on_def)

lemma serving_upd: "serving i srv \<Longrightarrow> loose i (f (conn_at srv i)) \<Longrightarrow> serving i (upd_conn i f srv)"
  by (rule serving_works, assumption) (simp add: serving_def works_on_upd)

lemma serving_same:
  assumes "serving i srv" "sv_conns srv' = sv_conns srv" "ring_uds srv \<subseteq> ring_uds srv'"
  shows "serving i srv'"
  using assms fine_cong(1) [OF assms(2,3)] by (auto simp: serving_def conn_at_def)

lemma close_fine: "serving i srv \<or> serves i (rc, srv) \<Longrightarrow> fine (close_conn i srv)"
proof -
  assume "serving i srv \<or> serves i (rc, srv)"
  then have i: "i < length (sv_conns srv)" and b: "fine_but i srv" by (auto simp: serving_def serves_def)
  note w = close_conn_works [OF i]
  have "armed i (conn_at (close_conn i srv) i) U" for U
    using close_conn_quiet [OF i] by (rule quiet_armed)
  with w have "slot_fine (close_conn i srv) i" by (simp add: slot_fine_def works_on_def)
  moreover have "i < length (sv_conns (close_conn i srv))" using w i by (simp add: works_on_def)
  ultimately show ?thesis using fine_split fine_but_works [OF b] w by blast
qed

lemma close_if_failed_fine:
  assumes "close_if_failed i r = Some srv'" "\<And>rc s. r = Some (rc, s) \<Longrightarrow> serves i (rc, s)"
  shows "fine srv'"
proof -
  obtain rc s where r: "r = Some (rc, s)" and s: "srv' = (if rc \<noteq> 0 then close_conn i s else s)"
    using assms(1) by (auto simp: close_if_failed_def)
  from assms(2) [OF r] have v: "serves i (rc, s)" .
  show ?thesis
  proof (cases "rc = 0")
    case True
    then show ?thesis using v s fine_split [of i s] by (simp add: serves_def)
  next
    case False
    then show ?thesis using s close_fine [of i s rc] v by simp
  qed
qed

text \<open>The fan-out to all WebSocket connections keeps a good server good.\<close>

lemma flush_slots_fine:
  assumes "ws_flush_slots en is srv = Some srv'" "fine srv" "\<forall>i\<in>set is. i < length (sv_conns srv)"
  shows "fine srv' \<and> length (sv_conns srv') = length (sv_conns srv)"
  using assms
proof (induction "is" arbitrary: srv)
  case Nil
  then show ?case by simp
next
  case (Cons i "is")
  let ?due = "cn_state (conn_at srv i) = CS_WS_RECV \<and> cn_ws (conn_at srv i) \<noteq> None \<and>
      (case sv_hub srv of None \<Rightarrow> False | Some h \<Rightarrow> edge_ws_hub_is_subscribed h (cn_slot (conn_at srv i)))"
  show ?case
  proof (cases ?due)
    case False
    have "ws_flush_slots en is srv = Some srv'" using Cons.prems(1)
      unfolding ws_flush_slots.simps Let_def if_not_P [OF False] .
    with Cons show ?thesis by simp
  next
    case True
    then obtain rc srv1 where t: "ws_try_send_pending en (drive_of en) i srv = Some (rc, srv1)"
      and f: "ws_flush_slots en is srv1 = Some srv'"
      using Cons.prems(1) unfolding ws_flush_slots.simps Let_def if_P [OF True]
      by (auto split: option.splits)
    have i: "i < length (sv_conns srv)" using Cons.prems(3) by simp
    have "ws_ready i srv" using True i fine_slot [OF Cons.prems(2) i] by (simp add: ws_ready_def)
    from ws_try_send_pending_works [OF t this tls_drive_write_drives]
    have w: "works_on i srv srv1" and q: "quiet (conn_at srv1 i)" by blast+
    have l: "length (sv_conns srv1) = length (sv_conns srv)" using w by (simp add: works_on_def)
    have "serving i srv" using Cons.prems(2) i fine_split [OF i] by (auto simp: serving_def slot_fine_def)
    then have "serves i (0, srv1)" using w q by (intro serves_works) (simp_all add: quiet_armed)
    then have "fine srv1" using fine_split [of i srv1] by (simp add: serves_def)
    with Cons.IH [OF f] l Cons.prems(3) show ?thesis by simp
  qed
qed

lemma flush_all_fine: "ws_flush_all_pending en srv = Some srv' \<Longrightarrow> fine srv \<Longrightarrow> fine srv'"
  unfolding ws_flush_all_pending_def using flush_slots_fine [of en "[0..<length (sv_conns srv)]" srv srv'] by auto

section \<open>The handlers\<close>

lemma bad_request_serves:
  assumes b: "begin_bad_request_plain drive i srv = Some (rc, srv')" and s: "serving i srv" and d: "drives drive"
    and st: "cn_state (conn_at srv i) = CS_RECV"
  shows "serves i (rc, srv')"
proof -
  let ?srv = "count (\<lambda>m. m\<lparr>em_requests := em_requests m + 1, em_responses_4xx := em_responses_4xx m + 1\<rparr>) srv"
  have i: "i < length (sv_conns srv)" and l: "loose i (conn_at srv i)" using s by (simp_all add: serving_def)
  have np: "\<not> cn_send_pending (conn_at srv i)" using l st by (auto simp: loose_def)
  note b = b [unfolded begin_bad_request_plain_def Let_def]
  show ?thesis
  proof (cases "cn_send_buf (conn_at srv i) = None \<or> length bad_request_text \<ge> cn_send_cap (conn_at srv i)")
    case True
    with b have "rc = -1" "srv' = srv" by (simp_all only: if_True option.inject prod.inject)
    then show ?thesis using s by (simp add: serves_def serving_def)
  next
    case False
    with b have 2: "begin_send_buf drive i bad_request_text CS_SEND ?srv = Some (rc, srv')" by (simp only: if_False)
    have s': "serving i ?srv" using s by (rule serving_same) simp_all
    have "bad_request_text \<noteq> []" by (simp add: bad_request_text_def)
    moreover note w = begin_send_works [OF 2 _ _ _ _ d]
    ultimately show ?thesis using i l np st by (intro serves_works [OF s']) auto
  qed
qed

lemma return_shared_works:
  assumes "i < length (sv_conns srv)" "loose i (conn_at srv i)"
  shows "works_on i srv (return_shared i h m srv)"
    "conn_at (return_shared i h m srv) i = (conn_at srv i)\<lparr>cn_http := Some h\<rparr>"
  using assms by (auto simp: return_shared_def works_on_def ring_uds_def upd_conn_def conn_at_def loose_def)

lemma recv_serves:
  assumes "submit_recv i srv = (rc, srv')" "serving i srv"
    "\<not> cn_recv_pending (conn_at srv i) \<or> quiet (conn_at srv i)" "cn_state (conn_at srv i) \<in> {CS_RECV, CS_WS_RECV}"
  shows "serves i (rc, srv')"
proof (rule serves_works [OF assms(2)])
  have i: "i < length (sv_conns srv)" and l: "loose i (conn_at srv i)" using assms(2) by (simp_all add: serving_def)
  show "works_on i srv srv'" using submit_recv_works [OF assms(1) i l] by blast
  show "armed i (conn_at srv' i) (ring_uds srv')" if "rc = 0"
  proof (cases "quiet (conn_at srv i)")
    case True
    then show ?thesis using quiet_recv [OF assms(1) i l] by (simp add: quiet_armed)
  next
    case False
    then show ?thesis using submit_recv_arms [of i srv srv'] assms that i l by blast
  qed
qed

lemma poll_serves:
  assumes "submit_poll i ww srv = (rc, srv')" "serving i srv" "cn_ssl (conn_at srv i) \<noteq> None"
  shows "serves i (rc, srv')"
proof (rule serves_works [OF assms(2)])
  have i: "i < length (sv_conns srv)" and l: "loose i (conn_at srv i)" using assms(2) by (simp_all add: serving_def)
  note w = submit_poll_works [OF assms(1) i l assms(3)]
  show "works_on i srv srv'" by (rule w)
  show "armed i (conn_at srv' i) (ring_uds srv')" using w(2) assms(3) by (intro quiet_armed) (simp add: quiet_def)
qed

lemma http_bytes_serves:
  fixes srv :: "('p, 'u, 'w, 's) server"
  assumes h: "handle_http_bytes en i data srv = Some (rc, srv')" and s: "serving i srv"
    and st: "cn_state (conn_at srv i) = CS_RECV"
    and r: "\<not> cn_recv_pending (conn_at srv i) \<or> cn_ssl (conn_at srv i) \<noteq> None"
  shows "serves i (rc, srv')"
proof (cases "data = []")
  case True
  then obtain rc1 where b: "begin_bad_request_plain (drive_of en) i srv = Some (rc1, srv')"
    and rc: "rc = (if rc1 \<noteq> 0 then -1 else 0)"
    using h by (auto simp: handle_http_bytes_def)
  from bad_request_serves [OF b s tls_drive_write_drives st] rc show ?thesis
    by (auto simp: serves_def split: if_splits)
next
  case data: False
  have i: "i < length (sv_conns srv)" and l: "loose i (conn_at srv i)" using s by (simp_all add: serving_def)
  have lost: "serves i (-1, x)" if "serving i x" for x :: "('p, 'u, 'w, 's) server"
    using that by (simp add: serves_def serving_def)
  show ?thesis
  proof (cases "cn_http (conn_at srv i)")
    case None
    then show ?thesis using h data s lost by (simp add: handle_http_bytes_def)
  next
    case (Some x)
    let ?feed = "edge_http1_serve_feed (le_http en) (lend_shared srv x) data (Some (sv_metrics srv))
        (cn_send_cap (conn_at srv i))"
    obtain ans x' m where f: "?feed = Some (ans, x', m)"
      using h data Some by (cases ?feed) (auto simp: handle_http_bytes_def)
    let ?srv1 = "return_shared i x' m srv"
    note w1 = return_shared_works [OF i l, of x' m]
    have s1: "serving i ?srv1" using serving_works [OF s w1(1)] .
    show ?thesis
    proof (cases ans)
      case Hard_Error
      then show ?thesis using h data Some f s1 lost by (simp add: handle_http_bytes_def Let_def)
    next
      case Not_Answered
      then have "submit_recv i ?srv1 = (rc, srv')" using h data Some f by (simp add: handle_http_bytes_def Let_def)
      then show ?thesis by (rule recv_serves [OF _ s1]) (use st r w1 in \<open>auto simp: quiet_def\<close>)
    next
      case (Answered out)
      then have out: "out \<noteq> []" using feed_speaks [OF f] by simp
      let ?srv2 = "upd_conn i (\<lambda>c. c\<lparr>cn_keep_ws := edge_http1_serve_took_ws_upgrade x'\<rparr>) ?srv1"
      have l2: "loose i ((conn_at ?srv1 i)\<lparr>cn_keep_ws := edge_http1_serve_took_ws_upgrade x'\<rparr>)"
        using w1(2) l by (simp add: loose_def)
      have s2: "serving i ?srv2" by (rule serving_upd [OF s1]) (rule l2)
      have "i < length (sv_conns ?srv1)" using s1 by (simp add: serving_def)
      then have c2: "cn_state (conn_at ?srv2 i) = CS_RECV" using w1(2) st by simp
      obtain rc2 srv3 where b: "begin_send_buf (drive_of en) i out CS_SEND ?srv2 = Some (rc2, srv3)"
        using h data Some f Answered
        by (cases "begin_send_buf (drive_of en) i out CS_SEND ?srv2") (auto simp: handle_http_bytes_def Let_def)
      have i2: "i < length (sv_conns ?srv2)" "loose i (conn_at ?srv2 i)"
        using s2 unfolding serving_def by blast+
      have np: "\<not> cn_send_pending (conn_at ?srv2 i)" "cn_state (conn_at ?srv2 i) \<noteq> CS_FREE"
        using i2(2) c2 by (auto simp: loose_def)
      note w3 = begin_send_works [OF b i2 np(2,1) tls_drive_write_drives]
      have v3: "serves i (rc2, srv3)" using w3 out by (intro serves_works [OF s2]) auto
      have s3: "serving i srv3" using serving_works [OF s2] w3 by blast
      have "(rc, srv') = (-1, srv3) \<or> rc2 = 0 \<and> (rc, srv') = (0, srv3) \<or>
          rc2 = 0 \<and> rc = 0 \<and> ws_flush_all_pending en srv3 = Some srv'"
        using h data Some f Answered b by (auto simp: handle_http_bytes_def Let_def split: if_splits)
      then show ?thesis
      proof (elim disjE conjE)
        assume "(rc, srv') = (-1, srv3)"
        then show ?thesis using lost [OF s3] by simp
      next
        assume "rc2 = 0" "(rc, srv') = (0, srv3)"
        then show ?thesis using v3 by simp
      next
        assume a: "rc2 = 0" "rc = 0" and fl: "ws_flush_all_pending en srv3 = Some srv'"
        have f3: "fine srv3" using v3 a fine_split [of i srv3] by (simp add: serves_def)
        from fl have "fine srv' \<and> length (sv_conns srv') = length (sv_conns srv3)"
          unfolding ws_flush_all_pending_def using f3 by (intro flush_slots_fine) auto
        then show ?thesis using a v3 fine_split [of i srv'] by (simp add: serves_def)
      qed
    qed
  qed
qed

end
