(* ===== verification/Iouring_Invariant.thy ===== *)
theory Iouring_Invariant
  imports Iouring_Armed
begin

text \<open>
  The invariant for the completions, for a turn of the loop, for a run and for the start of the
  server, and the property it gives: a plain connection that waits for its request or has an
  answer to send has its operation in the kernel.
\<close>

section \<open>WebSocket and TLS handlers\<close>

lemma ws_ready_still: "ws_ready i srv \<Longrightarrow> works_on i srv srv \<and> quiet (conn_at srv i)"
  by (simp add: ws_ready_quiet works_on_refl ws_ready_def)

lemma serving_ws_ready: "serving i srv \<Longrightarrow> cn_state (conn_at srv i) = CS_WS_RECV \<Longrightarrow> ws_ready i srv"
  by (simp add: ws_ready_def serving_def)

lemma ws_recv_works:
  assumes h: "handle_ws_recv en i data srv = Some (rc, srv')" and r: "ws_ready i srv"
  shows "works_on i srv srv' \<and> quiet (conn_at srv' i)"
proof (cases "cn_ws (conn_at srv i)")
  case None
  then have "srv' = srv" using h by (simp add: handle_ws_recv_def)
  then show ?thesis using ws_ready_still [OF r] by blast
next
  case (Some w)
  obtain failed w1 where e: "ws_drain_events en (le_ws_feed_input en w data) = Some (failed, w1)"
    using h Some by (cases "ws_drain_events en (le_ws_feed_input en w data)") (auto simp: handle_ws_recv_def)
  let ?srv = "set_ws i w1 (count (\<lambda>m. m\<lparr>em_bytes_in := em_bytes_in m + of_nat (length data)\<rparr>) srv)"
  have r0: "ws_ready i (count f srv)" for f using r by (simp add: ws_ready_def)
  have w0: "works_on i srv (count f srv)" for f using r by (simp add: ws_ready_def works_on_def)
  have r1: "ws_ready i ?srv" using ws_ready_set [OF r0] .
  have "works_on i srv ?srv"
    by (rule works_on_trans [OF w0]) (use r0 in \<open>auto simp: ws_ready_def intro: set_ws_works\<close>)
  moreover have "works_on i ?srv srv' \<and> quiet (conn_at srv' i)"
  proof (cases "\<exists>rc1. ws_flush_output en (drive_of en) i ?srv = Some (rc1, srv')")
    case True
    then show ?thesis using ws_flush_output_works [OF _ r1 tls_drive_write_drives] by blast
  next
    case False
    then have "srv' = ?srv" using h Some e by (auto simp: handle_ws_recv_def Let_def split: if_splits)
    then show ?thesis using ws_ready_still [OF r1] by blast
  qed
  ultimately show ?thesis using works_on_trans by blast
qed

lemma serves_quiet: "serving i srv \<Longrightarrow> works_on i srv srv' \<Longrightarrow> quiet (conn_at srv' i) \<Longrightarrow> serves i (rc, srv')"
  by (rule serves_works) (simp_all add: quiet_armed)

lemma serves_failed: "serving i srv \<Longrightarrow> rc \<noteq> 0 \<Longrightarrow> serves i (rc, srv)"
  by (simp add: serves_def serving_def)

lemma serves_still: "serving i srv \<Longrightarrow> quiet (conn_at srv i) \<Longrightarrow> serves i (rc, srv)"
  by (simp add: serves_def serving_def slot_fine_def quiet_armed)

lemma serving_ssl:
  assumes "serving i srv" "cn_ssl (conn_at srv i) \<noteq> None"
  shows "serving i (upd_conn i (\<lambda>c. c\<lparr>cn_ssl := Some s\<rparr>) srv)"
  by (rule serving_upd [OF assms(1)]) (use assms in \<open>auto simp: serving_def loose_def\<close>)

lemma tls_poll_serves:
  fixes srv :: "('p, 'u, 'w, 's) server"
  assumes h: "handle_tls_poll en i srv = Some (rc, srv')" and s: "serving i srv"
    and ssl: "cn_ssl (conn_at srv i) \<noteq> None"
  shows "serves i (rc, srv')"
proof -
  obtain t where t: "cn_ssl (conn_at srv i) = Some t" using ssl by blast
  have i: "i < length (sv_conns srv)" and l: "loose i (conn_at srv i)" using s by (simp_all add: serving_def)
  have q: "quiet (conn_at srv i)" using ssl by (simp add: quiet_def)
  consider (hs) "cn_state (conn_at srv i) = CS_TLS_HS"
    | (recv) "cn_state (conn_at srv i) \<in> {CS_RECV, CS_WS_RECV}"
    | (send) "cn_state (conn_at srv i) \<in> {CS_SEND, CS_WS_SEND}"
    | (other) "cn_state (conn_at srv i) \<notin> {CS_TLS_HS, CS_RECV, CS_WS_RECV, CS_SEND, CS_WS_SEND}" by blast
  then show ?thesis
  proof cases
    case hs
    obtain n ww t' where e: "edge_tls_handshake (le_ssl en) t = (n, ww, t')" by (metis prod_cases3)
    let ?srv1 = "upd_conn i (\<lambda>c. c\<lparr>cn_ssl := Some t'\<rparr>) srv"
    let ?srv2 = "upd_conn i (\<lambda>c. c\<lparr>cn_state := CS_RECV\<rparr>) ?srv1"
    have s1: "serving i ?srv1" using serving_ssl [OF s ssl] .
    have s2: "serving i ?srv2"
      by (rule serving_upd [OF s1]) (use l hs i in \<open>auto simp: loose_def\<close>)
    have "submit_recv i ?srv2 = (rc, srv') \<or> submit_poll i ww ?srv1 = (rc, srv') \<or> (rc = -1 \<and> srv' = ?srv1)"
      using h t hs e by (auto simp: handle_tls_poll_def Let_def split: if_splits)
    then show ?thesis
    proof (elim disjE conjE)
      assume "submit_recv i ?srv2 = (rc, srv')"
      then show ?thesis by (rule recv_serves [OF _ s2]) (use i in \<open>auto simp: quiet_def\<close>)
    next
      assume "submit_poll i ww ?srv1 = (rc, srv')"
      then show ?thesis by (rule poll_serves [OF _ s1]) (use i in simp)
    next
      assume "rc = -1" "srv' = ?srv1"
      then show ?thesis using s1 by (simp add: serves_failed)
    qed
  next
    case recv
    obtain r t' where e: "edge_tls_read (le_ssl en) t recv_buf_size = (r, t')" by fastforce
    let ?srv1 = "upd_conn i (\<lambda>c. c\<lparr>cn_ssl := Some t'\<rparr>) srv"
    have s1: "serving i ?srv1" using serving_ssl [OF s ssl] .
    have c1: "cn_ssl (conn_at ?srv1 i) \<noteq> None" "cn_state (conn_at ?srv1 i) = cn_state (conn_at srv i)"
      using i by simp_all
    note h1 = h [unfolded handle_tls_poll_def Let_def t option.case e prod.case]
    show ?thesis
    proof (cases r)
      case (Tls_Bytes bs)
      show ?thesis
      proof (cases "cn_state (conn_at srv i) = CS_WS_RECV")
        case True
        have r1: "ws_ready i ?srv1" using serving_ws_ready [OF s1] c1 True by argo
        obtain rc2 srv2 where w: "handle_ws_recv en i bs ?srv1 = Some (rc2, srv2)"
          using h1 True Tls_Bytes by (cases "handle_ws_recv en i bs ?srv1") auto
        note w2 = ws_recv_works [OF w r1]
        have s2: "serving i srv2" using serving_works [OF s1] w2 by blast
        have "srv' = srv2 \<or> submit_recv i srv2 = (rc, srv')" "rc = 0 \<or> rc \<noteq> 0"
          using h1 True Tls_Bytes w by (auto split: if_splits)
        then show ?thesis
          using serves_still [OF s2] w2 quiet_recv [of i srv2 rc srv'] serves_quiet [OF s2] s2
          unfolding serving_def by blast
      next
        case False
        then have st: "cn_state (conn_at srv i) = CS_RECV" using recv by simp
        then have "handle_http_bytes en i bs ?srv1 = Some (rc, srv')" using h1 Tls_Bytes by simp
        from http_bytes_serves [OF this s1] st c1 show ?thesis by simp
      qed
    next
      case (Tls_Want ww)
      then have "submit_poll i ww ?srv1 = (rc, srv')" using h1 recv by auto
      then show ?thesis by (rule poll_serves [OF _ s1 c1(1)])
    next
      case Tls_Eof
      then have "rc = -1 \<and> srv' = ?srv1 \<or> cn_state (conn_at srv i) = CS_RECV \<and>
          begin_bad_request_plain (drive_of en) i ?srv1 = Some (rc, srv')"
        using h1 recv by (auto split: if_splits)
      then show ?thesis
      proof (elim disjE conjE)
        assume "rc = -1" "srv' = ?srv1"
        then show ?thesis using s1 by (simp add: serves_failed)
      next
        assume st: "cn_state (conn_at srv i) = CS_RECV"
          and b: "begin_bad_request_plain (drive_of en) i ?srv1 = Some (rc, srv')"
        show ?thesis using bad_request_serves [OF b s1 tls_drive_write_drives] st c1 by simp
      qed
    next
      case Tls_Error
      then have "rc = -1 \<and> srv' = ?srv1" using h1 recv by auto
      then show ?thesis using s1 by (simp add: serves_failed)
    qed
  next
    case send
    then have "drive_of en i srv = Some (rc, srv')" using h t by (auto simp: handle_tls_poll_def)
    from drivesD [OF tls_drive_write_drives this i l ssl] show ?thesis by (rule serves_quiet [OF s])
  next
    case other
    then have "rc = 0 \<and> srv' = srv" using h t by (auto simp: handle_tls_poll_def)
    then show ?thesis using serves_still [OF s q] by simp
  qed
qed

section \<open>Completions\<close>

lemma complete_op_keeps: "q \<in> set qs \<Longrightarrow> sq_ud q \<noteq> ud \<Longrightarrow> q \<in> set (complete_op ud qs)"
  by (induction qs) auto

text \<open>Taking a completion from the ring disarms the slot it names and no other.\<close>

lemma taken_keeps:
  assumes "slot_fine srv j" "pack_ud OP_RECV (int j) \<noteq> ud \<or> cn_state (conn_at srv j) \<noteq> CS_RECV"
    "pack_ud OP_SEND (int j) \<noteq> ud \<or> cn_state (conn_at srv j) \<noteq> CS_SEND"
  shows "slot_fine (srv\<lparr>sv_inflight := complete_op ud (sv_inflight srv)\<rparr>) j"
proof -
  have "ring_uds srv - {ud} \<subseteq> ring_uds (srv\<lparr>sv_inflight := complete_op ud (sv_inflight srv)\<rparr>)"
    using complete_op_keeps by (fastforce simp: ring_uds_def)
  then show ?thesis using assms by (auto simp: slot_fine_def armed_def)
qed

lemma op_pack_range:
  assumes "op \<in> {OP_RECV, OP_SEND}" "j < 2 ^ 31"
  shows "unpack_ud (pack_ud op (int j)) = (op, int j)"
  using assms by (intro unpack_pack) (auto simp: op_defs)

lemma taken_serving:
  assumes f: "fine srv" and u: "unpack_ud ud = (op, slot)"
  defines "srv0 \<equiv> srv\<lparr>sv_inflight := complete_op ud (sv_inflight srv)\<rparr>"
  shows "op \<notin> {OP_RECV, OP_SEND} \<Longrightarrow> fine srv0"
    "slot_of srv slot = None \<Longrightarrow> fine srv0"
    "slot_of srv slot = Some i \<Longrightarrow> serving i srv0"
    "slot_of srv slot = Some i \<Longrightarrow> op = OP_RECV \<Longrightarrow> cn_state (conn_at srv i) \<noteq> CS_RECV \<Longrightarrow> slot_fine srv0 i"
proof -
  have same: "sv_conns srv0 = sv_conns srv" "conn_at srv0 j = conn_at srv j" for j by (simp_all add: srv0_def)
  have len: "length (sv_conns srv) < 2 ^ 31" using f by (simp add: fine_def)
  have ne: "pack_ud op' (int j) \<noteq> ud" if "op' \<in> {OP_RECV, OP_SEND}" "j < length (sv_conns srv)"
      "op' \<noteq> op \<or> int j \<noteq> slot" for op' j
    using op_pack_range [of op' j] that len u by auto
  have other: "slot_fine srv0 j" if "j < length (sv_conns srv)" "int j \<noteq> slot" for j
    unfolding srv0_def using f that ne [of OP_RECV j] ne [of OP_SEND j]
    by (intro taken_keeps) (auto simp: fine_def)
  show "fine srv0" if "op \<notin> {OP_RECV, OP_SEND}"
  proof -
    have "slot_fine srv0 j" if "j < length (sv_conns srv)" for j
      unfolding srv0_def using f that \<open>op \<notin> {OP_RECV, OP_SEND}\<close> ne [of OP_RECV j] ne [of OP_SEND j]
      by (intro taken_keeps) (auto simp: fine_def)
    then show ?thesis using len same by (simp add: fine_def)
  qed
  show "fine srv0" if "slot_of srv slot = None"
  proof -
    have "int j \<noteq> slot" if "j < length (sv_conns srv)" for j
      using \<open>slot_of srv slot = None\<close> that by (auto simp: slot_of_def split: if_splits)
    then show ?thesis using len same other by (simp add: fine_def)
  qed
  have slot: "i < length (sv_conns srv)" "slot = int i" if "slot_of srv slot = Some i"
    using that by (auto simp: slot_of_def split: if_splits)
  show "serving i srv0" if "slot_of srv slot = Some i"
    using slot [OF that] other len same fine_slot [OF f] by (auto simp: serving_def fine_but_def)
  show "slot_fine srv0 i"
    if "slot_of srv slot = Some i" "op = OP_RECV" "cn_state (conn_at srv i) \<noteq> CS_RECV"
    unfolding srv0_def using f slot [OF that(1)] that ne [of OP_SEND i]
    by (intro taken_keeps) (auto simp: fine_def op_defs)
qed

lemma on_recv_fine:
  assumes h: "on_recv en i res data srv = Some srv'" and s: "serving i srv"
    and w: "cn_state (conn_at srv i) \<noteq> CS_RECV \<Longrightarrow> slot_fine srv i"
  shows "fine srv'"
proof -
  let ?srv1 = "upd_conn i (\<lambda>c. c\<lparr>cn_recv_pending := False\<rparr>) srv"
  have i: "i < length (sv_conns srv)" and l: "loose i (conn_at srv i)" using s by (simp_all add: serving_def)
  have s1: "serving i ?srv1" by (rule serving_upd [OF s]) (use l in \<open>simp add: loose_recv\<close>)
  have c1: "cn_state (conn_at ?srv1 i) = cn_state (conn_at srv i)" "\<not> cn_recv_pending (conn_at ?srv1 i)"
    using i by simp_all
  note h1 = h [unfolded on_recv_def Let_def]
  consider (ws) "cn_state (conn_at srv i) = CS_WS_RECV" | (recv) "cn_state (conn_at srv i) = CS_RECV"
    | (other) "cn_state (conn_at srv i) \<notin> {CS_WS_RECV, CS_RECV}" by blast
  then show ?thesis
  proof cases
    case ws
    have r1: "ws_ready i ?srv1" using serving_ws_ready [OF s1] ws c1 by argo
    show ?thesis
    proof (cases "res \<le> 0")
      case True
      then show ?thesis using h1 ws close_fine s1 by auto
    next
      case False
      then obtain rc2 srv2 where r: "handle_ws_recv en i data ?srv1 = Some (rc2, srv2)"
        using h1 ws by (cases "handle_ws_recv en i data ?srv1") auto
      note w2 = ws_recv_works [OF r r1]
      have s2: "serving i srv2" using serving_works [OF s1] w2 by blast
      have v2: "serves i (rc, srv2)" for rc using serves_quiet [OF s1] w2 by blast
      have "srv' = close_conn i srv2 \<or> srv' = srv2 \<or> close_if_failed i (Some (submit_recv i srv2)) = Some srv'"
        using h1 ws False r by (auto split: if_splits)
      then show ?thesis
      proof (elim disjE)
        assume "srv' = close_conn i srv2"
        then show ?thesis using close_fine s2 by blast
      next
        assume "srv' = srv2"
        then show ?thesis using v2 [of 0] fine_split [of i srv2] by (simp add: serves_def)
      next
        assume c: "close_if_failed i (Some (submit_recv i srv2)) = Some srv'"
        show ?thesis
        proof (rule close_if_failed_fine [OF c])
          fix rc t
          assume "Some (submit_recv i srv2) = Some (rc, t)"
          then show "serves i (rc, t)"
            using quiet_recv [of i srv2 rc t] w2 s2 serves_quiet [OF s2] unfolding serving_def by blast
        qed
      qed
    qed
  next
    case recv
    show ?thesis
    proof (cases "res < 0")
      case True
      then show ?thesis using h1 recv close_fine s1 by auto
    next
      case False
      then have "close_if_failed i (handle_http_bytes en i data ?srv1) = Some srv'" using h1 recv by simp
      then show ?thesis
      proof (rule close_if_failed_fine)
        show "serves i (rc, t)" if "handle_http_bytes en i data ?srv1 = Some (rc, t)" for rc t
          by (rule http_bytes_serves [OF that s1]) (use c1 recv in argo)+
      qed
    qed
  next
    case other
    then have "srv' = srv" using h1 by (auto split: if_splits)
    then show ?thesis using s w other fine_split [OF i] by (simp add: serving_def)
  qed
qed

lemma on_send_fine:
  fixes srv :: "('p, 'u, 'w, 's) server"
  assumes h: "on_send en i res srv = Some srv'" and s: "serving i srv"
  shows "fine srv'"
proof (cases "cn_state (conn_at srv i) = CS_FREE")
  case True
  then have "srv' = srv" using h by (simp add: on_send_def)
  moreover have "quiet (conn_at srv i)" using True by (simp add: quiet_def)
  ultimately show ?thesis
    using s serves_still [OF s, of 0] fine_split [of i srv] by (simp add: serving_def serves_def)
next
  case used: False
  let ?srv1 = "upd_conn i (\<lambda>c. c\<lparr>cn_send_pending := False\<rparr>) srv"
  let ?srv1' = "count (\<lambda>m. m\<lparr>em_bytes_out := em_bytes_out m + of_int res\<rparr>) ?srv1"
  let ?srv2 = "upd_conn i (\<lambda>c. c\<lparr>cn_send_off := cn_send_off c + nat res\<rparr>) ?srv1'"
  have i: "i < length (sv_conns srv)" and l: "loose i (conn_at srv i)" using s by (simp_all add: serving_def)
  have s1: "serving i ?srv1" by (rule serving_upd [OF s]) (use l in \<open>auto simp: loose_def\<close>)
  have s1': "serving i ?srv1'" using s1 by (rule serving_same) simp_all
  have s2: "serving i ?srv2"
    by (rule serving_upd [OF s1']) (use l i in \<open>auto simp: loose_def\<close>)
  have c2: "cn_state (conn_at ?srv2 i) = cn_state (conn_at srv i)" "\<not> cn_send_pending (conn_at ?srv2 i)"
    using i by simp_all
  have i2: "i < length (sv_conns ?srv2)" "loose i (conn_at ?srv2 i)"
    using s2 unfolding serving_def by blast+
  note h1 = h [unfolded on_send_def Let_def if_not_P [OF used]]
  show ?thesis
  proof (cases "res < 0")
    case True
    then show ?thesis using h1 close_fine s1 by auto
  next
    case ok: False
    show ?thesis
    proof (cases "cn_send_off (conn_at ?srv2 i) \<ge> cn_send_len (conn_at ?srv2 i)")
      case True
      with h1 ok have "close_if_failed i (handle_send_complete en (drive_of en) i ?srv2) = Some srv'"
        by (simp only: if_True if_False)
      then show ?thesis
      proof (rule close_if_failed_fine)
        fix rc t
        assume t: "handle_send_complete en (drive_of en) i ?srv2 = Some (rc, t)"
        have "cn_state (conn_at ?srv2 i) \<noteq> CS_FREE" using used c2(1) by simp
        then have "sent_all i ?srv2" using i2 c2(2) True unfolding sent_all_def by blast
        from handle_send_complete_works [OF t this tls_drive_write_drives]
        show "serves i (rc, t)" by (intro serves_works [OF s2]) (auto simp: quiet_armed)
      qed
    next
      case False
      with h1 ok have "close_if_failed i (submit_send (drive_of en) i ?srv2) = Some srv'"
        by (simp only: if_False)
      then show ?thesis
      proof (rule close_if_failed_fine)
        fix rc t
        assume t: "submit_send (drive_of en) i ?srv2 = Some (rc, t)"
        have "cn_state (conn_at ?srv2 i) \<in> {CS_SEND, CS_WS_SEND}"
          using i2(2) False used c2(1) by (auto simp: loose_def)
        note w = submit_send_works [OF t i2 tls_drive_write_drives this]
        from w(1,4) False c2(2) show "serves i (rc, t)" by (intro serves_works [OF s2]) auto
      qed
    qed
  qed
qed

lemma on_poll_fine:
  fixes srv :: "('p, 'u, 'w, 's) server"
  assumes h: "on_poll en i res srv = Some srv'" and s: "serving i srv" and f: "fine srv"
  shows "fine srv'"
proof (cases "cn_state (conn_at srv i) = CS_FREE")
  case True
  then show ?thesis using h f by (simp add: on_poll_def)
next
  case used: False
  let ?srv1 = "upd_conn i (\<lambda>c. c\<lparr>cn_poll_pending := False\<rparr>) srv"
  have i: "i < length (sv_conns srv)" and l: "loose i (conn_at srv i)" using s by (simp_all add: serving_def)
  have s1: "serving i ?srv1" by (rule serving_upd [OF s]) (use l in \<open>auto simp: loose_def\<close>)
  note h1 = h [unfolded on_poll_def Let_def if_not_P [OF used]]
  show ?thesis
  proof (cases "res < 0")
    case True
    then show ?thesis using h1 close_fine s1 by auto
  next
    case ok: False
    show ?thesis
    proof (cases "cn_ssl (conn_at ?srv1 i) = None")
      case True
      then have "srv' = ?srv1" using h1 ok by simp
      moreover have "slot_fine ?srv1 i" using f i l by (auto simp: fine_def slot_fine_def armed_def loose_def)
      ultimately show ?thesis using s1 fine_split [of i ?srv1] by (simp add: serving_def)
    next
      case False
      then have "close_if_failed i (handle_tls_poll en i ?srv1) = Some srv'" using h1 ok by simp
      then show ?thesis by (rule close_if_failed_fine) (rule tls_poll_serves [OF _ s1 False])
    qed
  qed
qed

section \<open>Accepting\<close>

text \<open>\<open>alloc_conn\<close> finds no slot, or readies one that was free.\<close>

lemma alloc_conn_cases:
  assumes "alloc_conn en srv = (r, srv1)" "fine srv"
  obtains "r = None" "srv1 = srv"
  | i where "serving i srv1" "quiet (conn_at srv i)" "cn_fd (conn_at srv1 i) = None" "cn_ssl (conn_at srv1 i) = None"
      "cn_state (conn_at srv1 i) = CS_RECV" "\<not> cn_recv_pending (conn_at srv1 i)" "r = None \<or> r = Some i"
proof (cases "find_first (\<lambda>c. cn_state c = CS_FREE) (sv_conns srv)")
  case None
  then show ?thesis using assms that by (simp add: alloc_conn_def)
next
  case (Some i)
  then have i: "i < length (sv_conns srv)" "cn_state (conn_at srv i) = CS_FREE"
    by (auto simp: conn_at_def dest: find_first_SomeD)
  let ?c = "(free_conn (int i))\<lparr>cn_state := CS_RECV, cn_send_cap := sv_send_cap srv\<rparr>"
  obtain c where e: "srv1 = upd_conn i (\<lambda>_. c) srv" "r = None \<or> r = Some i"
    and c: "loose i c" "cn_fd c = None" "cn_ssl c = None" "cn_state c = CS_RECV" "\<not> cn_recv_pending c"
  proof (cases "le_mem_send_buf en")
    case False
    then show ?thesis
      using assms(1) Some that [of ?c] by (simp add: alloc_conn_def Let_def loose_def free_conn_def)
  next
    case True
    then show ?thesis
      using assms(1) Some that [of ?c] that [of "?c\<lparr>cn_send_buf := Some [], cn_http := new_http en srv\<rparr>"]
      by (cases "new_http en srv") (simp_all add: alloc_conn_def Let_def loose_def free_conn_def)
  qed
  have s: "serving i srv" using assms(2) i fine_split [OF i(1)] fine_slot [OF assms(2) i(1)] by (simp add: serving_def)
  have "serving i srv1" unfolding e by (rule serving_upd [OF s]) (rule c)
  then show ?thesis by (rule that(2)) (use e i c in \<open>auto simp: quiet_def\<close>)
qed

lemma or_close_fine: "serves i (rc, t) \<Longrightarrow> fine (if rc \<noteq> 0 then close_conn i t else t)"
  using close_fine [of i t rc] fine_split [of i t] by (auto simp: serves_def)

lemma accept_one_fine:
  fixes srv :: "('p, 'u, 'w, 's) server"
  assumes h: "accept_one en fd srv = (rc, srv')" and f: "fine srv"
  shows "fine srv'"
proof (cases "fd < 0 \<or> \<not> le_set_nonblock en fd")
  case True
  then have "srv' = srv" using h by (auto simp: accept_one_def split: if_splits)
  then show ?thesis using f by simp
next
  case False
  obtain r srv1 where a: "alloc_conn en srv = (r, srv1)" by fastforce
  show ?thesis
  proof (cases r)
    case None
    then have e: "srv' = count (\<lambda>m. m\<lparr>em_rejects := em_rejects m + 1\<rparr>) srv1"
      using h False a by (auto simp: accept_one_def)
    have "fine srv1"
      using a f
    proof (cases rule: alloc_conn_cases)
      case 1
      then show ?thesis using f by simp
    next
      case (2 i)
      then have "slot_fine srv1 i" by (simp add: slot_fine_def armed_def serving_def)
      then show ?thesis using 2(1) fine_split [of i srv1] by (simp add: serving_def)
    qed
    then show ?thesis unfolding e by (rule fine_cong(2) [rotated 2]) simp_all
  next
    case (Some i)
    from a f have s1: "serving i srv1" "cn_ssl (conn_at srv1 i) = None" "cn_state (conn_at srv1 i) = CS_RECV"
      "\<not> cn_recv_pending (conn_at srv1 i)"
      by (cases rule: alloc_conn_cases; use Some in auto)+
    let ?srv2 = "count (\<lambda>m. m\<lparr>em_accepts := em_accepts m + 1, em_active_conns := em_active_conns m + 1\<rparr>)
        ((upd_conn i (\<lambda>c. c\<lparr>cn_fd := Some fd\<rparr>) srv1)\<lparr>sv_accepts_done := sv_accepts_done srv1 + 1\<rparr>)"
    have i1: "i < length (sv_conns srv1)" and l1: "loose i (conn_at srv1 i)" using s1(1) by (simp_all add: serving_def)
    have "serving i (upd_conn i (\<lambda>c. c\<lparr>cn_fd := Some fd\<rparr>) srv1)"
      by (rule serving_upd [OF s1(1)]) (use l1 in \<open>simp add: loose_def\<close>)
    then have s2: "serving i ?srv2" by (rule serving_same) simp_all
    have c2: "conn_at ?srv2 i = (conn_at srv1 i)\<lparr>cn_fd := Some fd\<rparr>" using i1 by simp
    have i2: "i < length (sv_conns ?srv2)" using i1 by simp
    note h1 = h [unfolded accept_one_def Let_def if_not_P [OF False [unfolded de_Morgan_disj, THEN conjunct1]]
        if_not_P [OF False [unfolded de_Morgan_disj, THEN conjunct2]] a Some prod.case option.case]
    define srv2 where "srv2 = ?srv2"
    note h2 = h1 [folded srv2_def]
    note s2 = s2 [folded srv2_def] and c2 = c2 [folded srv2_def] and i2 = i2 [folded srv2_def]
    show ?thesis
    proof (cases "sv_tls_ctx srv2")
      case None
      obtain rc1 t where r: "submit_recv i srv2 = (rc1, t)" by fastforce
      then have e: "srv' = (if rc1 \<noteq> 0 then close_conn i t else t)" using h2 None by (auto split: if_splits)
      have "serves i (rc1, t)" by (rule recv_serves [OF r s2]) (use c2 s1 in simp_all)
      then show ?thesis unfolding e by (rule or_close_fine)
    next
      case (Some ctx)
      show ?thesis
      proof (cases "edge_tls_conn_new_fd (le_ssl en) (Some ctx) (Some (le_socket en fd))")
        case None
        then have "srv' = close_conn i srv2" using h2 Some by simp
        then show ?thesis using close_fine s2 by blast
      next
        case ssl: (Some ssl)
        obtain hr ww ssl' where e: "edge_tls_handshake (le_ssl en) ssl = (hr, ww, ssl')" by (metis prod_cases3)
        define srv3 where "srv3 = upd_conn i (\<lambda>c. c\<lparr>cn_ssl := Some ssl', cn_state := CS_TLS_HS\<rparr>) srv2"
        have s3: "serving i srv3" unfolding srv3_def
          by (rule serving_upd [OF s2]) (use l1 c2 s1 in \<open>auto simp: loose_def\<close>)
        have c3: "conn_at srv3 i = (conn_at srv2 i)\<lparr>cn_ssl := Some ssl', cn_state := CS_TLS_HS\<rparr>"
          using i2 by (simp add: srv3_def)
        note h3 = h2 [unfolded Some option.case ssl e prod.case, folded srv3_def]
        define srv4 where "srv4 = upd_conn i (\<lambda>c. c\<lparr>cn_state := CS_RECV\<rparr>) srv3"
        have i3: "i < length (sv_conns srv3)" and l3: "loose i (conn_at srv3 i)" using s3 by (simp_all add: serving_def)
        have s4: "serving i srv4" unfolding srv4_def
          by (rule serving_upd [OF s3]) (use l3 c3 in \<open>auto simp: loose_def\<close>)
        have c4: "cn_ssl (conn_at srv4 i) = Some ssl'" "cn_state (conn_at srv4 i) = CS_RECV"
          using i3 c3 by (simp_all add: srv4_def)
        obtain rc1 t where p: "submit_poll i ww srv3 = (rc1, t)" by fastforce
        obtain rc2 t2 where r: "submit_recv i srv4 = (rc2, t2)" by fastforce
        have v1: "serves i (rc1, t)" by (rule poll_serves [OF p s3]) (simp add: c3)
        have v2: "serves i (rc2, t2)" by (rule recv_serves [OF r s4]) (simp_all add: c4 quiet_def)
        have "srv' = (if rc2 \<noteq> 0 then close_conn i t2 else t2) \<or> srv' = (if rc1 \<noteq> 0 then close_conn i t else t) \<or>
            srv' = close_conn i srv3"
          using h3 p r unfolding srv4_def by (auto split: if_splits)
        then show ?thesis using or_close_fine [OF v1] or_close_fine [OF v2] close_fine s3 by blast
      qed
    qed
  qed
qed

section \<open>A turn of the loop\<close>

lemma submit_accept_fine: "fine srv \<Longrightarrow> fine (snd (submit_accept fd srv))"
  by (erule fine_cong(2) [rotated 2]) (auto simp: submit_accept_def ring_put_def ring_uds_def split: option.split)

lemma on_accept_fine:
  assumes "fine srv"
  shows "fine (on_accept en fd res srv)"
proof -
  let ?srv1 = "srv\<lparr>sv_accept_pending := False\<rparr>"
  have "fine ?srv1" by (rule fine_cong(2) [OF _ _ assms]) simp_all
  moreover obtain rc t where "accept_one en res ?srv1 = (rc, t)" by fastforce
  ultimately show ?thesis using accept_one_fine [of en res ?srv1 rc t]
    by (simp add: on_accept_def Let_def submit_accept_fine)
qed

lemma on_completion_fine:
  assumes h: "on_completion en fd ud res data (srv\<lparr>sv_inflight := complete_op ud (sv_inflight srv)\<rparr>) = Some srv'"
    and f: "fine srv"
  shows "fine srv'"
proof -
  define srv0 where "srv0 = srv\<lparr>sv_inflight := complete_op ud (sv_inflight srv)\<rparr>"
  obtain op slot where u: "unpack_ud ud = (op, slot)" by fastforce
  note t = taken_serving [OF f u, folded srv0_def]
  have same: "slot_of srv0 slot = slot_of srv slot" "conn_at srv0 j = conn_at srv j" for j
    by (simp_all add: slot_of_def srv0_def)
  note h1 = h [folded srv0_def, unfolded on_completion_def u prod.case Let_def]
  show ?thesis
  proof (cases "op = OP_ACCEPT")
    case True
    then have "fine srv0" using t(1) by (simp add: op_defs)
    then show ?thesis using h1 True on_accept_fine by auto
  next
    case other: False
    show ?thesis
    proof (cases "slot_of srv slot")
      case None
      then show ?thesis using h1 other t(2) same by simp
    next
      case (Some i)
      note s = t(3) [OF Some]
      consider (recv) "op = OP_RECV" "on_recv en i res data srv0 = Some srv'"
        | (send) "op = OP_SEND" "on_send en i res srv0 = Some srv'"
        | (poll) "op = OP_POLL" "on_poll en i res srv0 = Some srv'"
        | (none) "op \<notin> {OP_RECV, OP_SEND}" "srv' = srv0"
        using h1 other Some same by (auto split: if_splits)
      then show ?thesis
      proof cases
        case recv
        then show ?thesis using on_recv_fine [OF recv(2) s] t(4) [OF Some recv(1)] same by simp
      next
        case send
        then show ?thesis using on_send_fine [OF send(2) s] by simp
      next
        case poll
        then have "fine srv0" using t(1) by (simp add: op_defs)
        then show ?thesis using on_poll_fine [OF poll(2) s] by simp
      next
        case none
        then show ?thesis using t(1) by simp
      qed
    qed
  qed
qed

lemma scrape_tick_fine:
  assumes "scrape_tick en srv = Some srv'" "fine srv"
  shows "fine srv'"
proof -
  have "fine s'" if "sv_conns s' = sv_conns srv" "sv_sq s' = sv_sq srv" "sv_inflight s' = sv_inflight srv"
    for s' :: "('a, 'b, 'c, 'd) server"
    by (rule fine_cong(2) [OF that(1) _ assms(2)]) (simp add: ring_uds_def that)
  with assms show ?thesis
    by (auto simp: scrape_tick_def Let_def split: if_splits prod.splits elim!: flush_all_fine)
qed

text \<open>Between two turns everything prepared is in the kernel.\<close>

definition idle :: "('p, 'u, 'w, 's) server \<Rightarrow> bool" where
  "idle srv \<longleftrightarrow> fine srv \<and> sv_sq srv = []"

lemma submit_idle: "fine srv \<Longrightarrow> idle (io_uring_submit srv)"
proof -
  assume "fine srv"
  then have "fine (io_uring_submit srv)"
    by (rule fine_cong(2) [rotated 2]) (auto simp: io_uring_submit_def ring_uds_def)
  then show ?thesis by (simp add: idle_def io_uring_submit_def)
qed

lemma loop_turn_idle:
  assumes "loop_turn en fd stop w srv = Some (None, srv')" "idle srv"
  shows "idle srv'"
proof (cases w)
  case Wait_Timeout
  then obtain srv1 srv2 where "ws_flush_all_pending en srv = Some srv1" "scrape_tick en srv1 = Some srv2"
    "srv' = io_uring_submit srv2"
    using assms(1) by (auto simp: loop_turn_def split: if_splits option.splits)
  then show ?thesis using assms(2) flush_all_fine scrape_tick_fine submit_idle unfolding idle_def by blast
next
  case Wait_Eintr
  then show ?thesis using assms by (simp add: loop_turn_def split: if_splits)
next
  case Wait_Error
  then show ?thesis using assms by (simp add: loop_turn_def split: if_splits)
next
  case (Wait_Cqe ud res data)
  then obtain srv1 where
    "on_completion en fd ud res data (srv\<lparr>sv_inflight := complete_op ud (sv_inflight srv)\<rparr>) = Some srv1"
    "srv' = io_uring_submit srv1"
    using assms(1) by (auto simp: loop_turn_def split: if_splits)
  then show ?thesis using assms(2) on_completion_fine submit_idle unfolding idle_def by blast
qed

lemma loop_run_step:
  assumes "loop_run fd ((en, stop, w) # ts) srv = Some (None, srv')"
  obtains srv1 where "loop_turn en fd stop w srv = Some (None, srv1)" "loop_run fd ts srv1 = Some (None, srv')"
proof (cases "loop_turn en fd stop w srv")
  case None
  with assms show ?thesis by simp
next
  case (Some r)
  with assms that show ?thesis by (cases r; cases "fst r") simp_all
qed

lemma loop_run_idle: "loop_run fd turns srv = Some (None, srv') \<Longrightarrow> idle srv \<Longrightarrow> idle srv'"
proof (induction turns arbitrary: srv)
  case Nil
  then show ?case by simp
next
  case (Cons turn ts)
  obtain en stop w where t: "turn = (en, stop, w)" by (metis prod_cases3)
  from Cons.prems(1) [unfolded t] show ?case
  proof (rule loop_run_step)
    fix srv1
    assume "loop_turn en fd stop w srv = Some (None, srv1)" "loop_run fd ts srv1 = Some (None, srv')"
    then show ?case using Cons.IH Cons.prems(2) loop_turn_idle by blast
  qed
qed

lemma guardE: "(if b then None else x) = Some y \<Longrightarrow> (x = Some y \<Longrightarrow> P) \<Longrightarrow> P"
  by (simp split: if_split_asm)

lemma foundE: "(case x of None \<Rightarrow> None | Some z \<Rightarrow> f z) = Some y \<Longrightarrow> (\<And>z. x = Some z \<Longrightarrow> f z = Some y \<Longrightarrow> P) \<Longrightarrow> P"
  by (simp split: option.split_asm)

lemma submittedE:
  "(case x of (rc, s) \<Rightarrow> if rc \<noteq> (0 :: int) then None else Some (fd, g s)) = Some (fd', s') \<Longrightarrow>
   (\<And>s. x = (0, s) \<Longrightarrow> fd' = fd \<Longrightarrow> s' = g s \<Longrightarrow> P) \<Longrightarrow> P"
  by (simp split: prod.split_asm if_split_asm)

lemma start_idle:
  fixes srv :: "('p, 'u, 'w, 's) server"
  assumes h: "edge_iouring_start sn cfg opts = Some (fd, srv)"
    and n: "\<And>x. opts = Some x \<Longrightarrow> io_max_conns x < 2 ^ 31"
  shows "idle srv"
proof -
  define n' where "n' = (let x = (case opts of Some x \<Rightarrow> x | None \<Rightarrow> edge_iouring_opts_defaults)
    in if io_max_conns x > 0 then nat (io_max_conns x) else 64)"
  have small: "n' < 2 ^ 31" using n by (auto simp: n'_def edge_iouring_opts_defaults_def split: option.split)
  obtain srv0 srv1 :: "('p, 'u, 'w, 's) server" where s: "sv_conns srv0 = map (\<lambda>i. free_conn (int i)) [0 ..< n']"
      "submit_accept fd srv0 = (0, srv1)" "srv = io_uring_submit srv1"
    using h unfolding edge_iouring_start_def Let_def
  proof (elim foundE guardE submittedE, goal_cases)
    case (1 c fd' s)
    show thesis
      by (rule that [OF _ 1(4) [folded 1(5)] 1(6)]) (simp add: n'_def Let_def)
  qed
  have "loose i (conn_at srv0 i) \<and> quiet (conn_at srv0 i)" if "i < n'" for i
    using that s(1) by (simp add: conn_at_def loose_def quiet_def free_conn_def)
  then have "fine srv0" using small s(1) by (simp add: fine_def slot_fine_def quiet_armed)
  then show ?thesis using submit_accept_fine [of srv0 fd] submit_idle s by simp
qed

section \<open>The properties of the loop\<close>

text \<open>A server with one slot, its first client on descriptor 5.\<close>

definition demo_start :: start_env where
  "demo_start =
     \<lparr>sn_time = 0, sn_mem_store = True, sn_mem_ns = (\<lambda>n. True), sn_mem_hub = True, sn_mem_conns = True,
      sn_ssl_files = \<lparr>sf_ctx_new = True, sf_cert_ok = (\<lambda>f. True), sf_key_ok = (\<lambda>f. True),
         sf_pair_ok = (\<lambda>c k. True), sf_ca_ok = (\<lambda>f. True)\<rparr>,
      sn_listen = (\<lambda>c b. Some 3), sn_ring = (\<lambda>n. True)\<rparr>"

definition demo_ssl :: "unit ssl_ops" where
  "demo_ssl =
     \<lparr>ss_new_fd = (\<lambda>c b h s. None), ss_handshake = (\<lambda>s. (SSL_OK (), s)),
      ss_read = (\<lambda>s n. (SSL_FAIL 0 SSL_ERROR_ZERO_RETURN, s)),
      ss_write = (\<lambda>s t n. (SSL_FAIL 0 SSL_ERROR_OTHER, s)), ss_poll = (\<lambda>s w n. (1, s))\<rparr>"

definition demo_loop :: "(demo_parser, unit, unit) loop_env" where
  "demo_loop =
     \<lparr>le_http = demo_env, le_ws_create = Some (), le_ws_feed_input = (\<lambda>w s. w),
      le_ws_next_event = (\<lambda>w. None), le_ws_send_pong = (\<lambda>w s. (True, w)),
      le_ws_send_text = (\<lambda>w s. (True, w)), le_ws_get_output = (\<lambda>w n. ([], w)), le_ssl = demo_ssl,
      le_socket = (\<lambda>fd. ()), le_set_nonblock = (\<lambda>fd. True), le_mem_send_buf = True, le_mem_http = True,
      le_mem_pq = (True, True), le_fuel = 10\<rparr>"

definition demo_opts :: "unit iouring_opts" where
  "demo_opts = edge_iouring_opts_defaults\<lparr>io_max_conns := 1\<rparr>"

definition demo_server :: "(demo_parser, unit, unit, unit) server" where
  "demo_server = snd (the (edge_iouring_start demo_start (Some edge_config_defaults) (Some demo_opts)))"

lemma demo_started:
  "edge_iouring_start demo_start (Some edge_config_defaults) (Some demo_opts) = Some (3, demo_server)"
  "sv_conns demo_server = [free_conn 0]" "sv_tls_ctx demo_server = None" "sv_sq demo_server = []"
  "sv_entries demo_server = 256" "sv_max_accepts demo_server = 0"
  by (simp_all add: demo_server_def edge_iouring_start_def demo_start_def demo_opts_def
      edge_iouring_opts_defaults_def edge_config_defaults_def edge_tls_config_enabled_def
      edge_ws_hub_create_def submit_accept_def ring_put_def io_uring_submit_def Let_def)

definition demo_turns :: "((demo_parser, unit, unit) loop_env \<times> (bool \<times> bool) \<times> wait_result) list" where
  "demo_turns = [(demo_loop, (False, False), Wait_Cqe (pack_ud OP_ACCEPT 0) 5 [])]"

text \<open>C21: No request is forgotten. After any number of turns of the loop, whatever the kernel, the
  clients, the parser and the allocations did, a plain connection that waits for its request
  has a receive in the kernel, and one with an answer to send has a send there.\<close>

theorem waiting_armed:
  assumes "edge_iouring_start sn cfg opts = Some (fd, srv0)"
    and "\<And>x. opts = Some x \<Longrightarrow> io_max_conns x < 2 ^ 31"
    and "loop_run fd turns srv0 = Some (None, srv)"
    and "i < length (sv_conns srv)" "cn_fd (conn_at srv i) \<noteq> None" "cn_ssl (conn_at srv i) = None"
  shows "cn_state (conn_at srv i) \<noteq> CS_TLS_HS \<and>
    (cn_state (conn_at srv i) = CS_RECV \<longrightarrow>
       cn_recv_pending (conn_at srv i) \<and> pack_ud OP_RECV (int i) \<in> sq_ud ` set (sv_inflight srv)) \<and>
    (cn_state (conn_at srv i) = CS_SEND \<longrightarrow>
       cn_send_pending (conn_at srv i) \<and> pack_ud OP_SEND (int i) \<in> sq_ud ` set (sv_inflight srv))"
proof -
  have "idle srv" using loop_run_idle [OF assms(3) start_idle [OF assms(1,2)]] .
  then show ?thesis using assms(4-6) by (auto simp: idle_def fine_def slot_fine_def armed_def ring_uds_def)
qed

lemma first_accept:
  fixes srv :: "(demo_parser, 'u, unit, unit) server"
  assumes s: "sv_conns srv = free_conn 0 # cs" "sv_tls_ctx srv = None" "sv_sq srv = []" "sv_entries srv = 256"
    "sv_max_accepts srv = 0"
  obtains srv' where "loop_run 3 demo_turns srv = Some (None, srv')" "length (sv_conns srv') = Suc (length cs)"
    "cn_fd (conn_at srv' 0) = Some 5" "cn_ssl (conn_at srv' 0) = None" "cn_state (conn_at srv' 0) = CS_RECV"
    "cn_http (conn_at srv' 0) \<noteq> None"
proof -
  have u: "unpack_ud (pack_ud OP_ACCEPT 0) = (OP_ACCEPT, 0)" by (rule unpack_pack) (simp_all add: op_defs)
  have stop: "\<not> should_stop False srv" by (simp add: should_stop_def s)
  have nonblock: "le_set_nonblock demo_loop fd" for fd by (simp add: demo_loop_def)
  have new: "new_http demo_loop s \<noteq> None" for s
    by (simp add: new_http_def Let_def demo_loop_def demo_env_def edge_http1_serve_create_def)
  let ?srv = "srv\<lparr>sv_inflight := complete_op (pack_ud OP_ACCEPT 0) (sv_inflight srv)\<rparr>"
  obtain h where h: "alloc_conn demo_loop (?srv\<lparr>sv_accept_pending := False\<rparr>) =
      (Some 0, upd_conn 0 (\<lambda>_. (free_conn 0)\<lparr>cn_state := CS_RECV, cn_send_cap := sv_send_cap srv,
         cn_send_buf := Some [], cn_http := Some h\<rparr>) (?srv\<lparr>sv_accept_pending := False\<rparr>))"
    using new [of "?srv\<lparr>sv_accept_pending := False\<rparr>"]
    by (auto simp: alloc_conn_def s Let_def free_conn_def demo_loop_def)
  have "\<exists>srv'. loop_run 3 demo_turns srv = Some (None, srv') \<and> length (sv_conns srv') = Suc (length cs) \<and>
     cn_fd (conn_at srv' 0) = Some 5 \<and> cn_ssl (conn_at srv' 0) = None \<and> cn_state (conn_at srv' 0) = CS_RECV \<and>
     cn_http (conn_at srv' 0) \<noteq> None"
    unfolding demo_turns_def
    by (simp add: loop_turn_def stop on_completion_def u on_accept_def accept_one_def h Let_def s
        nonblock submit_recv_def submit_accept_def ring_put_def io_uring_submit_def
        upd_conn_def count_def conn_at_def free_conn_def)
  then show thesis using that by blast
qed

theorem waiting_armed_witness:
  "\<exists>srv. loop_run 3 demo_turns demo_server = Some (None, srv) \<and>
     pack_ud OP_RECV 0 \<in> sq_ud ` set (sv_inflight srv)"
proof -
  obtain srv where r: "loop_run 3 demo_turns demo_server = Some (None, srv)" "length (sv_conns srv) = 1"
    "cn_fd (conn_at srv 0) = Some 5" "cn_ssl (conn_at srv 0) = None" "cn_state (conn_at srv 0) = CS_RECV"
    using first_accept [OF demo_started(2-6)] by auto
  have "io_max_conns x < 2 ^ 31" if "Some demo_opts = Some x" for x
    using that by (auto simp: demo_opts_def)
  from waiting_armed [OF demo_started(1) this r(1), of 0] r show ?thesis by simp
qed


definition demo_busy :: "(demo_parser, unit, unit, unit) server" where
  "demo_busy = demo_server
     \<lparr>sv_conns := [(free_conn 0)\<lparr>cn_fd := Some 5, cn_state := CS_WS_SEND, cn_recv_pending := True,
        cn_send_pending := True, cn_send_buf := Some ''hi'', cn_send_len := 2, cn_ws := Some ()\<rparr>],
      sv_inflight := [\<lparr>sq_kind = Sq_Recv, sq_fd = Some 5, sq_ud = pack_ud OP_RECV 0\<rparr>,
        \<lparr>sq_kind = Sq_Send ''hi'', sq_fd = Some 5, sq_ud = pack_ud OP_SEND 0\<rparr>]\<rparr>"


end
