(* ===== verification/Iouring_Guard.thy ===== *)
theory Iouring_Guard
  imports Iouring_Invariant Http1_Access
begin

text \<open>
  Access control in the running server. Every connection's request handler keeps the
  authentication context and the service key the server was started with, and the principal it
  believes in is vouched for under them. Most functions of the loop do not touch a handler at
  all, which \<open>same_http\<close> says; the two that do are \<open>accept_one\<close>, which makes a new one, and
  \<open>handle_http_bytes\<close>, which feeds it.
\<close>

section \<open>Functions that leave the handlers alone\<close>

definition same_http :: "('p, 'u, 'w, 's) server \<Rightarrow> ('p, 'u, 'w, 's) server \<Rightarrow> bool" where
  "same_http srv srv' \<longleftrightarrow>
     sv_auth srv' = sv_auth srv \<and> sv_service_api_key srv' = sv_service_api_key srv \<and>
     sv_store srv' = sv_store srv \<and> length (sv_conns srv') = length (sv_conns srv) \<and>
     (\<forall>j. cn_http (conn_at srv' j) = None \<or> cn_http (conn_at srv' j) = cn_http (conn_at srv j))"

lemma same_http_refl [simp]: "same_http srv srv"
  by (simp add: same_http_def)

lemma same_http_trans: "same_http a b \<Longrightarrow> same_http b c \<Longrightarrow> same_http a c"
  unfolding same_http_def by metis

lemma upd_conn_auth [simp]:
  "sv_auth (upd_conn i f srv) = sv_auth srv" "sv_service_api_key (upd_conn i f srv) = sv_service_api_key srv"
  "sv_auth (count g srv) = sv_auth srv" "sv_service_api_key (count g srv) = sv_service_api_key srv"
  "sv_store (upd_conn i f srv) = sv_store srv" "sv_store (count g srv) = sv_store srv"
  by (simp_all add: upd_conn_def count_def)

text \<open>A server changed in a field that is not about handlers.\<close>

lemma same_http_upd:
  assumes "same_http srv x" "cn_http (f (conn_at x i)) = None \<or> cn_http (f (conn_at x i)) = cn_http (conn_at x i)"
  shows "same_http srv (upd_conn i f x)"
  using assms by (auto simp: same_http_def)

lemma same_http_fields [simp]:
  "same_http srv (count g x) = same_http srv x" "same_http srv (x\<lparr>sv_hub := h\<rparr>) = same_http srv x"
  "same_http srv (x\<lparr>sv_sq := q\<rparr>) = same_http srv x" "same_http srv (x\<lparr>sv_inflight := q\<rparr>) = same_http srv x"
  "same_http srv (x\<lparr>sv_accept_pending := b\<rparr>) = same_http srv x"
  "same_http srv (x\<lparr>sv_accepts_done := n\<rparr>) = same_http srv x"
  "same_http srv (x\<lparr>sv_tick := t\<rparr>) = same_http srv x"
  "same_http srv (x\<lparr>sv_last_scrape_ms := t\<rparr>) = same_http srv x"
  by (simp_all add: same_http_def conn_at_def)

lemma submit_poll_http: "submit_poll i ww srv = (rc, srv') \<Longrightarrow> same_http srv srv'"
  by (erule submit_poll_cases) (auto intro!: same_http_upd)

lemma submit_recv_http: "submit_recv i srv = (rc, srv') \<Longrightarrow> same_http srv srv'"
  by (erule submit_recv_cases) (auto intro!: same_http_upd dest: submit_poll_http)

lemma close_conn_http: "same_http srv (close_conn i srv)"
  by (auto simp: close_conn_def Let_def free_conn_def intro!: same_http_upd)

definition drives_http :: "(nat \<Rightarrow> ('p, 'u, 'w, 's) server \<Rightarrow> ('p, 'u, 'w, 's) loop_result) \<Rightarrow> bool" where
  "drives_http drive \<longleftrightarrow> (\<forall>i srv rc srv'. drive i srv = Some (rc, srv') \<longrightarrow> same_http srv srv')"

lemma drives_httpD: "drives_http drive \<Longrightarrow> drive i srv = Some (rc, srv') \<Longrightarrow> same_http srv srv'"
  by (simp add: drives_http_def)

lemma submit_send_http:
  "submit_send drive i srv = Some (rc, srv') \<Longrightarrow> drives_http drive \<Longrightarrow> same_http srv srv'"
  by (erule submit_send_cases) (auto intro!: same_http_upd dest: drives_httpD)

lemma begin_send_http:
  assumes "begin_send_buf drive i bytes st srv = Some (rc, srv')" "drives_http drive"
  shows "same_http srv srv'"
proof (rule same_http_trans)
  show "same_http srv (upd_conn i (\<lambda>c. c\<lparr>cn_send_buf := Some bytes, cn_send_len := length bytes,
      cn_send_off := 0, cn_state := st\<rparr>) srv)" by (rule same_http_upd) simp_all
qed (use assms submit_send_http in \<open>auto simp: begin_send_buf_def\<close>)

lemma started_http:
  "started (begin_send_buf drive i bytes st srv) = Some (rc, srv') \<Longrightarrow> drives_http drive \<Longrightarrow> same_http srv srv'"
  by (erule startedE) (rule begin_send_http)

lemma set_ws_http [simp]: "same_http srv (set_ws i w x) = same_http srv x"
proof -
  have "cn_http (conn_at (set_ws i w x) j) = cn_http (conn_at x j)" for j by (simp add: set_ws_def)
  then show ?thesis by (simp add: same_http_def) (simp add: set_ws_def)
qed

lemma ws_flush_output_http:
  assumes f: "ws_flush_output en drive i srv = Some (rc, srv')" and d: "drives_http drive"
  shows "same_http srv srv'"
proof (cases "cn_ws (conn_at srv i)")
  case None
  then show ?thesis using f by (simp add: ws_flush_output_def)
next
  case (Some w)
  obtain out w' where o: "le_ws_get_output en w (cn_send_cap (conn_at srv i)) = (out, w')" by fastforce
  have "srv' = srv \<or> srv' = set_ws i w' srv \<or>
      started (begin_send_buf drive i out CS_WS_SEND (set_ws i w' srv)) = Some (rc, srv')"
    using f Some o by (auto simp: ws_flush_output_def Let_def split: if_splits)
  then show ?thesis using started_http [OF _ d] same_http_trans [of srv "set_ws i w' srv"] by auto
qed

lemma ws_try_send_pending_http:
  assumes t: "ws_try_send_pending en drive i srv = Some (rc, srv')" and d: "drives_http drive"
  shows "same_http srv srv'"
proof (cases "cn_ws (conn_at srv i) = None \<or> sv_hub srv = None \<or>
    cn_state (conn_at srv i) = CS_WS_SEND \<or> cn_send_pending (conn_at srv i)")
  case True
  then have "srv' = srv" using t unfolding ws_try_send_pending_def Let_def by (simp split: if_split_asm)
  then show ?thesis by simp
next
  case False
  then obtain rc1 srv1 where f: "ws_flush_output en drive i srv = Some (rc1, srv1)"
    using t by (cases "ws_flush_output en drive i srv") (auto simp: ws_try_send_pending_def Let_def)
  have s1: "same_http srv srv1" using ws_flush_output_http [OF f d] .
  show ?thesis
  proof (cases "rc1 \<noteq> 0 \<or> sv_hub srv1 = None \<or> cn_ws (conn_at srv1 i) = None")
    case True
    then have "srv' = srv1"
      using t False f by (auto simp: ws_try_send_pending_def Let_def split: if_splits option.splits)
    then show ?thesis using s1 by simp
  next
    case more: False
    then obtain hub ws where h: "sv_hub srv1 = Some hub" "cn_ws (conn_at srv1 i) = Some ws" by auto
    obtain rc2 msg hub' where k:
      "edge_ws_hub_take_pending hub (cn_slot (conn_at srv i)) EDGE_WS_MSG_MAX = ((rc2, msg), hub')"
      by (metis prod.exhaust)
    let ?srv2 = "srv1\<lparr>sv_hub := Some hub'\<rparr>"
    obtain ok w1 where x: "le_ws_send_text en ws (case msg of None \<Rightarrow> [] | Some t \<Rightarrow> t) = (ok, w1)" by fastforce
    let ?srv3 = "set_ws i w1 ?srv2"
    obtain out w2 where o: "le_ws_get_output en w1 (cn_send_cap (conn_at ?srv3 i)) = (out, w2)" by fastforce
    let ?srv4 = "set_ws i w2 ?srv3"
    have "srv' \<in> {?srv2, ?srv3, ?srv4} \<or> started (begin_send_buf drive i out CS_WS_SEND ?srv4) = Some (rc, srv')"
      using t False f more h k x o
      by (auto simp: ws_try_send_pending_def Let_def split: if_splits)
    then show ?thesis using s1 started_http [OF _ d] same_http_trans [of srv ?srv4 srv'] by auto
  qed
qed

lemma promote_http:
  assumes p: "promote_to_ws en drive i srv = Some (rc, srv')" and d: "drives_http drive"
  shows "same_http srv srv'"
proof (cases "le_ws_create en = None \<or> sv_hub srv = None")
  case True
  then have "srv' = upd_conn i (\<lambda>c. c\<lparr>cn_ws := None\<rparr>) srv"
    using p by (auto simp: promote_to_ws_def split: option.splits)
  then show ?thesis by (auto intro!: same_http_upd)
next
  case False
  then obtain w hub where w: "le_ws_create en = Some w" "sv_hub srv = Some hub" by auto
  obtain rc1 hub' where h: "edge_ws_hub_subscribe hub (cn_slot (conn_at srv i)) = (rc1, hub')" by fastforce
  let ?f = "\<lambda>c. c\<lparr>cn_ws := Some w, cn_keep_ws := False, cn_state := CS_WS_RECV, cn_http := None\<rparr>"
  let ?srv = "upd_conn i ?f (srv\<lparr>sv_hub := Some hub'\<rparr>)"
  have s: "same_http srv ?srv" by (rule same_http_upd) simp_all
  obtain rc2 srv2 where r: "submit_recv i ?srv = (rc2, srv2)" by fastforce
  have s2: "same_http srv srv2" using same_http_trans [OF s submit_recv_http [OF r]] .
  have "srv' = upd_conn i (\<lambda>c. c\<lparr>cn_ws := None\<rparr>) (srv\<lparr>sv_hub := Some hub'\<rparr>) \<or> srv' = srv2 \<or>
      (\<exists>rc3. ws_try_send_pending en drive i srv2 = Some (rc3, srv'))"
    using p w h r by (auto simp: promote_to_ws_def Let_def split: if_splits)
  moreover have "same_http srv (upd_conn i (\<lambda>c. c\<lparr>cn_ws := None\<rparr>) (srv\<lparr>sv_hub := Some hub'\<rparr>))"
    by (rule same_http_upd) simp_all
  ultimately show ?thesis using s2 ws_try_send_pending_http [OF _ d] same_http_trans [OF s2] by blast
qed

lemma handle_send_complete_http:
  assumes h: "handle_send_complete en drive i srv = Some (rc, srv')" and d: "drives_http drive"
  shows "same_http srv srv'"
proof -
  consider (up) "cn_state (conn_at srv i) = CS_SEND" "cn_keep_ws (conn_at srv i)"
    | (ws) "cn_state (conn_at srv i) = CS_WS_SEND"
    | (other) "\<not> (cn_state (conn_at srv i) = CS_SEND \<and> cn_keep_ws (conn_at srv i))"
        "cn_state (conn_at srv i) \<noteq> CS_WS_SEND" by blast
  then show ?thesis
  proof cases
    case up
    then show ?thesis using h promote_http [OF _ d] by (auto simp: handle_send_complete_def Let_def split: if_splits)
  next
    case ws
    let ?srv = "upd_conn i (\<lambda>c. c\<lparr>cn_state := CS_WS_RECV\<rparr>) srv"
    obtain rc1 srv1 where t: "ws_try_send_pending en drive i ?srv = Some (rc1, srv1)"
      using h ws by (cases "ws_try_send_pending en drive i ?srv") (auto simp: handle_send_complete_def Let_def)
    have "same_http srv ?srv" by (rule same_http_upd) simp_all
    then have s1: "same_http srv srv1" using ws_try_send_pending_http [OF t d] same_http_trans by blast
    have "srv' = srv1 \<or> (\<exists>rc2. submit_recv i srv1 = (rc2, srv'))"
      using h ws t by (auto simp: handle_send_complete_def Let_def split: if_splits prod.splits)
    then show ?thesis using s1 submit_recv_http same_http_trans by blast
  next
    case other
    then show ?thesis using h close_conn_http by (auto simp: handle_send_complete_def Let_def)
  qed
qed

lemma tls_drive_write_http:
  fixes en :: "('p, 'w, 's) loop_env"
  shows "drives_http (tls_drive_write k en :: nat \<Rightarrow> ('p, 'u, 'w, 's) server \<Rightarrow> ('p, 'u, 'w, 's) loop_result)"
proof (induction k)
  case 0
  show ?case by (simp add: drives_http_def)
next
  case (Suc k)
  show ?case
    unfolding drives_http_def
  proof (intro allI impI)
    fix i rc and srv srv' :: "('p, 'u, 'w, 's) server"
    assume t: "tls_drive_write (Suc k) en i srv = Some (rc, srv')"
    show "same_http srv srv'"
    proof (cases "cn_ssl (conn_at srv i)")
      case None
      then show ?thesis using t by simp
    next
      case (Some s)
      obtain r s' where e: "edge_tls_write (le_ssl en) s (unsent (conn_at srv i)) = (r, s')" by fastforce
      let ?srv1 = "upd_conn i (\<lambda>c. c\<lparr>cn_ssl := Some s'\<rparr>) srv"
      have s1: "same_http srv ?srv1" by (rule same_http_upd) simp_all
      let ?srv2 = "\<lambda>n. upd_conn i (\<lambda>c. c\<lparr>cn_send_off := cn_send_off c + n\<rparr>)
            (count (\<lambda>m. m\<lparr>em_bytes_out := em_bytes_out m + of_nat n\<rparr>) ?srv1)"
      have s2: "same_http srv (?srv2 n)" for n by (rule same_http_upd) (use s1 in simp_all)
      note t1 = t [unfolded tls_drive_write.simps Let_def Some option.case e prod.case]
      show ?thesis
      proof (cases "cn_send_off (conn_at srv i) \<ge> cn_send_len (conn_at srv i)")
        case True
        then show ?thesis using t1 by simp
      next
        case more: False
        show ?thesis
        proof (cases r)
          case (Sent n)
          then have "handle_send_complete en (tls_drive_write k en) i (?srv2 n) = Some (rc, srv') \<or>
              tls_drive_write k en i (?srv2 n) = Some (rc, srv')"
            using t1 more by (simp split: if_split_asm)
          then have "same_http (?srv2 n) srv'"
            using handle_send_complete_http [OF _ Suc.IH] drives_httpD [OF Suc.IH] by blast
          then show ?thesis by (rule same_http_trans [OF s2])
        next
          case (Sent_Want ww)
          then have "submit_poll i ww ?srv1 = (rc, srv')" using t1 more by simp
          then show ?thesis by (intro same_http_trans [OF s1] submit_poll_http)
        next
          case Sent_Error
          then show ?thesis using t1 more s1 by simp
        qed
      qed
    qed
  qed
qed

lemma flush_slots_http: "ws_flush_slots en is srv = Some srv' \<Longrightarrow> same_http srv srv'"
proof (induction "is" arbitrary: srv)
  case (Cons i "is")
  let ?due = "cn_state (conn_at srv i) = CS_WS_RECV \<and> cn_ws (conn_at srv i) \<noteq> None \<and>
      (case sv_hub srv of None \<Rightarrow> False | Some h \<Rightarrow> edge_ws_hub_is_subscribed h (cn_slot (conn_at srv i)))"
  show ?case
  proof (cases ?due)
    case False
    have "ws_flush_slots en is srv = Some srv'" using Cons.prems
      unfolding ws_flush_slots.simps Let_def if_not_P [OF False] .
    then show ?thesis by (rule Cons.IH)
  next
    case True
    then obtain rc srv1 where t: "ws_try_send_pending en (drive_of en) i srv = Some (rc, srv1)"
      and f: "ws_flush_slots en is srv1 = Some srv'"
      using Cons.prems unfolding ws_flush_slots.simps Let_def if_P [OF True]
      by (auto split: option.splits)
    from same_http_trans [OF ws_try_send_pending_http [OF t tls_drive_write_http] Cons.IH [OF f]]
    show ?thesis .
  qed
qed simp

lemma flush_all_http: "ws_flush_all_pending en srv = Some srv' \<Longrightarrow> same_http srv srv'"
  unfolding ws_flush_all_pending_def by (rule flush_slots_http)

section \<open>The invariant\<close>

text \<open>The authentication context asks for credentials.\<close>

definition enforces :: "edge_auth_ctx option \<Rightarrow> bool" where
  "enforces a \<longleftrightarrow> (\<exists>x. a = Some x \<and> edge_auth_mode_enforced (ac_mode x))"

definition vouched :: "('p, 'u, 'w, 's) server \<Rightarrow> ('p, 'u) http1_serve \<Rightarrow> bool" where
  "vouched srv h \<longleftrightarrow>
     hs_auth h = sv_auth srv \<and> hs_service_api_key h = sv_service_api_key srv \<and> principal_backed h"

definition guarded :: "('p, 'u, 'w, 's) server \<Rightarrow> bool" where
  "guarded srv \<longleftrightarrow>
     (\<forall>j < length (sv_conns srv). \<forall>h. cn_http (conn_at srv j) = Some h \<longrightarrow> vouched srv h)"

definition keeps_guard :: "('p, 'u, 'w, 's) server \<Rightarrow> ('p, 'u, 'w, 's) server \<Rightarrow> bool" where
  "keeps_guard srv srv' \<longleftrightarrow>
     sv_auth srv' = sv_auth srv \<and> sv_service_api_key srv' = sv_service_api_key srv \<and>
     length (sv_conns srv') = length (sv_conns srv) \<and>
     (enforces (sv_auth srv) \<longrightarrow> guarded srv \<longrightarrow> guarded srv')"

lemma keeps_guard_trans: "keeps_guard a b \<Longrightarrow> keeps_guard b c \<Longrightarrow> keeps_guard a c"
  by (simp add: keeps_guard_def)

lemma vouched_cong:
  "sv_auth srv' = sv_auth srv \<Longrightarrow> sv_service_api_key srv' = sv_service_api_key srv \<Longrightarrow>
   vouched srv' h = vouched srv h"
  by (simp add: vouched_def)

lemma guardedD: "guarded srv \<Longrightarrow> j < length (sv_conns srv) \<Longrightarrow> cn_http (conn_at srv j) = Some h \<Longrightarrow> vouched srv h"
  by (simp add: guarded_def)

lemma same_http_guard:
  assumes "same_http srv srv'"
  shows "keeps_guard srv srv'"
proof -
  have eq: "sv_auth srv' = sv_auth srv" "sv_service_api_key srv' = sv_service_api_key srv"
    "length (sv_conns srv') = length (sv_conns srv)"
    and c: "cn_http (conn_at srv' j) = None \<or> cn_http (conn_at srv' j) = cn_http (conn_at srv j)" for j
    using assms by (simp_all add: same_http_def)
  have "vouched srv' h" if "guarded srv" "j < length (sv_conns srv)" "cn_http (conn_at srv' j) = Some h" for j h
    using c [of j] that guardedD [of srv j h] vouched_cong [OF eq(1,2)] by simp
  then show ?thesis by (simp add: keeps_guard_def guarded_def eq)
qed

lemma guard_refl [simp]: "keeps_guard srv srv"
  by (simp add: keeps_guard_def)

lemma vouched_credentials:
  assumes "vouched srv h" "enforces (sv_auth srv)" "pr_authenticated (hs_principal h)"
  shows "credentials (sv_auth srv) (sv_service_api_key srv) (hs_principal h)"
proof -
  have "auth_enforced h" using assms(1,2) by (simp add: vouched_def enforces_def auth_enforced_def)
  moreover have "principal_backed h" using assms(1) by (simp add: vouched_def)
  ultimately have "credentials (hs_auth h) (hs_service_api_key h) (hs_principal h)"
    using assms(3) unfolding principal_backed_def by blast
  moreover have "hs_auth h = sv_auth srv" "hs_service_api_key h = sv_service_api_key srv"
    using assms(1) by (simp_all add: vouched_def)
  ultimately show ?thesis by simp
qed

lemma vouched_enforced: "vouched srv h \<Longrightarrow> enforces (sv_auth srv) \<Longrightarrow> auth_enforced h"
  by (simp add: vouched_def enforces_def auth_enforced_def)

text \<open>Feeding a vouched handler keeps it vouched.\<close>

lemma lend_shared_same:
  "hs_auth (lend_shared srv h) = hs_auth h" "hs_principal (lend_shared srv h) = hs_principal h"
  "hs_service_api_key (lend_shared srv h) = hs_service_api_key h" "hs_store (lend_shared srv h) = sv_store srv"
  by (simp_all add: lend_shared_def)

lemma lend_shared_enforced: "vouched srv h \<Longrightarrow> enforces (sv_auth srv) \<Longrightarrow> auth_enforced (lend_shared srv h)"
  using vouched_enforced [of srv h] unfolding auth_enforced_def lend_shared_same .

lemma feed_vouched:
  assumes f: "edge_http1_serve_feed en (lend_shared srv h) data m cap = Some (rc, h', m')"
    and v: "vouched srv h" and e: "enforces (sv_auth srv)"
  shows "vouched srv h'"
proof -
  have "principal_backed (lend_shared srv h) = principal_backed h"
    unfolding principal_backed_def auth_enforced_def lend_shared_same ..
  then have "principal_backed (lend_shared srv h)" using v by (simp add: vouched_def)
  then have "principal_backed h'" using feed_principal_backed f by blast
  moreover have "hs_auth h' = sv_auth srv \<and> hs_service_api_key h' = sv_service_api_key srv"
  proof (rule feed_effects [OF f lend_shared_enforced [OF v e]])
    fix s1
    assume "lawful en s1 h'" "hs_auth s1 = hs_auth (lend_shared srv h)"
      "hs_service_api_key s1 = hs_service_api_key (lend_shared srv h)"
    then show ?thesis using v by (simp add: lawful_def vouched_def lend_shared_same)
  qed
  ultimately show ?thesis by (simp add: vouched_def)
qed

lemma feed_writes:
  assumes f: "edge_http1_serve_feed en (lend_shared srv h) data m cap = Some (rc, h', m')"
    and v: "vouched srv h" and e: "enforces (sv_auth srv)" and w: "hs_store h' \<noteq> sv_store srv"
  shows "allowed h' EDGE_RES_STATE_PUT \<or> allowed h' EDGE_RES_STATE_DELETE \<or> allowed h' EDGE_RES_OPENAI"
proof (rule feed_effects [OF f lend_shared_enforced [OF v e]])
  fix s1
  assume "lawful en s1 h'" "hs_store s1 = hs_store (lend_shared srv h)"
  then show ?thesis using w by (auto simp: lawful_def lend_shared_same)
qed

text \<open>Putting a vouched handler into a slot.\<close>

lemma put_http_guard:
  assumes "sv_auth srv' = sv_auth srv" "sv_service_api_key srv' = sv_service_api_key srv"
    "length (sv_conns srv') = length (sv_conns srv)"
    "\<And>j. j \<noteq> i \<Longrightarrow> cn_http (conn_at srv' j) = cn_http (conn_at srv j)"
    "\<And>h. enforces (sv_auth srv) \<Longrightarrow> guarded srv \<Longrightarrow> cn_http (conn_at srv' i) = Some h \<Longrightarrow> vouched srv h"
  shows "keeps_guard srv srv'"
proof -
  have "vouched srv' h"
    if "enforces (sv_auth srv)" "guarded srv" "j < length (sv_conns srv)" "cn_http (conn_at srv' j) = Some h" for j h
    using assms(4) [of j] assms(5) that guardedD [of srv j h] vouched_cong [OF assms(1,2)] by (cases "j = i") simp_all
  then show ?thesis by (simp add: keeps_guard_def guarded_def assms(1-3))
qed

lemma bad_request_http:
  assumes b: "begin_bad_request_plain drive i srv = Some (rc, srv')" and d: "drives_http drive"
  shows "same_http srv srv'"
proof (cases "cn_send_buf (conn_at srv i) = None \<or> length bad_request_text \<ge> cn_send_cap (conn_at srv i)")
  case True
  with b [unfolded begin_bad_request_plain_def Let_def] have "srv' = srv"
    by (simp_all only: if_True option.inject prod.inject)
  then show ?thesis by simp
next
  case False
  with b [unfolded begin_bad_request_plain_def Let_def]
  have s: "begin_send_buf drive i bad_request_text CS_SEND
      (count (\<lambda>m. m\<lparr>em_requests := em_requests m + 1, em_responses_4xx := em_responses_4xx m + 1\<rparr>) srv) = Some (rc, srv')"
    by (simp only: if_False)
  show ?thesis by (rule same_http_trans [OF _ begin_send_http [OF s d]]) simp
qed

section \<open>Steps that respect it\<close>

text \<open>A change of the store on behalf of a connection that was fed some bytes and whose principal
  may change the store.\<close>

definition vouched_write :: "('p, 'w, 's) loop_env \<Rightarrow> ('p, 'u, 'w, 's) server \<Rightarrow> state_store option \<Rightarrow> bool" where
  "vouched_write en srv st \<longleftrightarrow>
     (\<exists>i h data m cap rc h' m'. i < length (sv_conns srv) \<and> cn_http (conn_at srv i) = Some h \<and>
        edge_http1_serve_feed (le_http en) (lend_shared srv h) data m cap = Some (rc, h', m') \<and>
        hs_store h' = st \<and> vouched srv h' \<and>
        (allowed h' EDGE_RES_STATE_PUT \<or> allowed h' EDGE_RES_STATE_DELETE \<or> allowed h' EDGE_RES_OPENAI))"

definition lawful_step :: "('p, 'w, 's) loop_env \<Rightarrow> ('p, 'u, 'w, 's) server \<Rightarrow> ('p, 'u, 'w, 's) server \<Rightarrow> bool" where
  "lawful_step en srv srv' \<longleftrightarrow>
     keeps_guard srv srv' \<and>
     (enforces (sv_auth srv) \<longrightarrow> guarded srv \<longrightarrow>
        sv_store srv' = sv_store srv \<or> vouched_write en srv (sv_store srv'))"

lemma stored_step: "keeps_guard srv srv' \<Longrightarrow> sv_store srv' = sv_store srv \<Longrightarrow> lawful_step en srv srv'"
  by (simp add: lawful_step_def)

lemma same_store: "same_http srv srv' \<Longrightarrow> sv_store srv' = sv_store srv"
  by (simp add: same_http_def)

lemma same_step: "same_http srv srv' \<Longrightarrow> lawful_step en srv srv'"
  by (rule stored_step) (simp_all add: same_http_guard same_store)

lemma step_refl [simp]: "lawful_step en srv srv"
  by (rule same_step) simp

lemma step_guard: "lawful_step en srv srv' \<Longrightarrow> keeps_guard srv srv'"
  by (simp add: lawful_step_def)

lemma step_same: "lawful_step en srv x \<Longrightarrow> same_http x y \<Longrightarrow> lawful_step en srv y"
  using keeps_guard_trans [OF _ same_http_guard] by (auto simp: lawful_step_def same_store)

lemma stored_first:
  "keeps_guard srv x \<Longrightarrow> sv_store x = sv_store srv \<Longrightarrow> same_http x y \<Longrightarrow> lawful_step en srv y"
  by (rule step_same [OF stored_step])

lemma upd_http: "(\<And>c. cn_http (f c) = cn_http c) \<Longrightarrow> same_http srv (upd_conn i f srv)"
  by (rule same_http_upd) simp_all

lemma vouched_write_cong:
  assumes w: "vouched_write en a st" and s: "same_http srv a"
    and c: "\<And>j. cn_http (conn_at a j) = cn_http (conn_at srv j)" and l: "\<And>h. lend_shared a h = lend_shared srv h"
  shows "vouched_write en srv st"
proof -
  have "vouched a h = vouched srv h" for h by (rule vouched_cong) (use s in \<open>simp_all add: same_http_def\<close>)
  moreover have "length (sv_conns a) = length (sv_conns srv)" using s by (simp add: same_http_def)
  ultimately show ?thesis using w unfolding vouched_write_def c l by simp
qed

lemma after_same:
  assumes y: "lawful_step en a y" and sa: "same_http srv a"
    and c: "\<And>j. cn_http (conn_at a j) = cn_http (conn_at srv j)" and l: "\<And>h. lend_shared a h = lend_shared srv h"
  shows "lawful_step en srv y"
proof -
  have k: "keeps_guard srv a" by (rule same_http_guard [OF sa])
  have "sv_store y = sv_store srv \<or> vouched_write en srv (sv_store y)"
    if e: "enforces (sv_auth srv)" and g: "guarded srv"
  proof -
    have "guarded a" and "enforces (sv_auth a)" using k e g by (simp_all add: keeps_guard_def)
    then have "sv_store y = sv_store a \<or> vouched_write en a (sv_store y)"
      using y by (simp add: lawful_step_def)
    then show ?thesis using vouched_write_cong [OF _ sa c l] same_store [OF sa] by auto
  qed
  then show ?thesis using keeps_guard_trans [OF k step_guard [OF y]] by (simp add: lawful_step_def)
qed

lemma after_upd:
  assumes y: "lawful_step en (upd_conn i f srv) y" and f: "\<And>c. cn_http (f c) = cn_http c"
  shows "lawful_step en srv y"
proof (rule after_same [OF y upd_http [OF f]])
  show "cn_http (conn_at (upd_conn i f srv) j) = cn_http (conn_at srv j)" for j
    by (cases "j = i"; cases "i < length (sv_conns srv)") (simp_all add: f)
  show "lend_shared (upd_conn i f srv) h = lend_shared srv h" for h by (simp add: lend_shared_def upd_conn_def)
qed

text \<open>Steps that leave the store alone.\<close>

definition admits :: "('p, 'u, 'w, 's) server \<Rightarrow> ('p, 'u, 'w, 's) server \<Rightarrow> bool" where
  "admits srv srv' \<longleftrightarrow> keeps_guard srv srv' \<and> sv_store srv' = sv_store srv"

lemma admits_trans: "admits a b \<Longrightarrow> admits b c \<Longrightarrow> admits a c"
  using keeps_guard_trans by (auto simp: admits_def)

lemma same_admits: "same_http srv x \<Longrightarrow> admits srv x"
  by (simp add: admits_def same_http_guard same_store)

lemma admits_step: "admits srv x \<Longrightarrow> lawful_step en srv x"
  by (simp add: admits_def stored_step)

lemma http_bytes_step:
  fixes srv :: "('p, 'u, 'w, 's) server"
  assumes h: "handle_http_bytes en i data srv = Some (rc, srv')" and i: "i < length (sv_conns srv)"
  shows "lawful_step en srv srv'"
proof (cases "data = []")
  case True
  then obtain rc1 where "begin_bad_request_plain (drive_of en) i srv = Some (rc1, srv')"
    using h by (auto simp: handle_http_bytes_def)
  then show ?thesis by (intro same_step bad_request_http [OF _ tls_drive_write_http])
next
  case data: False
  show ?thesis
  proof (cases "cn_http (conn_at srv i)")
    case None
    then show ?thesis using h data by (simp add: handle_http_bytes_def)
  next
    case (Some x)
    let ?feed = "edge_http1_serve_feed (le_http en) (lend_shared srv x) data (Some (sv_metrics srv))
        (cn_send_cap (conn_at srv i))"
    obtain ans x' m where f: "?feed = Some (ans, x', m)"
      using h data Some by (cases ?feed) (auto simp: handle_http_bytes_def)
    let ?srv1 = "return_shared i x' m srv"
    have v: "vouched srv x'" if "enforces (sv_auth srv)" "guarded srv"
      by (rule feed_vouched [OF f guardedD [OF that(2) i Some] that(1)])
    have k: "keeps_guard srv ?srv1"
    proof (rule put_http_guard [where i = i])
      show "vouched srv g" if "enforces (sv_auth srv)" "guarded srv" "cn_http (conn_at ?srv1 i) = Some g" for g
        using v [OF that(1,2)] that(3) i by (simp add: return_shared_def)
    qed (simp_all add: return_shared_def, simp_all add: upd_conn_def conn_at_def)
    have st: "sv_store ?srv1 = hs_store x'" by (simp add: return_shared_def)
    have "sv_store ?srv1 = sv_store srv \<or> vouched_write en srv (sv_store ?srv1)"
      if e: "enforces (sv_auth srv)" and g: "guarded srv"
    proof (cases "hs_store x' = sv_store srv")
      case True
      then show ?thesis using st by simp
    next
      case False
      have "allowed x' EDGE_RES_STATE_PUT \<or> allowed x' EDGE_RES_STATE_DELETE \<or> allowed x' EDGE_RES_OPENAI"
        by (rule feed_writes [OF f guardedD [OF g i Some] e False])
      then show ?thesis unfolding vouched_write_def st using i Some f v [OF e g] by blast
    qed
    with k have g1: "lawful_step en srv ?srv1" by (simp add: lawful_step_def)
    show ?thesis
    proof (cases ans)
      case Hard_Error
      then show ?thesis using h data Some f g1 by (simp add: handle_http_bytes_def Let_def)
    next
      case Not_Answered
      then have "submit_recv i ?srv1 = (rc, srv')" using h data Some f by (simp add: handle_http_bytes_def Let_def)
      then show ?thesis using step_same [OF g1] submit_recv_http by blast
    next
      case (Answered out)
      let ?srv2 = "upd_conn i (\<lambda>c. c\<lparr>cn_keep_ws := edge_http1_serve_took_ws_upgrade x'\<rparr>) ?srv1"
      have s2: "same_http ?srv1 ?srv2" by (rule same_http_upd) simp_all
      obtain rc2 srv3 where b: "begin_send_buf (drive_of en) i out CS_SEND ?srv2 = Some (rc2, srv3)"
        using h data Some f Answered
        by (cases "begin_send_buf (drive_of en) i out CS_SEND ?srv2") (auto simp: handle_http_bytes_def Let_def)
      have s3: "same_http ?srv1 srv3"
        using same_http_trans [OF s2 begin_send_http [OF b tls_drive_write_http]] .
      have "srv' = srv3 \<or> ws_flush_all_pending en srv3 = Some srv'"
        using h data Some f Answered b by (auto simp: handle_http_bytes_def Let_def split: if_splits)
      then have "same_http ?srv1 srv'" using s3 flush_all_http same_http_trans by blast
      then show ?thesis using step_same [OF g1] by blast
    qed
  qed
qed

lemma ws_recv_http:
  assumes h: "handle_ws_recv en i data srv = Some (rc, srv')"
  shows "same_http srv srv'"
proof (cases "cn_ws (conn_at srv i)")
  case None
  then show ?thesis using h by (simp add: handle_ws_recv_def)
next
  case (Some w)
  then obtain failed w1 where e: "ws_drain_events en (le_ws_feed_input en w data) = Some (failed, w1)"
    using h by (cases "ws_drain_events en (le_ws_feed_input en w data)") (auto simp: handle_ws_recv_def)
  let ?srv = "set_ws i w1 (count (\<lambda>m. m\<lparr>em_bytes_in := em_bytes_in m + of_nat (length data)\<rparr>) srv)"
  have s: "same_http srv ?srv" by simp
  have "srv' = ?srv \<or> (\<exists>rc2. ws_flush_output en (drive_of en) i ?srv = Some (rc2, srv'))"
    using h Some e by (auto simp: handle_ws_recv_def Let_def split: if_splits)
  then show ?thesis using s same_http_trans [OF s] ws_flush_output_http [OF _ tls_drive_write_http] by blast
qed

lemma tls_poll_step:
  assumes h: "handle_tls_poll en i srv = Some (rc, srv')" and i: "i < length (sv_conns srv)"
  shows "lawful_step en srv srv'"
proof (cases "cn_ssl (conn_at srv i)")
  case None
  then show ?thesis using h by (simp add: handle_tls_poll_def)
next
  case (Some ssl)
  note h1 = h [unfolded handle_tls_poll_def Let_def Some option.case]
  obtain n ww ssl1 where hs: "edge_tls_handshake (le_ssl en) ssl = (n, ww, ssl1)" by (metis prod_cases3)
  obtain r ssl2 where rd: "edge_tls_read (le_ssl en) ssl recv_buf_size = (r, ssl2)" by fastforce
  define a where "a = upd_conn i (\<lambda>c. c\<lparr>cn_ssl := Some ssl1\<rparr>) srv"
  define b where "b = upd_conn i (\<lambda>c. c\<lparr>cn_ssl := Some ssl2\<rparr>) srv"
  define d where "d = upd_conn i (\<lambda>c. c\<lparr>cn_state := CS_RECV\<rparr>) a"
  note h2 = h1 [unfolded hs rd prod.case, folded a_def b_def, folded d_def]
  have sa: "same_http srv a" and sb: "same_http srv b" unfolding a_def b_def by (rule upd_http, simp)+
  have sd: "same_http srv d" unfolding d_def by (rule same_http_trans [OF sa upd_http]) simp
  have ib: "i < length (sv_conns b)" using sb i by (simp add: same_http_def)
  have bytes: "handle_http_bytes en i bs b = Some (rc, srv') \<Longrightarrow> lawful_step en srv srv'" for bs
    using after_upd [OF http_bytes_step [OF _ ib, unfolded b_def]] by (simp add: b_def)
  have from_a: "submit_poll i ww a = (rc, srv') \<Longrightarrow> same_http srv srv'" using same_http_trans [OF sa submit_poll_http] .
  have from_d: "submit_recv i d = (rc, srv') \<Longrightarrow> same_http srv srv'" using same_http_trans [OF sd submit_recv_http] .
  have from_b: "submit_poll i w b = (rc, srv') \<Longrightarrow> same_http srv srv'" for w using same_http_trans [OF sb submit_poll_http] .
  show ?thesis
  proof (cases "cn_state (conn_at srv i) = CS_RECV \<or> cn_state (conn_at srv i) = CS_WS_RECV")
    case False
    then have "srv' = srv \<or> srv' = a \<or> submit_poll i ww a = (rc, srv') \<or> submit_recv i d = (rc, srv') \<or>
        drive_of en i srv = Some (rc, srv')"
      using h2 by (auto split: if_split_asm)
    then have "same_http srv srv'"
      using sa from_a from_d drives_httpD [OF tls_drive_write_http] same_http_refl by blast
    then show ?thesis by (rule same_step)
  next
    case True
    show ?thesis
    proof (cases r)
      case (Tls_Bytes bs)
      show ?thesis
      proof (cases "cn_state (conn_at srv i) = CS_WS_RECV")
        case False
        then show ?thesis using h2 True Tls_Bytes bytes by simp
      next
        case ws: True
        then obtain rc2 srv2 where w: "handle_ws_recv en i bs b = Some (rc2, srv2)"
          using h2 Tls_Bytes by (cases "handle_ws_recv en i bs b") auto
        have s2: "same_http srv srv2" using same_http_trans [OF sb ws_recv_http [OF w]] .
        have "srv' = srv2 \<or> (\<exists>rc3. submit_recv i srv2 = (rc3, srv'))"
          using h2 ws Tls_Bytes w by (auto split: if_split_asm)
        then have "same_http srv srv'" using s2 same_http_trans [OF s2 submit_recv_http] by blast
        then show ?thesis by (rule same_step)
      qed
    next
      case (Tls_Want w)
      then have "submit_poll i w b = (rc, srv')" using h2 True by (auto split: if_split_asm)
      then show ?thesis by (intro same_step from_b)
    next
      case Tls_Eof
      then have "srv' = b \<or> begin_bad_request_plain (drive_of en) i b = Some (rc, srv')"
        using h2 True by (auto split: if_split_asm)
      then have "same_http srv srv'"
        using sb same_http_trans [OF sb bad_request_http [OF _ tls_drive_write_http]] by blast
      then show ?thesis by (rule same_step)
    next
      case Tls_Error
      then have "srv' = b" using h2 True by (auto split: if_split_asm)
      then show ?thesis using same_step [OF sb] by simp
    qed
  qed
qed

section \<open>Completions\<close>

lemma closed_step: "lawful_step en srv x \<Longrightarrow> lawful_step en srv (close_conn i x)"
  by (erule step_same) (rule close_conn_http)

lemma close_if_failed_step:
  assumes "close_if_failed i r = Some srv'" "\<And>rc x. r = Some (rc, x) \<Longrightarrow> lawful_step en srv x"
  shows "lawful_step en srv srv'"
  using assms closed_step by (auto simp: close_if_failed_def)

lemma on_recv_step:
  assumes h: "on_recv en i res data srv = Some srv'" and i: "i < length (sv_conns srv)"
  shows "lawful_step en srv srv'"
proof -
  define a where "a = upd_conn i (\<lambda>c. c\<lparr>cn_recv_pending := False\<rparr>) srv"
  have sa: "same_http srv a" unfolding a_def by (rule upd_http) simp
  have ia: "i < length (sv_conns a)" using sa i by (simp add: same_http_def)
  note h1 = h [unfolded on_recv_def Let_def, folded a_def]
  show ?thesis
  proof (cases "cn_state (conn_at srv i) = CS_WS_RECV \<and> \<not> res \<le> 0")
    case True
    then obtain rc2 x where w: "handle_ws_recv en i data a = Some (rc2, x)"
      using h1 by (cases "handle_ws_recv en i data a") auto
    have sx: "same_http srv x" using same_http_trans [OF sa ws_recv_http [OF w]] .
    have "srv' = close_conn i x \<or> srv' = x \<or> close_if_failed i (Some (submit_recv i x)) = Some srv'"
      using h1 True w by (auto split: if_split_asm)
    moreover have "lawful_step en srv y" if "Some (submit_recv i x) = Some (rc, y)" for rc y
      by (rule same_step [OF same_http_trans [OF sx submit_recv_http]]) (use that in auto)
    ultimately show ?thesis
      using closed_step [OF same_step [OF sx]] same_step [OF sx] close_if_failed_step by blast
  next
    case False
    then have "srv' = srv \<or> srv' = close_conn i a \<or> close_if_failed i (handle_http_bytes en i data a) = Some srv'"
      using h1 by (simp split: if_split_asm)
    moreover have "lawful_step en srv y" if "handle_http_bytes en i data a = Some (rc, y)" for rc y
      using after_upd [OF http_bytes_step [OF that ia, unfolded a_def]] by simp
    ultimately show ?thesis
      using closed_step [OF same_step [OF sa]] step_refl close_if_failed_step by blast
  qed
qed

lemma on_send_step:
  assumes h: "on_send en i res srv = Some srv'"
  shows "lawful_step en srv srv'"
proof -
  define a where "a = upd_conn i (\<lambda>c. c\<lparr>cn_send_pending := False\<rparr>) srv"
  define b where "b = upd_conn i (\<lambda>c. c\<lparr>cn_send_off := cn_send_off c + nat res\<rparr>)
      (count (\<lambda>m. m\<lparr>em_bytes_out := em_bytes_out m + of_int res\<rparr>) a)"
  have sa: "same_http srv a" unfolding a_def by (rule upd_http) simp
  have sb: "same_http srv b" unfolding b_def by (rule same_http_upd) (use sa in simp_all)
  note h1 = h [unfolded on_send_def Let_def, folded a_def, folded b_def]
  have step: "lawful_step en srv y"
    if "handle_send_complete en (drive_of en) i b = Some (rc, y) \<or> submit_send (drive_of en) i b = Some (rc, y)"
    for rc y
    using that handle_send_complete_http [OF _ tls_drive_write_http] submit_send_http [OF _ tls_drive_write_http]
      same_http_trans [OF sb] same_step by blast
  have "srv' = srv \<or> srv' = close_conn i a \<or>
      close_if_failed i (handle_send_complete en (drive_of en) i b) = Some srv' \<or>
      close_if_failed i (submit_send (drive_of en) i b) = Some srv'"
    using h1 by (auto split: if_split_asm)
  then show ?thesis using closed_step [OF same_step [OF sa]] step close_if_failed_step step_refl by blast
qed

lemma on_poll_step:
  assumes h: "on_poll en i res srv = Some srv'" and i: "i < length (sv_conns srv)"
  shows "lawful_step en srv srv'"
proof -
  define a where "a = upd_conn i (\<lambda>c. c\<lparr>cn_poll_pending := False\<rparr>) srv"
  have sa: "same_http srv a" unfolding a_def by (rule upd_http) simp
  have ia: "i < length (sv_conns a)" using sa i by (simp add: same_http_def)
  have "srv' = srv \<or> srv' = close_conn i a \<or> srv' = a \<or> close_if_failed i (handle_tls_poll en i a) = Some srv'"
    using h [unfolded on_poll_def Let_def, folded a_def] by (auto split: if_split_asm)
  moreover have "lawful_step en srv y" if "handle_tls_poll en i a = Some (rc, y)" for rc y
    using after_upd [OF tls_poll_step [OF that ia, unfolded a_def]] by simp
  ultimately show ?thesis
    using closed_step [OF same_step [OF sa]] same_step [OF sa] step_refl close_if_failed_step by blast
qed

section \<open>Accepting\<close>

lemma new_http_vouched:
  assumes "new_http en srv = Some h"
  shows "vouched srv h"
  using assms
  by (auto simp: new_http_def Let_def vouched_def principal_backed_def edge_http1_serve_create_def
      edge_http1_serve_set_service_api_key_def edge_http1_serve_set_outbound_policy_def
      edge_http1_serve_set_plugin_host_def edge_http1_serve_set_auth_def edge_http1_serve_set_ws_hub_def
      edge_http1_serve_set_state_def edge_http1_serve_set_docroots_def edge_principal_clear_def split: if_splits)

lemma alloc_conn_admits:
  assumes "alloc_conn en srv = (r, srv1)"
  shows "admits srv srv1"
proof (cases "find_first (\<lambda>c. cn_state c = CS_FREE) (sv_conns srv)")
  case None
  then show ?thesis using assms same_admits [of srv srv] by (simp add: alloc_conn_def)
next
  case (Some i)
  obtain c where e: "srv1 = upd_conn i (\<lambda>_. c) srv" and c: "cn_http c = None \<or> cn_http c = new_http en srv"
    using assms Some
    by (cases "le_mem_send_buf en"; cases "new_http en srv") (auto simp: alloc_conn_def Let_def free_conn_def)
  have "keeps_guard srv (upd_conn i (\<lambda>_. c) srv)"
  proof (rule put_http_guard [where i = i])
    fix h
    assume g: "guarded srv" and h: "cn_http (conn_at (upd_conn i (\<lambda>_. c) srv) i) = Some h"
    show "vouched srv h"
    proof (cases "i < length (sv_conns srv)")
      case True
      then show ?thesis using h c new_http_vouched [of en srv h] by auto
    next
      case False
      then show ?thesis using Some by (auto dest: find_first_SomeD)
    qed
  qed simp_all
  then show ?thesis unfolding e by (simp add: admits_def)
qed

lemma closed_admits: "admits srv x \<Longrightarrow> admits srv (close_conn i x)"
  by (rule admits_trans [OF _ same_admits [OF close_conn_http]])

lemma or_close_admits: "admits srv t \<Longrightarrow> admits srv (if b then close_conn i t else t)"
  by (simp add: closed_admits)

lemma accept_one_admits:
  assumes h: "accept_one en fd srv = (rc, srv')"
  shows "admits srv srv'"
proof (cases "fd < 0 \<or> \<not> le_set_nonblock en fd")
  case True
  then show ?thesis using h same_admits [of srv srv] by (auto simp: accept_one_def split: if_splits)
next
  case False
  obtain r srv1 where a: "alloc_conn en srv = (r, srv1)" by fastforce
  note g1 = alloc_conn_admits [OF a]
  show ?thesis
  proof (cases r)
    case None
    then have "same_http srv1 srv'" using h False a by (auto simp: accept_one_def)
    then show ?thesis using admits_trans [OF g1 same_admits] by blast
  next
    case (Some i)
    define srv2 where "srv2 = count (\<lambda>m. m\<lparr>em_accepts := em_accepts m + 1, em_active_conns := em_active_conns m + 1\<rparr>)
        ((upd_conn i (\<lambda>c. c\<lparr>cn_fd := Some fd\<rparr>) srv1)\<lparr>sv_accepts_done := sv_accepts_done srv1 + 1\<rparr>)"
    note h2 = h [unfolded accept_one_def Let_def if_not_P [OF False [unfolded de_Morgan_disj, THEN conjunct1]]
        if_not_P [OF False [unfolded de_Morgan_disj, THEN conjunct2]] a Some prod.case option.case, folded srv2_def]
    have s2: "same_http srv1 srv2" unfolding srv2_def by (simp add: upd_http)
    have lift: "admits srv y" if "same_http srv1 y" for y
      using admits_trans [OF g1 same_admits [OF that]] .
    show ?thesis
    proof (cases "sv_tls_ctx srv2")
      case None
      obtain rc1 t where r: "submit_recv i srv2 = (rc1, t)" by fastforce
      then have e: "srv' = (if rc1 \<noteq> 0 then close_conn i t else t)" using h2 None by (auto split: if_splits)
      show ?thesis unfolding e by (intro or_close_admits lift same_http_trans [OF s2 submit_recv_http [OF r]])
    next
      case (Some ctx)
      show ?thesis
      proof (cases "edge_tls_conn_new_fd (le_ssl en) (Some ctx) (Some (le_socket en fd))")
        case None
        then show ?thesis using h2 Some closed_admits [OF lift [OF s2]] by auto
      next
        case ssl: (Some ssl)
        obtain hr ww ssl' where e: "edge_tls_handshake (le_ssl en) ssl = (hr, ww, ssl')" by (metis prod_cases3)
        define srv3 where "srv3 = upd_conn i (\<lambda>c. c\<lparr>cn_ssl := Some ssl', cn_state := CS_TLS_HS\<rparr>) srv2"
        note h3 = h2 [unfolded Some option.case ssl e prod.case, folded srv3_def]
        define srv4 where "srv4 = upd_conn i (\<lambda>c. c\<lparr>cn_state := CS_RECV\<rparr>) srv3"
        have s3: "same_http srv1 srv3" unfolding srv3_def by (rule same_http_trans [OF s2 upd_http]) simp
        have s4: "same_http srv1 srv4" unfolding srv4_def by (rule same_http_trans [OF s3 upd_http]) simp
        obtain rc1 t where p: "submit_poll i ww srv3 = (rc1, t)" by fastforce
        obtain rc2 t2 where r: "submit_recv i srv4 = (rc2, t2)" by fastforce
        have "srv' = (if rc2 \<noteq> 0 then close_conn i t2 else t2) \<or> srv' = (if rc1 \<noteq> 0 then close_conn i t else t) \<or>
            srv' = close_conn i srv3"
          using h3 p r unfolding srv4_def by (auto split: if_splits)
        then show ?thesis
          using or_close_admits lift [OF same_http_trans [OF s3 submit_poll_http [OF p]]]
            lift [OF same_http_trans [OF s4 submit_recv_http [OF r]]] closed_admits [OF lift [OF s3]] by blast
      qed
    qed
  qed
qed

section \<open>Turns of the loop\<close>

lemma submit_accept_http: "same_http srv (snd (submit_accept fd srv))"
  by (auto simp: submit_accept_def ring_put_def)

lemma on_accept_admits: "admits srv (on_accept en fd res srv)"
proof -
  let ?srv1 = "srv\<lparr>sv_accept_pending := False\<rparr>"
  let ?srv2 = "if res \<ge> 0 then snd (accept_one en res ?srv1) else ?srv1"
  have s1: "admits srv ?srv1" by (rule same_admits) simp
  have "admits ?srv1 ?srv2"
    using accept_one_admits [of en res ?srv1 "fst (accept_one en res ?srv1)"] same_admits [of ?srv1 ?srv1] by simp
  from admits_trans [OF admits_trans [OF s1 this] same_admits [OF submit_accept_http]]
  show ?thesis by (simp add: on_accept_def Let_def)
qed

lemma on_completion_step:
  assumes h: "on_completion en fd ud res data srv = Some srv'"
  shows "lawful_step en srv srv'"
proof -
  obtain op slot where u: "unpack_ud ud = (op, slot)" by fastforce
  note h1 = h [unfolded on_completion_def u prod.case Let_def]
  show ?thesis
  proof (cases "op = OP_ACCEPT")
    case True
    then show ?thesis using h1 on_accept_admits [THEN admits_step] by auto
  next
    case other: False
    show ?thesis
    proof (cases "slot_of srv slot")
      case None
      then show ?thesis using h1 other by simp
    next
      case (Some i)
      then have i: "i < length (sv_conns srv)" by (simp add: slot_of_def split: if_splits)
      have "on_recv en i res data srv = Some srv' \<or> on_send en i res srv = Some srv' \<or>
          on_poll en i res srv = Some srv' \<or> srv' = srv"
        using h1 other Some by (auto split: if_splits)
      then show ?thesis using on_recv_step [OF _ i] on_send_step on_poll_step [OF _ i] step_refl by blast
    qed
  qed
qed

lemma scrape_tick_guard:
  assumes "scrape_tick en srv = Some srv'"
  shows "keeps_guard srv srv'"
proof -
  obtain rc st hub where e: "edge_pq_sidecar_scrape_once (en_exec (le_http en)) (en_time (le_http en))
      (le_mem_pq en) (en_mem_sub (le_http en)) (sv_pq_cfg srv) (sv_store srv) (sv_hub srv) = (rc, st, hub)"
    by (metis prod_cases3)
  let ?srv1 = "srv\<lparr>sv_tick := sv_tick srv + 200\<rparr>"
  let ?srv2 = "?srv1\<lparr>sv_last_scrape_ms := sv_tick srv + 200, sv_store := st, sv_hub := hub\<rparr>"
  have s1: "keeps_guard srv ?srv1" by (rule same_http_guard) simp
  have s2: "keeps_guard srv ?srv2"
    by (simp add: keeps_guard_def guarded_def conn_at_def vouched_def)
  have "srv' = srv \<or> srv' = ?srv1 \<or> ws_flush_all_pending en ?srv2 = Some srv'"
    using assms e by (auto simp: scrape_tick_def Let_def split: if_splits)
  then show ?thesis
  proof (elim disjE)
    assume "ws_flush_all_pending en ?srv2 = Some srv'"
    then show ?thesis by (rule keeps_guard_trans [OF s2 same_http_guard [OF flush_all_http]])
  qed (use s1 in simp_all)
qed

lemma submit_guard: "keeps_guard srv x \<Longrightarrow> keeps_guard srv (io_uring_submit x)"
  by (erule keeps_guard_trans) (rule same_http_guard, simp add: io_uring_submit_def)

lemma loop_turn_guard:
  assumes h: "loop_turn en fd stop w srv = Some (ec, srv')"
  shows "keeps_guard srv srv'"
proof (cases w)
  case Wait_Timeout
  then have "srv' = srv \<or> (\<exists>srv1 srv2. ws_flush_all_pending en srv = Some srv1 \<and>
      scrape_tick en srv1 = Some srv2 \<and> srv' = io_uring_submit srv2)"
    using h by (auto simp: loop_turn_def split: if_splits option.splits)
  then show ?thesis
    using keeps_guard_trans [OF same_http_guard [OF flush_all_http] scrape_tick_guard] submit_guard guard_refl by metis
next
  case (Wait_Cqe ud res data)
  let ?srv = "srv\<lparr>sv_inflight := complete_op ud (sv_inflight srv)\<rparr>"
  have "srv' = srv \<or> (\<exists>srv1. on_completion en fd ud res data ?srv = Some srv1 \<and> srv' = io_uring_submit srv1)"
    using h Wait_Cqe by (auto simp: loop_turn_def split: if_splits)
  moreover have "keeps_guard srv ?srv" by (rule same_http_guard) simp
  ultimately show ?thesis using keeps_guard_trans step_guard [OF on_completion_step] submit_guard guard_refl by metis
qed (use h in \<open>auto simp: loop_turn_def split: if_splits\<close>)

lemma loop_turn_write:
  assumes h: "loop_turn en fd stop (Wait_Cqe ud res data) srv = Some (ec, srv')"
    and e: "enforces (sv_auth srv)" and g: "guarded srv"
  shows "sv_store srv' = sv_store srv \<or> vouched_write en srv (sv_store srv')"
proof -
  let ?a = "srv\<lparr>sv_inflight := complete_op ud (sv_inflight srv)\<rparr>"
  have "srv' = srv \<or> (\<exists>srv1. on_completion en fd ud res data ?a = Some srv1 \<and> srv' = io_uring_submit srv1)"
    using h by (auto simp: loop_turn_def split: if_splits)
  then show ?thesis
  proof
    assume "\<exists>srv1. on_completion en fd ud res data ?a = Some srv1 \<and> srv' = io_uring_submit srv1"
    then obtain srv1 where c: "on_completion en fd ud res data ?a = Some srv1" "srv' = io_uring_submit srv1" by blast
    have "lawful_step en srv srv1"
      by (rule after_same [OF on_completion_step [OF c(1)]]) (simp_all add: conn_at_def lend_shared_def)
    then show ?thesis using e g c(2) by (simp add: lawful_step_def io_uring_submit_def)
  qed simp
qed

lemma loop_run_guard: "loop_run fd turns srv = Some (ec, srv') \<Longrightarrow> keeps_guard srv srv'"
proof (induction turns arbitrary: srv)
  case (Cons t ts)
  obtain en stop w where t: "t = (en, stop, w)" by (metis prod_cases3)
  obtain ec1 srv1 where u: "loop_turn en fd stop w srv = Some (ec1, srv1)"
    using Cons.prems t by (auto split: option.splits)
  have g: "keeps_guard srv srv1" using loop_turn_guard [OF u] .
  show ?case
  proof (cases ec1)
    case None
    then show ?thesis using Cons.prems t u keeps_guard_trans [OF g Cons.IH] by simp
  next
    case (Some e)
    then show ?thesis using Cons.prems t u g by simp
  qed
qed simp

section \<open>The properties\<close>

text \<open>Before the first turn no slot has a handler.\<close>

lemma start_guarded:
  fixes srv :: "('p, 'u, 'w, 's) server"
  assumes h: "edge_iouring_start sn cfg (Some opts) = Some (fd, srv)"
  shows "guarded srv \<and> sv_auth srv = io_auth opts \<and> sv_service_api_key srv = io_service_api_key opts"
proof -
  obtain srv0 srv1 :: "('p, 'u, 'w, 's) server" and n where s: "sv_conns srv0 = map (\<lambda>i. free_conn (int i)) [0 ..< n]"
      "sv_auth srv0 = io_auth opts" "sv_service_api_key srv0 = io_service_api_key opts"
      "submit_accept fd srv0 = (0, srv1)" "srv = io_uring_submit srv1"
    using h unfolding edge_iouring_start_def Let_def option.case
  proof (elim foundE guardE submittedE, goal_cases)
    case (1 c fd' s)
    show thesis by (rule that [OF _ _ _ 1(4) [folded 1(5)] 1(6)]) simp_all
  qed
  have "guarded srv0" using s(1) by (simp add: guarded_def conn_at_def free_conn_def)
  moreover have k: "same_http srv0 srv"
    using submit_accept_http [of srv0 fd] s(4,5) by (simp add: io_uring_submit_def)
  ultimately have "guarded srv"
    by (auto simp: guarded_def same_http_def vouched_def) (metis option.distinct(1))+
  then show ?thesis using k s(2,3) by (simp add: same_http_def)
qed

lemma running_backed:
  assumes "edge_iouring_start sn cfg (Some opts) = Some (fd, srv0)"
    and "io_auth opts = Some a" and "edge_auth_mode_enforced (ac_mode a)"
    and "loop_run fd turns srv0 = Some (ec, srv)"
    and "i < length (sv_conns srv)" and "cn_http (conn_at srv i) = Some h"
  shows "hs_auth h = Some a \<and>
    (pr_authenticated (hs_principal h) \<longrightarrow> credentials (Some a) (io_service_api_key opts) (hs_principal h))"
proof -
  note s = start_guarded [OF assms(1)] and k = loop_run_guard [OF assms(4)]
  have "enforces (sv_auth srv0)" using s assms(2,3) by (simp add: enforces_def)
  then have "guarded srv" "enforces (sv_auth srv)" using s k by (simp_all add: keeps_guard_def)
  then have v: "vouched srv h" and c: "pr_authenticated (hs_principal h) \<longrightarrow>
      credentials (sv_auth srv) (sv_service_api_key srv) (hs_principal h)"
    using guardedD [OF _ assms(5,6)] vouched_credentials by blast+
  have "hs_auth h = sv_auth srv" using v by (simp add: vouched_def)
  moreover have "sv_auth srv = Some a" "sv_service_api_key srv = io_service_api_key opts"
    using s k assms(2) by (simp_all add: keeps_guard_def)
  ultimately show ?thesis using c by simp
qed

end
