(* ===== verification/Iouring_Writes.thy ===== *)
theory Iouring_Writes
  imports Iouring_Guard Http1_State Auth_Policy
begin

text \<open>
  Who may change the state of the running server, with an employee's PUT that goes through it
  from the bytes of the request to the store.
\<close>

section \<open>The property\<close>

lemma allowed_authenticated: "allowed h res \<Longrightarrow> pr_authenticated (hs_principal h)"
  by (auto simp: allowed_def edge_auth_rbac_check_def split: if_splits)


section \<open>A signed request\<close>

text \<open>The proxy's signature of the user alice with the default role, at time 1000.\<close>

definition alice_text :: string where
  "alice_text = canonical_text ''alice'' (roles_used None) ''1000''"

definition alice_signature :: string where
  "alice_signature = mac_text (hmac_sha256 [4, 5] (bytes_of alice_text))"

definition alice :: edge_principal where
  "alice = proxy_principal ''alice'' None 1300"

lemma alice_verified:
  "edge_auth_proxy_verify 1000 proxy_ctx (Some ''alice'') None (Some ''1000'') (Some alice_signature) = Some alice"
proof -
  have k: "ac_proxy_hmac_key proxy_ctx = [4, 5]" by (simp add: proxy_ctx_def)
  have m: "max_skew proxy_ctx = 300" by (simp add: max_skew_def proxy_ctx_def edge_auth_ctx_init_def)
  have n: "edge_auth_now_sec 1000 proxy_ctx = 1000"
    by (simp add: edge_auth_now_sec_def proxy_ctx_def edge_auth_ctx_init_def)
  have l: "c_strtoll ''1000'' = Some (1000, [])" by code_simp
  have s: "mac_codec.signature_ok [4, 5] (bytes_of alice_text) alice_signature"
    unfolding alice_signature_def by (rule mac_codec.own_signature)
  have "proxy_accepts 1000 proxy_ctx ''alice'' (roles_used None) ''1000'' 1000 alice_signature"
    using s
    by (simp add: proxy_accepts_def k m l alice_text_def)
      (simp add: EDGE_AUTH_SUB_MAX_def clean_chars_def roles_used_def canonical_text_def)
  then show ?thesis unfolding proxy_verify_iff by (auto simp: n m alice_def intro!: exI [of _ 1000])
qed

lemma alice_may_put: "edge_auth_rbac_check (Some alice) EDGE_RES_STATE_PUT = EDGE_AUTH_ALLOW"
  unfolding alice_def by code_simp

text \<open>A parser that answers the headers of that request.\<close>

definition alice_env :: "demo_parser http1_env" where
  "alice_env = demo_env\<lparr>en_get_header := (\<lambda>p name n.
     map_of [(''X-User'', ''alice''), (''X-Auth-Timestamp'', ''1000''), (''X-Auth-Signature'', alice_signature),
             (''Content-Length'', ''1'')] name)\<rparr>"

definition alice_put :: string where
  "alice_put = ''PUT /api/v1/state/net.core/a HTTP/1.1'' @ crlf @ crlf @ ''1''"

lemma alice_headers:
  "request_principal alice_env p (Some proxy_ctx) None = alice"
proof -
  have t: "en_time alice_env = 1000" by (simp add: alice_env_def demo_env_def)
  have m: "ac_mode proxy_ctx = EDGE_AUTH_MODE_PROXY_HEADERS" by (simp add: proxy_ctx_def)
  have "ladder_principal alice_env p (Some proxy_ctx) = alice"
    by (simp add: ladder_principal_def m t Let_def alice_verified)
      (simp add: alice_env_def demo_env_def alice_verified)
  then show ?thesis by (simp add: request_principal_def Let_def bearer_ok_def)
qed

definition fresh :: "edge_auth_ctx option \<Rightarrow> state_store option \<Rightarrow> (demo_parser, 'u) http1_serve \<Rightarrow> bool" where
  "fresh auth st h \<longleftrightarrow>
     hs_h1 h = ([], []) \<and> \<not> hs_done h \<and> hs_acc h = [] \<and> \<not> hs_have_body_off h \<and> \<not> hs_ws_upgrade h \<and>
     hs_auth h = auth \<and> hs_service_api_key h = None \<and> hs_store h = st"

lemma alice_drains:
  fixes h :: "(demo_parser, 'u) http1_serve"
  assumes f: "fresh (Some proxy_ctx) st h"
  obtains s1 where "drain_events alice_env (h\<lparr>hs_acc := alice_put, hs_h1 := (demo_events alice_put, [])\<rparr>) = Some (False, s1)"
    "hs_headers_done s1" "hs_method s1 = ''PUT''" "hs_path s1 = ''/api/v1/state/net.core/a''"
    "hs_content_length s1 = 1" "hs_have_body_off s1" "hs_body_off s1 = 41" "hs_acc s1 = alice_put"
    "hs_principal s1 = alice" "hs_auth s1 = Some proxy_ctx" "hs_store s1 = st" "\<not> hs_ws_upgrade s1"
proof -
  have ev: "demo_events alice_put =
      [HTTP1_EVENT_REQUEST_LINE ''PUT'' ''/api/v1/state/net.core/a'', HTTP1_EVENT_HEADERS_COMPLETE]"
    unfolding alice_put_def by code_simp
  have b: "body_start alice_put 0 = Some 41" unfolding alice_put_def by code_simp
  have c: "c_copy method_size ''PUT'' = ''PUT''"
    "c_copy path_size ''/api/v1/state/net.core/a'' = ''/api/v1/state/net.core/a''" by code_simp+
  have n: "c_strtoll ''1'' = Some (1, [])" by code_simp
  have nx: "en_next_event alice_env = demo_next" by (simp add: alice_env_def)
  have g: "en_get_header alice_env p ''Content-Length'' k = Some ''1''" for p k by (simp add: alice_env_def)
  let ?h = "h\<lparr>hs_acc := alice_put, hs_method := ''PUT'', hs_path := ''/api/v1/state/net.core/a'', hs_h1 := ([], [])\<rparr>"
  have "drain_events alice_env (h\<lparr>hs_acc := alice_put, hs_h1 := (demo_events alice_put, [])\<rparr>) =
      Some (False, on_headers_complete alice_env ?h)"
    by (simp add: drain_events.simps ev nx c)
  then show thesis
    by (rule that)
      (use f in \<open>simp_all add: on_headers_complete_def Let_def split_beta mark_body_off_def b g n fresh_def alice_headers\<close>)
qed

lemma alice_feed:
  fixes h :: "(demo_parser, 'u) http1_serve"
  assumes f: "fresh (Some proxy_ctx) (Some st) h" and v: "values_bounded st" "0 < st_max_keys st" "0 < st_max_value st"
    and e: "store_view st ''net.core'' = Some (True, Map.empty)" and big: "256 \<le> cap"
  obtains out h' m' st' where "edge_http1_serve_feed alice_env h alice_put m cap = Some (Answered out, h', m')"
    "hs_store h' = Some st'" "store_view st' ''net.core'' = Some (True, [''a'' \<mapsto> ''1''])" "\<not> hs_ws_upgrade h'"
proof -
  let ?m = "map_option (\<lambda>m. m\<lparr>em_bytes_in := em_bytes_in m + of_nat (length alice_put)\<rparr>) m"
  from f obtain s1 where d: "drain_events alice_env (h\<lparr>hs_acc := alice_put, hs_h1 := (demo_events alice_put, [])\<rparr>) = Some (False, s1)"
    and s1: "hs_headers_done s1" "hs_method s1 = ''PUT''" "hs_path s1 = ''/api/v1/state/net.core/a''"
    "hs_content_length s1 = 1" "hs_have_body_off s1" "hs_body_off s1 = 41" "hs_acc s1 = alice_put"
    "hs_principal s1 = alice" "hs_auth s1 = Some proxy_ctx" "hs_store s1 = Some st" "\<not> hs_ws_upgrade s1"
    by (rule alice_drains)
  have ne: "alice_put \<noteq> []" "length alice_put = 42" "drop 41 alice_put = ''1''"
    by (simp_all add: alice_put_def crlf_def)
  have acc: "length alice_put \<le> EDGE_HTTP_ACC_MAX" by (simp add: ne EDGE_HTTP_ACC_MAX_def)
  have "path_is_state ''/api/v1/state/net.core/a'' state_ns_size EDGE_STATE_KEY_MAX EDGE_STATE_KEY_MAX = Some demo_sp"
    by code_simp
  moreover have "edge_auth_classify (Some ''PUT'') (Some ''/api/v1/state/net.core/a'') False = EDGE_RES_STATE_PUT"
    by code_simp
  ultimately have r: "ready s1 demo_sp"
    using s1 ne alice_may_put by (simp add: ready_def allowed_def demo_sp_def)
  have body: "cut_body s1 = ''1''" by (simp add: cut_body_def Let_def s1 ne)
  have wait: "wait_full_body s1 = (True, s1)" by (simp add: wait_full_body_def marked_def Let_def s1 ne)
  obtain rc s2 m2 where di: "dispatch alice_env s1 ?m cap = (rc, s2, m2)" by (rule prod_cases3)
  note ds = di [unfolded ready_dispatch [OF v(1) s1(10) r]]
  have api: "state_api (st_max_keys st) (st_max_value st) (store_view st) ''PUT'' ''net.core'' ''a'' ''1'' =
      api_changed ((store_view st)(''net.core'' \<mapsto> (True, [''a'' \<mapsto> ''1'']))) ''put'' (Some ''1'')"
    using v(2,3)
    by (simp add: state_api_def spec_put_def e edge_state_key_valid_def edge_state_json_ok_def
        state_limits key_char_ok_def is_lower_def is_digit_def is_space_def json_start_ok_def)
  note im = state_implements [OF v(1) s1(10) r, where en = alice_env and cap = cap and m = ?m, unfolded ds]
  obtain out st' where rc: "rc = Answered out" and st': "hs_store s2 = Some st'"
      "store_view st' ''net.core'' = Some (True, [''a'' \<mapsto> ''1''])"
    using im unfolding implements_def s1(2) body demo_sp_simps api
    using big by (auto simp: api_changed_def answers_def)
  have up: "\<not> hs_ws_upgrade s2" using state_frame [OF ds] s1 by simp
  have nf: "en_feed_input alice_env ([], []) alice_put = (demo_events alice_put, [])"
    by (simp add: alice_env_def demo_env_def)
  have hf: "hs_h1 h = ([], [])" "\<not> hs_done h" "hs_acc h = []" using f by (simp_all add: fresh_def)
  have "feed_events alice_env (False, s1) ?m cap = mark_done (dispatch alice_env s1 ?m cap)"
    by (simp add: feed_events_def s1 wait)
  also have "\<dots> = (Answered out, s2\<lparr>hs_done := True\<rparr>, m2)" by (simp add: di rc mark_done_def)
  finally have "edge_http1_serve_feed alice_env h alice_put m cap = Some (Answered out, s2\<lparr>hs_done := True\<rparr>, m2)"
    using acc ne(1) d by (simp add: edge_http1_serve_feed_def Let_def hf nf)
  then show thesis by (rule that) (use st' up in simp_all)
qed

section \<open>Through the loop\<close>

text \<open>The state after the first client was accepted.\<close>

definition first_client :: "nat \<Rightarrow> ('p, 'u) http1_serve \<Rightarrow> ('p, 'u, 'w, 's) conn" where
  "first_client cap h = (free_conn 0)\<lparr>cn_fd := Some 5, cn_state := CS_RECV, cn_recv_pending := True,
     cn_send_buf := Some [], cn_send_cap := cap, cn_http := Some h\<rparr>"

lemma after_accept:
  fixes srv :: "(demo_parser, 'u, unit, unit) server"
  assumes s: "sv_conns srv = [free_conn 0]" "sv_tls_ctx srv = None" "sv_sq srv = []" "sv_entries srv = 256"
    "sv_max_accepts srv = 0"
  obtains h inflight accepts m where "new_http demo_loop srv = Some h"
    "loop_run 3 demo_turns srv = Some (None, srv\<lparr>sv_accepts_done := accepts, sv_metrics := m,
       sv_conns := [first_client (sv_send_cap srv) h], sv_accept_pending := True, sv_inflight := inflight,
       sv_sq := []\<rparr>)"
proof -
  have u: "unpack_ud (pack_ud OP_ACCEPT 0) = (OP_ACCEPT, 0)" by (rule unpack_pack) (simp_all add: op_defs)
  have stop: "\<not> should_stop False srv" by (simp add: should_stop_def s)
  have nonblock: "le_set_nonblock demo_loop fd" for fd by (simp add: demo_loop_def)
  obtain h where h: "new_http demo_loop srv = Some h"
    by (cases "new_http demo_loop srv") (simp_all add: new_http_def Let_def demo_loop_def demo_env_def edge_http1_serve_create_def)
  let ?srv = "srv\<lparr>sv_inflight := complete_op (pack_ud OP_ACCEPT 0) (sv_inflight srv), sv_accept_pending := False\<rparr>"
  have same: "new_http demo_loop ?srv = Some h" using h by (simp add: new_http_def)
  have a: "alloc_conn demo_loop ?srv =
      (Some 0, upd_conn 0 (\<lambda>_. (free_conn 0)\<lparr>cn_state := CS_RECV, cn_send_cap := sv_send_cap srv,
         cn_send_buf := Some [], cn_http := Some h\<rparr>) ?srv)"
    using same by (simp add: alloc_conn_def s Let_def) (simp add: free_conn_def demo_loop_def)
  show thesis
    by (rule that [OF h])
      (simp add: demo_turns_def loop_turn_def stop on_completion_def u on_accept_def accept_one_def a Let_def s
        nonblock submit_recv_def submit_accept_def ring_put_def io_uring_submit_def
        upd_conn_def count_def conn_at_def free_conn_def first_client_def)
qed

definition alice_loop :: "(demo_parser, unit, unit) loop_env" where
  "alice_loop = demo_loop\<lparr>le_http := alice_env\<rparr>"

lemma answered_turn:
  fixes srv :: "(demo_parser, 'u, unit, unit) server"
  assumes c: "sv_conns srv = [first_client cap h]" and q: "sv_sq srv = []" "sv_entries srv = 256" "sv_max_accepts srv = 0"
    and f: "edge_http1_serve_feed alice_env (lend_shared srv h) alice_put (Some (sv_metrics srv)) cap =
      Some (Answered out, h', m')" and up: "\<not> hs_ws_upgrade h'"
  obtains srv' where "loop_turn alice_loop 3 (False, False) (Wait_Cqe (pack_ud OP_RECV 0) 42 alice_put) srv =
      Some (None, srv')" "sv_store srv' = hs_store h'"
proof -
  have u: "unpack_ud (pack_ud OP_RECV 0) = (OP_RECV, 0)" by (rule unpack_pack) (simp_all add: op_defs)
  have o: "OP_RECV \<noteq> OP_ACCEPT" by (simp add: op_defs)
  have stop: "\<not> should_stop False srv" using q by (simp add: should_stop_def)
  have le: "le_http alice_loop = alice_env" by (simp add: alice_loop_def)
  have ne: "alice_put \<noteq> []" by (simp add: alice_put_def)
  define a where "a = srv\<lparr>sv_inflight := complete_op (pack_ud OP_RECV 0) (sv_inflight srv)\<rparr>"
  define b where "b = upd_conn 0 (\<lambda>c. c\<lparr>cn_recv_pending := False\<rparr>) a"
  have lb: "lend_shared b h = lend_shared srv h" "sv_metrics b = sv_metrics srv"
    by (simp_all add: b_def a_def lend_shared_def upd_conn_def)
  have cb: "sv_conns b = [(first_client cap h)\<lparr>cn_recv_pending := False\<rparr>]" "sv_sq b = []" "sv_entries b = 256"
    using c q by (simp_all add: b_def a_def upd_conn_def conn_at_def)
  define r1 where "r1 = return_shared 0 h' m' b"
  have r1: "sv_conns r1 = [(first_client cap h)\<lparr>cn_recv_pending := False, cn_http := Some h'\<rparr>]"
    "sv_sq r1 = []" "sv_entries r1 = 256" "sv_store r1 = hs_store h'"
    using cb by (simp_all add: r1_def return_shared_def upd_conn_def conn_at_def)
  define r2 where "r2 = upd_conn 0 (\<lambda>c. c\<lparr>cn_keep_ws := edge_http1_serve_took_ws_upgrade h'\<rparr>) r1"
  have r2: "sv_conns r2 = [(first_client cap h)\<lparr>cn_recv_pending := False, cn_http := Some h', cn_keep_ws := False\<rparr>]"
    "sv_sq r2 = []" "sv_entries r2 = 256" "sv_store r2 = hs_store h'"
    using r1 up by (simp_all add: r2_def upd_conn_def conn_at_def edge_http1_serve_took_ws_upgrade_def)
  have "\<exists>x. begin_send_buf (drive_of alice_loop) 0 out CS_SEND r2 = Some (0, x) \<and> sv_store x = hs_store h' \<and>
      length (sv_conns x) = 1 \<and> cn_state (conn_at x 0) = CS_SEND \<and> \<not> cn_keep_ws (conn_at x 0)"
    using r2
    by (simp add: begin_send_buf_def submit_send_def ring_put_def Let_def upd_conn_def conn_at_def
        first_client_def free_conn_def)
  then obtain x where x: "begin_send_buf (drive_of alice_loop) 0 out CS_SEND r2 = Some (0, x)" "sv_store x = hs_store h'"
      "length (sv_conns x) = 1" "cn_state (conn_at x 0) = CS_SEND" "\<not> cn_keep_ws (conn_at x 0)" by blast
  have fl: "ws_flush_all_pending alice_loop x = Some x" using x by (simp add: ws_flush_all_pending_def Let_def)
  have hc: "cn_http (conn_at b 0) = Some h" "cn_send_cap (conn_at b 0) = cap"
    using cb by (simp_all add: conn_at_def first_client_def)
  have h: "handle_http_bytes alice_loop 0 alice_put b = Some (0, x)"
    unfolding handle_http_bytes_def if_not_P [OF ne] hc option.case le lb f prod.case Let_def serve_rc.case
      r1_def [symmetric] r2_def [symmetric] x(1)
    using x(5) fl by simp
  have "on_recv alice_loop 0 42 alice_put a = Some x"
    using c h unfolding on_recv_def Let_def b_def [symmetric]
    by (simp add: a_def conn_at_def first_client_def free_conn_def close_if_failed_def)
  moreover have "slot_of a 0 = Some 0" using c by (simp add: slot_of_def a_def)
  ultimately have "loop_turn alice_loop 3 (False, False) (Wait_Cqe (pack_ud OP_RECV 0) 42 alice_put) srv =
      Some (None, io_uring_submit x)"
    by (simp add: loop_turn_def stop on_completion_def u o a_def [symmetric])
  then show thesis by (rule that) (simp add: x(2) io_uring_submit_def)
qed

section \<open>The server of the witness\<close>

lemma set_enabled_sizes:
  "st_max_keys (snd (edge_state_ns_set_enabled mem st nm en)) = st_max_keys st"
  "st_max_value (snd (edge_state_ns_set_enabled mem st nm en)) = st_max_value st"
  by (auto simp: edge_state_ns_set_enabled_def register_ns_def Let_def split: option.splits if_splits)

lemma apply_config_sizes:
  "st_max_keys (edge_state_apply_config mem st (Some c)) = st_max_keys st"
  "st_max_value (edge_state_apply_config mem st (Some c)) = st_max_value st"
  by (simp_all add: edge_state_apply_config_def Let_def set_enabled_sizes)

definition alice_store :: state_store where
  "alice_store = edge_state_apply_config (\<lambda>n. True) tiny_store (Some edge_config_defaults)"

lemma alice_store_facts:
  "values_bounded alice_store" "0 < st_max_keys alice_store" "0 < st_max_value alice_store"
  "store_view alice_store ''net.core'' = Some (True, Map.empty)"
  using state_apply_config_keeps_data [OF tiny_sizes(3) tiny_core, of "\<lambda>n. True" edge_config_defaults]
  by (simp_all add: alice_store_def values_bounded_def apply_config_sizes tiny_sizes EDGE_STATE_VALUE_MAX_def
      config_flag_def edge_config_defaults_def)

definition alice_opts :: "unit iouring_opts" where
  "alice_opts = demo_opts\<lparr>io_auth := Some proxy_ctx, io_state := Some tiny_store\<rparr>"

definition alice_server :: "(demo_parser, unit, unit, unit) server" where
  "alice_server = snd (the (edge_iouring_start demo_start (Some edge_config_defaults) (Some alice_opts)))"

lemma alice_started:
  "edge_iouring_start demo_start (Some edge_config_defaults) (Some alice_opts) = Some (3, alice_server)"
  "sv_conns alice_server = [free_conn 0]" "sv_tls_ctx alice_server = None" "sv_sq alice_server = []"
  "sv_entries alice_server = 256" "sv_max_accepts alice_server = 0" "sv_auth alice_server = Some proxy_ctx"
  "sv_service_api_key alice_server = None" "sv_store alice_server = Some alice_store"
  "256 \<le> sv_send_cap alice_server"
  by (simp_all add: alice_server_def edge_iouring_start_def demo_start_def alice_opts_def demo_opts_def
      edge_iouring_opts_defaults_def edge_config_defaults_def edge_tls_config_enabled_def alice_store_def
      edge_ws_hub_create_def submit_accept_def ring_put_def io_uring_submit_def send_cap_of_def Let_def)


end
