(* ===== verification/Listen_Socket.thy ===== *)
theory Listen_Socket
  imports Iouring_Run
begin

text \<open>
  The listening socket of \<open>src/host/iouring_loop.c\<close>, over the system calls it makes. It is what
  \<open>sn_listen\<close> stands for in the start of the server.
\<close>

unbundle bit_operations_syntax

text \<open>The system calls: \<open>socket\<close>, \<open>setsockopt\<close>, \<open>inet_pton\<close>, \<open>bind\<close>, \<open>listen\<close> and the two uses of
  \<open>fcntl\<close>. Addresses are in network order.\<close>

record sock_sys =
  sy_socket :: int
  sy_reuse :: "int \<Rightarrow> bool"
  sy_pton :: "string \<Rightarrow> u32 option"
  sy_bind :: "int \<Rightarrow> u32 \<Rightarrow> u16 \<Rightarrow> bool"
  sy_listen :: "int \<Rightarrow> int \<Rightarrow> bool"
  sy_getfl :: "int \<Rightarrow> int"
  sy_setfl :: "int \<Rightarrow> int \<Rightarrow> int"

definition O_NONBLOCK :: int where "O_NONBLOCK = 2048"

definition INADDR_ANY :: u32 where "INADDR_ANY = 0"

definition set_nonblock :: "sock_sys \<Rightarrow> int \<Rightarrow> int" where
  "set_nonblock sys fd =
     (let fl = sy_getfl sys fd in if fl < 0 then -1 else sy_setfl sys fd (fl OR O_NONBLOCK))"

definition listen_addr :: "sock_sys \<Rightarrow> edge_config \<Rightarrow> u32 option" where
  "listen_addr sys cfg =
     (if listen_host cfg = [] \<or> listen_host cfg = ''0.0.0.0'' then Some INADDR_ANY
      else sy_pton sys (listen_host cfg))"

text \<open>The result, with the descriptors that were closed again.\<close>

definition create_listen_socket :: "sock_sys \<Rightarrow> edge_config \<Rightarrow> int \<Rightarrow> int \<times> int list" where
  "create_listen_socket sys cfg backlog =
     (let fd = sy_socket sys
      in if fd < 0 then (-1, [])
         else if \<not> sy_reuse sys fd then (-1, [fd])
         else case listen_addr sys cfg of
           None \<Rightarrow> (-1, [fd])
         | Some a \<Rightarrow>
             if \<not> sy_bind sys fd a (listen_port cfg) then (-1, [fd])
             else if \<not> sy_listen sys fd (if backlog > 0 then backlog else 128) then (-1, [fd])
             else if set_nonblock sys fd \<noteq> 0 then (-1, [fd])
             else (fd, []))"

text \<open>A start environment whose listening socket is the real one.\<close>

definition with_listen_socket :: "sock_sys \<Rightarrow> start_env \<Rightarrow> start_env" where
  "with_listen_socket sys sn =
     sn\<lparr>sn_listen := (\<lambda>cfg b. let fd = fst (create_listen_socket sys cfg b) in if fd < 0 then None else Some fd)\<rparr>"

text \<open>No descriptor is lost: a failure closes the socket if there was one. A success leaves it
  open, bound to the configured port on the configured address, listening and non-blocking.\<close>

lemma listen_socket_owned:
  assumes "create_listen_socket sys cfg b = (rc, closed)"
  shows "rc = -1 \<and> closed = (if sy_socket sys < 0 then [] else [sy_socket sys]) \<or>
    rc = sy_socket sys \<and> 0 \<le> rc \<and> closed = [] \<and> set_nonblock sys rc = 0 \<and>
    (\<exists>a. listen_addr sys cfg = Some a \<and> sy_bind sys rc a (listen_port cfg)) \<and>
    sy_listen sys rc (if b > 0 then b else 128)"
  using assms by (auto simp: create_listen_socket_def Let_def split: if_splits option.splits)

lemma start_listens:
  assumes "edge_iouring_start (with_listen_socket sys sn) (Some cfg) opts = Some (fd, srv)"
  shows "fd = sy_socket sys \<and> (\<exists>a. listen_addr sys cfg = Some a \<and> sy_bind sys fd a (listen_port cfg))"
proof -
  have l: "fd = sy_socket sys \<and> (\<exists>a. listen_addr sys cfg = Some a \<and> sy_bind sys fd a (listen_port cfg))"
    if "sn_listen (with_listen_socket sys sn) cfg b = Some fd" for b
  proof -
    obtain rc closed where c: "create_listen_socket sys cfg b = (rc, closed)" by fastforce
    then have "rc = fd" "0 \<le> rc" using that by (auto simp: with_listen_socket_def Let_def split: if_splits)
    then show ?thesis using listen_socket_owned [OF c] by auto
  qed
  obtain b where "sn_listen (with_listen_socket sys sn) cfg b = Some fd"
    using assms unfolding edge_iouring_start_def Let_def option.case
    by (auto split: if_split_asm option.split_asm prod.split_asm)
  then show ?thesis by (rule l)
qed

end
