(* ===== verification/Auth_Host.thy ===== *)
theory Auth_Host
  imports Auth_Rbac Core_Config Tls_Io
begin

text \<open>
  \<open>src/host/auth_host.c\<close>: the authentication context from the configuration and the secrets in
  the environment. \<open>getenv\<close> is the parameter \<open>env\<close>. A result is the message of a failure, cut to
  the caller's buffer, with the context as far as it was filled.
\<close>

definition EDGE_AUTH_HMAC_KEY_MAX :: nat where "EDGE_AUTH_HMAC_KEY_MAX = 64"

definition load_key_env ::
  "(string \<Rightarrow> string option) \<Rightarrow> string \<Rightarrow> nat \<Rightarrow> string \<Rightarrow> string + u8 list" where
  "load_key_env env env_name dst_max label =
     (case given (env env_name) of
        None \<Rightarrow> Inl (''env '' @ env_name @ '' empty ('' @ label @ '')'')
      | Some key \<Rightarrow>
          if length key > dst_max then Inl (''env '' @ env_name @ '' too long ('' @ label @ '')'')
          else Inr (bytes_of key))"

text \<open>A name of the configuration, or the default one.\<close>

definition or_default :: "string \<Rightarrow> string \<Rightarrow> string" where
  "or_default s d = (if s \<noteq> [] then s else d)"

definition edge_auth_ctx_from_config ::
  "(string \<Rightarrow> string option) \<Rightarrow> nat \<Rightarrow> edge_config option \<Rightarrow> edge_auth_ctx \<Rightarrow> string option \<times> edge_auth_ctx" where
  "edge_auth_ctx_from_config env err_len cfg0 out0 =
     (case cfg0 of
        None \<Rightarrow> (Some (c_copy err_len ''null args''), out0)
      | Some cfg \<Rightarrow>
          let fail = (\<lambda>msg. Some (c_copy err_len msg));
              out = edge_auth_ctx_init
                \<lparr>ac_session_ttl_s := (if auth_session_ttl_s cfg \<noteq> 0 then auth_session_ttl_s cfg else 28800),
                 ac_proxy_max_skew_s := (if auth_proxy_max_skew_s cfg \<noteq> 0 then auth_proxy_max_skew_s cfg else 300)\<rparr>;
              mode = or_default (auth_mode cfg) ''open''
          in if mode = ''open'' then (None, out\<lparr>ac_mode := EDGE_AUTH_MODE_OPEN\<rparr>)
             else if mode = ''proxy_headers'' then
               let out1 = out\<lparr>ac_mode := EDGE_AUTH_MODE_PROXY_HEADERS\<rparr>
               in case load_key_env env (or_default (auth_proxy_hmac_key_env cfg) ''EDGEHOST_PROXY_HMAC'')
                         EDGE_AUTH_HMAC_KEY_MAX ''proxy HMAC key'' of
                    Inl msg \<Rightarrow> (fail msg, out1)
                  | Inr key \<Rightarrow> (None, out1\<lparr>ac_proxy_hmac_key := key\<rparr>)
             else if mode \<noteq> ''lab_password'' then (fail ''unknown auth.mode'', out)
             else
               let out1 = out\<lparr>ac_mode := EDGE_AUTH_MODE_LAB_PASSWORD\<rparr>;
                   pw_env = or_default (auth_lab_password_env cfg) ''EDGEHOST_LAB_PASSWORD'';
                   key_env = or_default (auth_session_hmac_key_env cfg) ''EDGEHOST_SESSION_HMAC''
               in case given (env pw_env) of
                    None \<Rightarrow> (fail (''env '' @ pw_env @ '' empty (lab password)''), out1)
                  | Some pw \<Rightarrow>
                      if length pw \<ge> EDGE_AUTH_PASSWORD_MAX then (fail ''lab password too long'', out1)
                      else
                        let out2 = out1\<lparr>ac_lab_password := c_copy EDGE_AUTH_PASSWORD_MAX pw\<rparr>
                        in case load_key_env env key_env EDGE_AUTH_HMAC_KEY_MAX ''session HMAC key'' of
                             Inl msg \<Rightarrow> (fail msg, out2)
                           | Inr key \<Rightarrow> (None, out2\<lparr>ac_hmac_key := key\<rparr>))"

section \<open>No secret, no service\<close>

text \<open>What a context that is used must have.\<close>

definition auth_ready :: "edge_auth_ctx \<Rightarrow> bool" where
  "auth_ready a \<longleftrightarrow>
     (case ac_mode a of
        EDGE_AUTH_MODE_OPEN \<Rightarrow> True
      | EDGE_AUTH_MODE_LAB_PASSWORD \<Rightarrow>
          ac_lab_password a \<noteq> [] \<and> length (ac_lab_password a) < EDGE_AUTH_PASSWORD_MAX \<and>
          ac_hmac_key a \<noteq> [] \<and> length (ac_hmac_key a) \<le> EDGE_AUTH_HMAC_KEY_MAX
      | EDGE_AUTH_MODE_PROXY_HEADERS \<Rightarrow>
          ac_proxy_hmac_key a \<noteq> [] \<and> length (ac_proxy_hmac_key a) \<le> EDGE_AUTH_HMAC_KEY_MAX)"

definition mode_of :: "edge_config \<Rightarrow> edge_auth_mode option" where
  "mode_of cfg =
     (if auth_mode cfg \<in> {[], ''open''} then Some EDGE_AUTH_MODE_OPEN
      else if auth_mode cfg = ''proxy_headers'' then Some EDGE_AUTH_MODE_PROXY_HEADERS
      else if auth_mode cfg = ''lab_password'' then Some EDGE_AUTH_MODE_LAB_PASSWORD
      else None)"

lemma given_SomeD: "given f = Some s \<Longrightarrow> f = Some s \<and> s \<noteq> []"
  by (auto simp: given_def split: option.splits list.splits)

lemma load_key_ok:
  "load_key_env env nm n label = Inr key \<Longrightarrow> key \<noteq> [] \<and> length key \<le> n \<and> (\<exists>s. env nm = Some s \<and> key = bytes_of s)"
  by (auto simp: load_key_env_def bytes_of_def split: option.splits if_splits dest: given_SomeD)

lemma auth_from_config_ok:
  assumes "edge_auth_ctx_from_config env n (Some cfg) out0 = (None, a)"
  shows "mode_of cfg = Some (ac_mode a) \<and> auth_ready a"
proof -
  consider (op) "or_default (auth_mode cfg) ''open'' = ''open''"
    | (proxy) "or_default (auth_mode cfg) ''open'' = ''proxy_headers''"
    | (lab) "or_default (auth_mode cfg) ''open'' = ''lab_password''"
    | (other) "or_default (auth_mode cfg) ''open'' \<notin> {''open'', ''proxy_headers'', ''lab_password''}" by blast
  then show ?thesis
  proof cases
    case op
    then show ?thesis using assms
      by (auto simp: edge_auth_ctx_from_config_def Let_def auth_ready_def mode_of_def or_default_def split: if_splits)
  next
    case proxy
    then have m: "auth_mode cfg = ''proxy_headers''" by (auto simp: or_default_def split: if_splits)
    from proxy obtain k where "load_key_env env (or_default (auth_proxy_hmac_key_env cfg) ''EDGEHOST_PROXY_HMAC'')
        EDGE_AUTH_HMAC_KEY_MAX ''proxy HMAC key'' = Inr k" "ac_proxy_hmac_key a = k" "ac_mode a = EDGE_AUTH_MODE_PROXY_HEADERS"
      using assms by (auto simp: edge_auth_ctx_from_config_def Let_def split: sum.splits)
    then show ?thesis using load_key_ok m by (fastforce simp: auth_ready_def mode_of_def)
  next
    case lab
    then have m: "auth_mode cfg = ''lab_password''" by (auto simp: or_default_def split: if_splits)
    from lab obtain pw k where
      "given (env (or_default (auth_lab_password_env cfg) ''EDGEHOST_LAB_PASSWORD'')) = Some pw"
      "length pw < EDGE_AUTH_PASSWORD_MAX"
      "load_key_env env (or_default (auth_session_hmac_key_env cfg) ''EDGEHOST_SESSION_HMAC'')
         EDGE_AUTH_HMAC_KEY_MAX ''session HMAC key'' = Inr k"
      "ac_hmac_key a = k" "ac_lab_password a = c_copy EDGE_AUTH_PASSWORD_MAX pw"
      "ac_mode a = EDGE_AUTH_MODE_LAB_PASSWORD"
      using assms by (auto simp: edge_auth_ctx_from_config_def Let_def split: sum.splits option.splits if_splits)
    then show ?thesis using load_key_ok m given_SomeD by (fastforce simp: auth_ready_def mode_of_def c_copy_def)
  next
    case other
    then show ?thesis using assms by (auto simp: edge_auth_ctx_from_config_def Let_def)
  qed
qed

end
