(* ===== verification/Config_Hup.thy ===== *)
theory Config_Hup
  imports Config_Yaml Edgecore
begin

text \<open>
  \<open>src/host/config_hup.c\<close>: reloading the configuration of a running core. The flag that the
  signal handler sets is explicit. The YAML library and the file are the parameters of
  \<open>Config_Yaml\<close>; \<open>None\<close> stands for a reader that does not return.
\<close>

definition edgehost_on_hup :: "bool \<Rightarrow> bool" where
  "edgehost_on_hup flag = True"

definition edgehost_hup_take :: "bool \<Rightarrow> bool \<times> bool" where
  "edgehost_hup_take flag = (if flag then (True, False) else (False, flag))"

definition local_err_size :: nat where "local_err_size = 160"

text \<open>The return value, the message for a caller with a buffer of \<open>err_len\<close> bytes, and the core.
  \<open>shadow0\<close> is the content of the local configuration before the load.\<close>

definition edgehost_reload_config ::
  "'y yaml_lib \<Rightarrow> (string \<Rightarrow> string option) \<Rightarrow> bool \<Rightarrow> edge_config \<Rightarrow> nat \<Rightarrow> edgecore \<Rightarrow> string option \<Rightarrow>
   (int \<times> string \<times> edgecore) option" where
  "edgehost_reload_config lib file mem shadow0 err_len core path0 =
     (case path0 of
        None \<Rightarrow> Some (-1, c_copy err_len ''null args'', core)
      | Some path \<Rightarrow>
          (case edge_config_load_yaml_path lib file mem path shadow0 of
             None \<Rightarrow> None
           | Some (Some msg, shadow) \<Rightarrow>
               let local_err = c_copy local_err_size msg
               in Some (-1, c_copy err_len local_err, snd (edgecore_notify_config_rejected core (Some local_err)))
           | Some (None, shadow) \<Rightarrow>
               (case edgecore_apply_config core (Some shadow) of
                  (rc, core1) \<Rightarrow>
                    if rc \<noteq> 0 then Some (-1, c_copy err_len ''apply_config rejected'', core1)
                    else Some (0, [], core1))))"

end
