(* ===== verification/Host_Main.thy ===== *)
theory Host_Main
  imports Auth_Host Config_Hup Openai_Proxy Iouring_Run
begin

text \<open>
  \<open>src/host/main.c\<close>: the process. It reads its options, loads the configuration into a core,
  builds the authentication context and the plugin host, and runs the server with them. The
  options arrive as \<open>getopt_long\<close> hands them out. A failure ends the process with an exit code
  (\<open>Inl\<close>); \<open>None\<close> stands for a configuration reader that does not return. Messages to the
  terminal, the SIGHUP flag, which is read and dropped before the run, and the release of memory
  at the end are left out.
\<close>

section \<open>Options\<close>

datatype main_opt =
  Opt_Config string | Opt_Host string | Opt_Port string | Opt_Once | Opt_Help | Opt_Unknown

record main_args =
  ma_config :: "string option"
  ma_host :: "string option"
  ma_port :: int
  ma_once :: bool

definition no_args :: main_args where
  "no_args = \<lparr>ma_config = None, ma_host = None, ma_port = -1, ma_once = False\<rparr>"

text \<open>\<open>atoi\<close>: \<open>strtol\<close>, converted to \<open>int\<close>.\<close>

definition c_atoi :: "string \<Rightarrow> int" where
  "c_atoi s = (case c_strtoll s of None \<Rightarrow> 0 | Some (v, _) \<Rightarrow> sint (of_int v :: u32))"

fun parse_args :: "main_opt list \<Rightarrow> main_args \<Rightarrow> int + main_args" where
  "parse_args [] a = Inr a"
| "parse_args (Opt_Config p # os) a = parse_args os (a\<lparr>ma_config := Some p\<rparr>)"
| "parse_args (Opt_Host h # os) a = parse_args os (a\<lparr>ma_host := Some h\<rparr>)"
| "parse_args (Opt_Port t # os) a = parse_args os (a\<lparr>ma_port := c_atoi t\<rparr>)"
| "parse_args (Opt_Once # os) a = parse_args os (a\<lparr>ma_once := True\<rparr>)"
| "parse_args (Opt_Help # os) a = Inl 0"
| "parse_args (Opt_Unknown # os) a = Inl 1"

text \<open>The world of the process: the environment, the configuration file and its reader, the
  clock and the allocations.\<close>

record 'y main_env =
  me_getenv :: "string \<Rightarrow> string option"
  me_yaml :: "'y yaml_lib"
  me_file :: "string \<Rightarrow> string option"
  me_mem_read :: bool
  me_mem_core :: "bool \<times> bool"
  me_mem_store :: bool
  me_mem_ns :: "string \<Rightarrow> bool"
  me_mem_host :: "bool \<times> bool"
  me_mem_plugin :: bool
  me_time :: int

definition main_err_size :: nat where "main_err_size = 160"

definition EDGE_CONFIG_HOST_MAX :: nat where "EDGE_CONFIG_HOST_MAX = 256"

section \<open>Configuration\<close>

text \<open>The configuration of the process: the defaults, or the file, with the overrides.\<close>

definition override_listen :: "main_args \<Rightarrow> edge_config \<Rightarrow> int + edge_config" where
  "override_listen a cfg =
     (case (case ma_host a of
              None \<Rightarrow> Inr cfg
            | Some h \<Rightarrow> if length h \<ge> EDGE_CONFIG_HOST_MAX then Inl 1
                        else Inr (cfg\<lparr>listen_host := c_copy EDGE_CONFIG_HOST_MAX h\<rparr>)) of
        Inl rc \<Rightarrow> Inl rc
      | Inr cfg1 \<Rightarrow>
          Inr (if ma_port a > 0 \<and> ma_port a \<le> 65535 then cfg1\<lparr>listen_port := of_int (ma_port a)\<rparr> else cfg1))"

definition main_config :: "'y main_env \<Rightarrow> main_args \<Rightarrow> (int + edge_config) option" where
  "main_config me a =
     (case ma_config a of
        None \<Rightarrow> Some (override_listen a edge_config_defaults)
      | Some path \<Rightarrow>
          (case edge_config_load_yaml_path (me_yaml me) (me_file me) (me_mem_read me) path edge_config_defaults of
             None \<Rightarrow> None
           | Some (Some msg, cfg) \<Rightarrow> Some (Inl 1)
           | Some (None, cfg) \<Rightarrow> Some (override_listen a cfg)))"

text \<open>The loop that empties the event queue.\<close>

function drain_core :: "edgecore \<Rightarrow> edgecore" where
  "drain_core core =
     (case edgecore_next_event core of
        ((rc, ev), core1) \<Rightarrow> if rc = 1 then drain_core core1 else core1)"
  by pat_completeness auto

termination drain_core
  by (relation "measure ec_cnt") (auto simp: edgecore_next_event_def split: if_splits)

declare drain_core.simps [simp del]

definition main_core :: "'y main_env \<Rightarrow> edge_config \<Rightarrow> int + edgecore" where
  "main_core me cfg =
     (case edgecore_create (fst (me_mem_core me)) (snd (me_mem_core me)) of
        None \<Rightarrow> Inl 1
      | Some core \<Rightarrow>
          (case edgecore_apply_config core (Some cfg) of
             (rc, core1) \<Rightarrow> if rc \<noteq> 0 then Inl 1 else Inr (drain_core core1)))"

section \<open>Plugins\<close>

definition openai_ref :: plugin_ref where "openai_ref = 0"
definition slack_ref :: plugin_ref where "slack_ref = 1"
definition teams_ref :: plugin_ref where "teams_ref = 2"

text \<open>The three plugin objects of \<open>main\<close>, zeroed.\<close>

definition zero_plugins :: "plugin_data plugin_env" where
  "zero_plugins = (\<lambda>r. \<lparr>pl_vtbl = None, pl_user_data = No_Data, pl_host = False\<rparr>)"

definition openai_config_of :: "edge_config \<Rightarrow> openai_config" where
  "openai_config_of ac =
     edge_openai_proxy_config_defaults
       \<lparr>oc_enabled := True,
        oc_upstream := c_copy EDGE_OPENAI_URL_MAX (openai_upstream ac),
        oc_upstream_addr := c_copy EDGE_OPENAI_ADDR_MAX (openai_upstream_addr ac),
        oc_upstream_host := c_copy EDGE_OPENAI_HOST_MAX (openai_upstream_host ac),
        oc_api_key_env := c_copy EDGE_OPENAI_ENV_MAX (openai_api_key_env ac),
        oc_service_api_key_env := c_copy EDGE_OPENAI_ENV_MAX (openai_service_key_env ac),
        oc_timeout_ms := openai_timeout_ms ac,
        oc_rate_limit_rpm := openai_rate_limit_rpm ac,
        oc_max_concurrent := openai_max_concurrent ac\<rparr>"

definition service_key_size :: nat where "service_key_size = 256"

definition main_service_key :: "'y main_env \<Rightarrow> edge_config \<Rightarrow> string option" where
  "main_service_key me ac =
     (case given (me_getenv me (or_default (oc_service_api_key_env (openai_config_of ac))
                                  ''EDGEHOST_OPENAI_SERVICE_KEY'')) of
        None \<Rightarrow> None
      | Some k \<Rightarrow> if length k < service_key_size then Some k else None)"

text \<open>A plugin object that was set up, registered with the host; \<open>None\<close> is the exit.\<close>

definition add_plugin ::
  "plugin_ref \<Rightarrow> plugin_data edge_plugin option \<Rightarrow> plugin_host \<times> plugin_data plugin_env \<Rightarrow>
   (plugin_host \<times> plugin_data plugin_env) option" where
  "add_plugin r obj ph_env =
     (case (obj, ph_env) of
        (None, _) \<Rightarrow> None
      | (Some p, (ph, env)) \<Rightarrow>
          (case edge_plugin_host_register ph (env(r := p)) r of
             (rc, ph1, env1) \<Rightarrow> if rc \<noteq> 0 then None else Some (ph1, env1)))"

definition add_openai ::
  "'y main_env \<Rightarrow> edge_config \<Rightarrow> plugin_host \<times> plugin_data plugin_env \<Rightarrow>
   (plugin_host \<times> plugin_data plugin_env) option" where
  "add_openai me ac ph_env =
     (if \<not> openai_enabled ac then Some ph_env
      else case add_plugin openai_ref
                  (edge_openai_proxy_init_plugin (me_mem_plugin me) (me_getenv me) (me_time me)
                     (Some (openai_config_of ac))) ph_env of
        None \<Rightarrow> None
      | Some (ph, env) \<Rightarrow>
          (case edge_plugin_host_add_route ph (Some ''/v1'') (Some openai_ref) of
             (rc, ph1) \<Rightarrow> if rc \<noteq> 0 then None else Some (ph1, env)))"

definition add_chat ::
  "'y main_env \<Rightarrow> edge_config \<Rightarrow> plugin_host \<times> plugin_data plugin_env \<Rightarrow>
   (plugin_host \<times> plugin_data plugin_env) option" where
  "add_chat me ac ph_env =
     Option.bind
       (if slack_enabled ac
        then add_plugin slack_ref
               (edge_slack_init_plugin (me_mem_plugin me) (Some (edge_slack_config_defaults\<lparr>sk_enabled := True\<rparr>))) ph_env
        else Some ph_env)
       (\<lambda>x. if teams_enabled ac
             then add_plugin teams_ref
                    (edge_teams_init_plugin (me_mem_plugin me) (Some (edge_teams_config_defaults\<lparr>tm_enabled := True\<rparr>))) x
             else Some x)"

text \<open>The store and the plugin host, when a plugin is enabled.\<close>

definition main_plugins ::
  "'y main_env \<Rightarrow> edge_config \<Rightarrow> int + state_store option \<times> (plugin_host \<times> plugin_data plugin_env) option" where
  "main_plugins me ac =
     (if \<not> (openai_enabled ac \<or> slack_enabled ac \<or> teams_enabled ac) then Inr (None, None)
      else
        let store = map_option (\<lambda>s. edge_state_apply_config (me_mem_ns me) s (Some ac))
                      (edge_state_create (me_mem_store me) (me_mem_ns me))
        in case edge_plugin_host_create (fst (me_mem_host me)) (snd (me_mem_host me))
                  (Some (http_max_pending_outbound ac, store)) of
             None \<Rightarrow> Inl 1
           | Some ph \<Rightarrow>
               (case Option.bind (add_openai me ac (ph, zero_plugins)) (add_chat me ac) of
                  None \<Rightarrow> Inl 1
                | Some x \<Rightarrow> Inr (store, Some x)))"

section \<open>The process\<close>

definition main_opts ::
  "main_args \<Rightarrow> edge_auth_ctx \<Rightarrow> state_store option \<Rightarrow> (plugin_host \<times> plugin_data plugin_env) option \<Rightarrow>
   string option \<Rightarrow> plugin_data iouring_opts" where
  "main_opts a auth store ph key =
     edge_iouring_opts_defaults
       \<lparr>io_auth := Some auth, io_plugins := ph, io_service_api_key := key, io_state := store,
        io_max_accepts := (if ma_once a then 1 else 0)\<rparr>"

definition main_setup ::
  "'y main_env \<Rightarrow> main_opt list \<Rightarrow> (int + edgecore \<times> plugin_data iouring_opts) option" where
  "main_setup me os =
     (case parse_args os no_args of
        Inl rc \<Rightarrow> Some (Inl rc)
      | Inr a \<Rightarrow>
          (case main_config me a of
             None \<Rightarrow> None
           | Some (Inl rc) \<Rightarrow> Some (Inl rc)
           | Some (Inr cfg) \<Rightarrow>
               (case main_core me cfg of
                  Inl rc \<Rightarrow> Some (Inl rc)
                | Inr core \<Rightarrow>
                    (case edge_auth_ctx_from_config (me_getenv me) main_err_size (Some (edgecore_config core))
                            edge_auth_ctx_init of
                       (Some msg, _) \<Rightarrow> Some (Inl 1)
                     | (None, auth) \<Rightarrow>
                         (case main_plugins me (edgecore_config core) of
                            Inl rc \<Rightarrow> Some (Inl rc)
                          | Inr (store, ph) \<Rightarrow>
                              let key = (if openai_enabled (edgecore_config core)
                                         then main_service_key me (edgecore_config core) else None)
                              in Some (Inr (core, main_opts a auth store ph key)))))))"

definition edge_main ::
  "'y main_env \<Rightarrow> start_env \<Rightarrow> main_opt list \<Rightarrow>
   (('p, 'w, 's) loop_env \<times> (bool \<times> bool) \<times> wait_result) list \<Rightarrow>
   (int option \<times> ('p, plugin_data, 'w, 's) server option) option" where
  "edge_main me sn os turns =
     (case main_setup me os of
        None \<Rightarrow> None
      | Some (Inl rc) \<Rightarrow> Some (Some rc, None)
      | Some (Inr (core, io)) \<Rightarrow> edge_iouring_run sn (Some (edgecore_config core)) (Some io) turns)"

end
