(* ===== verification/Host_Alloc.thy ===== *)
theory Host_Alloc
  imports Edge_Prelude
begin

text \<open>
  \<open>src/host/host_alloc.c\<close>: the allocator of the core's data buffers with its counters. The
  answers of \<open>calloc\<close> and \<open>realloc\<close> are parameters: an address, or \<open>None\<close> for NULL.
\<close>

record alloc_stats =
  g_allocs :: u64
  g_reallocs :: u64
  g_frees :: u64
  g_bytes :: u64

definition host_alloc_reset_stats :: alloc_stats where
  "host_alloc_reset_stats = \<lparr>g_allocs = 0, g_reallocs = 0, g_frees = 0, g_bytes = 0\<rparr>"

definition host_alloc :: "nat option \<Rightarrow> nat \<Rightarrow> alloc_stats \<Rightarrow> nat option \<times> alloc_stats" where
  "host_alloc got n g =
     (if n = 0 then (None, g)
      else case got of
        None \<Rightarrow> (None, g)
      | Some p \<Rightarrow> (Some p, g\<lparr>g_allocs := g_allocs g + 1, g_bytes := g_bytes g + of_nat n\<rparr>))"

definition host_free :: "nat option \<Rightarrow> alloc_stats \<Rightarrow> alloc_stats" where
  "host_free p g = (case p of None \<Rightarrow> g | Some a \<Rightarrow> g\<lparr>g_frees := g_frees g + 1\<rparr>)"

definition host_realloc :: "nat option \<Rightarrow> nat option \<Rightarrow> nat \<Rightarrow> alloc_stats \<Rightarrow> nat option \<times> alloc_stats" where
  "host_realloc got p n g =
     (if n = 0 then (None, host_free p g)
      else case p of
        None \<Rightarrow> host_alloc got n g
      | Some a \<Rightarrow>
          (case got of None \<Rightarrow> (None, g) | Some q \<Rightarrow> (Some q, g\<lparr>g_reallocs := g_reallocs g + 1\<rparr>)))"

text \<open>The number of blocks the counters imply, and what keeps it true: nothing but a successful
  allocation and the release of a block changes it.\<close>

lemma alloc_counts:
  "host_alloc got n g = (Some a, g') \<Longrightarrow> g_allocs g' - g_frees g' = g_allocs g - g_frees g + 1"
  "host_alloc got n g = (None, g') \<Longrightarrow> g' = g"
  "p \<noteq> None \<Longrightarrow> g_allocs (host_free p g) - g_frees (host_free p g) = g_allocs g - g_frees g - 1"
  "p \<noteq> None \<Longrightarrow> n > 0 \<Longrightarrow> host_realloc got p n g = (q, g') \<Longrightarrow>
     g_allocs g' - g_frees g' = g_allocs g - g_frees g"
  by (auto simp: host_alloc_def host_free_def host_realloc_def split: if_splits option.splits)

text \<open>The bytes that \<open>host_bytes_outstanding\<close> reports are never given back: releasing a block
  leaves them as they are.\<close>

lemma free_keeps_bytes: "g_bytes (host_free p g) = g_bytes g"
  by (simp add: host_free_def split: option.split)

end
