(* ===== verification/Main_Spec.thy ===== *)
theory Main_Spec
  imports Host_Main Host_Alloc Edgecore_Spec Config_Load Iouring_Guard
begin

text \<open>
  The process as a whole: what a reload of the configuration does to a running core, what the
  server is started with, and, put together with the invariant of the loop, what holds of every
  connection of the process.
\<close>

section \<open>Reload\<close>

lemma apply_config_valid:
  assumes "ring_wf c" "ec_cnt c < ec_qsz c" "edgecore_apply_config c (Some cfg) = (rc, c')"
  obtains "rc = 0" "config_valid cfg"
    "edgecore_config c' = cfg\<lparr>generation := next_generation (generation (edgecore_config c))\<rparr>"
  | "rc = -1" "\<not> config_valid cfg" "edgecore_config c' = edgecore_config c"
  using config_apply_atomic [OF assms] that by (cases "config_valid cfg") auto

lemma reject_queues:
  assumes "ring_wf c" "ec_cnt c < ec_qsz c"
  shows "\<exists>ev. core_queue (snd (edgecore_notify_config_rejected c r)) = core_queue c @ [ev] \<and>
      ev_type ev = EDGE_EVENT_CONFIG_REJECTED"
    and "edgecore_config (snd (edgecore_notify_config_rejected c r)) = edgecore_config c"
    and "ec_bufs (snd (edgecore_notify_config_rejected c r)) = ec_bufs c"
proof -
  obtain t where e: "snd (edgecore_notify_config_rejected c r) =
      snd (emit_event c (zero_event\<lparr>ev_type := EDGE_EVENT_CONFIG_REJECTED, ev_reason := t\<rparr>))"
    unfolding edgecore_notify_config_rejected_def Let_def split_beta by simp
  then show "\<exists>ev. core_queue (snd (edgecore_notify_config_rejected c r)) = core_queue c @ [ev] \<and>
      ev_type ev = EDGE_EVENT_CONFIG_REJECTED"
    using emit_refines(2) [OF assms(1)] assms(2) by (auto simp: spec_emit_def)
  show "edgecore_config (snd (edgecore_notify_config_rejected c r)) = edgecore_config c"
    "ec_bufs (snd (edgecore_notify_config_rejected c r)) = ec_bufs c"
    by (simp_all add: e edgecore_config_def)
qed

text \<open>C4: Reloading the configuration is atomic. With room in the event queue, a reload that
  returns 0 has loaded a valid configuration from the file, which is now the active one under
  the next generation, and has queued a CONFIG_APPLIED event; a reload that returns -1 keeps the
  active configuration and queues a CONFIG_REJECTED event. It returns nothing else, and no buffer
  and no event already queued changes.\<close>

theorem reload_atomic:
  assumes "ring_wf c" and "ec_cnt c < ec_qsz c"
    and "edgehost_reload_config lib file mem shadow0 n c (Some path) = Some (rc, msg, c')"
  shows "ec_bufs c' = ec_bufs c \<and>
    (\<exists>ev. core_queue c' = core_queue c @ [ev] \<and>
      (rc = 0 \<and> msg = [] \<and> ev_type ev = EDGE_EVENT_CONFIG_APPLIED \<and>
         (\<exists>cfg. edge_config_load_yaml_path lib file mem path shadow0 = Some (None, cfg) \<and> config_valid cfg \<and>
            edgecore_config c' = cfg\<lparr>generation := next_generation (generation (edgecore_config c))\<rparr>) \<or>
       rc = -1 \<and> ev_type ev = EDGE_EVENT_CONFIG_REJECTED \<and> edgecore_config c' = edgecore_config c))"
proof -
  note h = assms(3) [unfolded edgehost_reload_config_def option.case Let_def]
  obtain err shadow where l: "edge_config_load_yaml_path lib file mem path shadow0 = Some (err, shadow)"
    using h by (auto split: option.splits)
  show ?thesis
  proof (cases err)
    case (Some e)
    then have "rc = -1" and "c' = snd (edgecore_notify_config_rejected c (Some (c_copy local_err_size e)))"
      using h l by auto
    then show ?thesis using reject_queues [OF assms(1,2)] by fastforce
  next
    case None
    obtain rc1 c1 where a: "edgecore_apply_config c (Some shadow) = (rc1, c1)" by fastforce
    note k = config_apply_atomic [OF assms(1,2) a]
    show ?thesis
    proof (cases "config_valid shadow")
      case True
      then have "rc = 0" "msg = []" "c' = c1" using h l None a k by auto
      then show ?thesis using k True l None by auto
    next
      case False
      then have "rc = -1" "c' = c1" using h l None a k by auto
      then show ?thesis using k False by auto
    qed
  qed
qed

text \<open>An empty file holds the defaults.\<close>

theorem reload_atomic_witness:
  "\<exists>c'. edgehost_reload_config (table_yaml (\<lambda>k. None)) (\<lambda>f. Some []) True edge_config_defaults 160 (tiny_core 2)
      (Some ''edge.yaml'') = Some (0, [], c') \<and>
    edgecore_config c' = edge_config_defaults\<lparr>generation := 1\<rparr>"
proof -
  let ?run = "edgehost_reload_config (table_yaml (\<lambda>k. None)) (\<lambda>f. Some []) True edge_config_defaults 160 (tiny_core 2)
      (Some ''edge.yaml'')"
  have r: "ring_wf (tiny_core 2)" using tiny_core_inv [of 0 2] by (simp add: core_inv_def)
  have c: "ec_cnt (tiny_core 2) < ec_qsz (tiny_core 2)"
    using tiny_core_view(2) [of 2] length_core_queue [of "tiny_core 2"] by (simp add: tiny_core_qsz)
  have l: "edge_config_load_yaml_path (table_yaml (\<lambda>k. None)) (\<lambda>f. Some []) True ''edge.yaml'' edge_config_defaults =
      Some (None, edge_config_defaults)" by (simp add: edge_config_load_yaml_path_def)
  have v: "edge_config_validate (Some edge_config_defaults) = None" using defaults_valid validate_iff by blast
  obtain c' where a: "edgecore_apply_config (tiny_core 2) (Some edge_config_defaults) = (0, c')"
    by (simp add: edgecore_apply_config_def v Let_def)
  then have e: "?run = Some (0, [], c')" by (simp add: edgehost_reload_config_def l)
  have g: "generation (edgecore_config (tiny_core 2)) = 0"
    by (simp add: edgecore_config_def tiny_core_view edge_config_defaults_def)
  from reload_atomic [OF r c e] l show ?thesis using e g by (auto simp: next_generation_def)
qed

section \<open>What the server is started with\<close>

lemma drain_core_config: "edgecore_config (drain_core core) = edgecore_config core"
proof (induction core rule: drain_core.induct)
  case (1 core)
  obtain rc ev core1 where e: "edgecore_next_event core = ((rc, ev), core1)" by (metis prod.collapse)
  have "edgecore_config core1 = edgecore_config core"
    using e by (auto simp: edgecore_next_event_def edgecore_config_def split: if_splits)
  then show ?case using 1 e by (subst drain_core.simps) simp
qed

lemma drain_core_empties: "ec_cnt (drain_core core) = 0"
proof (induction core rule: drain_core.induct)
  case (1 core)
  obtain rc ev core1 where e: "edgecore_next_event core = ((rc, ev), core1)" by (metis prod.collapse)
  show ?case
  proof (cases "rc = 1")
    case True
    then show ?thesis using 1 e by (subst drain_core.simps) simp
  next
    case False
    then have "ec_cnt core1 = 0" using e by (auto simp: edgecore_next_event_def split: if_splits)
    then show ?thesis using False e by (subst drain_core.simps) simp
  qed
qed

lemma main_core_ok:
  assumes "main_core me cfg = Inr core"
  shows "config_valid cfg \<and> edgecore_config core = cfg\<lparr>generation := generation (edgecore_config core)\<rparr>"
proof -
  obtain core0 where c: "edgecore_create (fst (me_mem_core me)) (snd (me_mem_core me)) = Some core0"
    using assms by (cases "edgecore_create (fst (me_mem_core me)) (snd (me_mem_core me))") (simp_all add: main_core_def)
  obtain rc core1 where a1: "edgecore_apply_config core0 (Some cfg) = (rc, core1)" by fastforce
  have "rc = 0" and d: "core = drain_core core1"
    using assms unfolding main_core_def c option.case a1 prod.case by (simp_all split: if_split_asm)
  then have a: "edgecore_apply_config core0 (Some cfg) = (0, core1)" using a1 by simp
  have v: "config_valid cfg" using a validate_iff by (auto simp: edgecore_apply_config_def Let_def split: option.splits)
  then have "edge_config_validate (Some cfg) = None" by (simp add: validate_iff)
  then have "edgecore_config core1 = cfg\<lparr>generation := generation (edgecore_config core1)\<rparr>"
    using a by (auto simp: edgecore_apply_config_def Let_def edgecore_config_def)
  then show ?thesis using v by (simp add: d drain_core_config)
qed

text \<open>The plugins that are switched on, in the order of their registration.\<close>

definition enabled_plugins :: "edge_config \<Rightarrow> plugin_ref list" where
  "enabled_plugins ac =
     (if openai_enabled ac then [openai_ref] else []) @ (if slack_enabled ac then [slack_ref] else []) @
     (if teams_enabled ac then [teams_ref] else [])"

lemma add_plugin_ok:
  assumes "add_plugin r obj (ph, env) = Some (ph', env')"
    and "\<And>p vt. obj = Some p \<Longrightarrow> pl_vtbl p = Some vt \<Longrightarrow> vt_init vt = Some (\<lambda>u. (True, u))"
  obtains p where "obj = Some p" "ph' = ph\<lparr>ph_plugins := ph_plugins ph @ [r]\<rparr>" "env' = env(r := p\<lparr>pl_host := True\<rparr>)"
proof -
  obtain p where p: "obj = Some p" using assms(1) by (cases obj) (auto simp: add_plugin_def)
  obtain vt where v: "pl_vtbl p = Some vt"
    using assms(1) p by (cases "pl_vtbl p") (auto simp: add_plugin_def edge_plugin_host_register_def)
  have i: "vt_init vt = Some (\<lambda>u. (True, u))" by (rule assms(2) [OF p v])
  have "ph' = ph\<lparr>ph_plugins := ph_plugins ph @ [r]\<rparr> \<and> env' = env(r := p\<lparr>pl_host := True\<rparr>)"
    using assms(1) p v i
    by (auto simp: add_plugin_def edge_plugin_host_register_def Let_def split: if_splits)
  then show thesis using that p by blast
qed

text \<open>The data of a freshly configured OpenAI plugin with a key.\<close>

definition openai_ready :: "'y main_env \<Rightarrow> edge_config \<Rightarrow> plugin_data edge_plugin \<Rightarrow> bool" where
  "openai_ready me ac p \<longleftrightarrow>
     (\<exists>key. key \<noteq> [] \<and> length key < EDGE_OPENAI_KEY_MAX \<and>
        p = \<lparr>pl_vtbl = Some (openai_vtbl (me_time me)),
             pl_user_data = Openai_Data \<lparr>od_cfg = openai_config_of ac, od_api_key = key, od_hit_n = 0,
                                          od_window_start = 0, od_in_flight = 0\<rparr>,
             pl_host = True\<rparr>)"

lemma openai_object:
  assumes "edge_openai_proxy_init_plugin mem env now (Some (openai_config_of ac)) = Some p"
  obtains key where "key \<noteq> []" "length key < EDGE_OPENAI_KEY_MAX"
    "p = \<lparr>pl_vtbl = Some (openai_vtbl now),
          pl_user_data = Openai_Data \<lparr>od_cfg = openai_config_of ac, od_api_key = key, od_hit_n = 0,
                                       od_window_start = 0, od_in_flight = 0\<rparr>,
          pl_host = False\<rparr>"
proof -
  have "oc_enabled (openai_config_of ac)" by (simp add: openai_config_of_def)
  then show thesis using assms that
    by (auto simp: edge_openai_proxy_init_plugin_def Let_def split: if_splits option.splits dest: given_SomeD)
qed

lemma add_openai_ok:
  assumes "add_openai me ac (ph, env) = Some (ph', env')" "ph_plugins ph = []" "ph_routes ph = []"
  shows "ph_plugins ph' = (if openai_enabled ac then [openai_ref] else []) \<and>
    ph_routes ph' = (if openai_enabled ac then [(''/v1'', openai_ref)] else []) \<and> ph_state ph' = ph_state ph \<and>
    (openai_enabled ac \<longrightarrow> openai_ready me ac (env' openai_ref))"
proof (cases "openai_enabled ac")
  case False
  then show ?thesis using assms by (simp add: add_openai_def)
next
  case True
  let ?obj = "edge_openai_proxy_init_plugin (me_mem_plugin me) (me_getenv me) (me_time me) (Some (openai_config_of ac))"
  obtain ph1 env1 where a: "add_plugin openai_ref ?obj (ph, env) = Some (ph1, env1)"
    and r: "edge_plugin_host_add_route ph1 (Some ''/v1'') (Some openai_ref) = (0, ph')" and e: "env' = env1"
  proof (cases "add_plugin openai_ref ?obj (ph, env)")
    case None
    then show thesis using assms(1) True by (simp add: add_openai_def)
  next
    case (Some y)
    obtain ph1 env1 where y: "y = (ph1, env1)" by fastforce
    obtain rc ph2 where r: "edge_plugin_host_add_route ph1 (Some ''/v1'') (Some openai_ref) = (rc, ph2)" by fastforce
    note h = assms(1) [unfolded add_openai_def Some y option.case prod.case r]
    show thesis by (rule that [OF Some [unfolded y]]) (use h True r in \<open>auto split: if_split_asm\<close>)
  qed
  have init: "vt_init vt = Some (\<lambda>u. (True, u))" if "?obj = Some p" "pl_vtbl p = Some vt" for p vt
    by (rule openai_object [OF that(1)]) (use that(2) in \<open>simp add: openai_vtbl_def, metis edge_plugin_vtbl.select_convs(3)\<close>)
  obtain p where p: "?obj = Some p" "ph1 = ph\<lparr>ph_plugins := ph_plugins ph @ [openai_ref]\<rparr>"
      "env1 = env(openai_ref := p\<lparr>pl_host := True\<rparr>)"
    by (rule add_plugin_ok [OF a init])
  have ready: "openai_ready me ac (p\<lparr>pl_host := True\<rparr>)"
  proof (rule openai_object [OF p(1)])
    fix key
    assume "key \<noteq> []" "length key < EDGE_OPENAI_KEY_MAX"
      and q: "p = \<lparr>pl_vtbl = Some (openai_vtbl (me_time me)),
          pl_user_data = Openai_Data \<lparr>od_cfg = openai_config_of ac, od_api_key = key, od_hit_n = 0,
                                       od_window_start = 0, od_in_flight = 0\<rparr>,
          pl_host = False\<rparr>"
    moreover have "p\<lparr>pl_host := True\<rparr> = \<lparr>pl_vtbl = Some (openai_vtbl (me_time me)),
          pl_user_data = Openai_Data \<lparr>od_cfg = openai_config_of ac, od_api_key = key, od_hit_n = 0,
                                       od_window_start = 0, od_in_flight = 0\<rparr>,
          pl_host = True\<rparr>" unfolding q by simp
    ultimately show ?thesis unfolding openai_ready_def by blast
  qed
  have "ph_routes ph' = [(''/v1'', openai_ref)]" "ph_plugins ph' = [openai_ref]" "ph_state ph' = ph_state ph"
    using r assms(2,3)
    by (auto simp: p(2) edge_plugin_host_add_route_def c_copy_def route_prefix_size_def split: if_splits)
  then show ?thesis using True ready by (simp add: e p(3))
qed

lemma add_chat_ok:
  assumes "add_chat me ac (ph, env) = Some (ph', env')"
  shows "ph_plugins ph' = ph_plugins ph @ (if slack_enabled ac then [slack_ref] else []) @
      (if teams_enabled ac then [teams_ref] else []) \<and>
    ph_routes ph' = ph_routes ph \<and> ph_state ph' = ph_state ph \<and> env' openai_ref = env openai_ref"
proof -
  let ?slack = "edge_slack_init_plugin (me_mem_plugin me) (Some (edge_slack_config_defaults\<lparr>sk_enabled := True\<rparr>))"
  let ?teams = "edge_teams_init_plugin (me_mem_plugin me) (Some (edge_teams_config_defaults\<lparr>tm_enabled := True\<rparr>))"
  have other: "slack_ref \<noteq> openai_ref" "teams_ref \<noteq> openai_ref"
    by (simp_all add: slack_ref_def teams_ref_def openai_ref_def)
  have slack: "ph1 = ph\<lparr>ph_plugins := ph_plugins ph @ [slack_ref]\<rparr> \<and> env1 openai_ref = env openai_ref"
    if "add_plugin slack_ref ?slack (ph, env) = Some (ph1, env1)" for ph1 env1
    by (rule add_plugin_ok [OF that])
      (use other in \<open>auto simp: edge_slack_init_plugin_def slack_vtbl_def Let_def split: if_splits\<close>)
  have teams: "ph2 = ph1\<lparr>ph_plugins := ph_plugins ph1 @ [teams_ref]\<rparr> \<and> env2 openai_ref = env1 openai_ref"
    if "add_plugin teams_ref ?teams (ph1, env1) = Some (ph2, env2)" for ph1 env1 ph2 env2
    by (rule add_plugin_ok [OF that])
      (use other in \<open>auto simp: edge_teams_init_plugin_def teams_vtbl_def Let_def split: if_splits\<close>)
  obtain ph1 env1 where 1: "(if slack_enabled ac then add_plugin slack_ref ?slack (ph, env) else Some (ph, env)) =
        Some (ph1, env1)"
    and 2: "(if teams_enabled ac then add_plugin teams_ref ?teams (ph1, env1) else Some (ph1, env1)) = Some (ph', env')"
    using assms unfolding add_chat_def bind_eq_Some_conv by (metis surj_pair)
  have "ph_plugins ph1 = ph_plugins ph @ (if slack_enabled ac then [slack_ref] else []) \<and>
      ph_routes ph1 = ph_routes ph \<and> ph_state ph1 = ph_state ph \<and> env1 openai_ref = env openai_ref"
    using 1 slack [of ph1 env1] by (cases "slack_enabled ac") auto
  then show ?thesis using 2 teams [of ph1 env1 ph' env'] by (cases "teams_enabled ac") auto
qed

lemma main_plugins_ok:
  assumes "main_plugins me ac = Inr (store, x)"
  shows "(x = None \<longrightarrow> enabled_plugins ac = [] \<and> store = None) \<and>
    (\<forall>ph env. x = Some (ph, env) \<longrightarrow>
       enabled_plugins ac \<noteq> [] \<and> ph_plugins ph = enabled_plugins ac \<and> ph_state ph = store \<and>
       ph_routes ph = (if openai_enabled ac then [(''/v1'', openai_ref)] else []) \<and>
       (openai_enabled ac \<longrightarrow> openai_ready me ac (env openai_ref)))"
proof (cases "openai_enabled ac \<or> slack_enabled ac \<or> teams_enabled ac")
  case False
  then show ?thesis using assms by (simp add: main_plugins_def enabled_plugins_def)
next
  case True
  obtain ph0 ph1 env1 ph env where c: "edge_plugin_host_create (fst (me_mem_host me)) (snd (me_mem_host me))
        (Some (http_max_pending_outbound ac, store)) = Some ph0"
    and o: "add_openai me ac (ph0, zero_plugins) = Some (ph1, env1)"
    and ch: "add_chat me ac (ph1, env1) = Some (ph, env)" and x: "x = Some (ph, env)"
    using assms True
    by (auto simp: main_plugins_def Let_def bind_eq_Some_conv split: option.splits)
  have 0: "ph_plugins ph0 = []" "ph_routes ph0 = []" "ph_state ph0 = store"
    using c by (auto simp: edge_plugin_host_create_def Let_def split: if_splits option.splits)
  show ?thesis
    using True add_openai_ok [OF o 0(1,2)] add_chat_ok [OF ch] 0(3) by (auto simp: x enabled_plugins_def)
qed

lemma main_setup_cases:
  assumes "main_setup me os = Some (Inr (core, io))"
  obtains a cfg auth store ph where "parse_args os no_args = Inr a" "main_config me a = Some (Inr cfg)"
    "main_core me cfg = Inr core"
    "edge_auth_ctx_from_config (me_getenv me) main_err_size (Some (edgecore_config core)) edge_auth_ctx_init = (None, auth)"
    "main_plugins me (edgecore_config core) = Inr (store, ph)"
    "io = main_opts a auth store ph
       (if openai_enabled (edgecore_config core) then main_service_key me (edgecore_config core) else None)"
proof -
  note h = assms [unfolded main_setup_def]
  obtain a where 1: "parse_args os no_args = Inr a" using h by (cases "parse_args os no_args") simp_all
  note h = h [unfolded 1 sum.case]
  obtain cfg where 2: "main_config me a = Some (Inr cfg)"
    using h by (cases "main_config me a") (auto split: sum.splits)
  note h = h [unfolded 2 option.case sum.case]
  obtain core' where 3: "main_core me cfg = Inr core'" using h by (cases "main_core me cfg") simp_all
  note h = h [unfolded 3 sum.case]
  obtain err auth where 4: "edge_auth_ctx_from_config (me_getenv me) main_err_size (Some (edgecore_config core'))
      edge_auth_ctx_init = (err, auth)" by fastforce
  note h = h [unfolded 4 prod.case]
  have err: "err = None" using h by (cases err) simp_all
  note h = h [unfolded err option.case]
  obtain store ph where 5: "main_plugins me (edgecore_config core') = Inr (store, ph)"
    using h by (cases "main_plugins me (edgecore_config core')") auto
  note h = h [unfolded 5 sum.case prod.case Let_def]
  have e: "core' = core" using h by simp
  show thesis by (rule that [OF 1 2 3 [unfolded e] 4 [unfolded err e] 5 [unfolded e]]) (use h [unfolded e] in auto)
qed

lemma main_service_key_given:
  "main_service_key me ac = Some k \<Longrightarrow> k \<noteq> [] \<and> length k < service_key_size"
  by (auto simp: main_service_key_def split: option.splits if_splits dest: given_SomeD)

text \<open>C3: The process starts its server only with a complete set-up. When the set-up succeeds, the
  active configuration is valid; the server gets the authentication mode the configuration names,
  with every secret that mode needs, none of them empty; it gets a plugin host exactly when a
  plugin is switched on, holding just the enabled plugins, the OpenAI proxy with its own key under
  the one route /v1, and the store it shares with the server; and a service key, which is not
  empty, only together with the OpenAI proxy.\<close>

theorem main_starts_guarded:
  assumes "main_setup me os = Some (Inr (core, io))"
  shows "config_valid (edgecore_config core) \<and>
    (\<exists>auth. io_auth io = Some auth \<and> mode_of (edgecore_config core) = Some (ac_mode auth) \<and> auth_ready auth) \<and>
    (case io_plugins io of
       None \<Rightarrow> enabled_plugins (edgecore_config core) = [] \<and> io_state io = None
     | Some (ph, env) \<Rightarrow>
         enabled_plugins (edgecore_config core) \<noteq> [] \<and> ph_plugins ph = enabled_plugins (edgecore_config core) \<and>
         ph_state ph = io_state io \<and>
         ph_routes ph = (if openai_enabled (edgecore_config core) then [(''/v1'', openai_ref)] else []) \<and>
         (openai_enabled (edgecore_config core) \<longrightarrow> openai_ready me (edgecore_config core) (env openai_ref))) \<and>
    (case io_service_api_key io of None \<Rightarrow> True | Some k \<Rightarrow> openai_enabled (edgecore_config core) \<and> k \<noteq> [])"
  using assms
proof (rule main_setup_cases)
  fix a cfg auth store ph
  let ?ac = "edgecore_config core"
  assume c: "main_core me cfg = Inr core"
    and a: "edge_auth_ctx_from_config (me_getenv me) main_err_size (Some ?ac) edge_auth_ctx_init = (None, auth)"
    and p: "main_plugins me ?ac = Inr (store, ph)"
    and io: "io = main_opts a auth store ph (if openai_enabled ?ac then main_service_key me ?ac else None)"
  have v: "config_valid ?ac"
  proof -
    obtain g where "?ac = cfg\<lparr>generation := g\<rparr>" "config_valid cfg" using main_core_ok [OF c] by blast
    then show ?thesis by (simp add: config_valid_def)
  qed
  have f: "io_auth io = Some auth" "io_plugins io = ph" "io_state io = store"
    "io_service_api_key io = (if openai_enabled ?ac then main_service_key me ?ac else None)"
    by (simp_all add: io main_opts_def)
  have k: "case io_service_api_key io of None \<Rightarrow> True | Some k \<Rightarrow> openai_enabled ?ac \<and> k \<noteq> []"
    using main_service_key_given [of me ?ac] f(4) by (auto split: option.splits)
  show ?thesis
    using v auth_from_config_ok [OF a] main_plugins_ok [OF p] k f(1-3) by (cases ph) auto
qed

text \<open>A process without a configuration file and without plugins.\<close>

definition demo_main_env :: "(string \<Rightarrow> string option) \<Rightarrow> (string \<Rightarrow> string option) \<Rightarrow> unit main_env" where
  "demo_main_env vars look =
     \<lparr>me_getenv = vars, me_yaml = table_yaml look, me_file = (\<lambda>f. Some ''x''), me_mem_read = True,
      me_mem_core = (True, True), me_mem_store = True, me_mem_ns = (\<lambda>n. True), me_mem_host = (True, True),
      me_mem_plugin = True, me_time = 0\<rparr>"

lemma demo_main_core:
  assumes "config_valid cfg"
  obtains core where "main_core (demo_main_env vars look) cfg = Inr core" "edgecore_config core = cfg\<lparr>generation := 1\<rparr>"
proof -
  have v: "edge_config_validate (Some cfg) = None" using assms by (simp add: validate_iff)
  obtain core0 where c: "edgecore_create True True = Some core0" "ec_cfg core0 = edge_config_defaults"
    by (simp add: edgecore_create_def edgecore_create_with_config_def Let_def)
  obtain core1 where a: "edgecore_apply_config core0 (Some cfg) = (0, core1)" "ec_cfg core1 = cfg\<lparr>generation := 1\<rparr>"
    using v c(2) by (simp add: edgecore_apply_config_def Let_def edge_config_defaults_def)
  show thesis
    by (rule that [of "drain_core core1"])
      (use c a in \<open>simp_all add: main_core_def demo_main_env_def drain_core_config, simp add: edgecore_config_def\<close>)
qed

theorem main_starts_guarded_witness:
  "\<exists>core io. main_setup (demo_main_env (\<lambda>v. None) (\<lambda>k. None)) [Opt_Once] = Some (Inr (core, io)) \<and>
     config_valid (edgecore_config core) \<and> io_plugins io = None"
proof -
  let ?me = "demo_main_env (\<lambda>v. None) (\<lambda>k. None)"
  obtain core where c: "main_core ?me edge_config_defaults = Inr core"
    "edgecore_config core = edge_config_defaults\<lparr>generation := 1\<rparr>"
    using demo_main_core [OF defaults_valid] by blast
  obtain auth where a: "edge_auth_ctx_from_config (me_getenv ?me) main_err_size (Some (edgecore_config core))
      edge_auth_ctx_init = (None, auth)"
    by (simp add: c(2) edge_auth_ctx_from_config_def edge_config_defaults_def or_default_def Let_def)
  have p: "main_plugins ?me (edgecore_config core) = Inr (None, None)"
    by (simp add: c(2) main_plugins_def edge_config_defaults_def)
  have "main_setup ?me [Opt_Once] = Some (Inr (core, main_opts (no_args\<lparr>ma_once := True\<rparr>) auth None None None))"
    unfolding main_setup_def
    by (simp add: a p c(1) main_config_def override_listen_def no_args_def)
      (simp add: c(2) edge_config_defaults_def)
  from main_starts_guarded [OF this] this show ?thesis by (auto simp: main_opts_def)
qed

section \<open>The process, from the environment to the connections\<close>

lemma mode_enforced:
  assumes "mode_of cfg = Some m" "auth_mode cfg \<notin> {[], ''open''}"
  shows "edge_auth_mode_enforced m"
  using assms by (auto simp: mode_of_def edge_auth_mode_enforced_def split: if_splits)

lemma main_setup_auth:
  assumes "main_setup me os = Some (Inr (core, io))"
  obtains auth where "io_auth io = Some auth" "mode_of (edgecore_config core) = Some (ac_mode auth)" "auth_ready auth"
  using assms
proof (rule main_setup_cases)
  fix a cfg auth store ph
  assume "edge_auth_ctx_from_config (me_getenv me) main_err_size (Some (edgecore_config core)) edge_auth_ctx_init =
      (None, auth)"
    and "io = main_opts a auth store ph
      (if openai_enabled (edgecore_config core) then main_service_key me (edgecore_config core) else None)"
  then show thesis using that auth_from_config_ok by (simp add: main_opts_def)
qed


text \<open>A process with the password mode, its secrets in the environment.\<close>

definition demo_vars :: "string \<Rightarrow> string option" where
  "demo_vars = [''EDGEHOST_LAB_PASSWORD'' \<mapsto> ''pw'', ''EDGEHOST_SESSION_HMAC'' \<mapsto> ''key'']"

definition demo_lab_env :: "unit main_env" where
  "demo_lab_env = demo_main_env demo_vars [''auth.mode'' \<mapsto> ''lab_password'']"

definition demo_lab_config :: edge_config where
  "demo_lab_config = edge_config_defaults\<lparr>auth_mode := ''lab_password''\<rparr>"

lemma demo_lab_loaded:
  "edge_config_load_yaml_path (me_yaml demo_lab_env) (me_file demo_lab_env) (me_mem_read demo_lab_env) ''edge.yaml''
     edge_config_defaults = Some (None, demo_lab_config)"
proof -
  let ?look = "[''auth.mode'' \<mapsto> ''lab_password'']"
  have "apply_paths ?look g_paths edge_config_defaults = (None, demo_lab_config)"
    unfolding g_paths_def demo_lab_config_def
    by (simp add: yaml_scalar_def apply_scalar_simps set_str_fits)
  then show ?thesis
    using load_parsed [OF table_gives, of "''x''" ?look]
    by (simp add: edge_config_load_yaml_path_def demo_lab_env_def demo_main_env_def)
qed

lemma demo_lab_valid: "config_valid demo_lab_config"
  by (simp add: demo_lab_config_def config_valid_def edge_config_defaults_def)

lemma demo_lab_setup:
  obtains core io where "main_setup demo_lab_env [Opt_Config ''edge.yaml''] = Some (Inr (core, io))"
    "edgecore_config core = demo_lab_config\<lparr>generation := 1\<rparr>"
    "io_max_conns io = 64" "io_ring_entries io = 256" "io_max_accepts io = 0"
proof -
  obtain core where c: "main_core demo_lab_env demo_lab_config = Inr core"
    "edgecore_config core = demo_lab_config\<lparr>generation := 1\<rparr>"
    unfolding demo_lab_env_def using demo_main_core [OF demo_lab_valid] by blast
  obtain auth where a: "edge_auth_ctx_from_config (me_getenv demo_lab_env) main_err_size (Some (edgecore_config core))
      edge_auth_ctx_init = (None, auth)"
    by (simp add: c(2) edge_auth_ctx_from_config_def demo_lab_config_def edge_config_defaults_def or_default_def
        Let_def demo_lab_env_def demo_main_env_def demo_vars_def load_key_env_def given_def
        EDGE_AUTH_PASSWORD_MAX_def EDGE_AUTH_HMAC_KEY_MAX_def)
  have p: "main_plugins demo_lab_env (edgecore_config core) = Inr (None, None)"
    by (simp add: c(2) main_plugins_def demo_lab_config_def edge_config_defaults_def)
  have "main_setup demo_lab_env [Opt_Config ''edge.yaml''] =
      Some (Inr (core, main_opts (no_args\<lparr>ma_config := Some ''edge.yaml''\<rparr>) auth None None None))"
    unfolding main_setup_def
    by (simp add: a p c(1) main_config_def override_listen_def no_args_def demo_lab_loaded)
      (simp add: c(2) demo_lab_config_def edge_config_defaults_def)
  then show thesis
    using c(2) by (rule that) (simp_all add: main_opts_def edge_iouring_opts_defaults_def no_args_def)
qed

lemma demo_lab_runs:
  assumes "edgecore_config core = demo_lab_config\<lparr>generation := 1\<rparr>" "io_max_conns io = 64"
    "io_ring_entries io = 256" "io_max_accepts io = 0"
  obtains srv :: "(demo_parser, 'u, unit, unit) server"
  where "edge_iouring_start demo_start (Some (edgecore_config core)) (Some io) = Some (3, srv)"
    "sv_conns srv = free_conn 0 # map (\<lambda>i. free_conn (int i)) [1 ..< 64]" "sv_tls_ctx srv = None" "sv_sq srv = []"
    "sv_entries srv = 256" "sv_max_accepts srv = 0"
proof -
  have "[0 ..< 64] = 0 # [1 ..< 64 :: nat]" by (simp add: upt_conv_Cons)
  then show thesis
    by (simp add: assms that edge_iouring_start_def demo_start_def demo_lab_config_def edge_config_defaults_def
        edge_tls_config_enabled_def edge_ws_hub_create_def submit_accept_def ring_put_def io_uring_submit_def Let_def)
qed


section \<open>Half a TLS configuration\<close>

text \<open>With a certificate but no key file, or the other way round, the server starts as a plain
  one, and a client authority that was configured is not looked at.\<close>

lemma half_tls_is_plain:
  assumes "tls_cert cfg = [] \<or> tls_key cfg = []"
    and "edge_iouring_start sn (Some cfg) opts = Some (fd, srv)"
  shows "sv_tls_ctx srv = None"
proof -
  have off: "\<not> edge_tls_config_enabled (Some (tls_cert cfg)) (Some (tls_key cfg))"
    using assms(1) by (auto simp: edge_tls_config_enabled_def)
  have sub: "sv_tls_ctx s' = sv_tls_ctx s" if "submit_accept d s = (r, s')" for d r and s s' :: "('a, 'b, 'c, 'd) server"
    using that by (auto simp: submit_accept_def ring_put_def split: if_splits)
  show ?thesis
    using assms(2) unfolding edge_iouring_start_def Let_def option.case if_not_P [OF off]
  proof (elim foundE guardE submittedE, goal_cases)
    case (1 d s)
    then show ?thesis using sub by (fastforce simp: io_uring_submit_def)
  qed
qed

end
