(* ===== verification/Sim_Main.thy ===== *)
theory Sim_Main
  imports Host_Main Host_Alloc Edgecore_Spec Http1_Dispatch Edge_Metrics
begin

text \<open>
  \<open>src/host/sim_main.c\<close>: the driver of the simulation. It takes fuzz bytes, lets the core ask for
  a buffer and applies a configuration, feeds a request to the HTTP server, and sends the same
  request through the simulated network. The simulation library, its clock, network, ring and
  fuzz cursor, is the parameter \<open>sim_env\<close>; \<open>None\<close> stands for a loop that does not end.
\<close>

section \<open>The simulation library\<close>

text \<open>Operations of the simulated ring, each with the socket it is for.\<close>

datatype sim_op = Sim_Accept u64 | Sim_Recv u64 nat | Sim_Send u64 string

text \<open>\<open>'c\<close> is the fuzz cursor, \<open>'s\<close> the simulated world of one exchange with its clock, network and
  ring. A completion is its result with the bytes a receive has written.\<close>

record ('c, 's) sim_env =
  se_init :: "string \<Rightarrow> 'c"
  se_u8 :: "'c \<Rightarrow> bool \<Rightarrow> u8 \<times> bool \<times> 'c"
  se_remaining :: "'c \<Rightarrow> nat"
  se_bytes :: "'c \<Rightarrow> nat \<Rightarrow> string \<times> 'c"
  se_create :: "'s option"
  se_socket :: "'s \<Rightarrow> u64 \<times> 's"
  se_listen :: "u64 \<Rightarrow> 's \<Rightarrow> int \<times> 's"
  se_connect :: "u64 \<Rightarrow> u64 \<Rightarrow> 's \<Rightarrow> int \<times> 's"
  se_net_send :: "u64 \<Rightarrow> string \<Rightarrow> 's \<Rightarrow> int \<times> 's"
  se_get_sqe :: "'s \<Rightarrow> bool \<times> 's"
  se_prep :: "sim_op \<Rightarrow> u64 \<Rightarrow> 's \<Rightarrow> 's"
  se_submit :: "'s \<Rightarrow> int \<times> 's"
  se_progress :: "'s \<Rightarrow> 's"
  se_peek :: "'s \<Rightarrow> (int \<times> string) option"
  se_seen :: "'s \<Rightarrow> 's"
  se_calloc :: "nat \<Rightarrow> nat option"
  se_mem_core :: "bool \<times> bool"
  se_mem_http :: bool
  se_time :: int

partial_function (option) drain_cq :: "('c, 's) sim_env \<Rightarrow> 's \<Rightarrow> 's option" where
  "drain_cq se s = (case se_peek se s of None \<Rightarrow> Some s | Some cqe \<Rightarrow> drain_cq se (se_seen se s))"

section \<open>The HTTP exchange\<close>

definition apply_default_docroots :: "('p, 'u) http1_serve \<Rightarrow> ('p, 'u) http1_serve" where
  "apply_default_docroots s = edge_http1_serve_set_docroots s None"

definition rbuf_size :: nat where "rbuf_size = 2048"

definition resp_size :: nat where "resp_size = 2048"

text \<open>One operation through the ring: submission, progress, and the first completion. \<open>Inl\<close> when no
  entry could be had or submitted.\<close>

definition sim_round :: "('c, 's) sim_env \<Rightarrow> sim_op \<Rightarrow> u64 \<Rightarrow> 's \<Rightarrow> 's + (int \<times> string) option \<times> 's" where
  "sim_round se op ud s =
     (case se_get_sqe se s of
        (got, s1) \<Rightarrow>
          if \<not> got then Inl s1
          else case se_submit se (se_prep se op ud s1) of
            (n, s2) \<Rightarrow>
              if n < 1 then Inl s2
              else let s3 = se_progress se s2 in Inr (se_peek se s3, s3))"

text \<open>The listening socket with a connection, accepted through the ring: the client's socket and
  the server's.\<close>

definition sim_accepted :: "('c, 's) sim_env \<Rightarrow> (u64 \<times> u64 \<times> 's) option option" where
  "sim_accepted se =
     (case se_create se of
        None \<Rightarrow> Some None
      | Some s \<Rightarrow>
          let (listen_fd, s1) = se_socket se s;
              (client_fd, s2) = se_socket se s1
          in if listen_fd = 0 \<or> client_fd = 0 then Some None
             else let (rc, s3) = se_listen se listen_fd s2
             in if rc \<noteq> 0 then Some None
             else let (rc2, s4) = se_connect se client_fd listen_fd s3
             in if rc2 \<noteq> 0 then Some None
             else case sim_round se (Sim_Accept listen_fd) 1 s4 of
               Inl s5 \<Rightarrow> Some None
             | Inr (cqe, s5) \<Rightarrow>
                 (case cqe of
                    None \<Rightarrow> map_option (\<lambda>_. None) (drain_cq se s5)
                  | Some (res, bs) \<Rightarrow>
                      if res \<le> 0 then map_option (\<lambda>_. None) (drain_cq se s5)
                      else Some (Some (client_fd, ucast (of_int res :: u32), se_seen se s5))))"

text \<open>The server's answer to the bytes it received; an incomplete request is ended once.\<close>

definition sim_serve ::
  "'p http1_env \<Rightarrow> ('p, 'u) http1_serve \<Rightarrow> string \<Rightarrow> edge_metrics option \<Rightarrow>
   (serve_rc \<times> ('p, 'u) http1_serve \<times> edge_metrics option) option" where
  "sim_serve en h data m =
     (case edge_http1_serve_feed en h data m resp_size of
        None \<Rightarrow> None
      | Some (pr, h1, m1) \<Rightarrow>
          if pr = Not_Answered then edge_http1_serve_feed en h1 (crlf @ crlf) m1 resp_size
          else Some (pr, h1, m1))"

text \<open>Sending the response; what was sent is counted.\<close>

definition sim_respond ::
  "('c, 's) sim_env \<Rightarrow> u64 \<Rightarrow> string \<Rightarrow> edge_metrics option \<Rightarrow> 's \<Rightarrow> edge_metrics option \<times> 's" where
  "sim_respond se fd out m s =
     (case se_get_sqe se s of
        (got, s1) \<Rightarrow>
          if \<not> got then (m, s1)
          else
            let s2 = se_progress se (snd (se_submit se (se_prep se (Sim_Send fd out) 3 s1)))
            in case se_peek se s2 of
                 None \<Rightarrow> (m, s2)
               | Some (res, bs) \<Rightarrow>
                   (if res > 0 then map_option (\<lambda>x. x\<lparr>em_bytes_out := em_bytes_out x + of_int res\<rparr>) m else m,
                    se_seen se s2))"

definition sim_http_exchange ::
  "('c, 's) sim_env \<Rightarrow> 'p http1_env \<Rightarrow> string \<Rightarrow> edge_metrics option \<Rightarrow> edge_metrics option option" where
  "sim_http_exchange se en req m =
     (if req = [] then Some m
      else case sim_accepted se of
        None \<Rightarrow> None
      | Some None \<Rightarrow> Some m
      | Some (Some (client_fd, accepted, s)) \<Rightarrow>
          let s1 = snd (se_net_send se client_fd req s)
          in case sim_round se (Sim_Recv accepted rbuf_size) 2 s1 of
               Inl s2 \<Rightarrow> Some m
             | Inr (None, s2) \<Rightarrow> map_option (\<lambda>_. m) (drain_cq se s2)
             | Inr (Some (n, data), s2) \<Rightarrow>
                 let s3 = se_seen se s2
                 in if n \<le> 0 then Some m
                    else case edge_http1_serve_create en (se_mem_http se) of
                      None \<Rightarrow> Some m
                    | Some h \<Rightarrow>
                        (case sim_serve en (apply_default_docroots (h :: ('p, unit) http1_serve)) data m of
                           None \<Rightarrow> None
                         | Some (pr, h1, m1) \<Rightarrow>
                             let (m2, s4) =
                                   (case pr of
                                      Answered out \<Rightarrow> if out \<noteq> [] then sim_respond se accepted out m1 s3 else (m1, s3)
                                    | _ \<Rightarrow> (m1, s3))
                             in map_option (\<lambda>_. m2) (drain_cq se s4)))"

section \<open>The core under fuzz\<close>

text \<open>A buffer is asked for, allocated when the core asks the host, provided, detached and freed.\<close>

definition grant_buffer :: "('c, 's) sim_env \<Rightarrow> nat \<Rightarrow> edgecore \<Rightarrow> alloc_stats \<Rightarrow> edgecore \<times> alloc_stats" where
  "grant_buffer se want core g =
     (let (aid, core1) = edgecore_request_alloc core EDGE_BUF_GENERIC want
      in if aid = 0 then (core1, g)
         else case edgecore_next_event core1 of
           ((rc, ev), core2) \<Rightarrow>
             if \<not> (rc = 1 \<and> ev_type ev = EDGE_EVENT_NEED_ALLOC) then (core2, g)
             else case host_alloc (se_calloc se (ev_size ev)) (ev_size ev) g of
               (None, g1) \<Rightarrow> (core2, g1)
             | (Some p, g1) \<Rightarrow>
                 let core3 = snd (edgecore_provide_buffer core2 aid (Some p) (ev_size ev));
                     ((rc2, got), core4) = edgecore_detach_buffer core3 aid;
                     p1 = (case got of None \<Rightarrow> Some p | Some (q, n) \<Rightarrow> q)
                 in (core4, host_free p1 g1))"

definition edgecore_alloc_fuzz :: "('c, 's) sim_env \<Rightarrow> 'c \<Rightarrow> alloc_stats \<Rightarrow> edgecore option \<times> 'c \<times> alloc_stats" where
  "edgecore_alloc_fuzz se cur g =
     (case edgecore_create (fst (se_mem_core se)) (snd (se_mem_core se)) of
        None \<Rightarrow> (None, cur, g)
      | Some core \<Rightarrow>
          (case se_u8 se cur True of
             (b, ok, cur1) \<Rightarrow>
               if \<not> ok then (Some core, cur1, g)
               else
                 let (core1, g1) = grant_buffer se (16 + unat b mod 64) core g;
                     (b2, ok2, cur2) = se_u8 se cur1 ok;
                     cfg = (if ok2 \<and> b2 \<noteq> 0
                            then edge_config_defaults\<lparr>listen_port := 1 + of_nat (unat b2 mod 200)\<rparr>
                            else edge_config_defaults)
                 in (Some (drain_core (snd (edgecore_apply_config core1 (Some cfg)))), cur2, g1)))"

section \<open>The driver\<close>

definition health_request :: string where
  "health_request = ''GET /health HTTP/1.1'' @ crlf @ ''Host: t'' @ crlf @ crlf"

definition wrapped_request :: string where
  "wrapped_request = ''GET / HTTP/1.1'' @ crlf @ ''Host: x'' @ crlf @ crlf"

definition http_buf_size :: nat where "http_buf_size = 1024"

text \<open>The request: the remaining fuzz bytes, the health request when there are none, or a complete
  one when the next byte is odd.\<close>

definition sim_request :: "('c, 's) sim_env \<Rightarrow> 'c \<Rightarrow> string" where
  "sim_request se cur =
     (let (bs, cur1) = (if se_remaining se cur > 0 then se_bytes se cur (http_buf_size - 1) else ([], cur))
      in if bs = [] then health_request
         else case se_u8 se cur1 True of
           (mode, ok, _) \<Rightarrow> if ok \<and> odd (unat mode) \<and> length bs < 200 then wrapped_request else bs)"

definition edge_sim_drive ::
  "('c, 's) sim_env \<Rightarrow> 'p http1_env \<Rightarrow> string \<Rightarrow> (int \<times> edge_metrics option \<times> alloc_stats) option" where
  "edge_sim_drive se en data =
     (let m = Some (edge_metrics_init (se_time se));
          (core, cur, g) = edgecore_alloc_fuzz se (se_init se data) host_alloc_reset_stats;
          req = sim_request se cur;
          direct = (case edge_http1_serve_create en (se_mem_http se) of
                      None \<Rightarrow> Some m
                    | Some h \<Rightarrow>
                        map_option (\<lambda>(rc, h1, m1). m1)
                          (edge_http1_serve_feed en (apply_default_docroots (h :: ('p, unit) http1_serve)) req m resp_size))
      in case direct of
           None \<Rightarrow> None
         | Some m1 \<Rightarrow> map_option (\<lambda>m2. (0, m2, g)) (sim_http_exchange se en req m1))"

section \<open>The driver leaks no buffer\<close>

text \<open>The memory the host gave for a buffer is what it gets back when it takes the buffer out, so
  that the block it frees is the one it allocated.\<close>

lemma granted_is_detached:
  assumes inv: "core_inv (Suc n) c" and q: "core_queue c = []"
    and a: "edgecore_request_alloc c kind want = (aid, c1)" "aid \<noteq> 0"
    and e: "edgecore_next_event c1 = ((rc, ev), c2)"
  shows "ev_size ev = want \<and> want \<noteq> 0 \<and>
    fst (edgecore_detach_buffer (snd (edgecore_provide_buffer c2 aid (Some p) want)) aid) = (0, Some (Some p, want))"
proof -
  from alloc_refines [OF inv, of kind want] a
  have i1: "core_inv n c1" and s: "spec_alloc (ec_qsz c) kind want (core_view c) = (aid, core_view c1)" by simp_all
  have w: "want \<noteq> 0" "kind \<noteq> EDGE_BUF_NONE" and q1: "core_queue c1 = [need_alloc_event aid kind want]"
    and B: "(bufs_map (ec_bufs c))(aid \<mapsto> Wanted kind want) = bufs_map (ec_bufs c1)"
    using s a(2) q
    by (auto simp: spec_alloc_def cs_emit_def spec_emit_def Let_def core_view_def split: if_splits prod.splits)
  have b1: "cs_bufs (core_view c1) aid = Some (Wanted kind want)" by (simp flip: B)
  from core_next_refines [OF i1] e q1
  have i2: "core_inv n c2" and ev: "ev = need_alloc_event aid kind want"
    and v2: "cs_bufs (core_view c2) = cs_bufs (core_view c1)" by (simp_all add: spec_next_def)
  let ?c3 = "snd (edgecore_provide_buffer c2 aid (Some p) want)"
  from provide_refines [OF i2, of aid "Some p" want] w b1 v2
  have i3: "core_inv n ?c3"
    and V: "(core_view c2)\<lparr>cs_bufs := (cs_bufs (core_view c2))(aid \<mapsto> Ready kind p want)\<rparr> = core_view ?c3"
    by (auto simp: spec_provide_def)
  have b3: "cs_bufs (core_view ?c3) aid = Some (Ready kind p want)" by (simp only: V [symmetric]) simp
  from detach_refines [OF i3, of aid] b3
  have "fst (edgecore_detach_buffer ?c3 aid) = (0, Some (Some p, want))" by (simp add: spec_detach_def)
  then show ?thesis using w by (simp add: ev need_alloc_event_def)
qed

lemma grant_balanced:
  assumes inv: "core_inv (Suc n) c" and q: "core_queue c = []"
    and g: "grant_buffer se want c g = (c', g')"
  shows "g_allocs g' - g_frees g' = g_allocs g - g_frees g"
proof -
  obtain aid c1 where a: "edgecore_request_alloc c EDGE_BUF_GENERIC want = (aid, c1)" by fastforce
  obtain rc ev c2 where e: "edgecore_next_event c1 = ((rc, ev), c2)" by (metis prod.collapse)
  obtain r g1 where h: "host_alloc (se_calloc se (ev_size ev)) (ev_size ev) g = (r, g1)" by fastforce
  note k = g [unfolded grant_buffer_def Let_def a prod.case e h]
  show ?thesis
  proof (cases "aid = 0 \<or> \<not> (rc = 1 \<and> ev_type ev = EDGE_EVENT_NEED_ALLOC) \<or> r = None")
    case True
    then have "g' = g" using k alloc_counts(2) h by (auto split: if_splits)
    then show ?thesis by simp
  next
    case False
    then obtain p where p: "r = Some p" and z: "aid \<noteq> 0" by blast
    note d = granted_is_detached [OF inv q a z e, of p]
    have "g' = host_free (Some p) g1"
      using k False p d by (auto simp: split_beta split: if_splits)
    then have "g_allocs g' - g_frees g' = g_allocs g1 - g_frees g1 - 1" using alloc_counts(3) [of "Some p" g1] by simp
    also have "\<dots> = g_allocs g - g_frees g" using alloc_counts(1) [OF h [unfolded p]] by simp
    finally show ?thesis .
  qed
qed

theorem sim_driver_balanced:
  assumes "edge_sim_drive se en data = Some (rc, m, g)"
  shows "rc = 0 \<and> g_allocs g = g_frees g"
proof -
  obtain core cur g1 where a: "edgecore_alloc_fuzz se (se_init se data) host_alloc_reset_stats = (core, cur, g1)"
    by (metis prod_cases3)
  have r: "rc = 0" "g = g1" using assms unfolding edge_sim_drive_def Let_def a prod.case by (auto split: option.splits)
  have "g_allocs g1 - g_frees g1 = g_allocs host_alloc_reset_stats - g_frees host_alloc_reset_stats"
  proof (cases "edgecore_create (fst (se_mem_core se)) (snd (se_mem_core se))")
    case None
    then show ?thesis using a by (simp add: edgecore_alloc_fuzz_def)
  next
    case (Some c)
    note f = core_create_facts [OF Some [unfolded edgecore_create_def]]
    have inv: "core_inv (Suc 0) c" by (rule core_inv_mono [OF f(1)]) simp
    have q: "core_queue c = []" using arg_cong [OF f(2), where f = cs_queue] by (simp add: core_spec_init_def)
    obtain b ok cur1 where u: "se_u8 se (se_init se data) True = (b, ok, cur1)" by (metis prod_cases3)
    obtain c1 g2 where gr: "grant_buffer se (16 + unat b mod 64) c host_alloc_reset_stats = (c1, g2)" by fastforce
    have "g1 = host_alloc_reset_stats \<or> g1 = g2"
      using a unfolding edgecore_alloc_fuzz_def Some option.case u prod.case Let_def gr
      by (auto split: if_splits prod.splits)
    then show ?thesis using grant_balanced [OF inv q gr] by auto
  qed
  then show ?thesis using r by (simp add: host_alloc_reset_stats_def)
qed

end
